(* ===== verification/Prelude.thy ===== *)
theory Prelude
  imports Main "HOL-Library.Word" "HOL-Library.Monad_Syntax"
begin

text \<open>
  Shared vocabulary of the development: the machine types of the Rust sources, the
  wrap-around of the release profile, checked slicing (where Rust panics), the
  little-endian layout of integers, and the generic list lemmas the components share.

  Conventions. The model follows the release build of \<^verbatim>\<open>src/Cargo.toml\<close> on a 64-bit
  little-endian host: integer arithmetic wraps, \<^verbatim>\<open>debug_assert!\<close> is compiled out and a
  panic aborts. A computation that may panic has an option type, with \<open>None\<close> the panic;
  a fallible one has a sum type, with \<open>Inl\<close> the error. \<^verbatim>\<open>usize\<close> is a natural number and
  its wrap-around is written out by \<open>usize_add\<close> and \<open>usize_mul\<close> where it can occur.
\<close>

unbundle bit_operations_syntax

section \<open>Machine types\<close>

type_synonym u8 = "8 word"
type_synonym u16 = "16 word"
type_synonym u32 = "32 word"
type_synonym u64 = "64 word"
type_synonym usize = nat
type_synonym bytes = "u8 list"

abbreviation usize_bound :: nat where
  "usize_bound \<equiv> 18446744073709551616"

definition usize_add :: "usize \<Rightarrow> usize \<Rightarrow> usize" where
  "usize_add a b = (a + b) mod usize_bound"

definition usize_mul :: "usize \<Rightarrow> usize \<Rightarrow> usize" where
  "usize_mul a b = (a * b) mod usize_bound"

definition saturating_add :: "usize \<Rightarrow> usize \<Rightarrow> usize" where
  "saturating_add a b = min (a + b) (usize_bound - 1)"

definition saturating_sub :: "usize \<Rightarrow> usize \<Rightarrow> usize" where
  "saturating_sub a b = a - b"

definition checked_mul :: "usize \<Rightarrow> usize \<Rightarrow> usize option" where
  "checked_mul a b = (if a * b < usize_bound then Some (a * b) else None)"

named_theorems size_simps \<open>byte lengths of wire structures\<close>
named_theorems wire_simps \<open>encoders and decoders of wire structures\<close>
named_theorems no_wrap \<open>usize arithmetic that stays in range\<close>

lemma usize_add_no_wrap [no_wrap]: "a + b < usize_bound \<Longrightarrow> usize_add a b = a + b"
  by (simp add: usize_add_def)

lemma usize_mul_no_wrap [no_wrap]: "a * b < usize_bound \<Longrightarrow> usize_mul a b = a * b"
  by (simp add: usize_mul_def)

lemma unat_lt: "unat (w :: 'a::len word) < 2 ^ LENGTH('a)"
  by (rule unsigned_less)

lemma unat_lt_u8 [simp]: "unat (w :: u8) < 256"
  using unat_lt [of w] by simp

lemma unat_lt_u32: "unat (w :: u32) < 4294967296"
  using unat_lt [of w] by simp

lemma unat_word_of_nat: "n < 2 ^ LENGTH('a) \<Longrightarrow> unat (word_of_nat n :: 'a::len word) = n"
  by (simp add: unat_of_nat)

section \<open>Slices and vectors\<close>

text \<open>\<^verbatim>\<open>&v[a..b]\<close>: panics unless \<^verbatim>\<open>a <= b\<close> and \<^verbatim>\<open>b <= v.len()\<close>.\<close>

definition vslice :: "'a list \<Rightarrow> usize \<Rightarrow> usize \<Rightarrow> 'a list option" where
  "vslice v a b = (if a \<le> b \<and> b \<le> length v then Some (take (b - a) (drop a v)) else None)"

text \<open>\<^verbatim>\<open>dst[a..a + src.len()].copy_from_slice(src)\<close>: panics when the range is outside \<^verbatim>\<open>dst\<close>.\<close>

definition write_slice :: "'a list \<Rightarrow> usize \<Rightarrow> 'a list \<Rightarrow> 'a list option" where
  "write_slice dst a src =
     (if a + length src \<le> length dst
      then Some (take a dst @ src @ drop (a + length src) dst) else None)"

text \<open>\<^verbatim>\<open>v[i]\<close>: panics when the index is outside the vector.\<close>

definition index :: "'a list \<Rightarrow> usize \<Rightarrow> 'a option" where
  "index v i = (if i < length v then Some (v ! i) else None)"

text \<open>\<^verbatim>\<open>Vec::resize(n, z)\<close>: truncates, or pads with \<^verbatim>\<open>z\<close>; what is kept is not overwritten.\<close>

definition vec_resize :: "'a list \<Rightarrow> usize \<Rightarrow> 'a \<Rightarrow> 'a list" where
  "vec_resize v n z = take n v @ replicate (n - length v) z"

lemma length_vec_resize [simp]: "length (vec_resize v n z) = n"
  by (simp add: vec_resize_def)

lemma vec_resize_same [simp]: "vec_resize v (length v) z = v"
  by (simp add: vec_resize_def)

lemma vslice_Some_iff:
  "vslice v a b = Some s \<longleftrightarrow> a \<le> b \<and> b \<le> length v \<and> s = take (b - a) (drop a v)"
  by (auto simp: vslice_def)

lemma vslice_append_left: "vslice (xs @ ys) 0 (length xs) = Some xs"
  by (simp add: vslice_def)

lemma length_write_slice: "write_slice d a s = Some d' \<Longrightarrow> length d' = length d"
  by (auto simp: write_slice_def split: if_splits)

lemma write_slice_nth:
  assumes "write_slice d a s = Some d'" and "i < length d"
  shows "d' ! i = (if a \<le> i \<and> i < a + length s then s ! (i - a) else d ! i)"
  using assms by (auto simp: write_slice_def nth_append min_def split: if_splits)

lemma write_slice_nth_at:
  "write_slice d a s = Some d' \<Longrightarrow> k < length s \<Longrightarrow> d' ! (a + k) = s ! k"
  using write_slice_nth [of d a s d' "a + k"] by (auto simp: write_slice_def split: if_splits)

lemma write_slice_id:
  assumes "a + length s \<le> length d" and "s = take (length s) (drop a d)"
  shows "write_slice d a s = Some d"
proof -
  have "take a d @ s @ drop (a + length s) d = take a d @ take (length s) (drop a d) @ drop (length s) (drop a d)"
    using assms(2) by (simp add: add.commute)
  also have "\<dots> = d" by (simp only: append_take_drop_id)
  finally show ?thesis using assms(1) by (simp add: write_slice_def)
qed

text \<open>A loop whose body may panic, and a loop that fills a buffer block by block.\<close>

fun fold_option :: "('a \<Rightarrow> 'b \<Rightarrow> 'b option) \<Rightarrow> 'a list \<Rightarrow> 'b \<Rightarrow> 'b option" where
  "fold_option f [] b = Some b"
| "fold_option f (x # xs) b = (case f x b of None \<Rightarrow> None | Some b' \<Rightarrow> fold_option f xs b')"

lemma fold_option_append:
  "fold_option f (xs @ ys) b = (case fold_option f xs b of None \<Rightarrow> None | Some b' \<Rightarrow> fold_option f ys b')"
  by (induction xs arbitrary: b) (auto split: option.splits)

lemma fold_blocks:
  assumes "\<And>k b. k < n \<Longrightarrow> length b = m * N \<Longrightarrow> f k b = write_slice b (m * k) (blk k)" and "\<And>k. k < n \<Longrightarrow> length (blk k) = m"
    and "n \<le> N"
  shows "fold_option f [0..<n] (replicate (m * N) z) = Some (concat (map blk [0..<n]) @ replicate (m * (N - n)) z)"
  using assms
proof (induction n)
  case (Suc n)
  let ?out = "concat (map blk [0..<n]) @ replicate (m * (N - n)) z"
  have ih: "fold_option f [0..<n] (replicate (m * N) z) = Some ?out" using Suc.IH Suc.prems by simp
  have len: "length (concat (map blk [0..<j])) = m * j" if "j \<le> n" for j
    using that Suc.prems(2) by (induction j) simp_all
  have split: "m * N = m * n + m + m * (N - Suc n)"
    using Suc.prems(3) by (metis Suc_leD add_mult_distrib2 le_add_diff_inverse mult_Suc_right add.commute)
  have "f n ?out = write_slice ?out (m * n) (blk n)"
  proof (rule Suc.prems(1))
    have "m * n + m * (N - n) = m * N" using Suc.prems(3) by (metis Suc_leD add_mult_distrib2 le_add_diff_inverse)
    then show "length ?out = m * N" using len [of n] by simp
  qed simp
  also have "\<dots> = Some (concat (map blk [0..<n]) @ blk n @ replicate (m * (N - Suc n)) z)"
  proof -
    have b: "length (blk n) = m" using Suc.prems(2) by simp
    have d: "m * (N - n) = m + m * (N - Suc n)"
      using Suc.prems(3) by (metis Suc_diff_le Suc_le_eq diff_Suc_Suc mult_Suc_right)
    show ?thesis using len [of n] b d by (simp add: write_slice_def)
  qed
  finally show ?case using ih by (simp add: fold_option_append)
qed simp

section \<open>Decimal numbers\<close>

fun decimal :: "nat \<Rightarrow> string" where
  "decimal n = (if n < 10 then [char_of (48 + n)] else decimal (n div 10) @ [char_of (48 + n mod 10)])"

declare decimal.simps [simp del]

text \<open>The environment variables that are set and valid, and a path joined to a relative one.\<close>

type_synonym Environment = "string \<Rightarrow> string option"

definition path_join :: "string \<Rightarrow> string \<Rightarrow> string" where
  "path_join base rest = (if base = [] \<or> last base = CHR 0x2F then base @ rest else base @ ''/'' @ rest)"

section \<open>Little-endian integers\<close>

fun nat_to_le :: "nat \<Rightarrow> nat \<Rightarrow> bytes" where
  "nat_to_le 0 k = []"
| "nat_to_le (Suc n) k = word_of_nat k # nat_to_le n (k div 256)"

fun le_to_nat :: "bytes \<Rightarrow> nat" where
  "le_to_nat [] = 0"
| "le_to_nat (b # bs) = unat b + 256 * le_to_nat bs"

definition to_le :: "nat \<Rightarrow> 'a::len word \<Rightarrow> bytes" where
  "to_le n w = nat_to_le n (unat w)"

definition of_le :: "bytes \<Rightarrow> 'a::len word" where
  "of_le bs = word_of_nat (le_to_nat bs)"

lemma length_nat_to_le [simp]: "length (nat_to_le n k) = n"
  by (induction n arbitrary: k) simp_all

lemma length_to_le [simp, size_simps]: "length (to_le n w) = n"
  by (simp add: to_le_def)

lemma le_to_nat_bound: "le_to_nat bs < 256 ^ length bs"
proof (induction bs)
  case (Cons b bs)
  then have "le_to_nat bs + 1 \<le> 256 ^ length bs" by simp
  then have "256 * (le_to_nat bs + 1) \<le> 256 * 256 ^ length bs" by (rule mult_le_mono2)
  moreover have "unat b < 256" by (rule unat_lt_u8)
  ultimately show ?case by (simp del: unat_lt_u8)
qed simp

lemma le_to_nat_of_nat: "le_to_nat (nat_to_le n k) = k mod 256 ^ n"
proof (induction n arbitrary: k)
  case (Suc n)
  have "k mod (256 * 256 ^ n) = 256 * (k div 256 mod 256 ^ n) + k mod 256"
    by (rule mod_mult2_eq)
  then show ?case by (simp add: Suc.IH unat_of_nat take_bit_eq_mod)
qed simp

lemma nat_to_le_of_le: "nat_to_le (length bs) (le_to_nat bs) = bs"
proof (induction bs)
  case (Cons b bs)
  have "word_of_nat (unat b + 256 * le_to_nat bs) = b"
  proof (rule unsigned_word_eqI)
    have "unat (word_of_nat (unat b + 256 * le_to_nat bs) :: u8) = (unat b + 256 * le_to_nat bs) mod 256"
      by (subst unat_of_nat) simp
    then show "unat (word_of_nat (unat b + 256 * le_to_nat bs) :: u8) = unat b"
      by (simp only: mod_mult_self2 mod_less unat_lt_u8)
  qed
  moreover have "(unat b + 256 * le_to_nat bs) div 256 = le_to_nat bs"
    using unat_lt_u8 [of b] by simp
  ultimately show ?case using Cons.IH by simp
qed simp

lemma power_256: "(256::nat) ^ n = 2 ^ (8 * n)"
  by (simp add: power_mult)

lemma of_le_to_le:
  fixes w :: "'a::len word"
  assumes "LENGTH('a) = 8 * n"
  shows "of_le (to_le n w) = w"
proof -
  have "unat w < 256 ^ n"
    using unat_lt [of w] assms by (simp add: power_256)
  then show ?thesis by (simp add: of_le_def to_le_def le_to_nat_of_nat)
qed

lemma to_le_of_le:
  assumes "length bs = n" and "LENGTH('a) = 8 * n"
  shows "to_le n (of_le bs :: 'a::len word) = bs"
proof -
  have "le_to_nat bs < 2 ^ LENGTH('a)"
    using le_to_nat_bound [of bs] assms by (simp add: power_256)
  then have "unat (of_le bs :: 'a word) = le_to_nat bs"
    by (simp add: of_le_def unat_word_of_nat)
  then show ?thesis
    using assms(1) nat_to_le_of_le [of bs] by (simp add: to_le_def)
qed

lemma of_le_to_le_16 [simp]: "of_le (to_le 2 (w :: u16)) = w"
  and of_le_to_le_32 [simp]: "of_le (to_le 4 (v :: u32)) = v"
  and of_le_to_le_64 [simp]: "of_le (to_le 8 (x :: u64)) = x"
  by (rule of_le_to_le, simp)+

section \<open>Loops that may panic\<close>

text \<open>A \<^verbatim>\<open>for\<close> loop over \<^verbatim>\<open>xs\<close> whose body may panic.\<close>

fun fold_opt :: "('b \<Rightarrow> 'a \<Rightarrow> 'a option) \<Rightarrow> 'b list \<Rightarrow> 'a \<Rightarrow> 'a option" where
  "fold_opt f [] s = Some s"
| "fold_opt f (x # xs) s = (case f x s of None \<Rightarrow> None | Some s' \<Rightarrow> fold_opt f xs s')"

lemma fold_opt_append:
  "fold_opt f (xs @ ys) s = (case fold_opt f xs s of None \<Rightarrow> None | Some s' \<Rightarrow> fold_opt f ys s')"
  by (induction xs arbitrary: s) (auto split: option.splits)

lemma fold_opt_snoc:
  "fold_opt f (xs @ [y]) s = (case fold_opt f xs s of None \<Rightarrow> None | Some s' \<Rightarrow> f y s')"
  by (simp add: fold_opt_append split: option.splits)

lemma fold_opt_concat:
  "fold_opt f (concat xss) s = fold_opt (fold_opt f) xss s"
  by (induction xss arbitrary: s) (auto simp: fold_opt_append split: option.splits)

lemma fold_opt_map: "fold_opt f (map g xs) s = fold_opt (\<lambda>x. f (g x)) xs s"
  by (induction xs arbitrary: s) (auto split: option.splits)

lemma fold_opt_cong [fundef_cong]:
  "xs = ys \<Longrightarrow> s = t \<Longrightarrow> (\<And>x u. x \<in> set ys \<Longrightarrow> f x u = g x u) \<Longrightarrow> fold_opt f xs s = fold_opt g ys t"
  by (induction xs arbitrary: ys s t) (auto split: option.splits)

lemma fold_opt_emit:
  "(\<And>x d. x \<in> set xs \<Longrightarrow> f x d = Some (d @ g x)) \<Longrightarrow> fold_opt f xs d = Some (d @ concat (map g xs))"
  by (induction xs arbitrary: d) simp_all

lemma concat_map_concat: "concat (map f (concat xss)) = concat (map (\<lambda>xs. concat (map f xs)) xss)"
  by (induction xss) simp_all

section \<open>Durations\<close>

text \<open>Durations are nanoseconds; adding two panics when the sum of seconds leaves \<^verbatim>\<open>u64\<close>.\<close>

type_synonym duration = nat

abbreviation duration_bound :: nat where
  "duration_bound \<equiv> 18446744073709551616000000000"

definition duration_add :: "duration \<Rightarrow> duration \<Rightarrow> duration option" where
  "duration_add a b = (if a + b < duration_bound then Some (a + b) else None)"

section \<open>Signed 32-bit integers\<close>

text \<open>An \<^verbatim>\<open>i32\<close> is an integer; an operation that leaves the range wraps.\<close>

definition wrap_i32 :: "int \<Rightarrow> int" where
  "wrap_i32 x = signed_take_bit 31 x"

lemma wrap_i32_id: "- 2147483648 \<le> x \<Longrightarrow> x < 2147483648 \<Longrightarrow> wrap_i32 x = x"
  by (simp add: wrap_i32_def signed_take_bit_int_eq_self)

section \<open>Strings\<close>

text \<open>Strings are taken as ASCII; \<open>lowercase\<close> and \<open>contains_str\<close> are the methods of \<^verbatim>\<open>str\<close>.\<close>

definition lowercase :: "string \<Rightarrow> string" where
  "lowercase s = map (\<lambda>c. if 65 \<le> (of_char c :: nat) \<and> (of_char c :: nat) \<le> 90 then char_of ((of_char c :: nat) + 32) else c) s"

fun contains_str :: "string \<Rightarrow> string \<Rightarrow> bool" where
  "contains_str needle [] = (needle = [])"
| "contains_str needle (x # xs) = (take (length needle) (x # xs) = needle \<or> contains_str needle xs)"

end
