(* ===== verification/Meters.thy ===== *)
theory Meters
  imports Prelude "HOL-Library.Multiset"
begin

text \<open>
  \<^verbatim>\<open>crates/remoteway-core/src/bandwidth.rs\<close> and \<^verbatim>\<open>latency.rs\<close>: the sliding-window bandwidth meter and the
  latency histogram. Both keep their samples in a ring; \<open>sample_ring\<close> is the interface they
  share, with the window property proved once. Instants and durations are nanoseconds, labels and
  the two floating-point rates of \<^verbatim>\<open>BandwidthStats\<close> are left out.
\<close>

section \<open>Sample rings\<close>

text \<open>Push while there is room, then overwrite at the cursor; \<open>None\<close> is the out-of-bounds panic of a
  ring without room.\<close>

definition ring_put :: "nat \<Rightarrow> 'a list \<Rightarrow> nat \<Rightarrow> 'a \<Rightarrow> 'a list option" where
  "ring_put cap ss cur x =
     (if length ss < cap then Some (ss @ [x]) else if cur < length ss then Some (ss[cur := x]) else None)"

definition ring_next :: "nat \<Rightarrow> nat \<Rightarrow> nat" where
  "ring_next cap cur = usize_add cur 1 mod max cap 1"

text \<open>The ring holds the last \<open>cap\<close> of the recorded values, value \<open>i\<close> at index \<open>i mod cap\<close>.\<close>

definition ring_holds :: "nat \<Rightarrow> 'a list \<Rightarrow> 'a list \<Rightarrow> nat \<Rightarrow> bool" where
  "ring_holds cap ys ss cur \<longleftrightarrow> cur = length ys mod cap \<and> length ss = min (length ys) cap \<and>
     (\<forall>i < length ys. length ys \<le> i + cap \<longrightarrow> ss ! (i mod cap) = ys ! i)"

definition last_window :: "nat \<Rightarrow> 'a list \<Rightarrow> 'a list" where
  "last_window cap ys = drop (length ys - cap) ys"

lemma mset_rotate: "mset (rotate n xs) = mset xs"
proof (induction n)
  case (Suc n)
  then show ?case by (cases "rotate n xs") simp_all
qed simp

lemma ring_holds_empty: "ring_holds cap [] [] 0"
  by (simp add: ring_holds_def)

lemma ring_holds_put:
  assumes "ring_holds cap ys ss cur" and "0 < cap" and "cap < usize_bound" and "ring_put cap ss cur y = Some ss'"
  shows "ring_holds cap (ys @ [y]) ss' (ring_next cap cur)"
proof -
  let ?n = "length ys"
  have cur: "cur = ?n mod cap" and len: "length ss = min ?n cap"
    and nth: "\<And>i. i < ?n \<Longrightarrow> ?n \<le> i + cap \<Longrightarrow> ss ! (i mod cap) = ys ! i"
    using assms(1) by (auto simp: ring_holds_def)
  have "cur < cap" using cur assms(2) by simp
  then have "usize_add cur 1 = Suc cur" using assms(3) by (simp add: usize_add_def)
  then have next_eq: "ring_next cap cur = Suc ?n mod cap"
    using assms(2) cur by (simp add: ring_next_def mod_Suc_eq)
  show ?thesis
  proof (cases "?n < cap")
    case True
    with assms(4) len have "ss' = ss @ [y]" by (simp add: ring_put_def)
    moreover have "(ss @ [y]) ! (i mod cap) = (ys @ [y]) ! i" if "i < Suc ?n" for i
      using nth [of i] True that len by (cases "i = ?n") (auto simp: nth_append)
    ultimately show ?thesis using next_eq True len by (auto simp: ring_holds_def)
  next
    case False
    with assms(4) len \<open>cur < cap\<close> have "ss' = ss[cur := y]" by (simp add: ring_put_def)
    moreover have "ss[cur := y] ! (i mod cap) = (ys @ [y]) ! i" if "i < Suc ?n" "Suc ?n \<le> i + cap" for i
    proof (cases "i = ?n")
      case True
      then show ?thesis using cur len False \<open>cur < cap\<close> by simp
    next
      case ne: False
      then have "i < ?n" using that by simp
      have "i mod cap \<noteq> ?n mod cap"
      proof
        assume "i mod cap = ?n mod cap"
        then have "cap dvd ?n - i" using \<open>i < ?n\<close> by (metis less_imp_le mod_eq_dvd_iff_nat)
        with \<open>i < ?n\<close> that(2) show False by (auto dest: dvd_imp_le)
      qed
      then show ?thesis using nth [OF \<open>i < ?n\<close>] that ne cur \<open>i < ?n\<close> by (simp add: nth_append)
    qed
    ultimately show ?thesis using next_eq False len by (auto simp: ring_holds_def)
  qed
qed

lemma ring_holds_window:
  assumes "ring_holds cap ys ss cur" and "0 < cap"
  shows "rotate (if length ys \<le> cap then 0 else cur) ss = last_window cap ys"
proof (cases "length ys \<le> cap")
  case True
  with assms show ?thesis
    by (intro nth_equalityI) (auto simp: ring_holds_def last_window_def)
next
  case False
  let ?n = "length ys"
  have len: "length ss = cap" and cur: "cur = ?n mod cap" using assms False by (auto simp: ring_holds_def)
  have "rotate cur ss ! k = ys ! (?n - cap + k)" if "k < cap" for k
  proof -
    have "(?n - cap + k) mod cap = (cur + k) mod cap"
      using False cur by (metis add.commute le_add_diff_inverse2 linear mod_add_left_eq mod_add_self2 add.left_commute)
    moreover have "ss ! ((?n - cap + k) mod cap) = ys ! (?n - cap + k)"
      using assms(1) False that by (simp add: ring_holds_def)
    ultimately show ?thesis using that len by (simp add: nth_rotate)
  qed
  then show ?thesis using False len by (intro nth_equalityI) (simp_all add: last_window_def)
qed

locale sample_ring =
  fixes rec :: "'x \<Rightarrow> 's \<Rightarrow> 's option" and samples :: "'s \<Rightarrow> 'a list" and cursor :: "'s \<Rightarrow> nat"
    and cap :: "'s \<Rightarrow> nat" and sample :: "'x \<Rightarrow> 'a"
  assumes rec_samples: "rec x s = Some s' \<Longrightarrow> ring_put (cap s) (samples s) (cursor s) (sample x) = Some (samples s')"
    and rec_cursor: "rec x s = Some s' \<Longrightarrow> cursor s' = ring_next (cap s) (cursor s)"
    and rec_cap: "rec x s = Some s' \<Longrightarrow> cap s' = cap s"
begin

lemma records_hold:
  assumes "fold_opt rec xs s = Some s'" and "ring_holds (cap s) ys (samples s) (cursor s)"
    and "0 < cap s" and "cap s < usize_bound"
  shows "ring_holds (cap s) (ys @ map sample xs) (samples s') (cursor s')" and "cap s' = cap s"
proof -
  have "ring_holds (cap s) (ys @ map sample xs) (samples s') (cursor s') \<and> cap s' = cap s"
    using assms
  proof (induction xs arbitrary: s ys)
    case (Cons x xs)
    obtain s1 where s1: "rec x s = Some s1" "fold_opt rec xs s1 = Some s'"
      using Cons.prems(1) by (auto split: option.splits)
    have "ring_holds (cap s) (ys @ [sample x]) (samples s1) (cursor s1)"
      unfolding rec_cursor [OF s1(1)]
      by (rule ring_holds_put [OF Cons.prems(2-4) rec_samples [OF s1(1)]])
    then show ?case
      using Cons.IH [OF s1(2), of "ys @ [sample x]"] Cons.prems(3,4) rec_cap [OF s1(1)] by simp
  qed simp
  then show "ring_holds (cap s) (ys @ map sample xs) (samples s') (cursor s')" "cap s' = cap s" by simp_all
qed

lemma records_window:
  assumes "fold_opt rec xs s = Some s'" and "samples s = []" and "cursor s = 0"
    and "0 < cap s" and "cap s < usize_bound"
  shows "mset (samples s') = mset (last_window (cap s) (map sample xs))"
    and "length (samples s') = min (length xs) (cap s)"
proof -
  have h: "ring_holds (cap s) (map sample xs) (samples s') (cursor s')"
    using records_hold(1) [OF assms(1) _ assms(4,5), of "[]"] assms(2,3) ring_holds_empty [of "cap s"] by simp
  then show "mset (samples s') = mset (last_window (cap s) (map sample xs))"
    using ring_holds_window [OF h assms(4)] by (metis mset_rotate)
  show "length (samples s') = min (length xs) (cap s)" using h by (simp add: ring_holds_def)
qed

end

section \<open>bandwidth.rs\<close>

record BandwidthMeter =
  bw_samples :: "(nat \<times> u64) list"
  bw_capacity :: usize
  bw_cursor :: usize
  bw_window :: duration
  bw_window_bytes :: u64

definition BANDWIDTH_CAPACITY :: usize where
  "BANDWIDTH_CAPACITY = 256"

definition BandwidthMeter_with_window :: "duration \<Rightarrow> BandwidthMeter" where
  "BandwidthMeter_with_window window =
     \<lparr>bw_samples = [], bw_capacity = BANDWIDTH_CAPACITY, bw_cursor = 0, bw_window = window, bw_window_bytes = 0\<rparr>"

definition BandwidthMeter_new :: BandwidthMeter where
  "BandwidthMeter_new = BandwidthMeter_with_window 1000000000"

definition record_at :: "nat \<Rightarrow> u64 \<Rightarrow> BandwidthMeter \<Rightarrow> BandwidthMeter option" where
  "record_at now n m = do {
     ss \<leftarrow> ring_put (bw_capacity m) (bw_samples m) (bw_cursor m) (now, n);
     Some (m\<lparr>bw_samples := ss, bw_cursor := ring_next (bw_capacity m) (bw_cursor m),
             bw_window_bytes := bw_window_bytes m + n\<rparr>)
   }"

text \<open>The integers of \<^verbatim>\<open>stats\<close>: the bytes of the samples in the window before \<open>now\<close>, and the total.\<close>

definition bandwidth_stats :: "nat \<Rightarrow> BandwidthMeter \<Rightarrow> u64 \<times> u64" where
  "bandwidth_stats now m =
     (let cutoff = (if bw_window m \<le> now then now - bw_window m else now) in
      (sum_list (map snd (filter (\<lambda>(ts, _). cutoff \<le> ts) (bw_samples m))), bw_window_bytes m))"

definition BandwidthMeter_reset :: "BandwidthMeter \<Rightarrow> BandwidthMeter" where
  "BandwidthMeter_reset m = m\<lparr>bw_samples := [], bw_cursor := 0, bw_window_bytes := 0\<rparr>"

interpretation bw: sample_ring "\<lambda>(now, n). record_at now n" bw_samples bw_cursor bw_capacity "\<lambda>x. x"
  by unfold_locales (auto simp: record_at_def split: Option.bind_splits)

section \<open>latency.rs\<close>

record LatencyHistogram =
  lat_samples :: "duration list"
  lat_capacity :: usize
  lat_cursor :: usize
  lat_count :: u64
  lat_sum :: duration
  lat_min :: duration
  lat_max :: duration

abbreviation DURATION_MAX :: duration where
  "DURATION_MAX \<equiv> 18446744073709551615999999999"

definition LATENCY_CAPACITY :: usize where
  "LATENCY_CAPACITY = 1024"

definition LatencyHistogram_with_capacity :: "usize \<Rightarrow> LatencyHistogram" where
  "LatencyHistogram_with_capacity cap =
     \<lparr>lat_samples = [], lat_capacity = cap, lat_cursor = 0, lat_count = 0, lat_sum = 0,
      lat_min = DURATION_MAX, lat_max = 0\<rparr>"

definition LatencyHistogram_new :: LatencyHistogram where
  "LatencyHistogram_new = LatencyHistogram_with_capacity LATENCY_CAPACITY"

definition latency_record :: "duration \<Rightarrow> LatencyHistogram \<Rightarrow> LatencyHistogram option" where
  "latency_record latency h = do {
     ss \<leftarrow> ring_put (lat_capacity h) (lat_samples h) (lat_cursor h) latency;
     total \<leftarrow> duration_add (lat_sum h) latency;
     Some (h\<lparr>lat_samples := ss, lat_cursor := ring_next (lat_capacity h) (lat_cursor h),
             lat_count := lat_count h + 1, lat_sum := total,
             lat_min := min (lat_min h) latency, lat_max := max (lat_max h) latency\<rparr>)
   }"

definition record_ns :: "u64 \<Rightarrow> u64 \<Rightarrow> LatencyHistogram \<Rightarrow> LatencyHistogram option" where
  "record_ns start_ns end_ns h =
     (if start_ns < end_ns then latency_record (unat (end_ns - start_ns)) h else Some h)"

definition percentiles :: "LatencyHistogram \<Rightarrow> duration \<times> duration" where
  "percentiles h =
     (if lat_samples h = [] then (0, 0) else
      let sorted = sort (lat_samples h);
          p50_idx = length sorted div 2;
          p99_idx = min (usize_mul (length sorted) 99 div 100) (length sorted - 1)
      in (sorted ! p50_idx, sorted ! p99_idx))"

record LatencyStats =
  st_count :: u64
  st_min :: duration
  st_max :: duration
  st_avg :: duration
  st_p50 :: duration
  st_p99 :: duration

text \<open>\<^verbatim>\<open>self.sum / self.count as u32\<close> panics when the low 32 bits of the count are zero.\<close>

definition latency_stats :: "LatencyHistogram \<Rightarrow> LatencyStats option" where
  "latency_stats h = do {
     avg \<leftarrow> (if 0 < lat_count h
             then (let d = unat (ucast (lat_count h) :: u32) in if d = 0 then None else Some (lat_sum h div d))
             else Some 0);
     let (p50, p99) = percentiles h;
     Some \<lparr>st_count = lat_count h, st_min = (if 0 < lat_count h then lat_min h else 0), st_max = lat_max h,
           st_avg = avg, st_p50 = p50, st_p99 = p99\<rparr>
   }"

definition LatencyHistogram_reset :: "LatencyHistogram \<Rightarrow> LatencyHistogram" where
  "LatencyHistogram_reset h =
     h\<lparr>lat_samples := [], lat_cursor := 0, lat_count := 0, lat_sum := 0, lat_min := DURATION_MAX, lat_max := 0\<rparr>"

interpretation lat: sample_ring latency_record lat_samples lat_cursor lat_capacity "\<lambda>x. x"
  by unfold_locales (auto simp: latency_record_def split: Option.bind_splits)

lemma record_at_total:
  "fold_opt (\<lambda>(now, n). record_at now n) xs m = Some m' \<Longrightarrow>
   bw_window_bytes m' = bw_window_bytes m + sum_list (map snd xs) \<and> bw_window m' = bw_window m"
  by (induction xs arbitrary: m)
    (fastforce simp: record_at_def algebra_simps split: option.splits Option.bind_splits)+

lemma record_at_defined:
  assumes "ring_holds (bw_capacity m) ys (bw_samples m) (bw_cursor m)" and "0 < bw_capacity m"
    and "bw_capacity m < usize_bound"
  shows "\<exists>m'. fold_opt (\<lambda>(now, n). record_at now n) xs m = Some m'"
  using assms
proof (induction xs arbitrary: m ys)
  case (Cons x xs)
  have "\<exists>ss. ring_put (bw_capacity m) (bw_samples m) (bw_cursor m) x = Some ss"
    using Cons.prems by (auto simp: ring_put_def ring_holds_def)
  then obtain m1 where m1: "record_at (fst x) (snd x) m = Some m1"
    by (auto simp: record_at_def)
  have "ring_holds (bw_capacity m) (ys @ [x]) (bw_samples m1) (bw_cursor m1)" "bw_capacity m1 = bw_capacity m"
    using bw.records_hold [of "[x]" m m1 ys] m1 Cons.prems by (simp_all add: case_prod_beta)
  then show ?case
    using Cons.IH [of m1 "ys @ [x]"] m1 Cons.prems by (simp add: case_prod_beta)
qed simp

lemma sum_filter_mset:
  "mset xs = mset ys \<Longrightarrow> sum_list (map f (filter P xs)) = (sum_list (map f (filter P ys)) :: 'a :: comm_monoid_add)"
  by (metis mset_filter mset_map sum_mset_sum_list)

section \<open>Properties\<close>

text \<open>The bandwidth meter never panics and reports what it should: after any sequence of
  transfers, \<open>stats\<close> at time \<open>now\<close> sums the bytes of those of the last 256 transfers that are
  not older than the window, and the total counts every transfer (both modulo \<open>2 ^ 64\<close>).\<close>

theorem bandwidth_window:
  "\<exists>m. fold_opt (\<lambda>(now, n). record_at now n) xs (BandwidthMeter_with_window w) = Some m \<and>
     bandwidth_stats now m =
       (sum_list (map snd (filter (\<lambda>(ts, _). (if w \<le> now then now - w else now) \<le> ts) (last_window 256 xs))),
        sum_list (map snd xs))"
proof -
  let ?m0 = "BandwidthMeter_with_window w"
  have c: "bw_capacity ?m0 = 256" "bw_samples ?m0 = []" "bw_cursor ?m0 = 0" "bw_window_bytes ?m0 = 0" "bw_window ?m0 = w"
    by (simp_all add: BandwidthMeter_with_window_def BANDWIDTH_CAPACITY_def)
  obtain m where m: "fold_opt (\<lambda>(now, n). record_at now n) xs ?m0 = Some m"
    using record_at_defined [of ?m0 "[]" xs] ring_holds_empty [of 256] c by auto
  have "mset (bw_samples m) = mset (last_window 256 xs)"
    using bw.records_window(1) [OF m] c by simp
  then have "sum_list (map snd (filter P (bw_samples m))) = sum_list (map snd (filter P (last_window 256 xs)))" for P
    by (rule sum_filter_mset)
  then show ?thesis
    using m record_at_total [OF m] c by (simp add: bandwidth_stats_def Let_def)
qed

lemma latency_record_totals:
  assumes "fold_opt latency_record xs h = Some h'"
  shows "lat_sum h' = lat_sum h + sum_list xs" and "lat_count h' = lat_count h + word_of_nat (length xs)"
    and "lat_min h' = fold min xs (lat_min h)" and "lat_max h' = fold max xs (lat_max h)"
proof -
  have "lat_sum h' = lat_sum h + sum_list xs \<and> lat_count h' = lat_count h + word_of_nat (length xs) \<and>
      lat_min h' = fold min xs (lat_min h) \<and> lat_max h' = fold max xs (lat_max h)"
    using assms
  proof (induction xs arbitrary: h)
    case (Cons x xs)
    obtain h1 where h1: "latency_record x h = Some h1" "fold_opt latency_record xs h1 = Some h'"
      using Cons.prems by (auto split: option.splits)
    have "lat_sum h1 = lat_sum h + x" "lat_count h1 = lat_count h + 1" "lat_min h1 = min x (lat_min h)"
      "lat_max h1 = max x (lat_max h)"
      using h1(1) by (auto simp: latency_record_def duration_add_def min.commute max.commute
          split: Option.bind_splits if_splits)
    then show ?case using Cons.IH [OF h1(2)] by simp
  qed simp
  then show "lat_sum h' = lat_sum h + sum_list xs" "lat_count h' = lat_count h + word_of_nat (length xs)"
    "lat_min h' = fold min xs (lat_min h)" "lat_max h' = fold max xs (lat_max h)" by simp_all
qed

lemma latency_record_defined:
  assumes "ring_holds (lat_capacity h) ys (lat_samples h) (lat_cursor h)" and "0 < lat_capacity h"
    and "lat_capacity h < usize_bound" and "lat_sum h + sum_list xs < duration_bound"
  shows "\<exists>h'. fold_opt latency_record xs h = Some h'"
  using assms
proof (induction xs arbitrary: h ys)
  case (Cons x xs)
  have "\<exists>ss. ring_put (lat_capacity h) (lat_samples h) (lat_cursor h) x = Some ss"
    using Cons.prems by (auto simp: ring_put_def ring_holds_def)
  then obtain h1 where h1: "latency_record x h = Some h1"
    using Cons.prems(4) by (auto simp: latency_record_def duration_add_def)
  have "ring_holds (lat_capacity h) (ys @ [x]) (lat_samples h1) (lat_cursor h1)" "lat_capacity h1 = lat_capacity h"
    using lat.records_hold [of "[x]" h h1 ys] h1 Cons.prems by simp_all
  moreover have "lat_sum h1 = lat_sum h + x" using latency_record_totals(1) [of "[x]" h h1] h1 by simp
  ultimately show ?case
    using Cons.IH [of h1 "ys @ [x]"] h1 Cons.prems by (simp add: add.assoc)
qed simp

lemma fold_min_Min: "xs \<noteq> [] \<Longrightarrow> \<forall>x \<in> set xs. x \<le> m \<Longrightarrow> fold min xs m = Min (set xs)" for m :: nat
  by (metis List.finite_set Min.set_eq_fold Min_in Min_insert list.simps(15) min.absorb_iff1 min.commute set_empty)

lemma fold_max_Max: "xs \<noteq> [] \<Longrightarrow> fold max xs 0 = Max (set xs)" for xs :: "nat list"
  by (metis List.finite_set Max.set_eq_fold Max_insert list.simps(15) max_0L set_empty)

lemma percentiles_window:
  assumes "lat_samples h \<noteq> []" and "length (lat_samples h) * 99 < usize_bound" and "percentiles h = (p50, p99)"
  shows "p50 \<le> p99" and "p50 \<in> set (lat_samples h)" and "p99 \<in> set (lat_samples h)"
proof -
  let ?n = "length (lat_samples h)"
  have n: "0 < ?n" using assms(1) by simp
  have i: "?n div 2 \<le> min (?n * 99 div 100) (?n - 1)" using n by (cases "?n = 1") auto
  have lt: "min (?n * 99 div 100) (?n - 1) < ?n" using n by (intro min.strict_coboundedI2) simp
  have u: "usize_mul ?n 99 = ?n * 99" using assms(2) by (simp add: no_wrap)
  have p: "p50 = sort (lat_samples h) ! (?n div 2)" "p99 = sort (lat_samples h) ! min (?n * 99 div 100) (?n - 1)"
    using assms(1,3) u by (auto simp: percentiles_def Let_def)
  show "p50 \<le> p99" unfolding p by (rule sorted_nth_mono) (use i lt in auto)
  show "p50 \<in> set (lat_samples h)" "p99 \<in> set (lat_samples h)"
    unfolding p using n lt nth_mem [of _ "sort (lat_samples h)"] by simp_all
qed

lemma sum_list_bounds:
  fixes xs :: "nat list"
  assumes "xs \<noteq> []"
  shows "Min (set xs) \<le> sum_list xs div length xs" and "sum_list xs div length xs \<le> Max (set xs)"
proof -
  have l: "length xs * Min (set xs) \<le> sum_list xs" and u: "sum_list xs \<le> length xs * Max (set xs)"
    using sum_list_mono [of xs "\<lambda>_. Min (set xs)" "\<lambda>x. x"] sum_list_mono [of xs "\<lambda>x. x" "\<lambda>_. Max (set xs)"]
    by (simp_all add: sum_list_triv)
  show "Min (set xs) \<le> sum_list xs div length xs"
    using div_le_mono [OF l, of "length xs"] assms by simp
  show "sum_list xs div length xs \<le> Max (set xs)"
    using div_le_mono [OF u, of "length xs"] assms by simp
qed

lemma set_last_window: "set (last_window cap xs) \<subseteq> set xs"
  by (simp add: last_window_def set_drop_subset)

text \<open>The latency histogram: recording up to \<open>2 ^ 32 - 1\<close> latencies that fit a duration never panics,
  and \<open>stats\<close> then returns their number, exact minimum, maximum and mean (rounded down), with
  the median and the 99th percentile taken from the latest samples the ring holds:
  \<open>min \<le> p50 \<le> p99 \<le> max\<close> and \<open>min \<le> avg \<le> max\<close>.\<close>

theorem latency_stats_order:
  assumes "xs \<noteq> []" and "length xs < 4294967296" and "sum_list xs < duration_bound" and "0 < cap" and "cap < 4294967296"
  shows "\<exists>h st. fold_opt latency_record xs (LatencyHistogram_with_capacity cap) = Some h \<and>
     latency_stats h = Some st \<and> unat (st_count st) = length xs \<and>
     st_min st = Min (set xs) \<and> st_max st = Max (set xs) \<and> st_avg st = sum_list xs div length xs \<and>
     st_min st \<le> st_p50 st \<and> st_p50 st \<le> st_p99 st \<and> st_p99 st \<le> st_max st \<and>
     st_min st \<le> st_avg st \<and> st_avg st \<le> st_max st \<and>
     st_p50 st \<in> set (last_window cap xs) \<and> st_p99 st \<in> set (last_window cap xs)"
proof -
  let ?h0 = "LatencyHistogram_with_capacity cap"
  have c: "lat_capacity ?h0 = cap" "lat_samples ?h0 = []" "lat_cursor ?h0 = 0" "lat_sum ?h0 = 0" "lat_count ?h0 = 0"
    "lat_min ?h0 = DURATION_MAX" "lat_max ?h0 = 0"
    by (simp_all add: LatencyHistogram_with_capacity_def)
  obtain h where h: "fold_opt latency_record xs ?h0 = Some h"
    using latency_record_defined [of ?h0 "[]" xs] ring_holds_empty [of cap] c assms(3-5) by auto
  note t = latency_record_totals [OF h, unfolded c]
  have w: "mset (lat_samples h) = mset (last_window cap xs)" "length (lat_samples h) = min (length xs) cap"
    using lat.records_window [OF h] c assms(4,5) by simp_all
  have ss: "set (lat_samples h) = set (last_window cap xs)" by (rule mset_eq_setD [OF w(1)])
  have cnt: "unat (lat_count h) = length xs" "unat (ucast (lat_count h) :: u32) = length xs"
    using t(2) assms(2) by (simp_all add: unat_word_of_nat unsigned_ucast_eq take_bit_eq_mod)
  have pos: "0 < lat_count h" using cnt(1) assms(1) by (auto simp: word_neq_0_conv [symmetric] intro!: notI)
  obtain p50 p99 where p: "percentiles h = (p50, p99)" by fastforce
  have ne: "lat_samples h \<noteq> []" using w(2) assms(1,4) by (auto simp: min_def split: if_splits)
  have "length (lat_samples h) * 99 < usize_bound" using w(2) assms(5) by (simp add: min_def split: if_splits)
  note q = percentiles_window [OF ne this p]
  have mem: "p50 \<in> set xs" "p99 \<in> set xs" using q(2,3) ss set_last_window [of cap xs] by auto
  have "x \<le> DURATION_MAX" if "x \<in> set xs" for x
    using member_le_sum_list [OF that] assms(3) by simp
  then have mn: "lat_min h = Min (set xs)" using t(3) fold_min_Min [OF assms(1)] by auto
  have mx: "lat_max h = Max (set xs)" using t(4) fold_max_Max [OF assms(1)] by simp
  have st: "latency_stats h = Some \<lparr>st_count = lat_count h, st_min = lat_min h, st_max = lat_max h,
      st_avg = sum_list xs div length xs, st_p50 = p50, st_p99 = p99\<rparr>"
    using pos cnt(2) assms(1) t(1) p by (simp add: latency_stats_def Let_def)
  show ?thesis
    using h st cnt(1) mn mx q mem ss sum_list_bounds [OF assms(1)] by simp
qed

theorem latency_stats_order_witness:
  "\<exists>h st. fold_opt latency_record [30, 10, 20] (LatencyHistogram_with_capacity 2) = Some h \<and>
     latency_stats h = Some st \<and> unat (st_count st) = length [30, 10, 20 :: nat] \<and>
     st_min st = Min (set [30, 10, 20]) \<and> st_max st = Max (set [30, 10, 20]) \<and>
     st_avg st = sum_list [30, 10, 20] div length [30, 10, 20 :: nat] \<and>
     st_min st \<le> st_p50 st \<and> st_p50 st \<le> st_p99 st \<and> st_p99 st \<le> st_max st \<and>
     st_min st \<le> st_avg st \<and> st_avg st \<le> st_max st \<and>
     st_p50 st \<in> set (last_window 2 [30, 10, 20]) \<and> st_p99 st \<in> set (last_window 2 [30, 10, 20])"
  by (rule latency_stats_order) simp_all

text \<open>A latent panic: the mean divides by the low 32 bits of the sample count, so a histogram whose
  count is a positive multiple of \<open>2 ^ 32\<close> panics when its statistics are read.\<close>

theorem latency_stats_panics:
  assumes "0 < lat_count h" and "4294967296 dvd unat (lat_count h)"
  shows "latency_stats h = None"
  using assms by (auto simp: latency_stats_def Let_def unsigned_ucast_eq take_bit_eq_mod)

theorem latency_stats_panics_witness:
  "latency_stats ((LatencyHistogram_with_capacity 1)\<lparr>lat_count := 4294967296\<rparr>) = None"
  by (rule latency_stats_panics) (simp_all add: LatencyHistogram_with_capacity_def)

end
