(* ===== verification/Pool.thy ===== *)
theory Pool
  imports Prelude
begin

text \<open>
  \<^verbatim>\<open>crates/remoteway-core/src/buffer_pool.rs\<close> and \<^verbatim>\<open>frame_handle.rs\<close>: the lock-free pool of frame
  buffers, a 64-bit mask of free slots. The pointer \<^verbatim>\<open>storage\<close> is the address of the allocation;
  whether the allocator succeeds is an argument of \<open>BufferPool_new\<close>. Threads interleave at the
  atomic operations: \<open>pool_step\<close> has one rule per load, successful or failed exchange, and release.
\<close>

section \<open>Bit scans of a mask\<close>

definition slots64 :: "nat list" where
  "slots64 = [0..<64]"

definition trailing_zeros :: "u64 \<Rightarrow> nat" where
  "trailing_zeros m = length (takeWhile (\<lambda>i. \<not> bit m i) slots64)"

definition count_ones :: "u64 \<Rightarrow> nat" where
  "count_ones m = length (filter (bit m) slots64)"

definition free_slots :: "u64 \<Rightarrow> nat set" where
  "free_slots m = {i. bit m i}"

section \<open>buffer_pool.rs\<close>

record FrameHandle =
  pool_index :: u16
  fh_len :: u32
  fh_timestamp_ns :: u64

record BufferPool =
  storage :: usize
  frame_size :: usize
  capacity :: usize
  free_mask :: u64

definition isize_max :: nat where
  "isize_max = 2 ^ 63 - 1"

definition aligned_size :: "usize \<Rightarrow> usize" where
  "aligned_size fs = unat ((word_of_nat (usize_add fs 63) :: u64) AND NOT 63)"

text \<open>\<open>None\<close> is a panic: a capacity outside 1..64, a layout larger than \<^verbatim>\<open>isize::MAX\<close> or a failed
  allocation. \<open>alloc_zeroed\<close> gives the address of a fresh 64-byte aligned block.\<close>

definition BufferPool_new :: "(usize \<Rightarrow> usize option) \<Rightarrow> usize \<Rightarrow> usize \<Rightarrow> BufferPool option" where
  "BufferPool_new alloc_zeroed cap fs =
     (if \<not> (0 < cap \<and> cap \<le> 64) then None else
      let aligned = aligned_size fs; total = usize_mul aligned cap in
      if isize_max - 63 < total then None else
      case alloc_zeroed total of
        None \<Rightarrow> None
      | Some p \<Rightarrow> Some \<lparr>storage = p, frame_size = aligned, capacity = cap,
          free_mask = (if cap = 64 then - 1 else push_bit cap 1 - 1)\<rparr>)"

text \<open>One turn of the loop in \<open>acquire\<close>: the load, and the exchange against the loaded value.\<close>

definition take_slot :: "u64 \<Rightarrow> nat \<times> u64" where
  "take_slot m = (let slot = trailing_zeros m in (slot, m AND NOT (push_bit slot 1)))"

definition acquire_turn :: "BufferPool \<Rightarrow> u64 \<Rightarrow> u64 \<Rightarrow> (FrameHandle \<times> BufferPool) option" where
  "acquire_turn pool m ts =
     (let (slot, new_mask) = take_slot m in
      if free_mask pool = m
      then Some (\<lparr>pool_index = word_of_nat slot, fh_len = word_of_nat (frame_size pool), fh_timestamp_ns = ts\<rparr>,
                 pool\<lparr>free_mask := new_mask\<rparr>)
      else None)"

definition acquire :: "BufferPool \<Rightarrow> u64 \<Rightarrow> FrameHandle option \<times> BufferPool" where
  "acquire pool ts =
     (let m = free_mask pool in
      if m = 0 then (None, pool) else
      case acquire_turn pool m ts of Some (h, pool') \<Rightarrow> (Some h, pool') | None \<Rightarrow> (None, pool))"

text \<open>\<^verbatim>\<open>1u64 << slot\<close> takes the shift amount modulo 64 in a release build.\<close>

definition slot_bit :: "FrameHandle \<Rightarrow> u64" where
  "slot_bit h = push_bit (unat (pool_index h) mod 64) 1"

definition release :: "BufferPool \<Rightarrow> FrameHandle \<Rightarrow> BufferPool" where
  "release pool h = pool\<lparr>free_mask := free_mask pool OR slot_bit h\<rparr>"

definition slot_ptr :: "BufferPool \<Rightarrow> FrameHandle \<Rightarrow> usize" where
  "slot_ptr pool h = usize_add (storage pool) (usize_mul (unat (pool_index h)) (frame_size pool))"

definition slot :: "BufferPool \<Rightarrow> FrameHandle \<Rightarrow> usize \<times> usize" where
  "slot pool h = (slot_ptr pool h, unat (fh_len h))"

definition free_count :: "BufferPool \<Rightarrow> u32" where
  "free_count pool = word_of_nat (count_ones (free_mask pool))"

section \<open>Masks as sets of slots\<close>

lemma bit_power_two [simp]: "bit (2 ^ k :: u64) i \<longleftrightarrow> i = k \<and> k < 64"
  by (auto simp: bit_simps)

lemma trailing_zeros_least:
  assumes "m \<noteq> 0"
  shows "bit m (trailing_zeros m)" and "trailing_zeros m < 64" and "i < trailing_zeros m \<Longrightarrow> \<not> bit m i"
proof -
  have ex: "\<exists>i < 64. bit m i"
  proof (rule ccontr)
    assume "\<not> ?thesis"
    then have "m = 0" by (intro bit_eqI) (auto simp: bit_simps)
    with assms show False by simp
  qed
  let ?l = "takeWhile (\<lambda>i. \<not> bit m i) slots64"
  have lt: "length ?l < length slots64"
  proof (rule ccontr)
    assume "\<not> ?thesis"
    then have "?l = slots64" by (metis length_takeWhile_le linorder_neqE_nat takeWhile_eq_take take_all nat_less_le le_neq_implies_less)
    then have "\<forall>i \<in> set slots64. \<not> bit m i" by (metis takeWhile_eq_all_conv)
    with ex show False by (auto simp: slots64_def)
  qed
  then show "trailing_zeros m < 64" by (simp add: trailing_zeros_def slots64_def)
  have "\<not> (\<not> bit m (slots64 ! length ?l))" by (rule nth_length_takeWhile [OF lt])
  then show "bit m (trailing_zeros m)" using lt by (simp add: trailing_zeros_def slots64_def)
  show "\<not> bit m i" if "i < trailing_zeros m"
  proof -
    have "?l ! i = slots64 ! i" using that by (simp add: trailing_zeros_def takeWhile_nth)
    moreover have "?l ! i \<in> set ?l" using that by (simp add: trailing_zeros_def)
    ultimately show ?thesis using lt that set_takeWhileD [of "?l ! i"]
      by (auto simp: trailing_zeros_def slots64_def)
  qed
qed

lemma free_slots_finite [simp]: "finite (free_slots m)"
proof (rule finite_subset)
  show "free_slots m \<subseteq> {0..<64}" by (auto simp: free_slots_def dest: bit_imp_le_length)
qed simp

lemma count_ones_card: "count_ones m = card (free_slots m)"
proof -
  have "free_slots m = set (filter (bit m) slots64)"
    by (auto simp: free_slots_def slots64_def dest: bit_imp_le_length)
  moreover have "card (set (filter (bit m) slots64)) = length (filter (bit m) slots64)"
    by (rule distinct_card) (simp add: slots64_def)
  ultimately show ?thesis by (simp only: count_ones_def)
qed

lemma free_slots_clear [simp]: "free_slots (m AND NOT (2 ^ k)) = free_slots m - {k}"
  by (auto simp: free_slots_def bit_simps dest: bit_imp_le_length)

lemma free_slots_set [simp]: "k < 64 \<Longrightarrow> free_slots (m OR 2 ^ k) = insert k (free_slots m)"
  by (auto simp: free_slots_def bit_simps)

lemma free_slots_new: "cap \<le> 64 \<Longrightarrow> free_slots (if cap = 64 then - 1 else 2 ^ cap - 1) = {0..<cap}"
  by (auto simp: free_slots_def bit_simps mask_eq_exp_minus_1 [symmetric] push_bit_eq_mult)

section \<open>Concurrent use\<close>

record pool_state =
  ps_pool :: BufferPool
  ps_loaded :: "nat \<Rightarrow> (u64 \<times> u64) option"
  ps_held :: "(nat \<times> FrameHandle) list"

definition pool_start :: "BufferPool \<Rightarrow> pool_state" where
  "pool_start pool = \<lparr>ps_pool = pool, ps_loaded = (\<lambda>_. None), ps_held = []\<rparr>"

inductive pool_step :: "pool_state \<Rightarrow> pool_state \<Rightarrow> bool" where
  load: "ps_loaded s t = None \<Longrightarrow> free_mask (ps_pool s) \<noteq> 0 \<Longrightarrow>
    pool_step s (s\<lparr>ps_loaded := (ps_loaded s)(t \<mapsto> (free_mask (ps_pool s), ts))\<rparr>)"
| exchange: "ps_loaded s t = Some (m, ts) \<Longrightarrow> acquire_turn (ps_pool s) m ts = Some (h, pool) \<Longrightarrow>
    pool_step s (s\<lparr>ps_pool := pool, ps_loaded := (ps_loaded s)(t := None), ps_held := (t, h) # ps_held s\<rparr>)"
| retry: "ps_loaded s t = Some (m, ts) \<Longrightarrow>
    pool_step s (s\<lparr>ps_loaded := (ps_loaded s)(t := None)\<rparr>)"
| free: "(t, h) \<in> set (ps_held s) \<Longrightarrow>
    pool_step s (s\<lparr>ps_pool := release (ps_pool s) h, ps_held := remove1 (t, h) (ps_held s)\<rparr>)"

inductive_cases pool_stepE: "pool_step s s'"

abbreviation held_slots :: "pool_state \<Rightarrow> nat list" where
  "held_slots s \<equiv> map (\<lambda>(t, h). unat (pool_index h)) (ps_held s)"

definition pool_inv :: "pool_state \<Rightarrow> bool" where
  "pool_inv s \<longleftrightarrow> capacity (ps_pool s) \<le> 64 \<and> distinct (held_slots s) \<and>
     (\<forall>(t, h) \<in> set (ps_held s). unat (pool_index h) < capacity (ps_pool s) \<and>
        fh_len h = word_of_nat (frame_size (ps_pool s))) \<and>
     free_slots (free_mask (ps_pool s)) = {0..<capacity (ps_pool s)} - set (held_slots s) \<and>
     (\<forall>p \<in> ran (ps_loaded s). fst p \<noteq> 0)"

lemma unat_and_not_63: "unat ((w :: u64) AND NOT 63) = unat w div 64 * 64"
proof -
  have w: "take_bit 64 (unat w) = unat w" using unat_lt [of w] by (simp add: take_bit_nat_eq_self)
  have "w AND NOT 63 = w AND NOT (mask 6)" by (simp add: mask_eq_exp_minus_1)
  also have "\<dots> = push_bit 6 (drop_bit 6 w)" by (rule bit_word_eqI) (auto simp: bit_simps)
  finally have "unat (w AND NOT 63) = take_bit 64 (unat w div 64 * 64)"
    by (simp only: unsigned_push_bit_eq unsigned_drop_bit_eq)
      (simp add: push_bit_eq_mult drop_bit_eq_div w)
  moreover have "unat w div 64 * 64 < 2 ^ 64"
    using unat_lt [of w] by (intro le_less_trans [OF div_times_less_eq_dividend]) simp
  ultimately show ?thesis by (simp add: take_bit_nat_eq_self)
qed

lemma aligned_size_eq: "fs + 63 < usize_bound \<Longrightarrow> aligned_size fs = (fs + 63) div 64 * 64"
  unfolding aligned_size_def unat_and_not_63
  by (subst unat_word_of_nat) (simp_all add: no_wrap)

lemma aligned_size_dvd: "64 dvd aligned_size fs"
  unfolding aligned_size_def unat_and_not_63 by simp

lemma unat_slot_index: "k < 64 \<Longrightarrow> unat (word_of_nat k :: u16) = k"
  by (simp add: unat_word_of_nat)

lemma acquire_turn_SomeD:
  assumes "acquire_turn pool m ts = Some (h, pool')" and "m \<noteq> 0"
  shows "unat (pool_index h) \<in> free_slots (free_mask pool)"
    and "free_slots (free_mask pool') = free_slots (free_mask pool) - {unat (pool_index h)}"
    and "capacity pool' = capacity pool" and "frame_size pool' = frame_size pool"
    and "storage pool' = storage pool" and "fh_len h = word_of_nat (frame_size pool)"
  using assms trailing_zeros_least [OF assms(2)]
  by (simp_all add: acquire_turn_def take_slot_def Let_def unat_slot_index split: if_splits)
    (auto simp: unat_slot_index, auto simp: free_slots_def)

lemma ran_upd_None: "p \<in> ran (m(t := None)) \<Longrightarrow> p \<in> ran m"
  by (auto simp: ran_def split: if_splits)

lemma map_remove1_distinct:
  "distinct (map f xs) \<Longrightarrow> x \<in> set xs \<Longrightarrow>
   distinct (map f (remove1 x xs)) \<and> f ` set (remove1 x xs) = f ` set xs - {f x}"
  by (induction xs) auto

lemma pool_inv_start:
  assumes "BufferPool_new alloc cap fs = Some pool"
  shows "pool_inv (pool_start pool)"
  using assms free_slots_new [of cap]
  by (auto simp: BufferPool_new_def pool_start_def pool_inv_def Let_def split: if_splits option.splits)

lemma pool_inv_step:
  assumes "pool_step s s'" and "pool_inv s"
  shows "pool_inv s'"
  using assms
proof (cases rule: pool_step.cases)
  case (exchange t m ts h pool)
  have "m \<noteq> 0" using assms(2) ranI [of "ps_loaded s", OF exchange(2)] by (auto simp: pool_inv_def)
  note a = acquire_turn_SomeD [OF exchange(3) this]
  show ?thesis
    using assms(2) a exchange(1) by (auto simp: pool_inv_def dest: ran_upd_None)
next
  case (free t h)
  have sub: "set (remove1 (t, h) (ps_held s)) \<subseteq> set (ps_held s)" by (rule set_remove1_subset)
  have d: "distinct (held_slots s)" using assms(2) by (simp add: pool_inv_def)
  have h: "unat (pool_index h) < capacity (ps_pool s)" "capacity (ps_pool s) \<le> 64"
    using assms(2) free(2) by (auto simp: pool_inv_def)
  note r = map_remove1_distinct [OF d free(2)]
  have "free_slots (free_mask (release (ps_pool s) h)) =
      insert (unat (pool_index h)) (free_slots (free_mask (ps_pool s)))"
    using h by (simp add: release_def slot_bit_def)
  then show ?thesis
    using assms(2) h r sub free(1) by (auto simp: pool_inv_def release_def)
qed (auto simp: pool_inv_def dest: ran_upd_None)


lemma pool_inv_reachable:
  assumes "BufferPool_new alloc cap fs = Some pool" and "pool_step\<^sup>*\<^sup>* (pool_start pool) s"
  shows "pool_inv s"
  using assms(2) by (induction rule: rtranclp_induct)
    (use pool_inv_start [OF assms(1)] in \<open>auto intro: pool_inv_step\<close>)

lemma pool_constant:
  assumes "pool_step\<^sup>*\<^sup>* s s'"
  shows "storage (ps_pool s') = storage (ps_pool s)" "frame_size (ps_pool s') = frame_size (ps_pool s)"
    "capacity (ps_pool s') = capacity (ps_pool s)"
proof -
  have "storage (ps_pool s') = storage (ps_pool s) \<and> frame_size (ps_pool s') = frame_size (ps_pool s) \<and>
      capacity (ps_pool s') = capacity (ps_pool s)"
    using assms
    by (induction rule: rtranclp_induct)
      (auto elim!: pool_stepE simp: release_def acquire_turn_def take_slot_def Let_def split: if_splits)
  then show "storage (ps_pool s') = storage (ps_pool s)" "frame_size (ps_pool s') = frame_size (ps_pool s)"
    "capacity (ps_pool s') = capacity (ps_pool s)" by simp_all
qed

lemma pool_inv_free:
  assumes "pool_inv s"
  shows "count_ones (free_mask (ps_pool s)) + length (ps_held s) = capacity (ps_pool s)"
proof -
  have sub: "set (held_slots s) \<subseteq> {0..<capacity (ps_pool s)}" using assms by (auto simp: pool_inv_def)
  have "card (set (held_slots s)) = length (ps_held s)"
    using assms distinct_card [of "held_slots s"] by (simp add: pool_inv_def)
  moreover have "card ({0..<capacity (ps_pool s)} - set (held_slots s)) = capacity (ps_pool s) - card (set (held_slots s))"
    using sub by (subst card_Diff_subset) auto
  moreover have "card (set (held_slots s)) \<le> capacity (ps_pool s)" using card_mono [OF _ sub] by simp
  moreover have "free_slots (free_mask (ps_pool s)) = {0..<capacity (ps_pool s)} - set (held_slots s)"
    using assms by (simp add: pool_inv_def)
  ultimately show ?thesis by (simp add: count_ones_card del: set_map)
qed

section \<open>Properties\<close>

text \<open>C36. Mutual exclusion: however threads interleave their loads, compare-and-exchange attempts
  (spurious failures included) and releases on a fresh pool, no two held handles name the same
  slot, no held slot is free, and the free count and the held handles add up to the capacity.\<close>

theorem pool_exclusive:
  assumes "BufferPool_new alloc cap fs = Some pool" and "pool_step\<^sup>*\<^sup>* (pool_start pool) s"
  shows "distinct (held_slots s) \<and> free_slots (free_mask (ps_pool s)) \<inter> set (held_slots s) = {} \<and>
         unat (free_count (ps_pool s)) + length (ps_held s) = cap"
proof -
  have inv: "pool_inv s" by (rule pool_inv_reachable [OF assms])
  have cap: "capacity (ps_pool s) = cap" "cap \<le> 64"
    using pool_constant(3) [OF assms(2)] assms(1)
    by (auto simp: pool_start_def BufferPool_new_def Let_def split: if_splits option.splits)
  have "count_ones (free_mask (ps_pool s)) < 4294967296"
    using pool_inv_free [OF inv] cap by simp
  then show ?thesis
    using inv pool_inv_free [OF inv] cap by (auto simp: pool_inv_def free_count_def unat_word_of_nat)
qed

text \<open>A pool of two slots at address 4096 and one acquired handle, for concrete runs.\<close>

definition demo_pool :: BufferPool where
  "demo_pool = \<lparr>storage = 4096, frame_size = 128, capacity = 2, free_mask = 3\<rparr>"

lemma demo_pool_new: "BufferPool_new (\<lambda>_. Some 4096) 2 100 = Some demo_pool"
  by (simp add: BufferPool_new_def demo_pool_def isize_max_def aligned_size_eq usize_mul_def)

definition demo_state :: pool_state where
  "demo_state = \<lparr>ps_pool = demo_pool\<lparr>free_mask := 2\<rparr>, ps_loaded = (\<lambda>_. None),
     ps_held = [(7, \<lparr>pool_index = 0, fh_len = 128, fh_timestamp_ns = 5\<rparr>)]\<rparr>"

lemma demo_run: "pool_step\<^sup>*\<^sup>* (pool_start demo_pool) demo_state"
proof -
  have tz: "trailing_zeros 3 = 0" by (simp add: trailing_zeros_def slots64_def upt_rec)
  have "pool_step (pool_start demo_pool) (pool_start demo_pool\<lparr>ps_loaded := [7 \<mapsto> (3, 5)]\<rparr>)"
    using pool_step.load [of "pool_start demo_pool" 7 5] by (simp add: pool_start_def demo_pool_def)
  moreover have "pool_step (pool_start demo_pool\<lparr>ps_loaded := [7 \<mapsto> (3, 5)]\<rparr>) demo_state"
    using pool_step.exchange [of "pool_start demo_pool\<lparr>ps_loaded := [7 \<mapsto> (3, 5)]\<rparr>" 7 3 5]
    by (simp add: pool_start_def demo_pool_def acquire_turn_def take_slot_def tz demo_state_def)
  ultimately show ?thesis by (meson r_into_rtranclp rtranclp_trans)
qed

theorem pool_exclusive_witness:
  "distinct (held_slots demo_state) \<and> free_slots (free_mask (ps_pool demo_state)) \<inter> set (held_slots demo_state) = {} \<and>
   unat (free_count (ps_pool demo_state)) + length (ps_held demo_state) = 2"
  by (rule pool_exclusive [OF demo_pool_new demo_run])

lemma slot_held:
  assumes "pool_inv s" and "storage (ps_pool s) + frame_size (ps_pool s) * capacity (ps_pool s) < usize_bound"
    and "(t, h) \<in> set (ps_held s)" and "slot (ps_pool s) h = (p, n)"
  shows "p = storage (ps_pool s) + unat (pool_index h) * frame_size (ps_pool s)" and "n \<le> frame_size (ps_pool s)"
    and "unat (pool_index h) < capacity (ps_pool s)"
proof -
  let ?P = "ps_pool s"
  have h: "unat (pool_index h) < capacity ?P" "fh_len h = word_of_nat (frame_size ?P)"
    using assms(1,3) by (auto simp: pool_inv_def)
  have "unat (pool_index h) * frame_size ?P \<le> capacity ?P * frame_size ?P"
    using h(1) by (intro mult_le_mono1) simp
  then have "storage ?P + unat (pool_index h) * frame_size ?P < usize_bound"
    using assms(2) by (simp only: mult.commute [of "frame_size ?P"])
  then show "p = storage ?P + unat (pool_index h) * frame_size ?P"
    using assms(4) by (auto simp: slot_def slot_ptr_def no_wrap)
  show "n \<le> frame_size ?P" using assms(4) h(2) by (auto simp: slot_def unsigned_of_nat take_bit_nat_less_eq_self)
  show "unat (pool_index h) < capacity ?P" by (rule h(1))
qed

lemma stripes_disjoint: "(i :: nat) < j \<Longrightarrow> n \<le> f \<Longrightarrow> b + i * f + n \<le> b + j * f"
  using mult_le_mono1 [of "Suc i" j f] by simp

text \<open>Buffers do not alias: the byte ranges \<open>slot\<close> returns for two handles held at the same time are
  disjoint, start at a multiple of 64 above the allocation, and lie inside it.\<close>

theorem slots_disjoint:
  assumes "BufferPool_new alloc cap fs = Some pool" and "pool_step\<^sup>*\<^sup>* (pool_start pool) s"
    and "storage pool + frame_size pool * cap < usize_bound"
    and "i < length (ps_held s)" and "j < length (ps_held s)" and "i \<noteq> j"
    and "slot (ps_pool s) (snd (ps_held s ! i)) = (p, n)" and "slot (ps_pool s) (snd (ps_held s ! j)) = (p', n')"
  shows "(p + n \<le> p' \<or> p' + n' \<le> p) \<and> storage pool \<le> p \<and> p + n \<le> storage pool + frame_size pool * cap \<and>
         64 dvd p - storage pool"
proof -
  have inv: "pool_inv s" by (rule pool_inv_reachable [OF assms(1,2)])
  note const = pool_constant [OF assms(2), unfolded pool_start_def pool_state.simps]
  have new: "capacity pool = cap" "64 dvd frame_size pool"
    using assms(1) aligned_size_dvd by (auto simp: BufferPool_new_def Let_def split: if_splits option.splits)
  let ?h = "snd (ps_held s ! i)" and ?h' = "snd (ps_held s ! j)"
  have mem: "(fst (ps_held s ! i), ?h) \<in> set (ps_held s)" "(fst (ps_held s ! j), ?h') \<in> set (ps_held s)"
    using assms(4,5) by simp_all
  have bnd: "storage (ps_pool s) + frame_size (ps_pool s) * capacity (ps_pool s) < usize_bound"
    using assms(3) const new by simp
  note a = slot_held [OF inv bnd mem(1) assms(7)] and b = slot_held [OF inv bnd mem(2) assms(8)]
  have "held_slots s ! i \<noteq> held_slots s ! j"
    using inv assms(4-6) nth_eq_iff_index_eq [of "held_slots s" i j] by (simp add: pool_inv_def)
  then have "unat (pool_index ?h) \<noteq> unat (pool_index ?h')"
    using assms(4,5) by (simp add: case_prod_beta)
  then have "p + n \<le> p' \<or> p' + n' \<le> p"
    using stripes_disjoint [OF _ a(2)] stripes_disjoint [OF _ b(2)] a(1) b(1) by (meson linorder_neqE_nat)
  moreover have "p + n \<le> storage pool + frame_size pool * cap"
    using stripes_disjoint [OF a(3) a(2)] a(1) const new by (simp add: mult.commute)
  ultimately show ?thesis using a(1) const new by simp
qed

text \<open>A second handle is acquired: both slots of the pool are held.\<close>

definition demo_full :: pool_state where
  "demo_full = demo_state\<lparr>ps_pool := demo_pool\<lparr>free_mask := 0\<rparr>,
     ps_held := (8, \<lparr>pool_index = 1, fh_len = 128, fh_timestamp_ns = 6\<rparr>) # ps_held demo_state\<rparr>"

lemma demo_full_run: "pool_step\<^sup>*\<^sup>* (pool_start demo_pool) demo_full"
proof -
  have tz: "trailing_zeros 2 = 1" by (simp add: trailing_zeros_def slots64_def upt_rec bit_simps)
  have "pool_step demo_state (demo_state\<lparr>ps_loaded := [8 \<mapsto> (2, 6)]\<rparr>)"
    using pool_step.load [of demo_state 8 6] by (simp add: demo_state_def demo_pool_def)
  moreover have "pool_step (demo_state\<lparr>ps_loaded := [8 \<mapsto> (2, 6)]\<rparr>) demo_full"
    using pool_step.exchange [of "demo_state\<lparr>ps_loaded := [8 \<mapsto> (2, 6)]\<rparr>" 8 2 6]
    by (simp add: demo_pool_def acquire_turn_def take_slot_def tz demo_state_def demo_full_def)
  ultimately show ?thesis using demo_run by (meson r_into_rtranclp rtranclp_trans)
qed

theorem slots_disjoint_witness:
  "((4224 :: nat) + 128 \<le> 4096 \<or> 4096 + 128 \<le> (4224 :: nat)) \<and> storage demo_pool \<le> 4224 \<and>
   4224 + 128 \<le> storage demo_pool + frame_size demo_pool * 2 \<and> 64 dvd 4224 - storage demo_pool"
  by (rule slots_disjoint [OF demo_pool_new demo_full_run, of 0 1])
    (simp_all add: demo_full_def demo_state_def demo_pool_def slot_def slot_ptr_def no_wrap)

text \<open>Acquiring alone: \<open>acquire\<close> fails exactly when no slot is free, otherwise it hands out the lowest
  free slot and only that slot; releasing the handle restores the pool.\<close>

theorem acquire_release:
  assumes "free_slots (free_mask pool) \<noteq> {}"
  shows "\<exists>h pool'. acquire pool ts = (Some h, pool') \<and> fh_timestamp_ns h = ts \<and>
           unat (pool_index h) = Min (free_slots (free_mask pool)) \<and>
           free_slots (free_mask pool') = free_slots (free_mask pool) - {unat (pool_index h)} \<and>
           release pool' h = pool"
proof -
  let ?m = "free_mask pool"
  have "?m \<noteq> 0" using assms by (auto simp: free_slots_def)
  note tz = trailing_zeros_least [OF this]
  have least: "trailing_zeros ?m = Min (free_slots ?m)"
    by (rule Min_eqI [symmetric]) (use tz in \<open>auto simp: free_slots_def not_less [symmetric]\<close>)
  have restore: "(?m AND NOT (2 ^ trailing_zeros ?m)) OR 2 ^ trailing_zeros ?m = ?m"
    using tz(1) by (intro bit_word_eqI) (auto simp: bit_simps)
  show ?thesis
    using tz(2) \<open>?m \<noteq> 0\<close> least restore
    by (simp add: acquire_def acquire_turn_def take_slot_def Let_def unat_slot_index release_def slot_bit_def)
qed

theorem acquire_release_witness:
  "\<exists>h pool'. acquire demo_pool 9 = (Some h, pool') \<and> fh_timestamp_ns h = 9 \<and>
     unat (pool_index h) = Min (free_slots (free_mask demo_pool)) \<and>
     free_slots (free_mask pool') = free_slots (free_mask demo_pool) - {unat (pool_index h)} \<and>
     release pool' h = demo_pool"
proof (rule acquire_release)
  have "0 \<in> free_slots (free_mask demo_pool)" by (simp add: free_slots_def demo_pool_def)
  then show "free_slots (free_mask demo_pool) \<noteq> {}" by blast
qed

end
