(* ===== verification/Proto.thy ===== *)
theory Proto
  imports Prelude
begin

text \<open>
  The wire protocol of \<^verbatim>\<open>crates/remoteway-proto\<close>: one record per \<^verbatim>\<open>repr(C, packed)\<close>
  structure with its byte image (\<open>..._bytes\<close>, the \<^verbatim>\<open>as_bytes\<close> view) and its checked read
  (\<open>..._read\<close>, \<^verbatim>\<open>ref_from_bytes\<close> on a slice), one datatype per discriminant enum with its
  \<^verbatim>\<open>TryFrom<u8>\<close>, and the constructors. Floating-point fields are kept as their 32-bit
  patterns and signed 16-bit fields as two's-complement words, which is what travels.

  The locale \<open>wire_struct\<close> is the contract every structure keeps (fixed size, exact round
  trip in both directions); the locale \<open>discriminant\<close> is the contract of the enum bytes.
  Both are interpreted for every type of the protocol.
\<close>

section \<open>Contracts\<close>

locale wire_struct =
  fixes wf :: "'s \<Rightarrow> bool"
    and put :: "'s \<Rightarrow> bytes"
    and get :: "bytes \<Rightarrow> 's option"
    and size_of :: nat
  assumes put_length: "wf s \<Longrightarrow> length (put s) = size_of"
    and get_put: "wf s \<Longrightarrow> get (put s) = Some s"
    and put_get: "get bs = Some s \<Longrightarrow> put s = bs"
    and get_wf: "get bs = Some s \<Longrightarrow> wf s"
    and get_defined: "length bs = size_of \<Longrightarrow> get bs \<noteq> None"
begin

lemma get_length: "get bs = Some s \<Longrightarrow> length bs = size_of"
  using put_length put_get get_wf by fastforce

lemma get_None_iff: "get bs = None \<longleftrightarrow> length bs \<noteq> size_of"
  by (metis get_length get_defined not_None_eq)

lemma put_inj: "wf s \<Longrightarrow> wf t \<Longrightarrow> put s = put t \<Longrightarrow> s = t"
  by (metis get_put option.inject)

lemma get_prefix: "wf s \<Longrightarrow> get (take size_of (put s @ rest)) = Some s"
  using put_length get_put by simp

lemma get_at:
  "wf s \<Longrightarrow> length pre = k \<Longrightarrow> get (take size_of (drop k (pre @ put s @ rest))) = Some s"
  using get_prefix by simp

lemma concat_put_length: "\<forall>s \<in> set ss. wf s \<Longrightarrow> length (concat (map put ss)) = size_of * length ss"
  by (induction ss) (simp_all add: put_length)

lemma concat_put_nth:
  assumes "\<forall>s \<in> set ss. wf s" and "i < length ss"
  shows "get (take size_of (drop (i * size_of) (concat (map put ss) @ rest))) = Some (ss ! i)"
  using assms
proof (induction ss arbitrary: i)
  case (Cons s ss)
  show ?case
  proof (cases i)
    case 0
    with Cons.prems show ?thesis using get_prefix [of s "concat (map put ss) @ rest"] by simp
  next
    case (Suc j)
    with Cons.prems have "length (put s) = size_of" by (simp add: put_length)
    with Cons Suc show ?thesis by simp
  qed
qed simp

end

locale discriminant =
  fixes to_u8 :: "'k \<Rightarrow> u8"
    and try_from :: "u8 \<Rightarrow> 'e + 'k"
  assumes try_from_to: "try_from (to_u8 k) = Inr k"
    and to_try_from: "try_from v = Inr k \<Longrightarrow> to_u8 k = v"
begin

lemma to_u8_inj: "to_u8 k = to_u8 l \<longleftrightarrow> k = l"
  using try_from_to by (metis sum.inject(2))

lemma try_from_Inr_iff: "try_from v = Inr k \<longleftrightarrow> v = to_u8 k"
  using try_from_to to_try_from by auto

end

text \<open>
  The reads below split a byte string at fixed offsets; rejoining the pieces is
  \<open>append_eq_conv_conj\<close>, and a field of one byte is its own little-endian image.
\<close>

lemma of_le_to_le_8 [simp]: "of_le (to_le 1 (b :: u8)) = b" "of_le (to_le (Suc 0) (b :: u8)) = b"
  by (rule of_le_to_le, simp)+

lemmas struct_simps = append_eq_conv_conj to_le_of_le of_le_to_le eval_nat_numeral

section \<open>header.rs: message types, flags and the frame header\<close>

datatype ProtoError = UnknownMsgType u8

datatype MsgType =
  FrameUpdate | AnchorFrame | InputEventMsg | CursorMoveMsg | HandshakeMsg | Ack | ResizeMsg
| ClipboardMsg | TargetResolution

fun MsgType_to_u8 :: "MsgType \<Rightarrow> u8" where
  "MsgType_to_u8 FrameUpdate = 0"
| "MsgType_to_u8 AnchorFrame = 1"
| "MsgType_to_u8 InputEventMsg = 2"
| "MsgType_to_u8 CursorMoveMsg = 3"
| "MsgType_to_u8 HandshakeMsg = 4"
| "MsgType_to_u8 Ack = 5"
| "MsgType_to_u8 ResizeMsg = 6"
| "MsgType_to_u8 ClipboardMsg = 7"
| "MsgType_to_u8 TargetResolution = 8"

definition MsgType_try_from :: "u8 \<Rightarrow> ProtoError + MsgType" where
  "MsgType_try_from v =
     (if v = 0 then Inr FrameUpdate
      else if v = 1 then Inr AnchorFrame
      else if v = 2 then Inr InputEventMsg
      else if v = 3 then Inr CursorMoveMsg
      else if v = 4 then Inr HandshakeMsg
      else if v = 5 then Inr Ack
      else if v = 6 then Inr ResizeMsg
      else if v = 7 then Inr ClipboardMsg
      else if v = 8 then Inr TargetResolution
      else Inl (UnknownMsgType v))"

definition COMPRESSED :: u8 where "COMPRESSED = 1"
definition LAST_CHUNK :: u8 where "LAST_CHUNK = 2"
definition KEY_FRAME :: u8 where "KEY_FRAME = 4"

record FrameHeader =
  hdr_stream_id :: u16
  hdr_msg_type :: u8
  hdr_flags :: u8
  hdr_payload_len :: u32
  hdr_timestamp_ns :: u64

abbreviation FrameHeader_SIZE :: nat where "FrameHeader_SIZE \<equiv> 16"

definition FrameHeader_bytes :: "FrameHeader \<Rightarrow> bytes" where
  "FrameHeader_bytes h =
     to_le 2 (hdr_stream_id h) @ to_le 1 (hdr_msg_type h) @ to_le 1 (hdr_flags h)
     @ to_le 4 (hdr_payload_len h) @ to_le 8 (hdr_timestamp_ns h)"

definition FrameHeader_read :: "bytes \<Rightarrow> FrameHeader option" where
  "FrameHeader_read bs =
     (if length bs = FrameHeader_SIZE
      then Some \<lparr>hdr_stream_id = of_le (take 2 bs), hdr_msg_type = of_le (take 1 (drop 2 bs)),
                 hdr_flags = of_le (take 1 (drop 3 bs)), hdr_payload_len = of_le (take 4 (drop 4 bs)),
                 hdr_timestamp_ns = of_le (take 8 (drop 8 bs))\<rparr>
      else None)"

definition FrameHeader_new :: "u16 \<Rightarrow> MsgType \<Rightarrow> u8 \<Rightarrow> u32 \<Rightarrow> u64 \<Rightarrow> FrameHeader" where
  "FrameHeader_new sid mt fl plen ts =
     \<lparr>hdr_stream_id = sid, hdr_msg_type = MsgType_to_u8 mt, hdr_flags = fl, hdr_payload_len = plen,
      hdr_timestamp_ns = ts\<rparr>"

definition header_msg_type :: "FrameHeader \<Rightarrow> ProtoError + MsgType" where
  "header_msg_type h = MsgType_try_from (hdr_msg_type h)"

interpretation msg_type: discriminant MsgType_to_u8 MsgType_try_from
proof unfold_locales
  show "MsgType_try_from (MsgType_to_u8 k) = Inr k" for k
    by (cases k) (simp_all add: MsgType_try_from_def)
  show "MsgType_to_u8 k = v" if "MsgType_try_from v = Inr k" for v k
    using that by (auto simp: MsgType_try_from_def split: if_splits)
qed

interpretation header: wire_struct "\<lambda>_. True" FrameHeader_bytes FrameHeader_read FrameHeader_SIZE
  by unfold_locales
    (auto simp: FrameHeader_bytes_def FrameHeader_read_def struct_simps split: if_splits)

lemmas length_FrameHeader_bytes [simp, size_simps] = header.put_length [OF TrueI]

section \<open>frame.rs: frame metadata and wire regions\<close>

record FrameMeta =
  meta_width :: u32
  meta_height :: u32
  meta_stride :: u32
  num_regions :: u32

abbreviation FrameMeta_SIZE :: nat where "FrameMeta_SIZE \<equiv> 16"

definition FrameMeta_bytes :: "FrameMeta \<Rightarrow> bytes" where
  "FrameMeta_bytes s =
     to_le 4 (meta_width s) @ to_le 4 (meta_height s) @
     to_le 4 (meta_stride s) @ to_le 4 (num_regions s)"

definition FrameMeta_read :: "bytes \<Rightarrow> FrameMeta option" where
  "FrameMeta_read bs =
     (if length bs = FrameMeta_SIZE
      then Some \<lparr>meta_width = of_le (take 4 bs),
                 meta_height = of_le (take 4 (drop 4 bs)),
                 meta_stride = of_le (take 4 (drop 8 bs)),
                 num_regions = of_le (take 4 (drop 12 bs))\<rparr>
      else None)"

definition FrameMeta_new :: "u32 \<Rightarrow> u32 \<Rightarrow> u32 \<Rightarrow> u32 \<Rightarrow> FrameMeta" where
  "FrameMeta_new w h st n =
     \<lparr>meta_width = w, meta_height = h, meta_stride = st, num_regions = n\<rparr>"

record WireRegion =
  wr_x :: u32
  wr_y :: u32
  wr_w :: u32
  wr_h :: u32
  compressed_size :: u32

abbreviation WireRegion_SIZE :: nat where "WireRegion_SIZE \<equiv> 20"

definition WireRegion_bytes :: "WireRegion \<Rightarrow> bytes" where
  "WireRegion_bytes s =
     to_le 4 (wr_x s) @ to_le 4 (wr_y s) @ to_le 4 (wr_w s) @
     to_le 4 (wr_h s) @ to_le 4 (compressed_size s)"

definition WireRegion_read :: "bytes \<Rightarrow> WireRegion option" where
  "WireRegion_read bs =
     (if length bs = WireRegion_SIZE
      then Some \<lparr>wr_x = of_le (take 4 bs), wr_y = of_le (take 4 (drop 4 bs)),
                 wr_w = of_le (take 4 (drop 8 bs)),
                 wr_h = of_le (take 4 (drop 12 bs)),
                 compressed_size = of_le (take 4 (drop 16 bs))\<rparr>
      else None)"

definition WireRegion_new :: "u32 \<Rightarrow> u32 \<Rightarrow> u32 \<Rightarrow> u32 \<Rightarrow> u32 \<Rightarrow> WireRegion" where
  "WireRegion_new x y w h cs =
     \<lparr>wr_x = x, wr_y = y, wr_w = w, wr_h = h, compressed_size = cs\<rparr>"

interpretation frame_meta: wire_struct "\<lambda>_. True" FrameMeta_bytes FrameMeta_read FrameMeta_SIZE
  by unfold_locales
    (auto simp: FrameMeta_bytes_def FrameMeta_read_def struct_simps split: if_splits)

lemmas length_FrameMeta_bytes [simp, size_simps] = frame_meta.put_length [OF TrueI]

interpretation wire_region: wire_struct "\<lambda>_. True" WireRegion_bytes WireRegion_read WireRegion_SIZE
  by unfold_locales
    (auto simp: WireRegion_bytes_def WireRegion_read_def struct_simps split: if_splits)

lemmas length_WireRegion_bytes [simp, size_simps] = wire_region.put_length [OF TrueI]

section \<open>input.rs: pointer, keyboard and scroll events\<close>

record PointerMotion =
  pm_surface_id :: u16
  pm_pad :: u16
  pm_x :: u32
  pm_y :: u32

abbreviation PointerMotion_SIZE :: nat where "PointerMotion_SIZE \<equiv> 12"

definition PointerMotion_bytes :: "PointerMotion \<Rightarrow> bytes" where
  "PointerMotion_bytes s =
     to_le 2 (pm_surface_id s) @ to_le 2 (pm_pad s) @ to_le 4 (pm_x s) @
     to_le 4 (pm_y s)"

definition PointerMotion_read :: "bytes \<Rightarrow> PointerMotion option" where
  "PointerMotion_read bs =
     (if length bs = PointerMotion_SIZE
      then Some \<lparr>pm_surface_id = of_le (take 2 bs),
                 pm_pad = of_le (take 2 (drop 2 bs)),
                 pm_x = of_le (take 4 (drop 4 bs)),
                 pm_y = of_le (take 4 (drop 8 bs))\<rparr>
      else None)"

record PointerButton =
  pb_button :: u32
  pb_state :: u32

abbreviation PointerButton_SIZE :: nat where "PointerButton_SIZE \<equiv> 8"

definition PointerButton_bytes :: "PointerButton \<Rightarrow> bytes" where
  "PointerButton_bytes s =
     to_le 4 (pb_button s) @ to_le 4 (pb_state s)"

definition PointerButton_read :: "bytes \<Rightarrow> PointerButton option" where
  "PointerButton_read bs =
     (if length bs = PointerButton_SIZE
      then Some \<lparr>pb_button = of_le (take 4 bs),
                 pb_state = of_le (take 4 (drop 4 bs))\<rparr>
      else None)"

record PointerAxis =
  pa_axis :: u8
  pa_pad :: bytes
  pa_value :: u32

abbreviation PointerAxis_SIZE :: nat where "PointerAxis_SIZE \<equiv> 8"

definition PointerAxis_wf :: "PointerAxis \<Rightarrow> bool" where
  "PointerAxis_wf s \<longleftrightarrow> length (pa_pad s) = 3"

definition PointerAxis_bytes :: "PointerAxis \<Rightarrow> bytes" where
  "PointerAxis_bytes s =
     to_le 1 (pa_axis s) @ pa_pad s @ to_le 4 (pa_value s)"

definition PointerAxis_read :: "bytes \<Rightarrow> PointerAxis option" where
  "PointerAxis_read bs =
     (if length bs = PointerAxis_SIZE
      then Some \<lparr>pa_axis = of_le (take 1 bs), pa_pad = take 3 (drop 1 bs),
                 pa_value = of_le (take 4 (drop 4 bs))\<rparr>
      else None)"

record KeyEvent =
  ke_key :: u32
  ke_state :: u32

abbreviation KeyEvent_SIZE :: nat where "KeyEvent_SIZE \<equiv> 8"

definition KeyEvent_bytes :: "KeyEvent \<Rightarrow> bytes" where
  "KeyEvent_bytes s =
     to_le 4 (ke_key s) @ to_le 4 (ke_state s)"

definition KeyEvent_read :: "bytes \<Rightarrow> KeyEvent option" where
  "KeyEvent_read bs =
     (if length bs = KeyEvent_SIZE
      then Some \<lparr>ke_key = of_le (take 4 bs),
                 ke_state = of_le (take 4 (drop 4 bs))\<rparr>
      else None)"

datatype InputKind = KindPointerMotion | KindPointerButton | KindPointerAxis | KindKey

fun InputKind_to_u8 :: "InputKind \<Rightarrow> u8" where
  "InputKind_to_u8 KindPointerMotion = 0"
| "InputKind_to_u8 KindPointerButton = 1"
| "InputKind_to_u8 KindPointerAxis = 2"
| "InputKind_to_u8 KindKey = 3"

definition InputKind_try_from :: "u8 \<Rightarrow> u8 + InputKind" where
  "InputKind_try_from v =
     (if v = 0 then Inr KindPointerMotion
      else if v = 1 then Inr KindPointerButton
      else if v = 2 then Inr KindPointerAxis
      else if v = 3 then Inr KindKey
      else Inl v)"

record InputEvent =
  ie_kind :: u8
  ie_pad :: bytes
  ie_payload :: bytes

abbreviation InputEvent_SIZE :: nat where "InputEvent_SIZE \<equiv> 16"

definition InputEvent_wf :: "InputEvent \<Rightarrow> bool" where
  "InputEvent_wf s \<longleftrightarrow> length (ie_pad s) = 3 \<and> length (ie_payload s) = 12"

definition InputEvent_bytes :: "InputEvent \<Rightarrow> bytes" where
  "InputEvent_bytes s =
     to_le 1 (ie_kind s) @ ie_pad s @ ie_payload s"

definition InputEvent_read :: "bytes \<Rightarrow> InputEvent option" where
  "InputEvent_read bs =
     (if length bs = InputEvent_SIZE
      then Some \<lparr>ie_kind = of_le (take 1 bs), ie_pad = take 3 (drop 1 bs),
                 ie_payload = take 12 (drop 4 bs)\<rparr>
      else None)"

definition from_bytes_padded :: "InputKind \<Rightarrow> bytes \<Rightarrow> InputEvent option" where
  "from_bytes_padded k src = do {
     pl \<leftarrow> write_slice (replicate 12 0) 0 src;
     Some \<lparr>ie_kind = InputKind_to_u8 k, ie_pad = replicate 3 0, ie_payload = pl\<rparr>
   }"

definition InputEvent_pointer_motion :: "PointerMotion \<Rightarrow> InputEvent option" where
  "InputEvent_pointer_motion m = from_bytes_padded KindPointerMotion (PointerMotion_bytes m)"

definition InputEvent_pointer_button :: "PointerButton \<Rightarrow> InputEvent option" where
  "InputEvent_pointer_button b = from_bytes_padded KindPointerButton (PointerButton_bytes b)"

definition InputEvent_pointer_axis :: "PointerAxis \<Rightarrow> InputEvent option" where
  "InputEvent_pointer_axis a = from_bytes_padded KindPointerAxis (PointerAxis_bytes a)"

definition InputEvent_key :: "KeyEvent \<Rightarrow> InputEvent option" where
  "InputEvent_key k = from_bytes_padded KindKey (KeyEvent_bytes k)"

definition InputEvent_kind :: "InputEvent \<Rightarrow> u8 + InputKind" where
  "InputEvent_kind e = InputKind_try_from (ie_kind e)"

interpretation input_kind: discriminant InputKind_to_u8 InputKind_try_from
proof unfold_locales
  show "InputKind_try_from (InputKind_to_u8 k) = Inr k" for k
    by (cases k) (simp_all add: InputKind_try_from_def)
  show "InputKind_to_u8 k = v" if "InputKind_try_from v = Inr k" for v k
    using that by (auto simp: InputKind_try_from_def split: if_splits)
qed

interpretation pointer_motion: wire_struct "\<lambda>_. True" PointerMotion_bytes PointerMotion_read PointerMotion_SIZE
  by unfold_locales
    (auto simp: PointerMotion_bytes_def PointerMotion_read_def struct_simps split: if_splits)

lemmas length_PointerMotion_bytes [simp, size_simps] = pointer_motion.put_length [OF TrueI]

interpretation pointer_button: wire_struct "\<lambda>_. True" PointerButton_bytes PointerButton_read PointerButton_SIZE
  by unfold_locales
    (auto simp: PointerButton_bytes_def PointerButton_read_def struct_simps split: if_splits)

lemmas length_PointerButton_bytes [simp, size_simps] = pointer_button.put_length [OF TrueI]

interpretation pointer_axis: wire_struct PointerAxis_wf PointerAxis_bytes PointerAxis_read PointerAxis_SIZE
  by unfold_locales
    (auto simp: PointerAxis_bytes_def PointerAxis_read_def PointerAxis_wf_def struct_simps split: if_splits)

interpretation key_event: wire_struct "\<lambda>_. True" KeyEvent_bytes KeyEvent_read KeyEvent_SIZE
  by unfold_locales
    (auto simp: KeyEvent_bytes_def KeyEvent_read_def struct_simps split: if_splits)

lemmas length_KeyEvent_bytes [simp, size_simps] = key_event.put_length [OF TrueI]

interpretation input_event: wire_struct InputEvent_wf InputEvent_bytes InputEvent_read InputEvent_SIZE
  by unfold_locales
    (auto simp: InputEvent_bytes_def InputEvent_read_def InputEvent_wf_def struct_simps split: if_splits)

section \<open>resize.rs, target_resolution.rs\<close>

record ResizePayload =
  rp_surface_id :: u16
  rp_pad :: u16
  rp_width :: u32
  rp_height :: u32

abbreviation ResizePayload_SIZE :: nat where "ResizePayload_SIZE \<equiv> 12"

definition ResizePayload_bytes :: "ResizePayload \<Rightarrow> bytes" where
  "ResizePayload_bytes s =
     to_le 2 (rp_surface_id s) @ to_le 2 (rp_pad s) @ to_le 4 (rp_width s) @
     to_le 4 (rp_height s)"

definition ResizePayload_read :: "bytes \<Rightarrow> ResizePayload option" where
  "ResizePayload_read bs =
     (if length bs = ResizePayload_SIZE
      then Some \<lparr>rp_surface_id = of_le (take 2 bs),
                 rp_pad = of_le (take 2 (drop 2 bs)),
                 rp_width = of_le (take 4 (drop 4 bs)),
                 rp_height = of_le (take 4 (drop 8 bs))\<rparr>
      else None)"

definition ResizePayload_new :: "u16 \<Rightarrow> u32 \<Rightarrow> u32 \<Rightarrow> ResizePayload" where
  "ResizePayload_new sid w h =
     \<lparr>rp_surface_id = sid, rp_pad = 0, rp_width = w, rp_height = h\<rparr>"

record TargetResolutionPayload =
  tr_width :: u32
  tr_height :: u32

abbreviation TargetResolutionPayload_SIZE :: nat where "TargetResolutionPayload_SIZE \<equiv> 8"

definition TargetResolutionPayload_bytes :: "TargetResolutionPayload \<Rightarrow> bytes" where
  "TargetResolutionPayload_bytes s =
     to_le 4 (tr_width s) @ to_le 4 (tr_height s)"

definition TargetResolutionPayload_read :: "bytes \<Rightarrow> TargetResolutionPayload option" where
  "TargetResolutionPayload_read bs =
     (if length bs = TargetResolutionPayload_SIZE
      then Some \<lparr>tr_width = of_le (take 4 bs),
                 tr_height = of_le (take 4 (drop 4 bs))\<rparr>
      else None)"

definition TargetResolutionPayload_new :: "u32 \<Rightarrow> u32 \<Rightarrow> TargetResolutionPayload" where
  "TargetResolutionPayload_new w h = \<lparr>tr_width = w, tr_height = h\<rparr>"

interpretation resize_payload: wire_struct "\<lambda>_. True" ResizePayload_bytes ResizePayload_read ResizePayload_SIZE
  by unfold_locales
    (auto simp: ResizePayload_bytes_def ResizePayload_read_def struct_simps split: if_splits)

lemmas length_ResizePayload_bytes [simp, size_simps] = resize_payload.put_length [OF TrueI]

interpretation target_resolution: wire_struct "\<lambda>_. True" TargetResolutionPayload_bytes TargetResolutionPayload_read TargetResolutionPayload_SIZE
  by unfold_locales
    (auto simp: TargetResolutionPayload_bytes_def TargetResolutionPayload_read_def struct_simps split: if_splits)

lemmas length_TargetResolutionPayload_bytes [simp, size_simps] = target_resolution.put_length [OF TrueI]

section \<open>clipboard.rs\<close>

record ClipboardHeader =
  ch_mime_type :: u8
  ch_direction :: u8
  ch_pad :: u16
  ch_data_len :: u32

abbreviation ClipboardHeader_SIZE :: nat where "ClipboardHeader_SIZE \<equiv> 8"

definition ClipboardHeader_bytes :: "ClipboardHeader \<Rightarrow> bytes" where
  "ClipboardHeader_bytes s =
     to_le 1 (ch_mime_type s) @ to_le 1 (ch_direction s) @ to_le 2 (ch_pad s) @
     to_le 4 (ch_data_len s)"

definition ClipboardHeader_read :: "bytes \<Rightarrow> ClipboardHeader option" where
  "ClipboardHeader_read bs =
     (if length bs = ClipboardHeader_SIZE
      then Some \<lparr>ch_mime_type = of_le (take 1 bs),
                 ch_direction = of_le (take 1 (drop 1 bs)),
                 ch_pad = of_le (take 2 (drop 2 bs)),
                 ch_data_len = of_le (take 4 (drop 4 bs))\<rparr>
      else None)"

datatype ClipboardMime = TextPlain | TextHtml | ImagePng

fun ClipboardMime_to_u8 :: "ClipboardMime \<Rightarrow> u8" where
  "ClipboardMime_to_u8 TextPlain = 0"
| "ClipboardMime_to_u8 TextHtml = 1"
| "ClipboardMime_to_u8 ImagePng = 2"

definition ClipboardMime_try_from :: "u8 \<Rightarrow> u8 + ClipboardMime" where
  "ClipboardMime_try_from v =
     (if v = 0 then Inr TextPlain
      else if v = 1 then Inr TextHtml
      else if v = 2 then Inr ImagePng
      else Inl v)"

definition ClipboardHeader_new :: "ClipboardMime \<Rightarrow> u8 \<Rightarrow> u32 \<Rightarrow> ClipboardHeader" where
  "ClipboardHeader_new m dir n =
     \<lparr>ch_mime_type = ClipboardMime_to_u8 m, ch_direction = dir, ch_pad = 0, ch_data_len = n\<rparr>"

definition ClipboardHeader_mime :: "ClipboardHeader \<Rightarrow> u8 + ClipboardMime" where
  "ClipboardHeader_mime h = ClipboardMime_try_from (ch_mime_type h)"

interpretation clipboard_mime: discriminant ClipboardMime_to_u8 ClipboardMime_try_from
proof unfold_locales
  show "ClipboardMime_try_from (ClipboardMime_to_u8 k) = Inr k" for k
    by (cases k) (simp_all add: ClipboardMime_try_from_def)
  show "ClipboardMime_to_u8 k = v" if "ClipboardMime_try_from v = Inr k" for v k
    using that by (auto simp: ClipboardMime_try_from_def split: if_splits)
qed

interpretation clipboard_header: wire_struct "\<lambda>_. True" ClipboardHeader_bytes ClipboardHeader_read ClipboardHeader_SIZE
  by unfold_locales
    (auto simp: ClipboardHeader_bytes_def ClipboardHeader_read_def struct_simps split: if_splits)

lemmas length_ClipboardHeader_bytes [simp, size_simps] = clipboard_header.put_length [OF TrueI]

section \<open>handshake.rs\<close>

definition WLR_SCREENCOPY :: u8 where "WLR_SCREENCOPY = 1"
definition EXT_IMAGE_CAPTURE :: u8 where "EXT_IMAGE_CAPTURE = 2"
definition PORTAL :: u8 where "PORTAL = 4"
definition FLAG_LZ4 :: u8 where "FLAG_LZ4 = 1"
definition FLAG_ZSTD :: u8 where "FLAG_ZSTD = 2"
definition FLAG_NONE :: u8 where "FLAG_NONE = 4"

record HandshakePayload =
  hp_version :: u16
  hp_capture_flags :: u8
  hp_compress_flags :: u8
  hp_reserved :: bytes

abbreviation HandshakePayload_SIZE :: nat where "HandshakePayload_SIZE \<equiv> 8"

definition HandshakePayload_wf :: "HandshakePayload \<Rightarrow> bool" where
  "HandshakePayload_wf s \<longleftrightarrow> length (hp_reserved s) = 4"

definition HandshakePayload_bytes :: "HandshakePayload \<Rightarrow> bytes" where
  "HandshakePayload_bytes s =
     to_le 2 (hp_version s) @ to_le 1 (hp_capture_flags s) @
     to_le 1 (hp_compress_flags s) @ hp_reserved s"

definition HandshakePayload_read :: "bytes \<Rightarrow> HandshakePayload option" where
  "HandshakePayload_read bs =
     (if length bs = HandshakePayload_SIZE
      then Some \<lparr>hp_version = of_le (take 2 bs),
                 hp_capture_flags = of_le (take 1 (drop 2 bs)),
                 hp_compress_flags = of_le (take 1 (drop 3 bs)),
                 hp_reserved = take 4 (drop 4 bs)\<rparr>
      else None)"

definition PROTOCOL_VERSION :: u16 where "PROTOCOL_VERSION = 1"

definition HandshakePayload_new :: "u8 \<Rightarrow> u8 \<Rightarrow> HandshakePayload" where
  "HandshakePayload_new cap cmp =
     \<lparr>hp_version = PROTOCOL_VERSION, hp_capture_flags = cap, hp_compress_flags = cmp,
      hp_reserved = replicate 4 0\<rparr>"

interpretation handshake_payload: wire_struct HandshakePayload_wf HandshakePayload_bytes HandshakePayload_read HandshakePayload_SIZE
  by unfold_locales
    (auto simp: HandshakePayload_bytes_def HandshakePayload_read_def HandshakePayload_wf_def struct_simps split: if_splits)

section \<open>monitor.rs, cursor.rs\<close>

record MonitorInfo =
  mi_stream_id :: u16
  mi_x :: u16
  mi_y :: u16
  mi_pad :: u16
  mi_width :: u32
  mi_height :: u32
  mi_refresh_mhz :: u32
  mi_scale :: u32

abbreviation MonitorInfo_SIZE :: nat where "MonitorInfo_SIZE \<equiv> 24"

definition MonitorInfo_bytes :: "MonitorInfo \<Rightarrow> bytes" where
  "MonitorInfo_bytes s =
     to_le 2 (mi_stream_id s) @ to_le 2 (mi_x s) @ to_le 2 (mi_y s) @
     to_le 2 (mi_pad s) @ to_le 4 (mi_width s) @ to_le 4 (mi_height s) @
     to_le 4 (mi_refresh_mhz s) @ to_le 4 (mi_scale s)"

definition MonitorInfo_read :: "bytes \<Rightarrow> MonitorInfo option" where
  "MonitorInfo_read bs =
     (if length bs = MonitorInfo_SIZE
      then Some \<lparr>mi_stream_id = of_le (take 2 bs),
                 mi_x = of_le (take 2 (drop 2 bs)),
                 mi_y = of_le (take 2 (drop 4 bs)),
                 mi_pad = of_le (take 2 (drop 6 bs)),
                 mi_width = of_le (take 4 (drop 8 bs)),
                 mi_height = of_le (take 4 (drop 12 bs)),
                 mi_refresh_mhz = of_le (take 4 (drop 16 bs)),
                 mi_scale = of_le (take 4 (drop 20 bs))\<rparr>
      else None)"

definition MonitorInfo_new :: "u16 \<Rightarrow> u16 \<Rightarrow> u16 \<Rightarrow> u32 \<Rightarrow> u32 \<Rightarrow> u32 \<Rightarrow> u32 \<Rightarrow> MonitorInfo" where
  "MonitorInfo_new sid x y w h r sc =
     \<lparr>mi_stream_id = sid, mi_x = x, mi_y = y, mi_pad = 0, mi_width = w, mi_height = h,
      mi_refresh_mhz = r, mi_scale = sc\<rparr>"

record FractionalScale =
  fs_stream_id :: u16
  scale_120 :: u16

abbreviation FractionalScale_SIZE :: nat where "FractionalScale_SIZE \<equiv> 4"

definition FractionalScale_bytes :: "FractionalScale \<Rightarrow> bytes" where
  "FractionalScale_bytes s =
     to_le 2 (fs_stream_id s) @ to_le 2 (scale_120 s)"

definition FractionalScale_read :: "bytes \<Rightarrow> FractionalScale option" where
  "FractionalScale_read bs =
     (if length bs = FractionalScale_SIZE
      then Some \<lparr>fs_stream_id = of_le (take 2 bs),
                 scale_120 = of_le (take 2 (drop 2 bs))\<rparr>
      else None)"

definition FractionalScale_new :: "u16 \<Rightarrow> u16 \<Rightarrow> FractionalScale" where
  "FractionalScale_new sid sc = \<lparr>fs_stream_id = sid, scale_120 = sc\<rparr>"

record CursorMove =
  cm_surface_id :: u16
  cm_pad :: u16
  cm_x :: u32
  cm_y :: u32

abbreviation CursorMove_SIZE :: nat where "CursorMove_SIZE \<equiv> 12"

definition CursorMove_bytes :: "CursorMove \<Rightarrow> bytes" where
  "CursorMove_bytes s =
     to_le 2 (cm_surface_id s) @ to_le 2 (cm_pad s) @ to_le 4 (cm_x s) @
     to_le 4 (cm_y s)"

definition CursorMove_read :: "bytes \<Rightarrow> CursorMove option" where
  "CursorMove_read bs =
     (if length bs = CursorMove_SIZE
      then Some \<lparr>cm_surface_id = of_le (take 2 bs),
                 cm_pad = of_le (take 2 (drop 2 bs)),
                 cm_x = of_le (take 4 (drop 4 bs)),
                 cm_y = of_le (take 4 (drop 8 bs))\<rparr>
      else None)"

record CursorUpdate =
  cu_surface_id :: u16
  hotspot_x :: u16
  hotspot_y :: u16
  cu_has_bitmap :: u8
  cu_pad :: u8
  bitmap_width :: u16
  bitmap_height :: u16
  cu_x :: u32
  cu_y :: u32

abbreviation CursorUpdate_SIZE :: nat where "CursorUpdate_SIZE \<equiv> 20"

definition CursorUpdate_bytes :: "CursorUpdate \<Rightarrow> bytes" where
  "CursorUpdate_bytes s =
     to_le 2 (cu_surface_id s) @ to_le 2 (hotspot_x s) @
     to_le 2 (hotspot_y s) @ to_le 1 (cu_has_bitmap s) @ to_le 1 (cu_pad s) @
     to_le 2 (bitmap_width s) @ to_le 2 (bitmap_height s) @
     to_le 4 (cu_x s) @ to_le 4 (cu_y s)"

definition CursorUpdate_read :: "bytes \<Rightarrow> CursorUpdate option" where
  "CursorUpdate_read bs =
     (if length bs = CursorUpdate_SIZE
      then Some \<lparr>cu_surface_id = of_le (take 2 bs),
                 hotspot_x = of_le (take 2 (drop 2 bs)),
                 hotspot_y = of_le (take 2 (drop 4 bs)),
                 cu_has_bitmap = of_le (take 1 (drop 6 bs)),
                 cu_pad = of_le (take 1 (drop 7 bs)),
                 bitmap_width = of_le (take 2 (drop 8 bs)),
                 bitmap_height = of_le (take 2 (drop 10 bs)),
                 cu_x = of_le (take 4 (drop 12 bs)),
                 cu_y = of_le (take 4 (drop 16 bs))\<rparr>
      else None)"

interpretation monitor_info: wire_struct "\<lambda>_. True" MonitorInfo_bytes MonitorInfo_read MonitorInfo_SIZE
  by unfold_locales
    (auto simp: MonitorInfo_bytes_def MonitorInfo_read_def struct_simps split: if_splits)

lemmas length_MonitorInfo_bytes [simp, size_simps] = monitor_info.put_length [OF TrueI]

interpretation fractional_scale: wire_struct "\<lambda>_. True" FractionalScale_bytes FractionalScale_read FractionalScale_SIZE
  by unfold_locales
    (auto simp: FractionalScale_bytes_def FractionalScale_read_def struct_simps split: if_splits)

lemmas length_FractionalScale_bytes [simp, size_simps] = fractional_scale.put_length [OF TrueI]

interpretation cursor_move: wire_struct "\<lambda>_. True" CursorMove_bytes CursorMove_read CursorMove_SIZE
  by unfold_locales
    (auto simp: CursorMove_bytes_def CursorMove_read_def struct_simps split: if_splits)

lemmas length_CursorMove_bytes [simp, size_simps] = cursor_move.put_length [OF TrueI]

interpretation cursor_update: wire_struct "\<lambda>_. True" CursorUpdate_bytes CursorUpdate_read CursorUpdate_SIZE
  by unfold_locales
    (auto simp: CursorUpdate_bytes_def CursorUpdate_read_def struct_simps split: if_splits)

lemmas length_CursorUpdate_bytes [simp, size_simps] = cursor_update.put_length [OF TrueI]

end
