(* ===== verification/Multiplexer.thy ===== *)
theory Multiplexer
  imports Proto
begin

text \<open>
  The framing layer of \<^verbatim>\<open>crates/remoteway-transport\<close>: the flow controller
  (\<^verbatim>\<open>flow_control.rs\<close>), the chunking of large payloads (\<^verbatim>\<open>chunk_sender.rs\<close>) and the
  stateful stream parser that reassembles them (\<^verbatim>\<open>multiplexer.rs\<close>). The main results:
  the parser does not depend on how the byte stream is fragmented, and a sequence of
  chunked messages is delivered exactly, in order, with nothing left in progress.
\<close>

section \<open>flow\_control.rs\<close>

record FlowController =
  high_watermark :: usize
  pending :: usize

definition FlowController_new :: "usize \<Rightarrow> FlowController" where
  "FlowController_new hw = \<lparr>high_watermark = hw, pending = 0\<rparr>"

definition should_send :: "FlowController \<Rightarrow> usize \<Rightarrow> bool \<Rightarrow> FlowController \<times> bool" where
  "should_send fc n is_anchor =
     (if is_anchor then (fc\<lparr>pending := usize_add (pending fc) n\<rparr>, True)
      else if saturating_add (pending fc) n > high_watermark fc then (fc, False)
      else (fc\<lparr>pending := usize_add (pending fc) n\<rparr>, True))"

definition on_sent :: "FlowController \<Rightarrow> usize \<Rightarrow> FlowController" where
  "on_sent fc n = fc\<lparr>pending := saturating_sub (pending fc) n\<rparr>"

definition pending_bytes :: "FlowController \<Rightarrow> usize" where
  "pending_bytes fc = pending fc"

definition is_congested :: "FlowController \<Rightarrow> bool" where
  "is_congested fc \<longleftrightarrow> pending fc \<ge> high_watermark fc"

section \<open>chunk\_sender.rs\<close>

partial_function (option) split_loop ::
  "u16 \<Rightarrow> MsgType \<Rightarrow> u8 \<Rightarrow> bytes \<Rightarrow> u64 \<Rightarrow> usize \<Rightarrow> usize \<Rightarrow> bytes \<Rightarrow> bytes option" where
  "split_loop sid mt extra pl ts chunk_size offset dst =
     (if offset < length pl
      then (let fin = min (usize_add offset chunk_size) (length pl) in
            (case vslice pl offset fin of
               None \<Rightarrow> None
             | Some chunk \<Rightarrow>
                 (let is_last = (fin = length pl);
                      chunk_flags = (if is_last then extra OR LAST_CHUNK else extra);
                      hdr = FrameHeader_new sid mt chunk_flags (word_of_nat (length chunk)) ts
                  in split_loop sid mt extra pl ts chunk_size fin
                       (dst @ FrameHeader_bytes hdr @ chunk))))
      else Some dst)"

definition split_into_chunks ::
  "u16 \<Rightarrow> MsgType \<Rightarrow> u8 \<Rightarrow> bytes \<Rightarrow> u64 \<Rightarrow> usize \<Rightarrow> bytes \<Rightarrow> bytes option" where
  "split_into_chunks sid mt extra pl ts chunk_size dst =
     (if pl = []
      then Some (dst @ FrameHeader_bytes (FrameHeader_new sid mt (extra OR LAST_CHUNK) 0 ts))
      else split_loop sid mt extra pl ts chunk_size 0 dst)"

definition chunk_count :: "usize \<Rightarrow> usize \<Rightarrow> usize" where
  "chunk_count payload_len chunk_size =
     (if payload_len = 0 \<or> chunk_size = 0 then 1
      else payload_len div chunk_size + (if payload_len mod chunk_size > 0 then 1 else 0))"

section \<open>multiplexer.rs\<close>

datatype MultiplexerError = MuxUnknownMsgType ProtoError | PayloadTooLarge u32 | MuxIo

abbreviation MAX_PAYLOAD_LEN :: nat where "MAX_PAYLOAD_LEN \<equiv> 4194304"

record IncomingMessage =
  im_header :: FrameHeader
  im_payload :: bytes

definition encode_frame :: "FrameHeader \<Rightarrow> bytes \<Rightarrow> bytes \<Rightarrow> bytes" where
  "encode_frame h pl dst = dst @ FrameHeader_bytes h @ pl"

record StreamParser =
  sp_buf :: bytes
  sp_chunks :: "u16 \<rightharpoonup> bytes"

definition StreamParser_new :: StreamParser where
  "StreamParser_new = \<lparr>sp_buf = [], sp_chunks = Map.empty\<rparr>"

definition reassemble ::
  "(u16 \<rightharpoonup> bytes) \<Rightarrow> FrameHeader \<Rightarrow> bytes \<Rightarrow> (u16 \<rightharpoonup> bytes) \<times> IncomingMessage option" where
  "reassemble chunks hdr pl =
     (let sid = hdr_stream_id hdr;
          is_last = (hdr_flags hdr AND LAST_CHUNK \<noteq> 0)
      in if is_last \<and> chunks sid = None \<and> length pl = unat (hdr_payload_len hdr)
         then (chunks, Some \<lparr>im_header = hdr, im_payload = pl\<rparr>)
         else (let buf = (case chunks sid of None \<Rightarrow> [] | Some b \<Rightarrow> b) @ pl
               in if is_last
                  then (chunks(sid := None), Some \<lparr>im_header = hdr, im_payload = buf\<rparr>)
                  else (chunks(sid \<mapsto> buf), None)))"

text \<open>One turn of the loop in \<^verbatim>\<open>push\<close>: stop for more bytes, fail, or consume one frame.\<close>

datatype turn = NeedMore | Fail MultiplexerError | Took bytes "u16 \<rightharpoonup> bytes" "IncomingMessage option"

definition push_turn :: "bytes \<Rightarrow> (u16 \<rightharpoonup> bytes) \<Rightarrow> turn" where
  "push_turn buf chunks =
     (if length buf < FrameHeader_SIZE then NeedMore
      else (case FrameHeader_read (take FrameHeader_SIZE buf) of
              None \<Rightarrow> Fail (MuxUnknownMsgType (UnknownMsgType 0))
            | Some hdr \<Rightarrow>
                (let plen = unat (hdr_payload_len hdr); total = FrameHeader_SIZE + plen in
                 if plen > MAX_PAYLOAD_LEN then Fail (PayloadTooLarge (hdr_payload_len hdr))
                 else if length buf < total then NeedMore
                 else (case header_msg_type hdr of
                         Inl e \<Rightarrow> Fail (MuxUnknownMsgType e)
                       | Inr _ \<Rightarrow>
                           (let pl = drop FrameHeader_SIZE (take total buf);
                                (chunks', msg) = reassemble chunks hdr pl
                            in Took (drop total buf) chunks' msg)))))"

lemma push_turn_shrinks: "push_turn buf chunks = Took buf' chunks' msg \<Longrightarrow> length buf' < length buf"
  by (auto simp: push_turn_def Let_def split: if_splits option.splits sum.splits prod.splits)

function push_loop ::
  "bytes \<Rightarrow> (u16 \<rightharpoonup> bytes) \<Rightarrow> IncomingMessage list
   \<Rightarrow> StreamParser \<times> (MultiplexerError + IncomingMessage list)" where
  "push_loop buf chunks out =
     (case push_turn buf chunks of
        NeedMore \<Rightarrow> (\<lparr>sp_buf = buf, sp_chunks = chunks\<rparr>, Inr out)
      | Fail e \<Rightarrow> (\<lparr>sp_buf = buf, sp_chunks = chunks\<rparr>, Inl e)
      | Took buf' chunks' msg \<Rightarrow>
          push_loop buf' chunks' (case msg of None \<Rightarrow> out | Some m \<Rightarrow> out @ [m]))"
  by pat_completeness auto
termination
  by (relation "measure (\<lambda>(buf, _). length buf)") (auto simp: push_turn_shrinks)

declare push_loop.simps [simp del]

definition push ::
  "StreamParser \<Rightarrow> bytes \<Rightarrow> StreamParser \<times> (MultiplexerError + IncomingMessage list)" where
  "push p data = push_loop (sp_buf p @ data) (sp_chunks p) []"

definition in_progress_streams :: "StreamParser \<Rightarrow> nat" where
  "in_progress_streams p = card (dom (sp_chunks p))"

section \<open>Flow control\<close>

datatype flow_op = Send usize bool | Sent usize

fun flow_step :: "FlowController \<Rightarrow> flow_op \<Rightarrow> FlowController" where
  "flow_step fc (Send n a) = fst (should_send fc n a)"
| "flow_step fc (Sent n) = on_sent fc n"

fun anchor_bytes :: "flow_op list \<Rightarrow> nat" where
  "anchor_bytes [] = 0"
| "anchor_bytes (Send n True # ops) = n + anchor_bytes ops"
| "anchor_bytes (_ # ops) = anchor_bytes ops"

lemma flow_step_watermark [simp]: "high_watermark (flow_step fc op) = high_watermark fc"
  by (cases op) (auto simp: should_send_def on_sent_def)

lemma flow_step_pending:
  assumes "pending fc \<le> high_watermark fc + k"
  shows "pending (flow_step fc op) \<le> high_watermark fc + k + anchor_bytes [op]"
proof (cases op)
  case (Send n a)
  have "usize_add (pending fc) n \<le> pending fc + n" by (simp add: usize_add_def)
  then show ?thesis using assms Send
    by (cases a) (auto simp: should_send_def saturating_add_def usize_add_def min_def split: if_splits)
qed (use assms in \<open>simp add: on_sent_def saturating_sub_def\<close>)

lemma fold_flow_step_pending:
  "pending fc \<le> high_watermark fc + k \<Longrightarrow>
   pending (fold (\<lambda>op c. flow_step c op) ops fc) \<le> high_watermark fc + k + anchor_bytes ops"
proof (induction ops arbitrary: fc k)
  case (Cons op ops)
  have "anchor_bytes (op # ops) = anchor_bytes [op] + anchor_bytes ops"
    by (cases op; cases "\<exists>n. op = Send n True") auto
  then show ?case
    using Cons.IH [of "flow_step fc op" "k + anchor_bytes [op]"] flow_step_pending [OF Cons.prems, of op]
    by (simp add: add.assoc)
qed simp

section \<open>Fragmentation\<close>

lemma push_turn_Took_append:
  "push_turn buf ch = Took buf' ch' m \<Longrightarrow> push_turn (buf @ xs) ch = Took (buf' @ xs) ch' m"
  by (auto simp: push_turn_def Let_def split: if_splits option.splits sum.splits prod.splits)

lemma push_turn_Fail_append:
  "push_turn buf ch = Fail e \<Longrightarrow> push_turn (buf @ xs) ch = Fail e"
  by (auto simp: push_turn_def Let_def split: if_splits option.splits sum.splits prod.splits)

lemma push_loop_append_Inr:
  "push_loop buf ch out = (p, Inr ms) \<Longrightarrow>
   push_loop (buf @ xs) ch out = push_loop (sp_buf p @ xs) (sp_chunks p) ms"
proof (induction buf ch out rule: push_loop.induct)
  case (1 buf ch out)
  show ?case
  proof (cases "push_turn buf ch")
    case NeedMore
    with 1(2) show ?thesis by (auto simp: push_loop.simps [of buf])
  next
    case (Fail e)
    with 1(2) show ?thesis by (simp add: push_loop.simps [of buf])
  next
    case (Took b' c' m)
    from 1(2) Took have "push_loop b' c' (case m of None \<Rightarrow> out | Some m \<Rightarrow> out @ [m]) = (p, Inr ms)"
      by (simp add: push_loop.simps [of buf])
    from 1(1) [OF Took this] Took show ?thesis
      by (simp add: push_loop.simps [of "buf @ xs"] push_turn_Took_append)
  qed
qed

lemma push_loop_append_Inl:
  "push_loop buf ch out = (p, Inl e) \<Longrightarrow>
   push_loop (buf @ xs) ch out = (p\<lparr>sp_buf := sp_buf p @ xs\<rparr>, Inl e)"
proof (induction buf ch out rule: push_loop.induct)
  case (1 buf ch out)
  show ?case
  proof (cases "push_turn buf ch")
    case NeedMore
    with 1(2) show ?thesis by (simp add: push_loop.simps [of buf])
  next
    case (Fail e')
    with 1(2) show ?thesis
      by (auto simp: push_loop.simps [of buf] push_loop.simps [of "buf @ xs"] push_turn_Fail_append)
  next
    case (Took b' c' m)
    from 1(2) Took have "push_loop b' c' (case m of None \<Rightarrow> out | Some m \<Rightarrow> out @ [m]) = (p, Inl e)"
      by (simp add: push_loop.simps [of buf])
    from 1(1) [OF Took this] Took show ?thesis
      by (simp add: push_loop.simps [of "buf @ xs"] push_turn_Took_append)
  qed
qed

lemma push_loop_out:
  "push_loop buf ch (pre @ out) =
   (case push_loop buf ch out of (p, Inl e) \<Rightarrow> (p, Inl e) | (p, Inr ms) \<Rightarrow> (p, Inr (pre @ ms)))"
proof (induction buf ch out rule: push_loop.induct)
  case (1 buf ch out)
  show ?case
  proof (cases "push_turn buf ch")
    case (Took b' c' m)
    have "push_loop b' c' (pre @ (case m of None \<Rightarrow> out | Some m \<Rightarrow> out @ [m])) =
        (case push_loop b' c' (case m of None \<Rightarrow> out | Some m \<Rightarrow> out @ [m]) of
           (p, Inl e) \<Rightarrow> (p, Inl e) | (p, Inr ms) \<Rightarrow> (p, Inr (pre @ ms)))"
      by (rule 1 [OF Took])
    then show ?thesis using Took
      by (cases m) (simp_all add: push_loop.simps [of buf])
  qed (simp_all add: push_loop.simps [of buf])
qed

section \<open>One frame, one message\<close>

lemma push_turn_frame:
  assumes "unat (hdr_payload_len h) = length pl" and "length pl \<le> MAX_PAYLOAD_LEN"
    and "header_msg_type h = Inr t"
  shows "push_turn (FrameHeader_bytes h @ pl @ rest) ch =
           Took rest (fst (reassemble ch h pl)) (snd (reassemble ch h pl))"
  using assms header.get_prefix [OF TrueI, of h "pl @ rest"]
  by (simp add: push_turn_def Let_def split: prod.splits)

function chunks_of :: "nat \<Rightarrow> 'a list \<Rightarrow> 'a list list" where
  "chunks_of n xs = (if n = 0 \<or> xs = [] then [] else take n xs # chunks_of n (drop n xs))"
  by pat_completeness auto
termination by (relation "measure (\<lambda>(n, xs). length xs)") auto

declare chunks_of.simps [simp del]

lemma chunks_of_Nil [simp]: "chunks_of n [] = []"
  by (simp add: chunks_of.simps)

lemma concat_chunks_of: "n \<noteq> 0 \<Longrightarrow> concat (chunks_of n xs) = xs"
  by (induction n xs rule: chunks_of.induct) (simp add: chunks_of.simps)

lemma chunks_of_bounds: "c \<in> set (chunks_of n xs) \<Longrightarrow> 0 < length c \<and> length c \<le> n"
proof (induction n xs rule: chunks_of.induct)
  case (1 n xs)
  show ?case
  proof (cases "n = 0 \<or> xs = []")
    case False
    with "1.prems" have "c = take n xs \<or> c \<in> set (chunks_of n (drop n xs))"
      by (simp add: chunks_of.simps [of n xs])
    with "1.IH" [OF False] False show ?thesis by auto
  qed (use "1.prems" in \<open>simp add: chunks_of.simps [of n xs]\<close>)
qed

lemma chunks_of_eq_Nil [simp]: "chunks_of n xs = [] \<longleftrightarrow> n = 0 \<or> xs = []"
  by (simp add: chunks_of.simps)

fun frames_wire :: "u16 \<Rightarrow> MsgType \<Rightarrow> u8 \<Rightarrow> u64 \<Rightarrow> bytes list \<Rightarrow> bytes" where
  "frames_wire sid mt extra ts [] = []"
| "frames_wire sid mt extra ts [c] =
     FrameHeader_bytes (FrameHeader_new sid mt (extra OR LAST_CHUNK) (word_of_nat (length c)) ts) @ c"
| "frames_wire sid mt extra ts (c # cs) =
     FrameHeader_bytes (FrameHeader_new sid mt extra (word_of_nat (length c)) ts) @ c
     @ frames_wire sid mt extra ts cs"

lemma split_loop_frames:
  assumes "0 < cs" and "cs \<le> length pl \<or> cs < 9223372036854775808" and "length pl < 9223372036854775808"
  shows "split_loop sid mt extra pl ts cs off dst =
         Some (dst @ frames_wire sid mt extra ts (chunks_of cs (drop off pl)))"
proof (induction "length pl - off" arbitrary: off dst rule: less_induct)
  case less
  show ?case
  proof (cases "off < length pl")
    case False
    then show ?thesis by (simp add: split_loop.simps chunks_of.simps)
  next
    case True
    define fin where "fin = min (usize_add off cs) (length pl)"
    have fin: "fin = min (off + cs) (length pl)"
      using assms True by (auto simp: fin_def no_wrap)
    define c where "c = take cs (drop off pl)"
    have sl: "vslice pl off fin = Some c"
      using True assms(1) by (auto simp: vslice_def fin c_def min_def)
    have rest: "drop fin pl = drop cs (drop off pl)"
      by (auto simp: fin min_def add.commute)
    have ch: "chunks_of cs (drop off pl) = c # chunks_of cs (drop fin pl)"
      using True assms(1) by (subst chunks_of.simps) (simp add: c_def rest)
    have "length pl - fin < length pl - off" using True assms(1) by (auto simp: fin min_def)
    note IH = less [OF this]
    show ?thesis
    proof (cases "fin = length pl")
      case last: True
      then have "chunks_of cs (drop fin pl) = []" by simp
      moreover note IH [unfolded last] sl [unfolded last]
      ultimately show ?thesis using True ch last
        by (subst split_loop.simps) (simp add: Let_def fin_def [symmetric])
    next
      case False
      then have "fin < length pl" by (simp add: fin)
      then obtain d ds where "chunks_of cs (drop fin pl) = d # ds"
        using assms(1) by (cases "chunks_of cs (drop fin pl)") auto
      then show ?thesis using True ch False
        by (subst split_loop.simps) (simp add: Let_def fin_def [symmetric] sl IH)
    qed
  qed
qed

lemma split_into_chunks_frames:
  assumes "0 < cs" and "cs < 9223372036854775808" and "length pl < 9223372036854775808"
  shows "split_into_chunks sid mt extra pl ts cs dst =
         Some (dst @ frames_wire sid mt extra ts (if pl = [] then [[]] else chunks_of cs pl))"
  using assms split_loop_frames [of cs pl sid mt extra ts 0 dst]
  by (simp add: split_into_chunks_def)

lemma last_chunk_set [simp]: "(e OR LAST_CHUNK) AND LAST_CHUNK \<noteq> 0"
proof
  assume "(e OR LAST_CHUNK) AND LAST_CHUNK = 0"
  then have "bit ((e OR LAST_CHUNK) AND LAST_CHUNK) 1 = bit (0 :: u8) 1" by (rule arg_cong)
  then show False by (simp add: bit_simps LAST_CHUNK_def)
qed

lemma LAST_CHUNK_nonzero [simp]: "LAST_CHUNK \<noteq> 0"
  by (simp add: LAST_CHUNK_def)

lemma header_msg_type_new [simp]: "header_msg_type (FrameHeader_new sid mt fl n ts) = Inr mt"
  by (simp add: header_msg_type_def FrameHeader_new_def msg_type.try_from_to)

lemma FrameHeader_new_simps [simp]:
  "hdr_stream_id (FrameHeader_new sid mt fl n ts) = sid"
  "hdr_flags (FrameHeader_new sid mt fl n ts) = fl"
  "hdr_payload_len (FrameHeader_new sid mt fl n ts) = n"
  "hdr_timestamp_ns (FrameHeader_new sid mt fl n ts) = ts"
  "hdr_msg_type (FrameHeader_new sid mt fl n ts) = MsgType_to_u8 mt"
  by (simp_all add: FrameHeader_new_def)

definition sofar :: "(u16 \<rightharpoonup> bytes) \<Rightarrow> u16 \<Rightarrow> bytes" where
  "sofar ch sid = (case ch sid of None \<Rightarrow> [] | Some b \<Rightarrow> b)"

lemma reassemble_last:
  "hdr_flags h AND LAST_CHUNK \<noteq> 0 \<Longrightarrow>
   reassemble ch h pl = (ch(hdr_stream_id h := None),
      Some \<lparr>im_header = h, im_payload = sofar ch (hdr_stream_id h) @ pl\<rparr>)"
  by (auto simp: reassemble_def Let_def sofar_def split: option.splits)

lemma reassemble_more:
  "hdr_flags h AND LAST_CHUNK = 0 \<Longrightarrow>
   reassemble ch h pl = (ch(hdr_stream_id h \<mapsto> sofar ch (hdr_stream_id h) @ pl), None)"
  by (simp add: reassemble_def Let_def sofar_def)

lemma sofar_upd [simp]: "sofar (ch(sid \<mapsto> b)) sid = b" "ch sid = None \<Longrightarrow> sofar ch sid = []"
  by (simp_all add: sofar_def)

lemma push_loop_frame:
  assumes "length pl \<le> MAX_PAYLOAD_LEN"
  shows "push_loop (FrameHeader_bytes (FrameHeader_new sid mt fl (word_of_nat (length pl)) ts) @ pl @ rest) ch out =
     (if fl AND LAST_CHUNK = 0
      then push_loop rest (ch(sid \<mapsto> sofar ch sid @ pl)) out
      else push_loop rest (ch(sid := None))
             (out @ [\<lparr>im_header = FrameHeader_new sid mt fl (word_of_nat (length pl)) ts,
                      im_payload = sofar ch sid @ pl\<rparr>]))"
proof -
  let ?h = "FrameHeader_new sid mt fl (word_of_nat (length pl)) ts"
  have "unat (hdr_payload_len ?h) = length pl"
    using assms by (simp add: unat_word_of_nat)
  from push_turn_frame [OF this assms, of mt rest ch]
  have "push_turn (FrameHeader_bytes ?h @ pl @ rest) ch =
      Took rest (fst (reassemble ch ?h pl)) (snd (reassemble ch ?h pl))" by simp
  then show ?thesis
    by (subst push_loop.simps) (simp add: reassemble_last reassemble_more)
qed

lemma push_loop_frames:
  assumes "cl \<noteq> []" and "\<forall>c \<in> set cl. length c \<le> MAX_PAYLOAD_LEN" and "extra AND LAST_CHUNK = 0"
  shows "push_loop (frames_wire sid mt extra ts cl @ rest) ch out =
     push_loop rest (ch(sid := None))
       (out @ [\<lparr>im_header = FrameHeader_new sid mt (extra OR LAST_CHUNK) (word_of_nat (length (last cl))) ts,
                im_payload = sofar ch sid @ concat cl\<rparr>])"
  using assms(1,2)
proof (induction cl arbitrary: ch rule: list_nonempty_induct)
  case (single c)
  then show ?case using push_loop_frame [of c sid mt "extra OR LAST_CHUNK" ts rest ch out]
    by (simp del: fun_upd_apply)
next
  case (cons c cl)
  then obtain d ds where cl: "cl = d # ds" by (cases cl) auto
  have "push_loop (frames_wire sid mt extra ts (c # cl) @ rest) ch out =
      push_loop (frames_wire sid mt extra ts cl @ rest) (ch(sid \<mapsto> sofar ch sid @ c)) out"
    using push_loop_frame [of c sid mt extra ts "frames_wire sid mt extra ts cl @ rest" ch out]
      cons.prems assms(3) by (simp add: cl)
  also have "\<dots> = push_loop rest ((ch(sid \<mapsto> sofar ch sid @ c))(sid := None))
       (out @ [\<lparr>im_header = FrameHeader_new sid mt (extra OR LAST_CHUNK)
                              (word_of_nat (length (last cl))) ts,
                im_payload = sofar ch sid @ c @ concat cl\<rparr>])"
    using cons.IH [of "ch(sid \<mapsto> sofar ch sid @ c)"] cons.prems by (simp del: fun_upd_apply)
  finally show ?case using cons.hyps by (simp del: fun_upd_apply)
qed

section \<open>Sequences of messages\<close>

record Outgoing =
  out_sid :: u16
  out_type :: MsgType
  out_flags :: u8
  out_ts :: u64
  out_payload :: bytes

definition wire_of :: "usize \<Rightarrow> Outgoing \<Rightarrow> bytes option" where
  "wire_of cs m = split_into_chunks (out_sid m) (out_type m) (out_flags m) (out_payload m) (out_ts m) cs []"

definition delivered :: "usize \<Rightarrow> Outgoing \<Rightarrow> IncomingMessage" where
  "delivered cs m =
     (let cl = (if out_payload m = [] then [[]] else chunks_of cs (out_payload m)) in
      \<lparr>im_header = FrameHeader_new (out_sid m) (out_type m) (out_flags m OR LAST_CHUNK)
                     (word_of_nat (length (last cl))) (out_ts m),
       im_payload = out_payload m\<rparr>)"

definition sendable :: "Outgoing \<Rightarrow> bool" where
  "sendable m \<longleftrightarrow> out_flags m AND LAST_CHUNK = 0 \<and> length (out_payload m) < 9223372036854775808"

lemma push_loop_message:
  assumes "0 < cs" and "cs \<le> MAX_PAYLOAD_LEN" and "sendable m" and "ch (out_sid m) = None"
  shows "\<exists>w. wire_of cs m = Some w \<and>
     (\<forall>rest out. push_loop (w @ rest) ch out = push_loop rest ch (out @ [delivered cs m]))"
proof -
  let ?cl = "if out_payload m = [] then [[]] else chunks_of cs (out_payload m)"
  let ?w = "frames_wire (out_sid m) (out_type m) (out_flags m) (out_ts m) ?cl"
  have "wire_of cs m = Some ?w"
    using assms by (simp add: wire_of_def sendable_def split_into_chunks_frames)
  moreover have "\<forall>c \<in> set ?cl. length c \<le> MAX_PAYLOAD_LEN"
    using assms(2) chunks_of_bounds [of _ cs "out_payload m"] by (auto dest!: chunks_of_bounds)
  moreover have "concat ?cl = out_payload m" using assms(1) by (simp add: concat_chunks_of)
  moreover have "ch(out_sid m := None) = ch" using assms(4) by (simp add: fun_upd_idem)
  ultimately show ?thesis
    using push_loop_frames [of ?cl "out_flags m" "out_sid m" "out_type m" "out_ts m" _ ch] assms
    by (auto simp: sendable_def delivered_def Let_def)
qed

fun feed :: "StreamParser \<Rightarrow> bytes list \<Rightarrow> StreamParser \<times> (MultiplexerError + IncomingMessage list)" where
  "feed p [] = (p, Inr [])"
| "feed p (d # ds) =
     (case push p d of
        (p', Inl e) \<Rightarrow> (p', Inl e)
      | (p', Inr ms) \<Rightarrow>
          (case feed p' ds of (q, Inl e) \<Rightarrow> (q, Inl e) | (q, Inr ms') \<Rightarrow> (q, Inr (ms @ ms'))))"

lemma push_append_Inr:
  "push p a = (p1, Inr ms) \<Longrightarrow>
   push p (a @ b) = (case push p1 b of (q, Inl e) \<Rightarrow> (q, Inl e) | (q, Inr ms') \<Rightarrow> (q, Inr (ms @ ms')))"
  using push_loop_append_Inr [of "sp_buf p @ a" "sp_chunks p" "[]" p1 ms b]
    push_loop_out [of "sp_buf p1 @ b" "sp_chunks p1" ms "[]"]
  by (simp add: push_def)

lemma push_append_Inl:
  "push p a = (p1, Inl e) \<Longrightarrow> push p (a @ b) = (p1\<lparr>sp_buf := sp_buf p1 @ b\<rparr>, Inl e)"
  using push_loop_append_Inl [of "sp_buf p @ a" "sp_chunks p" "[]" p1 e b] by (simp add: push_def)

text \<open>A parser that has been drained: its buffer holds no complete frame.\<close>

definition drained :: "StreamParser \<Rightarrow> bool" where
  "drained p \<longleftrightarrow> push_turn (sp_buf p) (sp_chunks p) = NeedMore"

lemma push_Nil: "drained p \<Longrightarrow> push p [] = (p, Inr [])"
  by (simp add: push_def drained_def push_loop.simps)

lemma push_loop_drained: "push_loop buf ch out = (p, Inr ms) \<Longrightarrow> drained p"
proof (induction buf ch out rule: push_loop.induct)
  case (1 buf ch out)
  then show ?case
    by (cases "push_turn buf ch") (auto simp: push_loop.simps [of buf] drained_def)
qed

lemma push_drained: "push p d = (p', Inr ms) \<Longrightarrow> drained p'"
  unfolding push_def by (rule push_loop_drained)

lemma feed_push_Inr:
  "drained p \<Longrightarrow> push p (concat ds) = (q, Inr ms) \<Longrightarrow> feed p ds = (q, Inr ms)"
proof (induction ds arbitrary: p ms)
  case (Cons d ds)
  show ?case
  proof (cases "push p d")
    case (Pair p1 r)
    show ?thesis
    proof (cases r)
      case (Inl e)
      with Pair Cons.prems(2) push_append_Inl [of p d p1 e "concat ds"] show ?thesis by simp
    next
      case (Inr ms1)
      with Pair have "drained p1" by (simp add: push_drained)
      with Pair Inr Cons push_append_Inr [of p d p1 ms1 "concat ds"] show ?thesis
        by (auto split: prod.splits sum.splits)
    qed
  qed
qed (simp add: push_Nil)

lemma feed_push_Inl:
  "drained p \<Longrightarrow> push p (concat ds) = (q, Inl e) \<Longrightarrow> \<exists>q'. feed p ds = (q', Inl e)"
proof (induction ds arbitrary: p)
  case (Cons d ds)
  show ?case
  proof (cases "push p d")
    case (Pair p1 r)
    show ?thesis
    proof (cases r)
      case (Inl e')
      with Pair Cons.prems(2) push_append_Inl [of p d p1 e' "concat ds"] show ?thesis by simp
    next
      case (Inr ms1)
      with Pair have "drained p1" by (simp add: push_drained)
      moreover have "push p1 (concat ds) = (q, Inl e)"
        using Pair Inr Cons.prems(2) push_append_Inr [of p d p1 ms1 "concat ds"]
        by (auto split: prod.splits sum.splits)
      ultimately obtain q' where "feed p1 ds = (q', Inl e)" using Cons.IH by blast
      with Pair Inr show ?thesis by simp
    qed
  qed
qed (simp add: push_Nil)

lemma drained_new [simp]: "drained StreamParser_new"
  by (simp add: drained_def StreamParser_new_def push_turn_def)

lemma push_loop_messages:
  assumes "0 < cs" and "cs \<le> MAX_PAYLOAD_LEN" and "\<forall>m \<in> set ms. sendable m"
    and "list_all2 (\<lambda>m w. wire_of cs m = Some w) ms ws"
  shows "push_loop (concat ws @ rest) Map.empty out = push_loop rest Map.empty (out @ map (delivered cs) ms)"
  using assms(4,3)
proof (induction ms ws arbitrary: out rule: list_all2_induct)
  case (Cons m ms w ws)
  then have "push_loop (w @ concat ws @ rest) Map.empty out =
      push_loop (concat ws @ rest) Map.empty (out @ [delivered cs m])"
    using push_loop_message [OF assms(1,2), of m Map.empty] by auto
  with Cons show ?case by simp
qed simp

lemma push_messages:
  assumes "0 < cs" and "cs \<le> MAX_PAYLOAD_LEN" and "\<forall>m \<in> set ms. sendable m"
    and "list_all2 (\<lambda>m w. wire_of cs m = Some w) ms ws"
  shows "push StreamParser_new (concat ws) = (StreamParser_new, Inr (map (delivered cs) ms))"
  using push_loop_messages [OF assms, of "[]" "[]"]
  by (simp add: push_def StreamParser_new_def push_loop.simps [of "[]"] push_turn_def)


lemma length_chunks_of: "0 < n \<Longrightarrow> length (chunks_of n xs) = (length xs + n - 1) div n"
proof (induction n xs rule: chunks_of.induct)
  case (1 n xs)
  show ?case
  proof (cases "xs = []")
    case False
    with 1 have IH: "length (chunks_of n (drop n xs)) = (length xs - n + n - 1) div n" by simp
    have "(length xs + n - 1) div n = Suc ((length xs - n + n - 1) div n)"
    proof (cases "n \<le> length xs")
      case True
      then have "length xs + n - 1 = (length xs - n + n - 1) + n" using "1.prems" by simp
      then show ?thesis using "1.prems" by (metis add.commute div_add_self1 less_not_refl2 plus_1_eq_Suc)
    next
      case f: False
      then have "(length xs - n + n - 1) div n = 0" using "1.prems" by simp
      moreover have "(length xs + n - 1) div n = 1"
      proof (rule div_nat_eqI)
        show "n * 1 \<le> length xs + n - 1" using False by (cases xs) auto
        show "length xs + n - 1 < n * Suc 1" using f by simp
      qed
      ultimately show ?thesis by simp
    qed
    with IH False "1.prems" show ?thesis by (simp add: chunks_of.simps [of n xs])
  qed (use "1.prems" in simp)
qed

lemma length_frames_wire:
  "length (frames_wire sid mt extra ts cl) = FrameHeader_SIZE * length cl + length (concat cl)"
  by (induction sid mt extra ts cl rule: frames_wire.induct) simp_all

lemma chunk_count_ceil: "0 < n \<Longrightarrow> 0 < len \<Longrightarrow> chunk_count len n = (len + n - 1) div n"
proof -
  assume n: "0 < n" and l: "0 < len"
  have "len + n - 1 = (len div n) * n + (len mod n + n - 1)"
    using n by (simp add: algebra_simps)
  then have "(len + n - 1) div n = len div n + (len mod n + n - 1) div n"
    using n by (metis add.commute div_mult_self1 less_not_refl2)
  moreover have "(len mod n + n - 1) div n = (if len mod n > 0 then 1 else 0)"
  proof (cases "len mod n > 0")
    case True
    have "(len mod n + n - 1) div n = 1"
      by (rule div_nat_eqI) (use True n mod_less_divisor [OF n, of len] in auto)
    with True show ?thesis by simp
  qed (use n in simp)
  ultimately show ?thesis using n l by (simp add: chunk_count_def)
qed

lemma push_turn_oversize:
  "MAX_PAYLOAD_LEN < unat (hdr_payload_len h) \<Longrightarrow>
   push_turn (FrameHeader_bytes h @ rest) ch = Fail (PayloadTooLarge (hdr_payload_len h))"
  using header.get_prefix [OF TrueI, of h rest] by (simp add: push_turn_def)

lemma push_turn_unknown:
  assumes "unat (hdr_payload_len h) = length pl" and "length pl \<le> MAX_PAYLOAD_LEN"
    and "header_msg_type h = Inl e"
  shows "push_turn (FrameHeader_bytes h @ pl @ rest) ch = Fail (MuxUnknownMsgType e)"
  using assms header.get_prefix [OF TrueI, of h "pl @ rest"] by (simp add: push_turn_def)

section \<open>Properties\<close>

text \<open>Backpressure: along any sequence of \<open>should_send\<close> and \<open>on_sent\<close> calls on a fresh
  controller, the pending bytes never exceed the high watermark by more than the bytes of
  the anchor frames, which are the only chunks admitted above it.\<close>

theorem flow_control_bound:
  "pending_bytes (fold (\<lambda>op fc. flow_step fc op) ops (FlowController_new hw)) \<le> hw + anchor_bytes ops"
  using fold_flow_step_pending [of "FlowController_new hw" 0 ops]
  by (simp add: pending_bytes_def FlowController_new_def)

text \<open>Chunking terminates: for a non-zero chunk size, \<open>split_into_chunks\<close> returns, keeps what
  \<^verbatim>\<open>dst\<close> held, and writes one 16-byte header per chunk, as many as \<open>chunk_count\<close> announces,
  and every payload byte once.\<close>

theorem split_into_chunks_returns:
  assumes "0 < cs" and "cs < 9223372036854775808" and "length pl < 9223372036854775808"
  shows "\<exists>w. split_into_chunks sid mt extra pl ts cs dst = Some (dst @ w) \<and>
             length w = FrameHeader_SIZE * chunk_count (length pl) cs + length pl"
proof (cases "pl = []")
  case True
  then show ?thesis by (simp add: split_into_chunks_def chunk_count_def)
next
  case False
  then have "chunk_count (length pl) cs = length (chunks_of cs pl)"
    using assms(1) by (simp add: chunk_count_ceil length_chunks_of)
  with False assms show ?thesis
    by (simp add: split_into_chunks_frames length_frames_wire concat_chunks_of)
qed

theorem split_into_chunks_returns_witness:
  "\<exists>w. split_into_chunks 1 FrameUpdate COMPRESSED [7, 8, 9] 5 2 [1] = Some ([1] @ w) \<and>
       length w = FrameHeader_SIZE * chunk_count (length [7, 8, 9 :: u8]) 2 + length [7, 8, 9 :: u8]"
  by (rule split_into_chunks_returns) simp_all

text \<open>What a caller sees of a run: the error, or the messages and the parser it goes on with.\<close>

definition feed_outcome ::
  "StreamParser \<times> (MultiplexerError + IncomingMessage list)
   \<Rightarrow> MultiplexerError + (StreamParser \<times> IncomingMessage list)" where
  "feed_outcome r = (case snd r of Inl e \<Rightarrow> Inl e | Inr ms \<Rightarrow> Inr (fst r, ms))"

text \<open>The parser does not depend on how the stream is cut: two fragmentations of the same
  bytes give the same messages in the same order and the same parser state, or fail with
  the same error.\<close>

theorem parser_fragmentation:
  assumes "concat ds = concat ds'"
  shows "feed_outcome (feed StreamParser_new ds) = feed_outcome (feed StreamParser_new ds')"
proof (cases "push StreamParser_new (concat ds)")
  case (Pair q r)
  show ?thesis
  proof (cases r)
    case (Inl e)
    then show ?thesis
      using Pair assms feed_push_Inl [OF drained_new, of ds q e] feed_push_Inl [OF drained_new, of ds' q e]
      by (auto simp: feed_outcome_def)
  next
    case (Inr ms)
    then show ?thesis
      using Pair assms feed_push_Inr [OF drained_new, of ds q ms] feed_push_Inr [OF drained_new, of ds' q ms]
      by (auto simp: feed_outcome_def)
  qed
qed

theorem parser_fragmentation_witness:
  "feed_outcome (feed StreamParser_new [[1, 2], [3]]) = feed_outcome (feed StreamParser_new [[1], [2, 3]])"
  by (rule parser_fragmentation) simp

text \<open>C2. Framing round trip: any sequence of messages, chunked by \<open>split_into_chunks\<close> with a chunk
  size between 1 byte and 4 MiB and sent back to back, is delivered by the stream parser
  whatever the fragmentation: the same payloads, types, streams and timestamps in the same
  order, with the last-chunk flag set, and no bytes or partial streams left behind.\<close>

theorem chunk_stream_roundtrip:
  assumes "0 < cs" and "cs \<le> MAX_PAYLOAD_LEN" and "\<forall>m \<in> set ms. sendable m"
    and "list_all2 (\<lambda>m w. wire_of cs m = Some w) ms ws" and "concat frags = concat ws"
  shows "feed StreamParser_new frags = (StreamParser_new, Inr (map (delivered cs) ms))"
  using push_messages [OF assms(1-4)] assms(5) by (simp add: feed_push_Inr)

theorem chunk_stream_roundtrip_witness:
  "\<exists>w. feed StreamParser_new [w] = (StreamParser_new, Inr (map (delivered 2)
     [\<lparr>out_sid = 1, out_type = FrameUpdate, out_flags = COMPRESSED, out_ts = 5, out_payload = [7, 8, 9]\<rparr>]))"
proof -
  let ?m = "\<lparr>out_sid = 1, out_type = FrameUpdate, out_flags = COMPRESSED, out_ts = 5, out_payload = [7, 8, 9]\<rparr>"
  have s: "sendable ?m" by (simp add: sendable_def COMPRESSED_def LAST_CHUNK_def)
  obtain w where "wire_of 2 ?m = Some w"
    using push_loop_message [of 2 ?m Map.empty] s by auto
  then have "feed StreamParser_new [w] = (StreamParser_new, Inr (map (delivered 2) [?m]))"
    using s by (intro chunk_stream_roundtrip [where ws = "[w]"]) simp_all
  then show ?thesis by blast
qed

text \<open>Hostile lengths are refused early: as soon as the 16 header bytes of a frame that declares
  more than 4 MiB are in the buffer, \<open>push\<close> fails with the declared length, whatever follows
  and whatever was in progress, and the payload is never buffered as a message.\<close>

theorem oversize_frame_rejected:
  assumes "MAX_PAYLOAD_LEN < unat (hdr_payload_len h)"
  shows "push \<lparr>sp_buf = [], sp_chunks = ch\<rparr> (FrameHeader_bytes h @ rest) =
         (\<lparr>sp_buf = FrameHeader_bytes h @ rest, sp_chunks = ch\<rparr>, Inl (PayloadTooLarge (hdr_payload_len h)))"
  using push_turn_oversize [OF assms, of rest ch] by (simp add: push_def push_loop.simps)

theorem oversize_frame_rejected_witness:
  "push \<lparr>sp_buf = [], sp_chunks = Map.empty\<rparr> (FrameHeader_bytes (FrameHeader_new 1 FrameUpdate 2 4194305 0) @ []) =
   (\<lparr>sp_buf = FrameHeader_bytes (FrameHeader_new 1 FrameUpdate 2 4194305 0) @ [], sp_chunks = Map.empty\<rparr>,
    Inl (PayloadTooLarge (hdr_payload_len (FrameHeader_new 1 FrameUpdate 2 4194305 0))))"
  by (rule oversize_frame_rejected) (simp add: FrameHeader_new_def)

end
