(* ===== verification/Delta.thy ===== *)
theory Delta
  imports Prelude
begin

text \<open>
  \<^verbatim>\<open>crates/remoteway-compress/src/delta.rs\<close>: XOR deltas of the damaged regions of a frame.
  \<open>delta_encode_scalar\<close>, \<open>delta_encode_simd\<close> and \<open>delta_decode\<close> follow the nested loops of
  the source, every slice and index checked. The reference view is the list \<open>segments\<close> of the
  row ranges the loops visit: the encoders emit the XOR of those ranges, the decoder patches
  them. The locale \<open>row_xor\<close> is what the encoding loop needs of the routine that XORs one
  row; it is interpreted for the scalar iterator and for the vectorised routine. The lanes
  of \<^verbatim>\<open>wide::u8x32\<close> are a parameter, assumed to XOR byte by byte.
\<close>

section \<open>Damage rectangles\<close>

record DamageRect =
  dr_x :: u32
  dr_y :: u32
  dr_width :: u32
  dr_height :: u32

definition DamageRect_new :: "u32 \<Rightarrow> u32 \<Rightarrow> u32 \<Rightarrow> u32 \<Rightarrow> DamageRect" where
  "DamageRect_new x y w h = \<lparr>dr_x = x, dr_y = y, dr_width = w, dr_height = h\<rparr>"

definition pixel_count :: "DamageRect \<Rightarrow> usize" where
  "pixel_count r = usize_mul (unat (dr_width r)) (unat (dr_height r))"

section \<open>Encoding\<close>

text \<open>The byte range of one row of a rectangle, as computed at the top of both encoders.\<close>

definition row_range :: "usize \<Rightarrow> DamageRect \<Rightarrow> usize \<Rightarrow> usize \<times> usize" where
  "row_range stride rect row =
     (let y = usize_add (unat (dr_y rect)) row;
          x_start = usize_mul (unat (dr_x rect)) 4;
          x_end = usize_add x_start (usize_mul (unat (dr_width rect)) 4)
      in (usize_add (usize_mul y stride) x_start, usize_add (usize_mul y stride) x_end))"

definition encode_row ::
  "(bytes \<Rightarrow> bytes \<Rightarrow> bytes \<Rightarrow> bytes option) \<Rightarrow> bytes \<Rightarrow> bytes \<Rightarrow> usize \<Rightarrow> DamageRect \<Rightarrow> usize \<Rightarrow> bytes
   \<Rightarrow> bytes option" where
  "encode_row xor_row current previous stride rect row out = do {
     let (row_start, row_end) = row_range stride rect row;
     cur \<leftarrow> vslice current row_start row_end;
     prev \<leftarrow> vslice previous row_start row_end;
     xor_row cur prev out
   }"

definition delta_encode_with ::
  "(bytes \<Rightarrow> bytes \<Rightarrow> bytes \<Rightarrow> bytes option) \<Rightarrow> bytes \<Rightarrow> bytes \<Rightarrow> usize \<Rightarrow> DamageRect list \<Rightarrow> bytes
   \<Rightarrow> (bytes \<times> usize) option" where
  "delta_encode_with xor_row current previous stride regions output = do {
     out \<leftarrow> fold_opt
             (\<lambda>rect. fold_opt (encode_row xor_row current previous stride rect) [0..<unat (dr_height rect)])
             regions output;
     Some (out, length out - length output)
   }"

definition xor_extend :: "bytes \<Rightarrow> bytes \<Rightarrow> bytes \<Rightarrow> bytes option" where
  "xor_extend cur prev out = Some (out @ map2 (XOR) cur prev)"

definition delta_encode_scalar ::
  "bytes \<Rightarrow> bytes \<Rightarrow> usize \<Rightarrow> DamageRect list \<Rightarrow> bytes \<Rightarrow> (bytes \<times> usize) option" where
  "delta_encode_scalar = delta_encode_with xor_extend"

definition xor_into_vec_simd ::
  "(bytes \<Rightarrow> bytes \<Rightarrow> bytes) \<Rightarrow> bytes \<Rightarrow> bytes \<Rightarrow> bytes \<Rightarrow> bytes option" where
  "xor_into_vec_simd u8x32_xor a b dst = do {
     let len = length a;
     let chunks = len div 32;
     let tail = len mod 32;
     d \<leftarrow> fold_opt (\<lambda>i d. do {
            let off = i * 32;
            va \<leftarrow> vslice a off (off + 32);
            vb \<leftarrow> vslice b off (off + 32);
            Some (d @ u8x32_xor va vb)
          }) [0..<chunks] dst;
     let tail_off = chunks * 32;
     fold_opt (\<lambda>i d. do {
       x \<leftarrow> index a (tail_off + i);
       y \<leftarrow> index b (tail_off + i);
       Some (d @ [x XOR y])
     }) [0..<tail] d
   }"

definition delta_encode_simd ::
  "(bytes \<Rightarrow> bytes \<Rightarrow> bytes) \<Rightarrow> bytes \<Rightarrow> bytes \<Rightarrow> usize \<Rightarrow> DamageRect list \<Rightarrow> bytes
   \<Rightarrow> (bytes \<times> usize) option" where
  "delta_encode_simd u8x32_xor = delta_encode_with (xor_into_vec_simd u8x32_xor)"

section \<open>Decoding\<close>

definition decode_row ::
  "bytes \<Rightarrow> bytes \<Rightarrow> usize \<Rightarrow> DamageRect \<Rightarrow> usize \<Rightarrow> bytes \<times> usize \<Rightarrow> (bytes \<times> usize) option" where
  "decode_row delta previous stride rect row st = do {
     let (out, offset) = st;
     let (row_start, _) = row_range stride rect row;
     let x_start = usize_mul (unat (dr_x rect)) 4;
     let x_end = usize_add x_start (usize_mul (unat (dr_width rect)) 4);
     let row_len = x_end - x_start;
     out' \<leftarrow> fold_opt (\<lambda>i out. do {
               p \<leftarrow> index previous (usize_add row_start i);
               d \<leftarrow> index delta (usize_add offset i);
               (if usize_add row_start i < length out
                then Some (out[usize_add row_start i := p XOR d]) else None)
             }) [0..<row_len] out;
     Some (out', usize_add offset row_len)
   }"

definition delta_decode ::
  "bytes \<Rightarrow> bytes \<Rightarrow> usize \<Rightarrow> DamageRect list \<Rightarrow> bytes \<Rightarrow> bytes option" where
  "delta_decode delta previous stride regions output = do {
     out0 \<leftarrow> (if length output = length previous then Some previous else None);
     (out, _) \<leftarrow> fold_opt
       (\<lambda>rect. fold_opt (decode_row delta previous stride rect) [0..<unat (dr_height rect)])
       regions (out0, 0);
     Some out
   }"

section \<open>The ranges the loops visit\<close>

definition row_seg :: "usize \<Rightarrow> DamageRect \<Rightarrow> nat \<Rightarrow> nat \<times> nat" where
  "row_seg stride r row =
     ((unat (dr_y r) + row) * stride + unat (dr_x r) * 4, unat (dr_width r) * 4)"

definition rect_segments :: "usize \<Rightarrow> DamageRect \<Rightarrow> (nat \<times> nat) list" where
  "rect_segments stride r = map (row_seg stride r) [0..<unat (dr_height r)]"

definition segments :: "usize \<Rightarrow> DamageRect list \<Rightarrow> (nat \<times> nat) list" where
  "segments stride rs = concat (map (rect_segments stride) rs)"

definition seg_fits :: "nat \<Rightarrow> nat \<times> nat \<Rightarrow> bool" where
  "seg_fits len s \<longleftrightarrow> fst s + snd s \<le> len"

text \<open>A rectangle lies inside a frame of \<open>len\<close> bytes, and the frame is addressable.\<close>

definition rect_fits :: "nat \<Rightarrow> usize \<Rightarrow> DamageRect \<Rightarrow> bool" where
  "rect_fits len stride r \<longleftrightarrow> list_all (seg_fits len) (rect_segments stride r)"

definition frame_ok :: "nat \<Rightarrow> usize \<Rightarrow> DamageRect list \<Rightarrow> bool" where
  "frame_ok len stride rs \<longleftrightarrow> len < 9223372036854775808 \<and> list_all (rect_fits len stride) rs"

definition covers :: "nat \<times> nat \<Rightarrow> nat \<Rightarrow> bool" where
  "covers s i \<longleftrightarrow> fst s \<le> i \<and> i < fst s + snd s"

definition covered :: "usize \<Rightarrow> DamageRect list \<Rightarrow> nat \<Rightarrow> bool" where
  "covered stride rs i \<longleftrightarrow> list_ex (\<lambda>s. covers s i) (segments stride rs)"

definition xor_seg :: "bytes \<Rightarrow> bytes \<Rightarrow> nat \<times> nat \<Rightarrow> bytes" where
  "xor_seg cur prev s = map2 (XOR) (take (snd s) (drop (fst s) cur)) (take (snd s) (drop (fst s) prev))"

lemma frame_ok_Cons [simp]:
  "frame_ok len stride (r # rs) \<longleftrightarrow> rect_fits len stride r \<and> frame_ok len stride rs"
  by (auto simp: frame_ok_def)

lemma frame_ok_rectD: "frame_ok len stride rs \<Longrightarrow> r \<in> set rs \<Longrightarrow> rect_fits len stride r"
  by (simp add: frame_ok_def list_all_iff)

lemma segments_simps [simp]:
  "segments stride [] = []" "segments stride (r # rs) = rect_segments stride r @ segments stride rs"
  by (simp_all add: segments_def)

lemma rect_fitsD:
  "rect_fits len stride r \<Longrightarrow> row < unat (dr_height r) \<Longrightarrow>
   (unat (dr_y r) + row) * stride + unat (dr_x r) * 4 + unat (dr_width r) * 4 \<le> len"
  by (simp add: rect_fits_def rect_segments_def list_all_iff seg_fits_def row_seg_def)

lemma u32_times_4: "usize_mul (unat (w :: u32)) 4 = unat w * 4"
  by (rule usize_mul_no_wrap) (use unat_lt_u32 [of w] in simp)

lemma u32_extent:
  "usize_add (usize_mul (unat (x :: u32)) 4) (usize_mul (unat (w :: u32)) 4) = unat x * 4 + unat w * 4"
  unfolding u32_times_4 by (rule usize_add_no_wrap) (use unat_lt_u32 [of x] unat_lt_u32 [of w] in simp)

lemma unat_height_lt: "row < unat (h :: u32) \<Longrightarrow> row < 4294967296"
  using unat_lt_u32 [of h] by simp

lemma row_range_fits:
  assumes "rect_fits len stride r" and "len < 9223372036854775808" and "row < unat (dr_height r)"
  shows "row_range stride r row =
    (fst (row_seg stride r row), fst (row_seg stride r row) + snd (row_seg stride r row))"
proof -
  have le: "(unat (dr_y r) + row) * stride + unat (dr_x r) * 4 + unat (dr_width r) * 4 \<le> len"
    by (rule rect_fitsD [OF assms(1,3)])
  have y: "usize_add (unat (dr_y r)) row = unat (dr_y r) + row"
    using unat_lt_u32 [of "dr_y r"] unat_height_lt [OF assms(3)] by (simp add: no_wrap)
  have "usize_mul (unat (dr_y r) + row) stride = (unat (dr_y r) + row) * stride"
    using le assms(2) by (intro usize_mul_no_wrap) simp
  then show ?thesis using le assms(2)
    by (simp add: row_range_def Let_def y u32_extent u32_times_4 row_seg_def no_wrap add.assoc)
qed

lemma vslice_seg:
  "seg_fits (length v) s \<Longrightarrow> vslice v (fst s) (fst s + snd s) = Some (take (snd s) (drop (fst s) v))"
  by (simp add: seg_fits_def vslice_def)

lemma row_seg_fits:
  "rect_fits len stride r \<Longrightarrow> row < unat (dr_height r) \<Longrightarrow> seg_fits len (row_seg stride r row)"
  by (simp add: rect_fits_def rect_segments_def list_all_iff)

lemma length_xor_seg:
  "length cur = length prev \<Longrightarrow> seg_fits (length prev) s \<Longrightarrow> length (xor_seg cur prev s) = snd s"
  by (simp add: xor_seg_def seg_fits_def)

lemma segments_fit: "frame_ok len stride rs \<Longrightarrow> s \<in> set (segments stride rs) \<Longrightarrow> seg_fits len s"
  by (auto simp: segments_def frame_ok_def rect_fits_def list_all_iff)

section \<open>The encoders\<close>

locale row_xor =
  fixes xor_row :: "bytes \<Rightarrow> bytes \<Rightarrow> bytes \<Rightarrow> bytes option"
  assumes xor_row: "length a = length b \<Longrightarrow> xor_row a b out = Some (out @ map2 (XOR) a b)"
begin

lemma encode_row_seg:
  assumes "rect_fits (length prev) stride r" and "length prev < 9223372036854775808"
    and "length cur = length prev" and "row < unat (dr_height r)"
  shows "encode_row xor_row cur prev stride r row out = Some (out @ xor_seg cur prev (row_seg stride r row))"
  using assms by (simp add: encode_row_def row_range_fits row_seg_fits vslice_seg xor_row xor_seg_def)

lemma encode_rect:
  assumes "rect_fits (length prev) stride r" and "length prev < 9223372036854775808"
    and "length cur = length prev"
  shows "fold_opt (encode_row xor_row cur prev stride r) [0..<unat (dr_height r)] out =
         Some (out @ concat (map (xor_seg cur prev) (rect_segments stride r)))"
  unfolding rect_segments_def map_map comp_def
  by (rule fold_opt_emit) (use assms in \<open>simp add: encode_row_seg\<close>)

lemma encode_segments:
  assumes "frame_ok (length prev) stride rs" and "length cur = length prev"
  shows "delta_encode_with xor_row cur prev stride rs out =
         Some (out @ concat (map (xor_seg cur prev) (segments stride rs)),
               length (concat (map (xor_seg cur prev) (segments stride rs))))"
proof -
  have "fold_opt (\<lambda>rect. fold_opt (encode_row xor_row cur prev stride rect) [0..<unat (dr_height rect)]) rs out =
      Some (out @ concat (map (\<lambda>r. concat (map (xor_seg cur prev) (rect_segments stride r))) rs))"
    by (rule fold_opt_emit)
      (use assms in \<open>simp add: encode_rect frame_ok_rectD frame_ok_def list_all_iff\<close>)
  then show ?thesis
    by (simp add: delta_encode_with_def segments_def concat_map_concat comp_def)
qed

end

interpretation scalar_row: row_xor xor_extend
  by unfold_locales (simp add: xor_extend_def)

text \<open>What the encoder relies on of \<^verbatim>\<open>wide::u8x32\<close>: lane-wise XOR of 32 bytes.\<close>

definition lanewise_xor :: "(bytes \<Rightarrow> bytes \<Rightarrow> bytes) \<Rightarrow> bool" where
  "lanewise_xor f \<longleftrightarrow> (\<forall>a b. length a = 32 \<longrightarrow> length b = 32 \<longrightarrow> f a b = map2 (XOR) a b)"

lemma map2_take: "map2 f (take k a) (take k b) = take k (map2 f a b)"
  by (simp add: take_map take_zip)

lemma simd_lanes:
  assumes "lanewise_xor f" and "length a = length b" and "32 * k \<le> length a"
  shows "fold_opt (\<lambda>i d. do {
            let off = i * 32;
            va \<leftarrow> vslice a off (off + 32);
            vb \<leftarrow> vslice b off (off + 32);
            Some (d @ f va vb)
          }) [0..<k] dst = Some (dst @ take (32 * k) (map2 (XOR) a b))"
  using assms(3)
proof (induction k)
  case (Suc k)
  let ?m = "map2 (XOR) a b"
  have "f (take 32 (drop (k * 32) a)) (take 32 (drop (k * 32) b)) = take 32 (drop (32 * k) ?m)"
    using assms Suc.prems by (simp add: lanewise_xor_def drop_map drop_zip take_map take_zip mult.commute)
  moreover have "take (32 * Suc k) ?m = take (32 * k) ?m @ take 32 (drop (32 * k) ?m)"
    using take_add [of "32 * k" 32 ?m] by (simp add: add.commute)
  ultimately show ?case using Suc assms(2)
    by (simp add: fold_opt_snoc vslice_def del: take_append)
qed simp

lemma simd_tail:
  assumes "length a = length b" and "t + k \<le> length a"
  shows "fold_opt (\<lambda>i d. do {
       x \<leftarrow> index a (t + i);
       y \<leftarrow> index b (t + i);
       Some (d @ [x XOR y])
     }) [0..<k] dst = Some (dst @ take k (drop t (map2 (XOR) a b)))"
  using assms(2)
proof (induction k)
  case (Suc k)
  with assms(1) show ?case by (simp add: fold_opt_snoc index_def take_Suc_conv_app_nth)
qed simp

lemma simd_row_xor:
  assumes "lanewise_xor f"
  shows "row_xor (xor_into_vec_simd f)"
proof
  fix a b out :: bytes
  assume len: "length a = length b"
  let ?k = "length a div 32"
  have k: "32 * ?k \<le> length a" by simp
  have t: "?k * 32 + length a mod 32 \<le> length a" by simp
  have "take (32 * ?k) (map2 (XOR) a b) @ take (length a mod 32) (drop (?k * 32) (map2 (XOR) a b)) =
      take (?k * 32 + length a mod 32) (map2 (XOR) a b)"
    by (simp only: take_add mult.commute [of 32])
  also have "\<dots> = map2 (XOR) a b" using len by simp
  finally have "take (32 * ?k) (map2 (XOR) a b) @ take (length a mod 32) (drop (?k * 32) (map2 (XOR) a b)) =
      map2 (XOR) a b" .
  then show "xor_into_vec_simd f a b out = Some (out @ map2 (XOR) a b)"
    using simd_lanes [OF assms len k, of out] simd_tail [OF len t]
    by (simp only: xor_into_vec_simd_def Let_def bind.bind_lunit append_assoc)
qed

section \<open>The decoder\<close>

definition paint :: "bytes \<Rightarrow> nat \<times> nat \<Rightarrow> bytes \<Rightarrow> bytes" where
  "paint cur s out = map (\<lambda>j. if covers s j then cur ! j else out ! j) [0..<length out]"

lemma length_paint [simp]: "length (paint cur s out) = length out"
  by (simp add: paint_def)

lemma nth_paint: "j < length out \<Longrightarrow> paint cur s out ! j = (if covers s j then cur ! j else out ! j)"
  by (simp add: paint_def)

lemma length_fold_paint [simp]: "length (fold (paint cur) ss out) = length out"
  by (induction ss arbitrary: out) simp_all

lemma nth_fold_paint:
  "j < length out \<Longrightarrow>
   fold (paint cur) ss out ! j = (if list_ex (\<lambda>s. covers s j) ss then cur ! j else out ! j)"
  by (induction ss arbitrary: out) (auto simp: nth_paint)

lemma xor_cancel: "(p :: u8) XOR (c XOR p) = c"
  by (metis xor.assoc xor.commute xor.left_neutral xor_self_eq)

lemma decode_bytes:
  assumes "length cur = length prev" and "length out = length prev"
    and "a + n \<le> length prev" and "length prev < 9223372036854775808"
    and "length delta < 9223372036854775808" and "off + n \<le> length delta"
    and "\<And>i. i < n \<Longrightarrow> delta ! (off + i) = cur ! (a + i) XOR prev ! (a + i)"
  shows "fold_opt (\<lambda>i out. do {
               p \<leftarrow> index prev (usize_add a i);
               d \<leftarrow> index delta (usize_add off i);
               (if usize_add a i < length out
                then Some (out[usize_add a i := p XOR d]) else None)
             }) [0..<n] out = Some (paint cur (a, n) out)"
  using assms(3,6,7)
proof (induction n)
  case 0
  have "paint cur (a, 0) out = out" by (rule nth_equalityI) (auto simp: nth_paint covers_def)
  then show ?case by simp
next
  case (Suc n)
  have "paint cur (a, Suc n) out = (paint cur (a, n) out)[a + n := cur ! (a + n)]"
    using Suc.prems assms(2)
    by (intro nth_equalityI) (auto simp: nth_paint covers_def nth_list_update)
  moreover have "prev ! (a + n) XOR delta ! (off + n) = cur ! (a + n)"
    using Suc.prems(3) [of n] by (simp add: xor_cancel)
  moreover have "usize_add a n = a + n" "usize_add off n = off + n"
    using Suc.prems assms(4,5) by (simp_all add: no_wrap)
  ultimately show ?case
    using Suc assms(2) by (simp add: fold_opt_snoc index_def)
qed

lemma nth_xor_seg:
  assumes "length cur = length prev" and "seg_fits (length prev) s" and "i < snd s"
  shows "xor_seg cur prev s ! i = cur ! (fst s + i) XOR prev ! (fst s + i)"
  using assms by (simp add: xor_seg_def seg_fits_def)

lemma decode_row_seg:
  assumes "length cur = length prev" and "length out = length prev"
    and "rect_fits (length prev) stride r" and "row < unat (dr_height r)"
    and "length prev < 9223372036854775808" and "length delta < 9223372036854775808"
    and "delta = pre @ xor_seg cur prev (row_seg stride r row) @ post"
  shows "decode_row delta prev stride r row (out, length pre) =
         Some (paint cur (row_seg stride r row) out,
               length (pre @ xor_seg cur prev (row_seg stride r row)))"
proof -
  let ?s = "row_seg stride r row"
  have fit: "seg_fits (length prev) ?s" using assms(3,4) by (rule row_seg_fits)
  have len: "length (xor_seg cur prev ?s) = snd ?s"
    using assms(1) fit by (rule length_xor_seg)
  have n: "usize_add (usize_mul (unat (dr_x r)) 4) (usize_mul (unat (dr_width r)) 4)
      - usize_mul (unat (dr_x r)) 4 = snd ?s"
    unfolding u32_extent by (simp add: u32_times_4 row_seg_def)
  have "fold_opt (\<lambda>i out. do {
               p \<leftarrow> index prev (usize_add (fst ?s) i);
               d \<leftarrow> index delta (usize_add (length pre) i);
               (if usize_add (fst ?s) i < length out
                then Some (out[usize_add (fst ?s) i := p XOR d]) else None)
             }) [0..<snd ?s] out = Some (paint cur (fst ?s, snd ?s) out)"
  proof (rule decode_bytes)
    show "delta ! (length pre + i) = cur ! (fst ?s + i) XOR prev ! (fst ?s + i)" if "i < snd ?s" for i
      using that assms(1,7) fit len by (simp add: nth_append nth_xor_seg)
  qed (use assms fit len in \<open>simp_all add: seg_fits_def\<close>)
  moreover have "usize_add (length pre) (snd ?s) = length pre + snd ?s"
    using assms(6,7) len by (simp add: no_wrap)
  ultimately show ?thesis
    using assms(3-5) len n
    by (simp add: decode_row_def row_range_fits Let_def)
qed

lemma fold_decode_rows:
  assumes "length cur = length prev" and "length prev < 9223372036854775808"
    and "length delta < 9223372036854775808" and "rect_fits (length prev) stride r"
    and "length out = length prev" and "\<forall>row \<in> set rows. row < unat (dr_height r)"
    and "delta = pre @ concat (map (xor_seg cur prev) (map (row_seg stride r) rows)) @ post"
  shows "fold_opt (decode_row delta prev stride r) rows (out, length pre) =
         Some (fold (paint cur) (map (row_seg stride r) rows) out,
               length (pre @ concat (map (xor_seg cur prev) (map (row_seg stride r) rows))))"
  using assms(5-7)
proof (induction rows arbitrary: out pre)
  case (Cons row rows)
  let ?x = "xor_seg cur prev (row_seg stride r row)"
  have "decode_row delta prev stride r row (out, length pre) =
      Some (paint cur (row_seg stride r row) out, length (pre @ ?x))"
    using Cons.prems assms(1-4) by (intro decode_row_seg) auto
  moreover have "fold_opt (decode_row delta prev stride r) rows
      (paint cur (row_seg stride r row) out, length (pre @ ?x)) =
      Some (fold (paint cur) (map (row_seg stride r) rows) (paint cur (row_seg stride r row) out),
            length ((pre @ ?x) @ concat (map (xor_seg cur prev) (map (row_seg stride r) rows))))"
    using Cons.prems by (intro Cons.IH) auto
  ultimately show ?case by simp
qed simp

lemma fold_decode_rects:
  assumes "length cur = length prev" and "length delta < 9223372036854775808"
    and "frame_ok (length prev) stride rs" and "length out = length prev"
    and "delta = pre @ concat (map (xor_seg cur prev) (segments stride rs)) @ post"
  shows "fold_opt (\<lambda>r. fold_opt (decode_row delta prev stride r) [0..<unat (dr_height r)]) rs (out, length pre) =
         Some (fold (paint cur) (segments stride rs) out,
               length (pre @ concat (map (xor_seg cur prev) (segments stride rs))))"
  using assms(3-5)
proof (induction rs arbitrary: out pre)
  case (Cons r rs)
  let ?x = "concat (map (xor_seg cur prev) (rect_segments stride r))"
  have lt: "length prev < 9223372036854775808" using Cons.prems(1) by (auto simp: frame_ok_def)
  have "fold_opt (decode_row delta prev stride r) [0..<unat (dr_height r)] (out, length pre) =
      Some (fold (paint cur) (rect_segments stride r) out, length (pre @ ?x))"
    using fold_decode_rows [OF assms(1) lt assms(2), of stride r out "[0..<unat (dr_height r)]" pre
        "concat (map (xor_seg cur prev) (segments stride rs)) @ post"] Cons.prems
    by (simp add: rect_segments_def)
  moreover have "fold_opt (\<lambda>r. fold_opt (decode_row delta prev stride r) [0..<unat (dr_height r)]) rs
      (fold (paint cur) (rect_segments stride r) out, length (pre @ ?x)) =
      Some (fold (paint cur) (segments stride rs) (fold (paint cur) (rect_segments stride r) out),
            length ((pre @ ?x) @ concat (map (xor_seg cur prev) (segments stride rs))))"
    using Cons.prems by (intro Cons.IH) auto
  ultimately show ?case by simp
qed simp

text \<open>The frame a client shows: \<open>cur\<close> where a region covers, \<open>prev\<close> elsewhere.\<close>

definition overlay :: "usize \<Rightarrow> DamageRect list \<Rightarrow> bytes \<Rightarrow> bytes \<Rightarrow> bytes" where
  "overlay stride rs cur prev =
     map (\<lambda>j. if covered stride rs j then cur ! j else prev ! j) [0..<length prev]"

lemma length_overlay [simp]: "length (overlay stride rs cur prev) = length prev"
  by (simp add: overlay_def)

lemma nth_overlay:
  "j < length prev \<Longrightarrow> overlay stride rs cur prev ! j = (if covered stride rs j then cur ! j else prev ! j)"
  by (simp add: overlay_def)

lemma fold_paint_overlay: "fold (paint cur) (segments stride rs) prev = overlay stride rs cur prev"
  by (rule nth_equalityI) (auto simp: nth_fold_paint nth_overlay covered_def)

lemma delta_decode_overlay:
  assumes "length cur = length prev" and "length output = length prev"
    and "frame_ok (length prev) stride rs"
    and "delta = concat (map (xor_seg cur prev) (segments stride rs)) @ post"
    and "length delta < 9223372036854775808"
  shows "delta_decode delta prev stride rs output = Some (overlay stride rs cur prev)"
  using fold_decode_rects [OF assms(1,5,3) refl, of "[]" post] assms(2,4)
  by (simp add: delta_decode_def fold_paint_overlay)

definition agree_outside :: "usize \<Rightarrow> DamageRect list \<Rightarrow> bytes \<Rightarrow> bytes \<Rightarrow> bool" where
  "agree_outside stride rs cur prev \<longleftrightarrow>
     length cur = length prev \<and> list_all (\<lambda>j. covered stride rs j \<or> cur ! j = prev ! j) [0..<length prev]"

lemma overlay_agree: "agree_outside stride rs cur prev \<Longrightarrow> overlay stride rs cur prev = cur"
  by (rule nth_equalityI) (auto simp: agree_outside_def nth_overlay list_all_iff)

section \<open>Properties\<close>

lemma encode_row_simd:
  assumes "lanewise_xor f"
  shows "encode_row (xor_into_vec_simd f) cur prev stride r row out =
         encode_row xor_extend cur prev stride r row out"
proof -
  obtain a b where ab: "row_range stride r row = (a, b)" by (cases "row_range stride r row")
  have "xor_into_vec_simd f c p out = xor_extend c p out"
    if "vslice cur a b = Some c" and "vslice prev a b = Some p" for c p
  proof -
    from that have len: "length c = length p" by (auto simp: vslice_Some_iff)
    then show ?thesis
      using row_xor.xor_row [OF simd_row_xor [OF assms] len] by (simp add: xor_extend_def)
  qed
  then show ?thesis
    by (cases "vslice cur a b"; cases "vslice prev a b") (simp_all add: encode_row_def ab)
qed

text \<open>C14. The vectorised encoder is the scalar one: when the vector lanes XOR byte by byte,
  \<open>delta_encode_simd\<close> returns the same bytes and count as \<open>delta_encode_scalar\<close> on every
  input, and panics on exactly the same inputs.\<close>

theorem delta_simd_eq_scalar:
  assumes "lanewise_xor f"
  shows "delta_encode_simd f cur prev stride rs out = delta_encode_scalar cur prev stride rs out"
  unfolding delta_encode_simd_def delta_encode_scalar_def delta_encode_with_def
  by (simp add: encode_row_simd [OF assms] cong: fold_opt_cong)

theorem delta_simd_eq_scalar_witness:
  "delta_encode_simd (\<lambda>a b. map2 (XOR) a b) [1, 2, 3, 4] [5, 5, 5, 5] 4 [DamageRect_new 0 0 1 1] [] =
   delta_encode_scalar [1, 2, 3, 4] [5, 5, 5, 5] 4 [DamageRect_new 0 0 1 1] []"
  by (rule delta_simd_eq_scalar) (simp add: lanewise_xor_def)

text \<open>Delta round trip: for regions inside the frame, encoding \<open>cur\<close> against \<open>prev\<close> and decoding
  against \<open>prev\<close> neither panics nor alters anything else: the result is \<open>cur\<close> on every byte a
  region covers and \<open>prev\<close> on every other byte, even when regions overlap.\<close>

theorem delta_roundtrip:
  assumes "frame_ok (length prev) stride rs" and "length cur = length prev"
    and "length (concat (map (xor_seg cur prev) (segments stride rs))) < 9223372036854775808"
    and "length output = length prev"
  shows "\<exists>delta n. delta_encode_scalar cur prev stride rs [] = Some (delta, n) \<and> n = length delta \<and>
           delta_decode delta prev stride rs output = Some (overlay stride rs cur prev)"
  using scalar_row.encode_segments [OF assms(1,2), of "[]"] assms
    delta_decode_overlay [OF assms(2,4,1), where post = "[]"]
  by (simp add: delta_encode_scalar_def)

theorem delta_roundtrip_witness:
  "\<exists>delta n. delta_encode_scalar [1, 2, 3, 4, 9, 9, 9, 9] [5, 5, 5, 5, 6, 6, 6, 6] 8 [DamageRect_new 1 0 1 1] [] = Some (delta, n) \<and>
     n = length delta \<and>
     delta_decode delta [5, 5, 5, 5, 6, 6, 6, 6] 8 [DamageRect_new 1 0 1 1] (replicate 8 0) =
       Some (overlay 8 [DamageRect_new 1 0 1 1] [1, 2, 3, 4, 9, 9, 9, 9] [5, 5, 5, 5, 6, 6, 6, 6])"
  by (rule delta_roundtrip)
    (simp_all add: frame_ok_def rect_fits_def rect_segments_def row_seg_def seg_fits_def DamageRect_new_def
       xor_seg_def)

end
