(* ===== verification/Capture.thy ===== *)
theory Capture
  imports Delta
begin

text \<open>
  \<^verbatim>\<open>crates/remoteway-capture\<close>: frames and errors (\<^verbatim>\<open>backend.rs\<close>, \<^verbatim>\<open>error.rs\<close>), the capture thread
  (\<^verbatim>\<open>thread.rs\<close>) and the choice of a backend (\<^verbatim>\<open>detect.rs\<close>). The Wayland backends answer through
  \<open>next_result\<close>, clock readings are arguments, and the \<^verbatim>\<open>rtrb\<close> ring between the capture and the compress thread is
  the parameter record \<open>Ring\<close> with the contract \<open>spsc_ring\<close>.
\<close>

section \<open>backend.rs, error.rs\<close>

datatype PixelFormat = Argb8888 | Xrgb8888 | Abgr8888 | Xbgr8888

definition bytes_per_pixel :: "PixelFormat \<Rightarrow> usize" where
  "bytes_per_pixel f = 4"

definition from_wl_shm :: "u32 \<Rightarrow> PixelFormat option" where
  "from_wl_shm format =
     (if format = 0 then Some Argb8888
      else if format = 1 then Some Xrgb8888
      else if format = 0x34324241 then Some Abgr8888
      else if format = 0x34324258 then Some Xbgr8888
      else None)"

record CapturedFrame =
  cap_data :: bytes
  damage :: "DamageRect list"
  cap_format :: PixelFormat
  cap_width :: u32
  cap_height :: u32
  cap_stride :: u32
  cap_timestamp_ns :: u64

datatype CaptureError =
  WaylandConnect | WaylandDispatch | NoBackend | NoOutputs | ShmPool string | BufferPoolExhausted
| SessionEnded | OutputNotFound string | UnsupportedFormat u32 | ThreadSpawn | CaptureFailed string
| Protocol string

fun is_retriable :: "CaptureError \<Rightarrow> bool" where
  "is_retriable (CaptureFailed _) = True"
| "is_retriable _ = False"

section \<open>The ring\<close>

record ('r, 'a) Ring =
  ring_push :: "'r \<Rightarrow> 'a \<Rightarrow> 'r option"
  ring_pop :: "'r \<Rightarrow> ('a \<times> 'r) option"
  ring_slots :: "'r \<Rightarrow> nat"

text \<open>The documented contract of a single-producer single-consumer ring: a bounded queue. \<open>ring_slots\<close> is
  what the consumer's \<^verbatim>\<open>slots()\<close> reports, the number of buffered items.\<close>

definition spsc_ring :: "('r, 'a) Ring \<Rightarrow> ('r \<Rightarrow> 'a list) \<Rightarrow> nat \<Rightarrow> bool" where
  "spsc_ring R items cap \<longleftrightarrow>
     (\<forall>r x. if length (items r) < cap
            then (\<exists>r'. ring_push R r x = Some r' \<and> items r' = items r @ [x]) else ring_push R r x = None) \<and>
     (\<forall>r. case items r of [] \<Rightarrow> ring_pop R r = None
          | x # xs \<Rightarrow> (\<exists>r'. ring_pop R r = Some (x, r') \<and> items r' = xs)) \<and>
     (\<forall>r. ring_slots R r = length (items r))"

lemma ring_push_room:
  "spsc_ring R items cap \<Longrightarrow> length (items r) < cap \<Longrightarrow> \<exists>r'. ring_push R r x = Some r' \<and> items r' = items r @ [x]"
  unfolding spsc_ring_def by (elim conjE) meson

lemma ring_push_full: "spsc_ring R items cap \<Longrightarrow> \<not> length (items r) < cap \<Longrightarrow> ring_push R r x = None"
  unfolding spsc_ring_def by (elim conjE) meson

lemma ring_pop_Nil: "spsc_ring R items cap \<Longrightarrow> items r = [] \<Longrightarrow> ring_pop R r = None"
  unfolding spsc_ring_def by (elim conjE) (drule spec [of _ r], simp)

lemma ring_pop_Cons:
  "spsc_ring R items cap \<Longrightarrow> items r = x # xs \<Longrightarrow> \<exists>r'. ring_pop R r = Some (x, r') \<and> items r' = xs"
  unfolding spsc_ring_def by (elim conjE) (drule spec [of _ r], drule spec [of _ r], simp)

lemma ring_slots_items: "spsc_ring R items cap \<Longrightarrow> ring_slots R r = length (items r)"
  unfolding spsc_ring_def by (elim conjE) meson

definition list_ring :: "nat \<Rightarrow> ('a list, 'a) Ring" where
  "list_ring cap = \<lparr>ring_push = (\<lambda>q x. if length q < cap then Some (q @ [x]) else None),
     ring_pop = (\<lambda>q. case q of [] \<Rightarrow> None | x # xs \<Rightarrow> Some (x, xs)), ring_slots = length\<rparr>"

lemma list_ring_spsc: "spsc_ring (list_ring cap) (\<lambda>q. q) cap"
  by (auto simp: spsc_ring_def list_ring_def split: list.splits)

section \<open>thread.rs\<close>

record CaptureThreadConfig =
  core_id :: usize
  sched_priority :: u8
  ring_capacity :: usize
  capture_fps :: u32

definition CaptureThreadConfig_default :: CaptureThreadConfig where
  "CaptureThreadConfig_default = \<lparr>core_id = 1, sched_priority = 90, ring_capacity = 4, capture_fps = 100\<rparr>"

record 'r CaptureThread =
  ct_ring :: 'r
  stop_flag :: bool
  frames_dropped :: bool
  finished :: bool

definition CaptureThread_spawn :: "'r \<Rightarrow> 'r CaptureThread" where
  "CaptureThread_spawn ring = \<lparr>ct_ring = ring, stop_flag = False, frames_dropped = False, finished = False\<rparr>"

definition try_recv :: "('r, CapturedFrame) Ring \<Rightarrow> 'r CaptureThread \<Rightarrow> CapturedFrame option \<times> 'r CaptureThread" where
  "try_recv R t = (case ring_pop R (ct_ring t) of
     Some (f, r) \<Rightarrow> (Some f, t\<lparr>ct_ring := r\<rparr>) | None \<Rightarrow> (None, t))"

definition buffered_frames :: "('r, CapturedFrame) Ring \<Rightarrow> 'r CaptureThread \<Rightarrow> usize" where
  "buffered_frames R t = ring_slots R (ct_ring t)"

definition take_dropped_flag :: "'r CaptureThread \<Rightarrow> bool \<times> 'r CaptureThread" where
  "take_dropped_flag t = (frames_dropped t, t\<lparr>frames_dropped := False\<rparr>)"

definition is_finished :: "'r CaptureThread \<Rightarrow> bool" where
  "is_finished t = finished t"

definition capture_stop :: "'r CaptureThread \<Rightarrow> 'r CaptureThread" where
  "capture_stop t = t\<lparr>stop_flag := True\<rparr>"

definition clamped_fps :: "u32 \<Rightarrow> u32" where
  "clamped_fps fps = (if fps < 10 then 10 else if 500 < fps then 500 else fps)"

text \<open>One iteration of \<open>capture_loop\<close>. \<open>next\<close> is what \<^verbatim>\<open>backend.next_frame()\<close> returned; \<open>t_check\<close> and \<open>t_push\<close> are
  the clock readings of the rate limit and after the push. The result says how the loop goes on.\<close>

datatype next_result = NextFrame CapturedFrame | NextErr CaptureError

datatype capture_exit = GoOn | Exited "CaptureError option"

definition capture_turn ::
  "('r, CapturedFrame) Ring \<Rightarrow> duration \<Rightarrow> next_result \<Rightarrow> nat \<Rightarrow> nat \<Rightarrow> 'r CaptureThread \<times> nat
   \<Rightarrow> capture_exit \<times> 'r CaptureThread \<times> nat" where
  "capture_turn R min_interval next t_check t_push s = (case s of (t, last_push) \<Rightarrow>
     if stop_flag t then (Exited None, t\<lparr>finished := True\<rparr>, last_push) else
     case next of
       NextErr SessionEnded \<Rightarrow> (Exited None, t\<lparr>finished := True\<rparr>, last_push)
     | NextErr e \<Rightarrow> (Exited (Some e), t\<lparr>finished := True\<rparr>, last_push)
     | NextFrame frame \<Rightarrow>
         if t_check - last_push < min_interval then (GoOn, t, last_push) else
         (case ring_push R (ct_ring t) frame of
            Some r \<Rightarrow> (GoOn, t\<lparr>ct_ring := r\<rparr>, t_push)
          | None \<Rightarrow> (GoOn, t\<lparr>frames_dropped := True\<rparr>, t_push)))"

text \<open>The loop starts one interval in the past, so that the first frame is not rate limited; \<open>None\<close> is the
  panic of subtracting more than the clock shows.\<close>

definition capture_start :: "duration \<Rightarrow> nat \<Rightarrow> nat option" where
  "capture_start min_interval now = (if min_interval \<le> now then Some (now - min_interval) else None)"

fun capture_loop ::
  "('r, CapturedFrame) Ring \<Rightarrow> duration \<Rightarrow> (next_result \<times> nat \<times> nat) list \<Rightarrow> 'r CaptureThread \<times> nat
   \<Rightarrow> capture_exit \<times> 'r CaptureThread \<times> nat" where
  "capture_loop R iv [] s = (GoOn, s)"
| "capture_loop R iv ((next, t_check, t_push) # rest) s =
     (case capture_turn R iv next t_check t_push s of
        (GoOn, s') \<Rightarrow> capture_loop R iv rest s'
      | (Exited e, s') \<Rightarrow> (Exited e, s'))"

section \<open>detect.rs\<close>

datatype 'b backend_kind = ExtImageCapture 'b | PortalCapture 'b | WlrScreencopy 'b

text \<open>The outcome of each constructor is an argument, tried in the order of the source; \<open>portal\<close> is \<open>None\<close> in a
  build without that feature.\<close>

definition detect_backend ::
  "(CaptureError + 'b) \<Rightarrow> bool \<Rightarrow> (CaptureError + 'b) option \<Rightarrow> (CaptureError + 'b) \<Rightarrow> CaptureError + 'b backend_kind" where
  "detect_backend ext needs_portal portal wlr =
     (case ext of Inr b \<Rightarrow> Inr (ExtImageCapture b) | Inl _ \<Rightarrow>
       (case (if needs_portal then portal else None) of
          Some (Inr b) \<Rightarrow> Inr (PortalCapture b)
        | _ \<Rightarrow> (case wlr of Inr b \<Rightarrow> Inr (WlrScreencopy b) | Inl _ \<Rightarrow> Inl NoBackend)))"

definition detect_toplevel_backend :: "(CaptureError + 'b) \<Rightarrow> CaptureError + 'b backend_kind" where
  "detect_toplevel_backend ext = (case ext of Inr b \<Rightarrow> Inr (ExtImageCapture b) | Inl e \<Rightarrow> Inl e)"

definition detect_new_toplevel_backend :: "(CaptureError + 'b) \<Rightarrow> CaptureError + 'b backend_kind" where
  "detect_new_toplevel_backend ext = (case ext of Inr b \<Rightarrow> Inr (ExtImageCapture b) | Inl e \<Rightarrow> Inl e)"

definition is_capture_available :: "bool \<Rightarrow> bool \<Rightarrow> bool \<Rightarrow> bool" where
  "is_capture_available connected ext wlr \<longleftrightarrow> connected \<and> (ext \<or> wlr)"

section \<open>Properties\<close>

text \<open>The frames a run offers to the ring, with what became of them.\<close>

fun offered :: "('r, CapturedFrame) Ring \<Rightarrow> duration \<Rightarrow> (next_result \<times> nat \<times> nat) list \<Rightarrow> 'r CaptureThread \<times> nat
   \<Rightarrow> (CapturedFrame \<times> bool) list" where
  "offered R iv [] s = []"
| "offered R iv ((next, t_check, t_push) # rest) s =
     (case capture_turn R iv next t_check t_push s of
        (Exited e, s') \<Rightarrow> []
      | (GoOn, s') \<Rightarrow>
          (case next of NextFrame f \<Rightarrow> (if t_check - snd s < iv then [] else [(f, ring_push R (ct_ring (fst s)) f \<noteq> None)])
           | NextErr _ \<Rightarrow> []) @ offered R iv rest s')"

lemma capture_turn_cases:
  assumes "capture_turn R iv next t1 t2 (t, lp) = (GoOn, t', lp')"
  obtains (limited) f where "next = NextFrame f" "t1 - lp < iv" "t' = t" "lp' = lp"
  | (pushed) f r where "next = NextFrame f" "\<not> t1 - lp < iv" "ring_push R (ct_ring t) f = Some r" "t' = t\<lparr>ct_ring := r\<rparr>"
      "lp' = t2"
  | (full) f where "next = NextFrame f" "\<not> t1 - lp < iv" "ring_push R (ct_ring t) f = None" "t' = t\<lparr>frames_dropped := True\<rparr>"
      "lp' = t2"
  using assms
  by (auto simp: capture_turn_def split: if_splits next_result.splits CaptureError.splits option.splits)

lemma capture_loop_items:
  assumes "spsc_ring R items cap" and "capture_loop R iv ins (t, lp) = (x, t', lp')"
  shows "items (ct_ring t') = items (ct_ring t) @ map fst (filter snd (offered R iv ins (t, lp))) \<and>
         (frames_dropped t' \<longleftrightarrow> frames_dropped t \<or> \<not> list_all snd (offered R iv ins (t, lp)))"
  using assms(2)
proof (induction ins arbitrary: t lp)
  case (Cons i ins)
  obtain n t1 t2 where i: "i = (n, t1, t2)" by (cases i)
  obtain e u lq where turn: "capture_turn R iv n t1 t2 (t, lp) = (e, u, lq)" by (cases "capture_turn R iv n t1 t2 (t, lp)")
  show ?case
  proof (cases e)
    case (Exited err)
    then have "t' = u" "offered R iv (i # ins) (t, lp) = []" using Cons.prems i turn by auto
    moreover have "ct_ring u = ct_ring t" "frames_dropped u = frames_dropped t"
      using turn Exited
      by (auto simp: capture_turn_def split: if_splits next_result.splits CaptureError.splits option.splits)
    ultimately show ?thesis by simp
  next
    case GoOn
    then have IH: "items (ct_ring t') = items (ct_ring u) @ map fst (filter snd (offered R iv ins (u, lq))) \<and>
         (frames_dropped t' \<longleftrightarrow> frames_dropped u \<or> \<not> list_all snd (offered R iv ins (u, lq)))"
      using Cons.IH [of u lq] Cons.prems i turn by simp
    from turn GoOn have "capture_turn R iv n t1 t2 (t, lp) = (GoOn, u, lq)" by simp
    then show ?thesis
    proof (cases rule: capture_turn_cases)
      case (pushed f r)
      then have "items r = items (ct_ring t) @ [f]"
        using ring_push_room [OF assms(1), of "ct_ring t" f] ring_push_full [OF assms(1), of "ct_ring t" f] by force
      then show ?thesis using IH pushed i turn GoOn by simp
    qed (use IH i turn GoOn in auto)
  qed
qed simp

text \<open>Overflow is signalled: over any run of the capture loop, the ring receives exactly the frames it
  had room for, in capture order, and the dropped flag is raised exactly when a frame offered to
  the ring was refused.\<close>

theorem capture_overflow_flagged:
  assumes "spsc_ring R items cap" and "items r = []" and "capture_loop R iv ins (CaptureThread_spawn r, lp) = (x, t', lp')"
  shows "items (ct_ring t') = map fst (filter snd (offered R iv ins (CaptureThread_spawn r, lp))) \<and>
         (frames_dropped t' \<longleftrightarrow> \<not> list_all snd (offered R iv ins (CaptureThread_spawn r, lp)))"
  using capture_loop_items [OF assms(1,3)] assms(2) by (simp add: CaptureThread_spawn_def)

text \<open>A frame of one pixel.\<close>

definition pixel_frame :: "u8 \<Rightarrow> CapturedFrame" where
  "pixel_frame v = \<lparr>cap_data = [v, v, v, v], damage = [], cap_format = Argb8888, cap_width = 1, cap_height = 1,
     cap_stride = 4, cap_timestamp_ns = 0\<rparr>"

theorem capture_overflow_flagged_witness:
  "\<exists>t' lp'. capture_loop (list_ring 1) 10 [(NextFrame (pixel_frame 1), 20, 20), (NextFrame (pixel_frame 2), 40, 40)]
      (CaptureThread_spawn [], 0) = (GoOn, t', lp') \<and> ct_ring t' = [pixel_frame 1] \<and> frames_dropped t'"
proof -
  let ?ins = "[(NextFrame (pixel_frame 1), 20, 20), (NextFrame (pixel_frame 2), 40, 40)]"
  obtain t' lp' where run: "capture_loop (list_ring 1) 10 ?ins (CaptureThread_spawn [], 0) = (GoOn, t', lp')"
    by (simp add: capture_turn_def CaptureThread_spawn_def list_ring_def)
  have "offered (list_ring 1) 10 ?ins (CaptureThread_spawn [], 0) = [(pixel_frame 1, True), (pixel_frame 2, False)]"
    by (simp add: capture_turn_def CaptureThread_spawn_def list_ring_def)
  with capture_overflow_flagged [OF list_ring_spsc _ run] run show ?thesis by auto
qed

text \<open>Cold start: started at time \<open>now\<close>, the loop pushes the first frame the backend delivers, whatever the
  rate limit, since its clock starts one interval early.\<close>

theorem first_frame_pushed:
  assumes "spsc_ring R items cap" and "items r = []" and "0 < cap"
    and "capture_start iv now = Some lp" and "now \<le> t_check"
  shows "\<exists>r'. capture_turn R iv (NextFrame f) t_check t_push (CaptureThread_spawn r, lp) =
            (GoOn, (CaptureThread_spawn r)\<lparr>ct_ring := r'\<rparr>, t_push) \<and> items r' = [f]"
proof -
  have "\<not> t_check - lp < iv" using assms(4,5) by (auto simp: capture_start_def split: if_splits)
  then show ?thesis
    using ring_push_room [OF assms(1), of r f] assms(2,3)
    by (auto simp: capture_turn_def CaptureThread_spawn_def)
qed

theorem first_frame_pushed_witness:
  "\<exists>r'. capture_turn (list_ring 4) 10 (NextFrame (pixel_frame 1)) 100 101 (CaptureThread_spawn [], 90) =
     (GoOn, (CaptureThread_spawn [])\<lparr>ct_ring := r'\<rparr>, 101) \<and> r' = [pixel_frame 1]"
  by (rule first_frame_pushed [OF list_ring_spsc, where now = 100]) (simp_all add: capture_start_def)

text \<open>The rate limit loses damage silently: of three frames of which the second arrives within the minimum
  interval, the consumer receives the first and the third and the dropped flag stays down, so the
  third frame's damage, relative to the second, is taken as relative to the first.\<close>

theorem rate_limit_loses_damage:
  assumes "spsc_ring R items cap" and "items r = []" and "2 \<le> cap"
    and "iv \<le> t0 - lp" and "t1 - p0 < iv" and "iv \<le> t2 - p0"
  shows "\<exists>t'. capture_loop R iv [(NextFrame f0, t0, p0), (NextFrame f1, t1, p1), (NextFrame f2, t2, p2)]
            (CaptureThread_spawn r, lp) = (GoOn, t', p2) \<and>
          items (ct_ring t') = [f0, f2] \<and> \<not> frames_dropped t'"
proof -
  obtain r0 where r0: "ring_push R r f0 = Some r0" "items r0 = [f0]"
    using ring_push_room [OF assms(1), of r f0] assms(2,3) by auto
  obtain r2 where r2: "ring_push R r0 f2 = Some r2" "items r2 = [f0, f2]"
    using ring_push_room [OF assms(1), of r0 f2] r0(2) assms(3) by auto
  show ?thesis
    using assms(4-6) r0 r2 by (simp add: capture_turn_def CaptureThread_spawn_def)
qed

theorem rate_limit_loses_damage_witness:
  "\<exists>t'. capture_loop (list_ring 4) 10
      [(NextFrame (pixel_frame 1), 20, 20), (NextFrame (pixel_frame 2), 25, 25), (NextFrame (pixel_frame 3), 30, 31)]
      (CaptureThread_spawn [], 0) = (GoOn, t', 31) \<and>
    ct_ring t' = [pixel_frame 1, pixel_frame 3] \<and> \<not> frames_dropped t'"
  by (rule rate_limit_loses_damage [OF list_ring_spsc]) simp_all

text \<open>Backend choice: \<open>detect_backend\<close> returns the first available backend in the order
  ext-image-capture, portal (only where the desktop needs it), wlr-screencopy, and fails only when
  none of those is available.\<close>

theorem detect_backend_priority:
  "detect_backend ext needs portal wlr =
     (case [ExtImageCapture b. b \<leftarrow> (case ext of Inr b \<Rightarrow> [b] | Inl _ \<Rightarrow> [])] @
           [PortalCapture b. needs, b \<leftarrow> (case portal of Some (Inr b) \<Rightarrow> [b] | _ \<Rightarrow> [])] @
           [WlrScreencopy b. b \<leftarrow> (case wlr of Inr b \<Rightarrow> [b] | Inl _ \<Rightarrow> [])]
      of [] \<Rightarrow> Inl NoBackend | b # _ \<Rightarrow> Inr b)"
  by (auto simp: detect_backend_def split: sum.splits option.splits)

section \<open>The capture thread and its reader, interleaved\<close>

text \<open>The reader's \<open>try_recv\<close> and \<open>take_dropped_flag\<close> may fall between any two turns of the capture thread. A run keeps
  a log of what happened: frames accepted or refused by the ring, frames received, flags read. A turn of the thread is one
  step of the run; a thread that has finished takes no more.\<close>

datatype capture_op = Turn next_result nat nat | Receive | TakeFlag | Stop
datatype capture_log = Accepted CapturedFrame | Refused CapturedFrame | Received CapturedFrame | Flag bool

definition turn_log :: "('r, CapturedFrame) Ring \<Rightarrow> duration \<Rightarrow> next_result \<Rightarrow> nat \<Rightarrow> 'r CaptureThread \<times> nat \<Rightarrow> capture_log list" where
  "turn_log R iv next t_check s = (case next of
     NextFrame f \<Rightarrow> (if stop_flag (fst s) \<or> t_check - snd s < iv then [] else
        [if ring_push R (ct_ring (fst s)) f = None then Refused f else Accepted f])
   | NextErr _ \<Rightarrow> [])"

fun capture_run :: "('r, CapturedFrame) Ring \<Rightarrow> duration \<Rightarrow> capture_op list \<Rightarrow> 'r CaptureThread \<times> nat
    \<Rightarrow> capture_log list \<times> 'r CaptureThread \<times> nat" where
  "capture_run R iv [] s = ([], s)"
| "capture_run R iv (Turn next t_check t_push # ops) s =
     (if finished (fst s) then capture_run R iv ops s
      else case capture_turn R iv next t_check t_push s of (_, s') \<Rightarrow>
        apfst (\<lambda>l. turn_log R iv next t_check s @ l) (capture_run R iv ops s'))"
| "capture_run R iv (Receive # ops) s =
     (case try_recv R (fst s) of (f, t) \<Rightarrow>
        apfst (\<lambda>l. (case f of Some f \<Rightarrow> [Received f] | None \<Rightarrow> []) @ l) (capture_run R iv ops (t, snd s)))"
| "capture_run R iv (TakeFlag # ops) s =
     (case take_dropped_flag (fst s) of (b, t) \<Rightarrow> apfst (\<lambda>l. Flag b # l) (capture_run R iv ops (t, snd s)))"
| "capture_run R iv (Stop # ops) s = capture_run R iv ops (capture_stop (fst s), snd s)"

text \<open>\<open>flags_right d l\<close>: each flag read in \<open>l\<close> tells whether a frame was refused since the one read before, where \<open>d\<close>
  says whether one had been refused already; \<open>flag_after\<close> is what the next one will tell.\<close>

fun flags_right :: "bool \<Rightarrow> capture_log list \<Rightarrow> bool" where
  "flags_right d [] \<longleftrightarrow> True"
| "flags_right d (Flag b # l) \<longleftrightarrow> b = d \<and> flags_right False l"
| "flags_right d (Refused f # l) \<longleftrightarrow> flags_right True l"
| "flags_right d (_ # l) \<longleftrightarrow> flags_right d l"

fun flag_after :: "bool \<Rightarrow> capture_log list \<Rightarrow> bool" where
  "flag_after d [] = d"
| "flag_after d (Flag b # l) = flag_after False l"
| "flag_after d (Refused f # l) = flag_after True l"
| "flag_after d (_ # l) = flag_after d l"

definition accepted :: "capture_log list \<Rightarrow> CapturedFrame list" where
  "accepted l = concat (map (\<lambda>e. case e of Accepted f \<Rightarrow> [f] | _ \<Rightarrow> []) l)"

definition received :: "capture_log list \<Rightarrow> CapturedFrame list" where
  "received l = concat (map (\<lambda>e. case e of Received f \<Rightarrow> [f] | _ \<Rightarrow> []) l)"

lemma log_simps [simp]:
  "accepted [] = []" "accepted (e # l) = (case e of Accepted f \<Rightarrow> [f] | _ \<Rightarrow> []) @ accepted l"
  "received [] = []" "received (e # l) = (case e of Received f \<Rightarrow> [f] | _ \<Rightarrow> []) @ received l"
  by (simp_all add: accepted_def received_def)

lemma turn_effect:
  assumes "spsc_ring R items cap" and "capture_turn R iv n t1 t2 s = (x, s')"
  shows "items (ct_ring (fst s')) = items (ct_ring (fst s)) @ accepted (turn_log R iv n t1 s) \<and> received (turn_log R iv n t1 s) = [] \<and>
     frames_dropped (fst s') = flag_after (frames_dropped (fst s)) (turn_log R iv n t1 s) \<and>
     (flags_right d (turn_log R iv n t1 s @ l) \<longleftrightarrow> flags_right (flag_after d (turn_log R iv n t1 s)) l)"
proof (cases n)
  case (NextFrame f)
  show ?thesis
  proof (cases "ring_push R (ct_ring (fst s)) f")
    case None
    then show ?thesis using assms(2) NextFrame by (cases s) (auto simp: capture_turn_def turn_log_def split: if_splits)
  next
    case (Some r)
    then have "items r = items (ct_ring (fst s)) @ [f]"
      using ring_push_room [OF assms(1), of "ct_ring (fst s)" f] ring_push_full [OF assms(1), of "ct_ring (fst s)" f] by force
    then show ?thesis using assms(2) NextFrame Some by (cases s) (auto simp: capture_turn_def turn_log_def split: if_splits)
  qed
next
  case (NextErr e)
  then show ?thesis using assms(2) by (cases s) (auto simp: capture_turn_def turn_log_def split: if_splits CaptureError.splits)
qed

lemma accepted_append [simp]: "accepted (k @ l) = accepted k @ accepted l" by (simp add: accepted_def)
lemma received_append [simp]: "received (k @ l) = received k @ received l" by (simp add: received_def)

lemma flag_after_append [simp]: "flag_after d (k @ l) = flag_after (flag_after d k) l"
  by (induction d k rule: flag_after.induct) auto

lemma capture_run_log:
  assumes "spsc_ring R items cap" and "capture_run R iv ops s = (l, s')"
  shows "received l @ items (ct_ring (fst s')) = items (ct_ring (fst s)) @ accepted l \<and>
     flags_right (frames_dropped (fst s)) l \<and> frames_dropped (fst s') = flag_after (frames_dropped (fst s)) l"
  using assms(2)
proof (induction ops arbitrary: s l)
  case (Cons o' ops)
  show ?case
  proof (cases o')
    case (Turn n t1 t2)
    show ?thesis
    proof (cases "finished (fst s)")
      case True
      then show ?thesis using Cons Turn by simp
    next
      case False
      obtain x s1 where t: "capture_turn R iv n t1 t2 s = (x, s1)" by (cases "capture_turn R iv n t1 t2 s")
      obtain l1 where l1: "capture_run R iv ops s1 = (l1, s')" "l = turn_log R iv n t1 s @ l1"
      using Cons.prems Turn t False by (cases "capture_run R iv ops s1") auto
      show ?thesis using Cons.IH [OF l1(1)] turn_effect [OF assms(1) t] l1(2) by simp
    qed
  next
    case Receive
    show ?thesis
    proof (cases "items (ct_ring (fst s))")
      case Nil
      then have "try_recv R (fst s) = (None, fst s)" using ring_pop_Nil [OF assms(1)] by (simp add: try_recv_def)
      then show ?thesis using Cons.prems Receive Cons.IH [of s l] by (cases "capture_run R iv ops s") auto
    next
      case (Cons f fs)
      then obtain r where r: "ring_pop R (ct_ring (fst s)) = Some (f, r)" "items r = fs"
        using ring_pop_Cons [OF assms(1)] by blast
      obtain l1 where l1: "capture_run R iv ops ((fst s)\<lparr>ct_ring := r\<rparr>, snd s) = (l1, s')" "l = Received f # l1"
        using Cons.prems Receive r by (cases "capture_run R iv ops ((fst s)\<lparr>ct_ring := r\<rparr>, snd s)") (auto simp: try_recv_def)
      show ?thesis using Cons.IH [OF l1(1)] l1(2) r(2) Cons by simp
    qed
  next
    case TakeFlag
    obtain l1 where l1: "capture_run R iv ops ((fst s)\<lparr>frames_dropped := False\<rparr>, snd s) = (l1, s')" "l = Flag (frames_dropped (fst s)) # l1"
      using Cons.prems TakeFlag by (cases "capture_run R iv ops ((fst s)\<lparr>frames_dropped := False\<rparr>, snd s)") (auto simp: take_dropped_flag_def)
    show ?thesis using Cons.IH [OF l1(1)] l1(2) by simp
  next
    case Stop
    then show ?thesis using Cons.IH [of "(capture_stop (fst s), snd s)" l] Cons.prems by (simp add: capture_stop_def)
  qed
qed simp

text \<open>C25. The capture channel keeps its promises however its two threads interleave: the frames received and those still
  in the ring are exactly the frames the ring accepted, in order, and a dropped flag that is read tells exactly whether a
  frame was refused since the flag was last read.\<close>

theorem capture_channel:
  assumes "spsc_ring R items cap" and "items r = []" and "capture_run R iv ops (CaptureThread_spawn r, lp) = (l, t', lp')"
  shows "received l @ items (ct_ring t') = accepted l \<and> flags_right False l \<and> frames_dropped t' = flag_after False l"
  using capture_run_log [OF assms(1,3)] assms(2) by (simp add: CaptureThread_spawn_def)

text \<open>A ring of one frame: the second frame is refused, the flag tells it once, and the third is accepted.\<close>

definition demo_ops :: "capture_op list" where
  "demo_ops = [Turn (NextFrame (pixel_frame 1)) 20 20, Turn (NextFrame (pixel_frame 2)) 40 40, Receive, TakeFlag,
     Turn (NextFrame (pixel_frame 3)) 60 60, TakeFlag]"

theorem capture_channel_witness:
  "\<exists>t' lp'. capture_run (list_ring 1) 10 demo_ops (CaptureThread_spawn [], 0) =
      ([Accepted (pixel_frame 1), Refused (pixel_frame 2), Received (pixel_frame 1), Flag True, Accepted (pixel_frame 3), Flag False], t', lp') \<and>
     ct_ring t' = [pixel_frame 3] \<and> \<not> frames_dropped t'"
proof -
  let ?l = "[Accepted (pixel_frame 1), Refused (pixel_frame 2), Received (pixel_frame 1), Flag True, Accepted (pixel_frame 3), Flag False]"
  obtain t' lp' where run: "capture_run (list_ring 1) 10 demo_ops (CaptureThread_spawn [], 0) = (?l, t', lp')"
    by (simp add: demo_ops_def capture_turn_def turn_log_def try_recv_def take_dropped_flag_def CaptureThread_spawn_def list_ring_def)
  then show ?thesis using capture_channel [OF list_ring_spsc _ run] by auto
qed

end
