(* ===== verification/Compress.thy ===== *)
theory Compress
  imports Delta
begin

text \<open>
  The rest of \<^verbatim>\<open>crates/remoteway-compress\<close>: the codec selection (\<^verbatim>\<open>compressor.rs\<close>), the
  per-region LZ4 helpers (\<^verbatim>\<open>lz4.rs\<close>), the frame pipeline (\<^verbatim>\<open>pipeline.rs\<close>) and the
  statistics (\<^verbatim>\<open>stats.rs\<close>). The external crates are fields of the parameter record
  \<open>Codecs\<close>: \<^verbatim>\<open>lz4_flex\<close>, \<^verbatim>\<open>zstd\<close> and the 32-byte lanes of \<^verbatim>\<open>wide\<close>. What the pipeline
  relies on is \<open>codecs_ok\<close>: lanes XOR byte by byte and a block that was compressed
  decompresses to the same bytes. Clock readings are arguments.
\<close>

section \<open>compressor.rs, lz4.rs\<close>

record Codecs =
  u8x32_xor :: "bytes \<Rightarrow> bytes \<Rightarrow> bytes"
  compress_prepend_size :: "bytes \<Rightarrow> bytes"
  decompress_size_prepended :: "bytes \<Rightarrow> bytes option"
  zstd_encode_all :: "bytes \<Rightarrow> bytes option"
  zstd_decode_all :: "bytes \<Rightarrow> bytes option"

datatype CompressorError = Lz4Error | ZstdError

datatype CompressorKind = Kind_None | Kind_Lz4 | Kind_Zstd

definition CompressorKind_default :: CompressorKind where
  "CompressorKind_default = Kind_Lz4"

definition compress_region :: "Codecs \<Rightarrow> bytes \<Rightarrow> bytes" where
  "compress_region E d = compress_prepend_size E d"

definition decompress_region :: "Codecs \<Rightarrow> bytes \<Rightarrow> CompressorError + bytes" where
  "decompress_region E d =
     (case decompress_size_prepended E d of None \<Rightarrow> Inl Lz4Error | Some r \<Rightarrow> Inr r)"

definition compress_zstd :: "Codecs \<Rightarrow> bytes \<Rightarrow> CompressorError + bytes" where
  "compress_zstd E d = (case zstd_encode_all E d of None \<Rightarrow> Inl ZstdError | Some r \<Rightarrow> Inr r)"

definition decompress_zstd :: "Codecs \<Rightarrow> bytes \<Rightarrow> CompressorError + bytes" where
  "decompress_zstd E d = (case zstd_decode_all E d of None \<Rightarrow> Inl ZstdError | Some r \<Rightarrow> Inr r)"

fun compress :: "Codecs \<Rightarrow> CompressorKind \<Rightarrow> bytes \<Rightarrow> CompressorError + bytes" where
  "compress E Kind_None d = Inr d"
| "compress E Kind_Lz4 d = Inr (compress_region E d)"
| "compress E Kind_Zstd d = compress_zstd E d"

fun decompress :: "Codecs \<Rightarrow> CompressorKind \<Rightarrow> bytes \<Rightarrow> CompressorError + bytes" where
  "decompress E Kind_None d = Inr d"
| "decompress E Kind_Lz4 d = decompress_region E d"
| "decompress E Kind_Zstd d = decompress_zstd E d"

definition delta_encode_region :: "bytes \<Rightarrow> bytes \<Rightarrow> DamageRect \<Rightarrow> usize \<Rightarrow> bytes option" where
  "delta_encode_region current previous rect stride =
     (let row_bytes = usize_mul (unat (dr_width rect)) 4 in
      fold_opt (\<lambda>row out. do {
        let y = usize_add (unat (dr_y rect)) row;
        let x_start = usize_mul (unat (dr_x rect)) 4;
        let row_start = usize_add (usize_mul y stride) x_start;
        let row_end = usize_add row_start row_bytes;
        cur \<leftarrow> vslice current row_start row_end;
        prev \<leftarrow> vslice previous row_start row_end;
        Some (out @ map2 (XOR) cur prev)
      }) [0..<unat (dr_height rect)] [])"

fun map_opt :: "('a \<Rightarrow> 'b option) \<Rightarrow> 'a list \<Rightarrow> 'b list option" where
  "map_opt f [] = Some []"
| "map_opt f (x # xs) = do { y \<leftarrow> f x; ys \<leftarrow> map_opt f xs; Some (y # ys) }"

definition compress_regions_parallel ::
  "Codecs \<Rightarrow> bytes \<Rightarrow> bytes \<Rightarrow> DamageRect list \<Rightarrow> usize \<Rightarrow> bytes list option" where
  "compress_regions_parallel E current previous regions stride = do {
     deltas \<leftarrow> map_opt (\<lambda>rect. delta_encode_region current previous rect stride) regions;
     Some (map (compress_region E) deltas)
   }"

section \<open>stats.rs\<close>

record FrameStats =
  original_bytes :: usize
  compressed_bytes :: usize
  encode_time :: duration
  compress_time :: duration

definition FrameStats_default :: FrameStats where
  "FrameStats_default = \<lparr>original_bytes = 0, compressed_bytes = 0, encode_time = 0, compress_time = 0\<rparr>"

definition total_time :: "FrameStats \<Rightarrow> duration option" where
  "total_time s = duration_add (encode_time s) (compress_time s)"

record CompressionStats =
  frame_count :: u64
  total_original :: u64
  total_compressed :: u64
  total_encode_time :: duration
  total_compress_time :: duration

definition CompressionStats_default :: CompressionStats where
  "CompressionStats_default =
     \<lparr>frame_count = 0, total_original = 0, total_compressed = 0, total_encode_time = 0,
      total_compress_time = 0\<rparr>"

definition stats_record :: "CompressionStats \<Rightarrow> FrameStats \<Rightarrow> CompressionStats option" where
  "stats_record cs f = do {
     te \<leftarrow> duration_add (total_encode_time cs) (encode_time f);
     tc \<leftarrow> duration_add (total_compress_time cs) (compress_time f);
     Some \<lparr>frame_count = frame_count cs + 1,
           total_original = total_original cs + word_of_nat (original_bytes f),
           total_compressed = total_compressed cs + word_of_nat (compressed_bytes f),
           total_encode_time = te, total_compress_time = tc\<rparr>
   }"

section \<open>pipeline.rs\<close>

record CompressedFrame =
  cf_data :: bytes
  region_offsets :: "usize list"
  region_sizes :: "usize list"
  cf_stats :: FrameStats

definition CompressedFrame_default :: CompressedFrame where
  "CompressedFrame_default =
     \<lparr>cf_data = [], region_offsets = [], region_sizes = [], cf_stats = FrameStats_default\<rparr>"

definition CompressedFrame_reset :: "CompressedFrame \<Rightarrow> CompressedFrame" where
  "CompressedFrame_reset cf =
     cf\<lparr>cf_data := [], region_offsets := [], region_sizes := [], cf_stats := FrameStats_default\<rparr>"

definition region_len :: "DamageRect \<Rightarrow> usize" where
  "region_len rect = usize_mul (usize_mul (unat (dr_width rect)) 4) (unat (dr_height rect))"

definition region_slices :: "bytes \<Rightarrow> DamageRect list \<Rightarrow> (bytes list \<times> usize) option" where
  "region_slices delta regions =
     fold_opt (\<lambda>rect (slices, delta_offset). do {
       s \<leftarrow> vslice delta delta_offset (usize_add delta_offset (region_len rect));
       Some (slices @ [s], usize_add delta_offset (region_len rect))
     }) regions ([], 0)"

definition stitch :: "bytes \<Rightarrow> CompressedFrame \<Rightarrow> CompressedFrame" where
  "stitch blob out =
     out\<lparr>region_offsets := region_offsets out @ [length (cf_data out)],
         region_sizes := region_sizes out @ [length blob],
         cf_data := cf_data out @ blob\<rparr>"

text \<open>\<^verbatim>\<open>kind.compress(delta).unwrap_or_default()\<close>: an empty blob when the codec fails.\<close>

definition blob_of :: "Codecs \<Rightarrow> CompressorKind \<Rightarrow> bytes \<Rightarrow> bytes" where
  "blob_of E kind d = (case compress E kind d of Inl _ \<Rightarrow> [] | Inr b \<Rightarrow> b)"

definition compress_frame_into ::
  "Codecs \<Rightarrow> bytes \<Rightarrow> bytes \<Rightarrow> usize \<Rightarrow> DamageRect list \<Rightarrow> CompressedFrame \<Rightarrow> CompressorKind
   \<Rightarrow> duration \<times> duration \<Rightarrow> (bytes \<times> CompressedFrame) option" where
  "compress_frame_into E current previous stride regions out kind clock = do {
     let out = CompressedFrame_reset out;
     (delta_scratch, original) \<leftarrow>
        delta_encode_simd (u8x32_xor E) current previous stride regions [];
     (slices, _) \<leftarrow> region_slices delta_scratch regions;
     let compressed_regions = map (blob_of E kind) slices;
     let out = fold stitch compressed_regions out;
     Some (delta_scratch,
       out\<lparr>cf_stats := \<lparr>original_bytes = original, compressed_bytes = length (cf_data out),
                        encode_time = fst clock, compress_time = snd clock\<rparr>\<rparr>)
   }"

definition compress_frame ::
  "Codecs \<Rightarrow> bytes \<Rightarrow> bytes \<Rightarrow> usize \<Rightarrow> DamageRect list \<Rightarrow> duration \<times> duration \<Rightarrow> CompressedFrame option" where
  "compress_frame E current previous stride regions clock = do {
     (_, out) \<leftarrow> compress_frame_into E current previous stride regions CompressedFrame_default
                   CompressorKind_default clock;
     Some out
   }"

definition frame_blobs :: "CompressedFrame \<Rightarrow> DamageRect list \<Rightarrow> bytes list option" where
  "frame_blobs cf regions =
     map_opt (\<lambda>i. do {
       start \<leftarrow> index (region_offsets cf) i;
       size \<leftarrow> index (region_sizes cf) i;
       vslice (cf_data cf) start (usize_add start size)
     }) [0..<length regions]"

fun collect_deltas :: "(CompressorError + bytes) list \<Rightarrow> bytes \<Rightarrow> CompressorError + bytes" where
  "collect_deltas [] scratch = Inr scratch"
| "collect_deltas (Inl e # _) scratch = Inl e"
| "collect_deltas (Inr d # rs) scratch = collect_deltas rs (scratch @ d)"

definition decompress_frame_into ::
  "Codecs \<Rightarrow> CompressedFrame \<Rightarrow> bytes \<Rightarrow> usize \<Rightarrow> DamageRect list \<Rightarrow> bytes \<Rightarrow> CompressorKind
   \<Rightarrow> (CompressorError + bytes) option" where
  "decompress_frame_into E compressed previous stride regions output kind = do {
     let output = vec_resize output (length previous) 0;
     blobs \<leftarrow> frame_blobs compressed regions;
     (case collect_deltas (map (decompress E kind) blobs) [] of
        Inl e \<Rightarrow> Some (Inl e)
      | Inr delta_scratch \<Rightarrow> do {
          out \<leftarrow> delta_decode delta_scratch previous stride regions output;
          Some (Inr out)
        })
   }"

definition decompress_frame ::
  "Codecs \<Rightarrow> CompressedFrame \<Rightarrow> bytes \<Rightarrow> usize \<Rightarrow> DamageRect list \<Rightarrow> bytes
   \<Rightarrow> (CompressorError + bytes) option" where
  "decompress_frame E compressed previous stride regions output =
     decompress_frame_into E compressed previous stride regions output CompressorKind_default"

section \<open>Region layout\<close>

definition rect_bytes :: "DamageRect \<Rightarrow> nat" where
  "rect_bytes r = unat (dr_width r) * 4 * unat (dr_height r)"

definition rect_delta :: "bytes \<Rightarrow> bytes \<Rightarrow> usize \<Rightarrow> DamageRect \<Rightarrow> bytes" where
  "rect_delta cur prev stride r = concat (map (xor_seg cur prev) (rect_segments stride r))"

definition delta_total :: "DamageRect list \<Rightarrow> nat" where
  "delta_total rs = sum_list (map rect_bytes rs)"

lemma concat_segments: "concat (map (xor_seg cur prev) (segments stride rs)) = concat (map (rect_delta cur prev stride) rs)"
  by (simp add: segments_def rect_delta_def [abs_def] concat_map_concat comp_def)

lemma length_rect_delta:
  assumes "length cur = length prev" and "rect_fits (length prev) stride r"
  shows "length (rect_delta cur prev stride r) = rect_bytes r"
proof -
  have "length (xor_seg cur prev (row_seg stride r row)) = unat (dr_width r) * 4"
    if "row < unat (dr_height r)" for row
    using length_xor_seg [OF assms(1) row_seg_fits [OF assms(2) that]] by (simp add: row_seg_def)
  then have "map (\<lambda>row. length (xor_seg cur prev (row_seg stride r row))) [0..<unat (dr_height r)] =
      map (\<lambda>_. unat (dr_width r) * 4) [0..<unat (dr_height r)]" by (intro map_cong) simp_all
  then have "sum_list (map (\<lambda>row. length (xor_seg cur prev (row_seg stride r row))) [0..<unat (dr_height r)]) =
      unat (dr_height r) * (unat (dr_width r) * 4)"
    by (simp only: sum_list_triv length_upt diff_zero of_nat_id)
  then show ?thesis
    by (simp add: rect_delta_def length_concat rect_bytes_def rect_segments_def comp_def)
qed

lemma length_concat_rect_delta:
  assumes "length cur = length prev" and "frame_ok (length prev) stride rs"
  shows "length (concat (map (rect_delta cur prev stride) rs)) = delta_total rs"
  using assms(2) by (induction rs) (simp_all add: delta_total_def length_rect_delta [OF assms(1)])

lemma rect_bytes_le_total: "r \<in> set rs \<Longrightarrow> rect_bytes r \<le> delta_total rs"
  by (simp add: delta_total_def member_le_sum_list)

lemma region_len_eq: "rect_bytes r < usize_bound \<Longrightarrow> region_len r = rect_bytes r"
  by (simp add: region_len_def rect_bytes_def u32_times_4 no_wrap)

lemma region_slices_aux:
  assumes "list_all2 (\<lambda>r d. length d = rect_bytes r) rs ds"
    and "length (pre @ concat ds) < usize_bound"
  shows "fold_opt (\<lambda>rect (slices, delta_offset). do {
       s \<leftarrow> vslice (pre @ concat ds @ post) delta_offset (usize_add delta_offset (region_len rect));
       Some (slices @ [s], usize_add delta_offset (region_len rect))
     }) rs (acc, length pre) = Some (acc @ ds, length (pre @ concat ds))"
  using assms
proof (induction rs ds arbitrary: pre acc rule: list_all2_induct)
  case (Cons r rs d ds)
  have "region_len r = length d" using Cons by (simp add: region_len_eq)
  then show ?case
    using Cons.prems Cons.IH [of "pre @ d" "acc @ [d]"]
    by (simp add: no_wrap vslice_def)
qed simp

lemma region_slices_concat:
  assumes "list_all2 (\<lambda>r d. length d = rect_bytes r) rs ds" and "length (concat ds) < usize_bound"
  shows "region_slices (concat ds) rs = Some (ds, length (concat ds))"
  using region_slices_aux [of rs ds "[]" "[]" "[]"] assms by (simp add: region_slices_def)

fun offsets_from :: "nat \<Rightarrow> nat list \<Rightarrow> nat list" where
  "offsets_from k [] = []"
| "offsets_from k (s # ss) = k # offsets_from (k + s) ss"

lemma length_offsets_from [simp]: "length (offsets_from k ss) = length ss"
  by (induction ss arbitrary: k) simp_all

lemma nth_offsets_from: "i < length ss \<Longrightarrow> offsets_from k ss ! i = k + sum_list (take i ss)"
proof (induction ss arbitrary: k i)
  case (Cons s ss)
  then show ?case by (cases i) (simp_all add: add.assoc)
qed simp

lemma fold_stitch:
  "fold stitch blobs out =
     out\<lparr>region_offsets := region_offsets out @ offsets_from (length (cf_data out)) (map length blobs),
         region_sizes := region_sizes out @ map length blobs,
         cf_data := cf_data out @ concat blobs\<rparr>"
  by (induction blobs arbitrary: out) (simp_all add: stitch_def)

lemma map_opt_nth:
  "(\<And>i. i < length ys \<Longrightarrow> f (k + i) = Some (ys ! i)) \<Longrightarrow> map_opt f [k..<k + length ys] = Some ys"
proof (induction ys arbitrary: k)
  case (Cons y ys)
  have "f (Suc k + i) = Some (ys ! i)" if "i < length ys" for i
    using Cons.prems [of "Suc i"] that by simp
  then have "map_opt f [Suc k..<Suc k + length ys] = Some ys" by (rule Cons.IH)
  moreover have "f k = Some y" using Cons.prems [of 0] by simp
  moreover have "[k..<k + length (y # ys)] = k # [Suc k..<Suc k + length ys]"
    by (subst upt_conv_Cons) simp_all
  ultimately show ?case by simp
qed simp

lemma concat_split: "i < length xs \<Longrightarrow> concat xs = concat (take i xs) @ xs ! i @ concat (drop (Suc i) xs)"
  by (metis concat.simps(2) concat_append id_take_nth_drop)

text \<open>The three parallel vectors of a frame describe its blobs.\<close>

definition describes :: "CompressedFrame \<Rightarrow> bytes list \<Rightarrow> bool" where
  "describes cf blobs \<longleftrightarrow>
     region_offsets cf = offsets_from 0 (map length blobs) \<and> region_sizes cf = map length blobs \<and>
     take (length (concat blobs)) (cf_data cf) = concat blobs \<and> length (cf_data cf) < usize_bound"

lemma frame_blobs_describes:
  assumes "describes cf blobs" and "length regions = length blobs"
  shows "frame_blobs cf regions = Some blobs"
proof -
  have "(do {
       start \<leftarrow> index (region_offsets cf) i;
       size \<leftarrow> index (region_sizes cf) i;
       vslice (cf_data cf) start (usize_add start size)
     }) = Some (blobs ! i)" if i: "i < length blobs" for i
  proof -
    let ?a = "length (concat (take i blobs))"
    have data: "cf_data cf = concat (take i blobs) @ blobs ! i @ concat (drop (Suc i) blobs)
        @ drop (length (concat blobs)) (cf_data cf)"
      using assms(1) append_take_drop_id [of "length (concat blobs)" "cf_data cf"] concat_split [OF i]
      by (simp add: describes_def)
    have "?a + length (blobs ! i) \<le> length (cf_data cf)"
      by (subst data) simp
    then have add: "usize_add ?a (length (blobs ! i)) = ?a + length (blobs ! i)"
      using assms(1) by (simp add: describes_def no_wrap)
    have "vslice (cf_data cf) ?a (?a + length (blobs ! i)) = Some (blobs ! i)"
      by (subst data) (simp add: vslice_def)
    moreover have "sum_list (take i (map length blobs)) = ?a" by (simp add: length_concat take_map)
    ultimately show ?thesis
      using assms(1) i add by (simp add: describes_def index_def nth_offsets_from)
  qed
  then show ?thesis
    using map_opt_nth [of blobs _ 0] assms(2) by (simp add: frame_blobs_def)
qed

section \<open>Codecs\<close>

definition codecs_ok :: "Codecs \<Rightarrow> bool" where
  "codecs_ok E \<longleftrightarrow> lanewise_xor (u8x32_xor E) \<and>
     (\<forall>d. decompress_size_prepended E (compress_prepend_size E d) = Some d) \<and>
     (\<forall>d c. zstd_encode_all E d = Some c \<longrightarrow> zstd_decode_all E c = Some d)"

lemma codec_roundtrip:
  "codecs_ok E \<Longrightarrow> compress E kind d = Inr b \<Longrightarrow> decompress E kind b = Inr d"
  by (cases kind)
    (auto simp: codecs_ok_def compress_region_def decompress_region_def compress_zstd_def
       decompress_zstd_def split: option.splits)

lemma collect_deltas_Inr: "collect_deltas (map Inr ds) s = Inr (s @ concat ds)"
  by (induction ds arbitrary: s) simp_all

definition compressible :: "Codecs \<Rightarrow> CompressorKind \<Rightarrow> bytes \<Rightarrow> bool" where
  "compressible E kind d \<longleftrightarrow> (case compress E kind d of Inl _ \<Rightarrow> False | Inr _ \<Rightarrow> True)"

lemma decompress_blob_of: "codecs_ok E \<Longrightarrow> compressible E kind d \<Longrightarrow> decompress E kind (blob_of E kind d) = Inr d"
  using codec_roundtrip by (auto simp: compressible_def blob_of_def split: sum.splits)

lemma compressible_not_zstd [simp]: "kind \<noteq> Kind_Zstd \<Longrightarrow> compressible E kind d"
  by (cases kind) (simp_all add: compressible_def)

section \<open>The frame pipeline\<close>

lemma compress_frame_into_blobs:
  assumes "codecs_ok E" and "frame_ok (length prev) stride rs" and "length cur = length prev"
    and "delta_total rs < usize_bound"
  shows "compress_frame_into E cur prev stride rs out kind clock =
    Some (concat (map (rect_delta cur prev stride) rs),
      (fold stitch (map (blob_of E kind) (map (rect_delta cur prev stride) rs)) (CompressedFrame_reset out))
        \<lparr>cf_stats := \<lparr>original_bytes = delta_total rs,
           compressed_bytes = length (concat (map (blob_of E kind) (map (rect_delta cur prev stride) rs))),
           encode_time = fst clock, compress_time = snd clock\<rparr>\<rparr>)"
proof -
  let ?ds = "map (rect_delta cur prev stride) rs"
  have "lanewise_xor (u8x32_xor E)" using assms(1) by (simp add: codecs_ok_def)
  then have enc: "delta_encode_simd (u8x32_xor E) cur prev stride rs [] = Some (concat ?ds, delta_total rs)"
    using row_xor.encode_segments [OF simd_row_xor assms(2,3), of "u8x32_xor E" "[]"]
      length_concat_rect_delta [OF assms(3,2)]
    by (simp add: delta_encode_simd_def concat_segments)
  have "list_all2 (\<lambda>r d. length d = rect_bytes r) rs ?ds"
    using assms(2,3) by (auto simp: list_all2_conv_all_nth length_rect_delta frame_ok_rectD)
  then have sl: "region_slices (concat ?ds) rs = Some (?ds, delta_total rs)"
    using region_slices_concat [of rs ?ds] assms(4) length_concat_rect_delta [OF assms(3,2)] by simp
  show ?thesis
    by (simp add: compress_frame_into_def enc sl fold_stitch CompressedFrame_reset_def Let_def comp_assoc)
qed

lemma compress_frame_into_describes:
  assumes "codecs_ok E" and "frame_ok (length prev) stride rs" and "length cur = length prev"
    and "delta_total rs < usize_bound"
    and "compress_frame_into E cur prev stride rs out kind clock = Some (scratch, cf)"
    and "length (cf_data cf) < usize_bound"
  shows "describes cf (map (blob_of E kind) (map (rect_delta cur prev stride) rs))"
    and "cf_data cf = concat (map (blob_of E kind) (map (rect_delta cur prev stride) rs))"
  using assms(5,6) compress_frame_into_blobs [OF assms(1-4), of out kind clock]
  by (auto simp: describes_def fold_stitch CompressedFrame_reset_def)

lemma decompress_describes:
  assumes "codecs_ok E" and "frame_ok (length prev) stride rs" and "length cur = length prev"
    and "delta_total rs < 9223372036854775808"
    and "list_all (compressible E kind) (map (rect_delta cur prev stride) rs)"
    and "describes cf (map (blob_of E kind) (map (rect_delta cur prev stride) rs))"
  shows "decompress_frame_into E cf prev stride rs output kind = Some (Inr (overlay stride rs cur prev))"
proof -
  let ?ds = "map (rect_delta cur prev stride) rs"
  have dec: "map (decompress E kind) (map (blob_of E kind) ?ds) = map Inr ?ds"
    using assms(1,5) by (simp add: list_all_iff decompress_blob_of)
  have "collect_deltas (map (decompress E kind) (map (blob_of E kind) ?ds)) [] = Inr (concat ?ds)"
    unfolding dec using collect_deltas_Inr [of ?ds "[]"] by (simp only: append_Nil)
  moreover have "delta_decode (concat ?ds) prev stride rs (vec_resize output (length prev) 0) = Some (overlay stride rs cur prev)"
    using assms(2-4) length_concat_rect_delta [OF assms(3,2)]
    by (intro delta_decode_overlay [where post = "[]"]) (simp_all add: concat_segments)
  ultimately show ?thesis
    using frame_blobs_describes [OF assms(6)] by (simp add: decompress_frame_into_def)
qed


lemma map_opt_all: "(\<And>x. x \<in> set xs \<Longrightarrow> f x = Some (g x)) \<Longrightarrow> map_opt f xs = Some (map g xs)"
  by (induction xs) simp_all

lemma usize_add_assoc: "usize_add (usize_add a b) c = usize_add a (usize_add b c)"
  by (simp add: usize_add_def mod_simps add.assoc)

lemma delta_encode_region_rows:
  "delta_encode_region cur prev r stride =
     fold_opt (encode_row xor_extend cur prev stride r) [0..<unat (dr_height r)] []"
  by (simp add: delta_encode_region_def encode_row_def [abs_def] row_range_def xor_extend_def Let_def
      usize_add_assoc)

lemma delta_encode_region_rect:
  assumes "length cur = length prev" and "rect_fits (length prev) stride r"
    and "length prev < 9223372036854775808"
  shows "delta_encode_region cur prev r stride = Some (rect_delta cur prev stride r)"
  using scalar_row.encode_rect [OF assms(2,3,1), of "[]"]
  by (simp add: delta_encode_region_rows rect_delta_def)

lemma compress_regions_parallel_blobs:
  assumes "frame_ok (length prev) stride rs" and "length cur = length prev"
  shows "compress_regions_parallel E cur prev rs stride =
    Some (map (blob_of E Kind_Lz4) (map (rect_delta cur prev stride) rs))"
proof -
  have "map_opt (\<lambda>rect. delta_encode_region cur prev rect stride) rs = Some (map (rect_delta cur prev stride) rs)"
    using assms by (intro map_opt_all delta_encode_region_rect) (auto simp: frame_ok_rectD frame_ok_def)
  then show ?thesis by (simp add: compress_regions_parallel_def blob_of_def)
qed

definition plain_codecs :: Codecs where
  "plain_codecs = \<lparr>u8x32_xor = map2 (XOR), compress_prepend_size = (\<lambda>d. d),
     decompress_size_prepended = Some, zstd_encode_all = Some, zstd_decode_all = Some\<rparr>"

lemma plain_codecs_ok [simp]: "codecs_ok plain_codecs"
  by (simp add: codecs_ok_def plain_codecs_def lanewise_xor_def)

lemmas layout_defs = frame_ok_def rect_fits_def rect_segments_def row_seg_def seg_fits_def
  DamageRect_new_def rect_bytes_def delta_total_def

section \<open>Properties\<close>

text \<open>C3. Frame pipeline round trip: for regions inside the frame and codecs that invert
  themselves, \<open>compress_frame_into\<close> succeeds whatever the reused output frame held, its statistics
  count the delta bytes and the bytes of the blob area, and \<open>decompress_frame_into\<close> of that
  frame against the same previous frame returns \<open>cur\<close> on the bytes the regions cover and
  \<open>prev\<close> elsewhere, whatever the output buffer held.\<close>

theorem frame_pipeline_roundtrip:
  assumes "codecs_ok E" and "frame_ok (length prev) stride rs" and "length cur = length prev"
    and "delta_total rs < 9223372036854775808"
    and "list_all (compressible E kind) (map (rect_delta cur prev stride) rs)"
    and "length (concat (map (blob_of E kind) (map (rect_delta cur prev stride) rs))) < usize_bound"
  shows "\<exists>scratch cf. compress_frame_into E cur prev stride rs out kind clock = Some (scratch, cf) \<and>
     original_bytes (cf_stats cf) = length scratch \<and>
     compressed_bytes (cf_stats cf) = length (cf_data cf) \<and>
     length (region_offsets cf) = length rs \<and> length (region_sizes cf) = length rs \<and>
     decompress_frame_into E cf prev stride rs output kind = Some (Inr (overlay stride rs cur prev))"
proof -
  have total: "delta_total rs < usize_bound" using assms(4) by simp
  obtain scratch cf where run: "compress_frame_into E cur prev stride rs out kind clock = Some (scratch, cf)"
    and scratch: "scratch = concat (map (rect_delta cur prev stride) rs)"
    and cf: "cf = (fold stitch (map (blob_of E kind) (map (rect_delta cur prev stride) rs)) (CompressedFrame_reset out))
        \<lparr>cf_stats := \<lparr>original_bytes = delta_total rs,
           compressed_bytes = length (concat (map (blob_of E kind) (map (rect_delta cur prev stride) rs))),
           encode_time = fst clock, compress_time = snd clock\<rparr>\<rparr>"
    using compress_frame_into_blobs [OF assms(1-3) total] by blast
  have "length (cf_data cf) < usize_bound"
    using assms(6) cf by (simp add: fold_stitch CompressedFrame_reset_def)
  then have "decompress_frame_into E cf prev stride rs output kind = Some (Inr (overlay stride rs cur prev))"
    using compress_frame_into_describes(1) [OF assms(1-3) total run]
    by (intro decompress_describes [OF assms(1-5)])
  then show ?thesis
    using run scratch cf length_concat_rect_delta [OF assms(3,2)]
    by (intro exI [of _ scratch] exI [of _ cf])
      (simp add: fold_stitch CompressedFrame_reset_def)
qed

theorem frame_pipeline_roundtrip_witness:
  "\<exists>scratch cf. compress_frame_into plain_codecs [1, 2, 3, 4, 9, 9, 9, 9] [5, 5, 5, 5, 6, 6, 6, 6] 8
       [DamageRect_new 1 0 1 1] CompressedFrame_default Kind_Zstd (0, 0) = Some (scratch, cf) \<and>
     original_bytes (cf_stats cf) = length scratch \<and>
     compressed_bytes (cf_stats cf) = length (cf_data cf) \<and>
     length (region_offsets cf) = length [DamageRect_new 1 0 1 1] \<and>
     length (region_sizes cf) = length [DamageRect_new 1 0 1 1] \<and>
     decompress_frame_into plain_codecs cf [5, 5, 5, 5, 6, 6, 6, 6] 8 [DamageRect_new 1 0 1 1] [] Kind_Zstd =
       Some (Inr (overlay 8 [DamageRect_new 1 0 1 1] [1, 2, 3, 4, 9, 9, 9, 9] [5, 5, 5, 5, 6, 6, 6, 6]))"
  by (rule frame_pipeline_roundtrip)
    (simp_all add: layout_defs compressible_def compress_zstd_def blob_of_def rect_delta_def xor_seg_def,
     simp_all add: plain_codecs_def)

text \<open>The parallel helper agrees with the pipeline: the blobs \<open>compress_regions_parallel\<close>
  returns are exactly the blobs a client cuts out of the frame \<open>compress_frame\<close> builds.\<close>

theorem parallel_matches_pipeline:
  assumes "codecs_ok E" and "frame_ok (length prev) stride rs" and "length cur = length prev"
    and "delta_total rs < usize_bound"
    and "compress_frame E cur prev stride rs clock = Some cf" and "length (cf_data cf) < usize_bound"
  shows "compress_regions_parallel E cur prev rs stride = frame_blobs cf rs"
proof -
  obtain scratch where "compress_frame_into E cur prev stride rs CompressedFrame_default Kind_Lz4 clock =
      Some (scratch, cf)"
    using assms(5) by (auto simp: compress_frame_def CompressorKind_default_def split: Option.bind_splits)
  from compress_frame_into_describes(1) [OF assms(1-4) this assms(6)]
  show ?thesis
    by (simp add: compress_regions_parallel_blobs [OF assms(2,3)] frame_blobs_describes)
qed

theorem parallel_matches_pipeline_witness:
  "\<exists>cf. compress_frame plain_codecs [1, 2, 3, 4, 9, 9, 9, 9] [5, 5, 5, 5, 6, 6, 6, 6] 8
       [DamageRect_new 1 0 1 1] (0, 0) = Some cf \<and>
     compress_regions_parallel plain_codecs [1, 2, 3, 4, 9, 9, 9, 9] [5, 5, 5, 5, 6, 6, 6, 6]
       [DamageRect_new 1 0 1 1] 8 = frame_blobs cf [DamageRect_new 1 0 1 1]"
proof -
  let ?cur = "[1, 2, 3, 4, 9, 9, 9, 9] :: bytes" and ?prev = "[5, 5, 5, 5, 6, 6, 6, 6] :: bytes"
    and ?rs = "[DamageRect_new 1 0 1 1]"
  have ok: "frame_ok (length ?prev) 8 ?rs" "delta_total ?rs < usize_bound" by (simp_all add: layout_defs)
  obtain scratch cf where run: "compress_frame_into plain_codecs ?cur ?prev 8 ?rs CompressedFrame_default
      Kind_Lz4 (0, 0) = Some (scratch, cf)"
    and len: "length (cf_data cf) = length (concat (map (blob_of plain_codecs Kind_Lz4) (map (rect_delta ?cur ?prev 8) ?rs)))"
    using compress_frame_into_blobs [OF plain_codecs_ok ok(1) _ ok(2), of ?cur CompressedFrame_default Kind_Lz4 "(0, 0)"]
    by (auto simp: stitch_def CompressedFrame_reset_def)
  then have cf: "compress_frame plain_codecs ?cur ?prev 8 ?rs (0, 0) = Some cf"
    by (simp add: compress_frame_def CompressorKind_default_def)
  have "length (cf_data cf) < usize_bound"
    unfolding len
    by (simp add: blob_of_def compress_region_def plain_codecs_def rect_delta_def rect_segments_def
        row_seg_def DamageRect_new_def xor_seg_def)
  with parallel_matches_pipeline [OF plain_codecs_ok ok(1) _ ok(2) cf] cf show ?thesis by auto
qed

lemma collect_deltas_error: "collect_deltas (map Inr ds @ Inl e # rest) s = Inl e"
  by (induction ds arbitrary: s) simp_all

text \<open>A corrupt region is reported, not shown: when the blobs before region \<open>i\<close> decompress and
  the blob of region \<open>i\<close> does not, \<open>decompress_frame_into\<close> returns that region's error.\<close>

theorem corrupt_region_reported:
  assumes "describes cf (good @ bad # rest)" and "length rs = length (good @ bad # rest)"
    and "map (decompress E kind) good = map Inr ds" and "decompress E kind bad = Inl e"
  shows "decompress_frame_into E cf prev stride rs output kind = Some (Inl e)"
  using frame_blobs_describes [OF assms(1,2)] assms(3,4)
  by (simp add: decompress_frame_into_def collect_deltas_error)

theorem corrupt_region_reported_witness:
  "decompress_frame_into (plain_codecs\<lparr>decompress_size_prepended := \<lambda>d. if d = [] then None else Some d\<rparr>)
     (stitch [] (stitch [7] CompressedFrame_default)) [] 0
     [DamageRect_new 0 0 1 1, DamageRect_new 1 0 1 1] [] Kind_Lz4 = Some (Inl Lz4Error)"
  by (rule corrupt_region_reported [where good = "[[7]]" and bad = "[]" and rest = "[]" and ds = "[[7]]"])
    (simp_all add: describes_def stitch_def CompressedFrame_default_def decompress_region_def)

text \<open>Running statistics: recording frames adds them up; the frame count and the byte counters
  wrap at \<open>2 ^ 64\<close>, the two time totals are exact as long as neither leaves the range of a duration.\<close>

theorem stats_totals:
  assumes "sum_list (map encode_time fs) < duration_bound" and "sum_list (map compress_time fs) < duration_bound"
  shows "fold_opt (\<lambda>f cs. stats_record cs f) fs CompressionStats_default =
     Some \<lparr>frame_count = word_of_nat (length fs),
           total_original = word_of_nat (sum_list (map original_bytes fs)),
           total_compressed = word_of_nat (sum_list (map compressed_bytes fs)),
           total_encode_time = sum_list (map encode_time fs),
           total_compress_time = sum_list (map compress_time fs)\<rparr>"
  using assms
  by (induction fs rule: rev_induct)
    (simp_all add: CompressionStats_default_def fold_opt_snoc stats_record_def duration_add_def)

theorem stats_totals_witness:
  "fold_opt (\<lambda>f cs. stats_record cs f)
     [\<lparr>original_bytes = 8, compressed_bytes = 3, encode_time = 5, compress_time = 7\<rparr>] CompressionStats_default =
     Some \<lparr>frame_count = 1, total_original = 8, total_compressed = 3, total_encode_time = 5,
           total_compress_time = 7\<rparr>"
  using stats_totals [of "[\<lparr>original_bytes = 8, compressed_bytes = 3, encode_time = 5, compress_time = 7\<rparr>]"]
  by simp

end
