(* ===== verification/Downscale.thy ===== *)
theory Downscale
  imports Compress
begin

text \<open>
  The image side of \<^verbatim>\<open>crates/remoteway-server/src/pipeline.rs\<close>: cutting a frame into stripes and the two
  downscale filters, with their 32-bit index arithmetic. Each is shown to equal a reference definition:
  a tiling of the rows, the nearest source pixel, and the average of the source block.
\<close>

section \<open>pipeline.rs: stripes\<close>

definition stripe_full_frame :: "u32 \<Rightarrow> u32 \<Rightarrow> usize \<Rightarrow> DamageRect list" where
  "stripe_full_frame width height workers =
     (let n = max (min (word_of_nat workers) height) 1 in
      if n = 1 then [DamageRect_new 0 0 width height] else
      let base = height div n; rem = height mod n in
      fst (fold (\<lambda>i (stripes, y).
             let h = base + (if word_of_nat i < rem then 1 else 0)
             in (stripes @ [DamageRect_new 0 y width h], y + h))
           [0..<unat n] ([], 0)))"

section \<open>pipeline.rs: downscaling\<close>

text \<open>\<^verbatim>\<open>(d as u64 * src as u64 / dst as u64) as u32\<close>: the product of two 32-bit numbers fits 64 bits, the quotient
  is cut to 32; \<open>None\<close> is the division by zero.\<close>

definition ratio_index :: "nat \<Rightarrow> u32 \<Rightarrow> u32 \<Rightarrow> u32 option" where
  "ratio_index d src dst = (if dst = 0 then None else Some (word_of_nat (d * unat src div unat dst)))"

definition nearest_pixel ::
  "bytes \<Rightarrow> u32 \<Rightarrow> usize \<Rightarrow> usize \<Rightarrow> u32 \<Rightarrow> nat \<Rightarrow> bytes \<Rightarrow> bytes option" where
  "nearest_pixel src src_w src_row dst_row dst_w dx dst = do {
     sx \<leftarrow> ratio_index dx src_w dst_w;
     let si = usize_add src_row (unat (sx * 4));
     let di = usize_add dst_row (unat (word_of_nat dx * 4 :: u32));
     px \<leftarrow> vslice src si (usize_add si 4);
     write_slice dst di px
   }"

definition downscale_nearest ::
  "bytes \<Rightarrow> u32 \<Rightarrow> u32 \<Rightarrow> u32 \<Rightarrow> u32 \<Rightarrow> u32 \<Rightarrow> (bytes \<times> u32) option" where
  "downscale_nearest src src_w src_h src_stride dst_w dst_h =
     (let dst_stride = dst_w * 4; total = unat (dst_stride * dst_h) in do {
        dst \<leftarrow> fold_opt (\<lambda>dy dst. do {
            sy \<leftarrow> ratio_index dy src_h dst_h;
            let src_row = unat (sy * src_stride);
            let dst_row = unat (word_of_nat dy * dst_stride);
            fold_opt (nearest_pixel src src_w src_row dst_row dst_w) [0..<unat dst_w] dst
          }) [0..<unat dst_h] (replicate total 0);
        Some (dst, dst_stride)
      })"

text \<open>The source interval a destination coordinate covers; \<^verbatim>\<open>dy + 1\<close> is a 32-bit addition.\<close>

definition box_span :: "nat \<Rightarrow> u32 \<Rightarrow> u32 \<Rightarrow> (u32 \<times> u32) option" where
  "box_span d src dst = do {
     s0 \<leftarrow> ratio_index d src dst;
     s1_raw \<leftarrow> ratio_index (unat (word_of_nat d + 1 :: u32)) src dst;
     Some (s0, min (max s1_raw (s0 + 1)) src)
   }"

type_synonym accum = "u32 \<times> u32 \<times> u32 \<times> u32 \<times> u32"

definition box_sample :: "bytes \<Rightarrow> usize \<Rightarrow> nat \<Rightarrow> accum \<Rightarrow> accum option" where
  "box_sample src row_off sx acc = (case acc of (r, g, b, a, count) \<Rightarrow> do {
     let off = usize_add row_off (unat (word_of_nat sx * 4 :: u32));
     vr \<leftarrow> index src off;
     vg \<leftarrow> index src (usize_add off 1);
     vb \<leftarrow> index src (usize_add off 2);
     va \<leftarrow> index src (usize_add off 3);
     Some (r + ucast vr, g + ucast vg, b + ucast vb, a + ucast va, count + 1)
   })"

definition box_block :: "bytes \<Rightarrow> u32 \<Rightarrow> u32 \<times> u32 \<Rightarrow> u32 \<times> u32 \<Rightarrow> accum option" where
  "box_block src src_stride ys xs =
     fold_opt (\<lambda>sy. fold_opt (box_sample src (unat (word_of_nat sy * src_stride))) [unat (fst xs)..<unat (snd xs)])
       [unat (fst ys)..<unat (snd ys)] (0, 0, 0, 0, 0)"

definition box_pixel :: "accum \<Rightarrow> bytes option" where
  "box_pixel acc = (case acc of (r, g, b, a, count) \<Rightarrow>
     if count = 0 then None
     else Some [ucast (r div count), ucast (g div count), ucast (b div count), ucast (a div count)])"

definition box_row ::
  "bytes \<Rightarrow> u32 \<Rightarrow> u32 \<Rightarrow> u32 \<Rightarrow> u32 \<Rightarrow> u32 \<Rightarrow> nat \<Rightarrow> bytes \<Rightarrow> bytes option" where
  "box_row src src_w src_h src_stride dst_w dst_h dy row_buf = do {
     ys \<leftarrow> box_span dy src_h dst_h;
     fold_opt (\<lambda>dx row. do {
        xs \<leftarrow> box_span dx src_w dst_w;
        acc \<leftarrow> box_block src src_stride ys xs;
        px \<leftarrow> box_pixel acc;
        let di = unat (word_of_nat dx * 4 :: u32);
        write_slice row di px
      }) [0..<unat dst_w] row_buf
   }"

text \<open>\<^verbatim>\<open>par_chunks_mut(dst_stride)\<close> panics for a zero chunk size; the rows are disjoint slices, so the order in
  which the workers fill them does not matter.\<close>

definition downscale_box ::
  "bytes \<Rightarrow> u32 \<Rightarrow> u32 \<Rightarrow> u32 \<Rightarrow> u32 \<Rightarrow> u32 \<Rightarrow> (bytes \<times> u32) option" where
  "downscale_box src src_w src_h src_stride dst_w dst_h =
     (let dst_stride = dst_w * 4; total = unat (dst_stride * dst_h); k = unat dst_stride in
      if dst_w = 0 \<or> dst_h = 0 then Some (replicate total 0, dst_stride)
      else if src_w \<le> dst_w \<and> src_h \<le> dst_h then Some (replicate total 0, dst_stride)
      else if k = 0 then None else do {
        rows \<leftarrow> map_opt (\<lambda>dy. box_row src src_w src_h src_stride dst_w dst_h dy
                    (replicate (min k (total - dy * k)) 0)) [0..<(total + k - 1) div k];
        Some (concat rows, dst_stride)
      })"

section \<open>Stripes tile the frame\<close>

definition row_interval :: "DamageRect \<Rightarrow> nat list" where
  "row_interval r = [unat (dr_y r)..<unat (dr_y r) + unat (dr_height r)]"

definition stripe_y :: "nat \<Rightarrow> nat \<Rightarrow> nat \<Rightarrow> nat" where
  "stripe_y N H k = k * (H div N) + min k (H mod N)"

definition stripe_h :: "nat \<Rightarrow> nat \<Rightarrow> nat \<Rightarrow> nat" where
  "stripe_h N H k = H div N + (if k < H mod N then 1 else 0)"

lemma stripe_y_Suc: "stripe_y N H (Suc k) = stripe_y N H k + stripe_h N H k"
  by (simp add: stripe_y_def stripe_h_def)

lemma stripe_y_mono: "k \<le> l \<Longrightarrow> stripe_y N H k \<le> stripe_y N H l"
  by (induction l rule: dec_induct) (simp_all add: stripe_y_Suc)

lemma stripe_y_last: "0 < N \<Longrightarrow> stripe_y N H N = H"
  using mod_less_divisor [of N H] by (simp add: stripe_y_def min_absorb2 less_imp_le)

lemma stripe_rows: "concat (map (\<lambda>k. [stripe_y N H k..<stripe_y N H k + stripe_h N H k]) [0..<i]) = [0..<stripe_y N H i]"
proof (induction i)
  case (Suc i)
  have "[0..<stripe_y N H i + stripe_h N H i] =
      [0..<stripe_y N H i] @ [stripe_y N H i..<stripe_y N H i + stripe_h N H i]"
    by (rule upt_add_eq_append) simp
  with Suc show ?case by (simp add: stripe_y_Suc)
qed (simp add: stripe_y_def)

definition stripe_rect :: "u32 \<Rightarrow> nat \<Rightarrow> nat \<Rightarrow> nat \<Rightarrow> DamageRect" where
  "stripe_rect w N H k = DamageRect_new 0 (word_of_nat (stripe_y N H k)) w (word_of_nat (stripe_h N H k))"

lemma stripes_fold:
  assumes "0 < n" and "i \<le> unat n"
  shows "fold (\<lambda>i (stripes, y).
             let hh = h div n + (if word_of_nat i < h mod n then 1 else 0)
             in (stripes @ [DamageRect_new 0 y w hh], y + hh)) [0..<i] ([], 0) =
         (map (stripe_rect w (unat n) (unat h)) [0..<i], word_of_nat (stripe_y (unat n) (unat h) i))"
  using assms(2)
proof (induction i)
  case (Suc i)
  have "word_of_nat i < h mod n \<longleftrightarrow> i < unat h mod unat n"
    using Suc.prems unat_lt_u32 [of n]
    by (simp add: word_less_nat_alt unat_mod_distrib unat_word_of_nat)
  moreover have "h div n = word_of_nat (unat h div unat n)"
    by (simp add: unat_div_distrib [symmetric])
  ultimately have "h div n + (if word_of_nat i < h mod n then 1 else 0) = word_of_nat (stripe_h (unat n) (unat h) i)"
    by (simp add: stripe_h_def)
  then show ?case using Suc by (simp add: stripe_rect_def stripe_y_Suc Let_def)
qed (simp add: stripe_y_def)

definition stripe_count :: "u32 \<Rightarrow> usize \<Rightarrow> u32" where
  "stripe_count height workers = max (min (word_of_nat workers) height) 1"

lemma stripe_count_pos: "0 < stripe_count h n"
  by (simp add: stripe_count_def word_less_nat_alt word_le_nat_alt max_def)

lemma stripe_full_frame_rects:
  "stripe_full_frame w h k = map (stripe_rect w (unat (stripe_count h k)) (unat h)) [0..<unat (stripe_count h k)]"
proof (cases "stripe_count h k = 1")
  case True
  then show ?thesis
    by (simp add: stripe_full_frame_def stripe_count_def stripe_rect_def stripe_y_def stripe_h_def)
next
  case False
  then show ?thesis
    using stripes_fold [where i = "unat (stripe_count h k)", OF stripe_count_pos order_refl, of h w]
    by (simp add: stripe_full_frame_def stripe_count_def Let_def)
qed

lemma stripe_rect_interval:
  fixes n h :: u32
  assumes "0 < n" and "i < unat n"
  shows "row_interval (stripe_rect w (unat n) (unat h) i) =
    [stripe_y (unat n) (unat h) i..<stripe_y (unat n) (unat h) i + stripe_h (unat n) (unat h) i]"
proof -
  have "stripe_y (unat n) (unat h) (Suc i) \<le> unat h"
    using stripe_y_mono [of "Suc i" "unat n" "unat n" "unat h"] stripe_y_last [of "unat n" "unat h"] assms
    by (simp add: word_less_nat_alt)
  then have "stripe_y (unat n) (unat h) i + stripe_h (unat n) (unat h) i < 4294967296"
    using unat_lt_u32 [of h] by (simp add: stripe_y_Suc)
  then show ?thesis
    by (simp add: row_interval_def stripe_rect_def DamageRect_new_def unat_word_of_nat)
qed

lemma stripes_tile:
  "concat (map row_interval (stripe_full_frame w h k)) = [0..<unat h]"
proof -
  let ?n = "stripe_count h k"
  have "map row_interval (stripe_full_frame w h k) =
      map (\<lambda>i. [stripe_y (unat ?n) (unat h) i..<stripe_y (unat ?n) (unat h) i + stripe_h (unat ?n) (unat h) i]) [0..<unat ?n]"
    using stripe_rect_interval [OF stripe_count_pos [of h k], of _ w h] by (simp add: stripe_full_frame_rects)
  then show ?thesis
    using stripe_rows [of "unat ?n" "unat h" "unat ?n"] stripe_y_last [of "unat ?n"] stripe_count_pos [of h k]
    by (simp add: word_less_nat_alt)
qed

lemma rect_segments_interval:
  "dr_x r = 0 \<Longrightarrow> rect_segments stride r = map (\<lambda>y. (y * stride, unat (dr_width r) * 4)) (row_interval r)"
  by (simp add: rect_segments_def row_seg_def row_interval_def map_add_upt [symmetric] comp_def add.commute
      del: map_add_upt)

lemma stripe_segments:
  "segments stride (stripe_full_frame w h k) = segments stride [DamageRect_new 0 0 w h]"
proof -
  have x: "\<forall>r \<in> set (stripe_full_frame w h k). dr_x r = 0 \<and> dr_width r = w"
    by (auto simp: stripe_full_frame_rects stripe_rect_def DamageRect_new_def)
  have "segments stride (stripe_full_frame w h k) =
      map (\<lambda>y. (y * stride, unat w * 4)) (concat (map row_interval (stripe_full_frame w h k)))"
    using x by (simp add: segments_def map_concat comp_def rect_segments_interval cong: map_cong)
  also have "\<dots> = map (\<lambda>y. (y * stride, unat w * 4)) (row_interval (DamageRect_new 0 0 w h))"
    unfolding stripes_tile by (simp add: row_interval_def DamageRect_new_def)
  also have "\<dots> = segments stride [DamageRect_new 0 0 w h]"
    by (simp add: rect_segments_interval DamageRect_new_def)
  finally show ?thesis .
qed

section \<open>Writing an image pixel by pixel\<close>

lemma fold_write:
  assumes "\<And>i d. i < n \<Longrightarrow> length d = length dst \<Longrightarrow> step i d = write_slice d (b + i * k) (px i)"
    and "\<And>i. i < n \<Longrightarrow> length (px i) = k" and "b + n * k \<le> length dst"
  shows "fold_opt step [0..<n] dst = Some (take b dst @ concat (map px [0..<n]) @ drop (b + n * k) dst)"
  using assms
proof (induction n)
  case (Suc n)
  let ?c = "concat (map px [0..<n])"
  have "length ?c = sum_list (map (\<lambda>_. k) [0..<n])"
    unfolding length_concat map_map comp_def by (intro arg_cong [of _ _ sum_list] map_cong) (use Suc.prems(2) in auto)
  then have lc: "length ?c = n * k" by (simp only: sum_list_triv length_upt diff_zero of_nat_id)
  have le: "b + n * k + k \<le> length dst" using Suc.prems(3) by (simp add: algebra_simps)
  let ?d = "take b dst @ ?c @ drop (b + n * k) dst"
  have ld: "length ?d = length dst" using le lc by simp
  have IH: "fold_opt step [0..<n] dst = Some ?d"
    using Suc.prems le by (intro Suc.IH) auto
  have "step n ?d = write_slice ?d (b + n * k) (px n)" by (rule Suc.prems(1) [OF _ ld]) simp
  also have "\<dots> = Some (take b dst @ (?c @ px n) @ drop (b + Suc n * k) dst)"
    using Suc.prems(2) [of n] le lc by (simp add: write_slice_def algebra_simps)
  finally show ?case using IH by (simp add: fold_opt_snoc)
qed simp

lemma length_concat_const:
  "(\<And>x. x \<in> set xs \<Longrightarrow> length (f x) = k) \<Longrightarrow> length (concat (map f xs)) = length xs * k"
  by (induction xs) simp_all

section \<open>Nearest neighbour\<close>

text \<open>The four bytes of source pixel \<open>(x, y)\<close>, and the source coordinate of a destination coordinate.\<close>

definition pixel :: "bytes \<Rightarrow> nat \<Rightarrow> nat \<Rightarrow> nat \<Rightarrow> bytes" where
  "pixel src stride x y = take 4 (drop (y * stride + x * 4) src)"

definition source_of :: "nat \<Rightarrow> nat \<Rightarrow> nat \<Rightarrow> nat" where
  "source_of d src dst = d * src div dst"

definition image :: "nat \<Rightarrow> nat \<Rightarrow> (nat \<Rightarrow> nat \<Rightarrow> bytes) \<Rightarrow> bytes" where
  "image w h f = concat (map (\<lambda>y. concat (map (\<lambda>x. f x y) [0..<w])) [0..<h])"

definition image_ok :: "bytes \<Rightarrow> u32 \<Rightarrow> u32 \<Rightarrow> u32 \<Rightarrow> u32 \<Rightarrow> u32 \<Rightarrow> bool" where
  "image_ok src src_w src_h src_stride dst_w dst_h \<longleftrightarrow>
     0 < dst_w \<and> 0 < dst_h \<and> 0 < src_w \<and> 0 < src_h \<and>
     unat src_w * 4 \<le> unat src_stride \<and> unat src_h * unat src_stride \<le> length src \<and>
     unat src_h * unat src_stride < 4294967296 \<and> unat dst_h * (unat dst_w * 4) < 4294967296"

lemma source_of_lt: "d < dst \<Longrightarrow> 0 < src \<Longrightarrow> source_of d src dst < src"
  by (simp add: source_of_def less_mult_imp_div_less)

lemma ratio_index_source:
  assumes "0 < dst" and "d * unat src div unat dst < 4294967296"
  shows "ratio_index d src dst = Some (word_of_nat (source_of d (unat src) (unat dst)))"
  using assms by (auto simp: ratio_index_def source_of_def)

lemma u32_mult: "unat (a :: u32) * unat b < 4294967296 \<Longrightarrow> unat (a * b) = unat a * unat b"
  by (simp add: unat_word_ariths)

lemma unat_u32_nat: "n < 4294967296 \<Longrightarrow> unat (word_of_nat n :: u32) = n"
  by (simp add: unat_word_of_nat)

lemma pixel_in_row:
  assumes "image_ok src src_w src_h stride dst_w dst_h" and "x < unat src_w" and "y < unat src_h"
  shows "y * unat stride + x * 4 + 4 \<le> length src" and "y * unat stride < 4294967296"
    and "x * 4 + 4 \<le> unat stride"
proof -
  have a: "x * 4 + 4 \<le> unat stride" using assms by (simp add: image_ok_def)
  have "y * unat stride + unat stride \<le> unat src_h * unat stride"
    using mult_le_mono1 [of "Suc y" "unat src_h" "unat stride"] assms(3) by simp
  then show "y * unat stride + x * 4 + 4 \<le> length src" "y * unat stride < 4294967296" "x * 4 + 4 \<le> unat stride"
    using a assms(1) by (auto simp: image_ok_def)
qed

lemma image_row_bytes:
  assumes "image_ok src src_w src_h stride dst_w dst_h"
  shows "unat dst_w * 4 < 4294967296" and "unat (dst_w * 4) = unat dst_w * 4"
proof -
  have "1 * (unat dst_w * 4) \<le> unat dst_h * (unat dst_w * 4)"
    by (rule mult_le_mono1) (use assms in \<open>simp add: image_ok_def word_less_nat_alt\<close>)
  also have "\<dots> < 4294967296" using assms by (simp only: image_ok_def)
  finally show "unat dst_w * 4 < 4294967296" by (simp only: mult_1)
  then show "unat (dst_w * 4) = unat dst_w * 4" using u32_mult [of dst_w 4] by simp
qed

lemma source_index:
  assumes "0 < (src :: u32)" and "0 < (dst :: u32)" and "d < unat dst"
  shows "ratio_index d src dst = Some (word_of_nat (source_of d (unat src) (unat dst)))"
    and "source_of d (unat src) (unat dst) < unat src" and "source_of d (unat src) (unat dst) < 4294967296"
proof -
  show lt: "source_of d (unat src) (unat dst) < unat src"
    using assms by (intro source_of_lt) (simp_all add: word_less_nat_alt)
  then show u: "source_of d (unat src) (unat dst) < 4294967296" using unat_lt_u32 [of src] by simp
  show "ratio_index d src dst = Some (word_of_nat (source_of d (unat src) (unat dst)))"
    using u assms(2) by (intro ratio_index_source) (simp_all add: source_of_def)
qed

lemma nearest_pixel_write:
  assumes ok: "image_ok src src_w src_h stride dst_w dst_h" and dx: "dx < unat dst_w" and y: "y < unat src_h"
    and row: "dst_row < 4294967296"
  shows "nearest_pixel src src_w (y * unat stride) dst_row dst_w dx dst =
         write_slice dst (dst_row + dx * 4) (pixel src (unat stride) (source_of dx (unat src_w) (unat dst_w)) y)"
proof -
  let ?sx = "source_of dx (unat src_w) (unat dst_w)"
  have pos: "0 < src_w" "0 < dst_w" using ok by (simp_all add: image_ok_def)
  note sx = source_index [OF pos dx]
  note p = pixel_in_row [OF ok sx(2) y]
  have "?sx * 4 < 4294967296" using p(3) unat_lt_u32 [of stride] by simp
  then have sx4: "unat (word_of_nat ?sx * 4 :: u32) = ?sx * 4"
    using u32_mult [of "word_of_nat ?sx" 4] sx(3) by (simp add: unat_u32_nat)
  have "dx * 4 < 4294967296" using image_row_bytes(1) [OF ok] dx by simp
  then have dx4: "unat (word_of_nat dx * 4 :: u32) = dx * 4"
    using u32_mult [of "word_of_nat dx" 4] by (simp add: unat_u32_nat)
  have si: "usize_add (y * unat stride) (?sx * 4) = y * unat stride + ?sx * 4"
    "usize_add (y * unat stride + ?sx * 4) 4 = y * unat stride + ?sx * 4 + 4"
    using p \<open>?sx * 4 < 4294967296\<close> by (simp_all add: no_wrap)
  have di: "usize_add dst_row (dx * 4) = dst_row + dx * 4"
    using row \<open>dx * 4 < 4294967296\<close> by (simp add: no_wrap)
  have "vslice src (y * unat stride + ?sx * 4) (y * unat stride + ?sx * 4 + 4) = Some (pixel src (unat stride) ?sx y)"
    using p(1) by (simp add: vslice_def pixel_def)
  then show ?thesis
    by (simp add: nearest_pixel_def sx(1) sx4 dx4 si di Let_def)
qed

lemma length_pixel:
  assumes "image_ok src src_w src_h stride dst_w dst_h" and "x < unat src_w" and "y < unat src_h"
  shows "length (pixel src (unat stride) x y) = 4"
  using pixel_in_row(1) [OF assms] by (simp add: pixel_def)

definition nearest_image :: "bytes \<Rightarrow> nat \<Rightarrow> nat \<Rightarrow> nat \<Rightarrow> nat \<Rightarrow> nat \<Rightarrow> bytes" where
  "nearest_image src src_w src_h stride dst_w dst_h =
     image dst_w dst_h (\<lambda>x y. pixel src stride (source_of x src_w dst_w) (source_of y src_h dst_h))"

lemma downscale_nearest_image:
  assumes ok: "image_ok src src_w src_h stride dst_w dst_h"
  shows "downscale_nearest src src_w src_h stride dst_w dst_h =
     Some (nearest_image src (unat src_w) (unat src_h) (unat stride) (unat dst_w) (unat dst_h), dst_w * 4)"
proof -
  let ?w = "unat dst_w" and ?h = "unat dst_h"
  define px where "px y x = pixel src (unat stride) (source_of x (unat src_w) ?w) (source_of y (unat src_h) ?h)" for y x
  define dst0 where "dst0 = replicate (unat (dst_w * 4 * dst_h)) (0 :: u8)"
  have pos: "0 < src_w" "0 < dst_w" "0 < src_h" "0 < dst_h" using ok by (simp_all add: image_ok_def)
  note w4 = image_row_bytes [OF ok]
  have total: "?h * (?w * 4) < 4294967296" using ok by (simp add: image_ok_def)
  then have "unat (dst_w * 4 * dst_h) = ?h * (?w * 4)"
    using u32_mult [of "dst_w * 4" dst_h] w4 by (simp add: mult.commute)
  then have len0: "length dst0 = ?h * (?w * 4)" by (simp add: dst0_def)
  have lpx: "length (px y x) = 4" if "x < ?w" "y < ?h" for x y
    unfolding px_def using length_pixel [OF ok] source_index(2) [OF pos(1,2) that(1)] source_index(2) [OF pos(3,4) that(2)]
    by simp
  have row: "fold_opt (nearest_pixel src src_w (unat (word_of_nat (source_of dy (unat src_h) ?h) * stride))
        (unat (word_of_nat dy * (dst_w * 4))) dst_w) [0..<?w] dst =
      write_slice dst (0 + dy * (?w * 4)) (concat (map (px dy) [0..<?w]))"
    if dy: "dy < ?h" and ld: "length dst = length dst0" for dy dst
  proof -
    note sy = source_index [OF pos(3,4) dy]
    have e1: "unat (word_of_nat (source_of dy (unat src_h) ?h) * stride) = source_of dy (unat src_h) ?h * unat stride"
      using u32_mult [of "word_of_nat (source_of dy (unat src_h) ?h)" stride] sy(3)
        pixel_in_row(2) [OF ok source_index(2) [OF pos(1,2), of 0] sy(2)] pos(2)
      by (simp add: unat_u32_nat word_less_nat_alt)
    have le: "dy * (?w * 4) + ?w * 4 \<le> ?h * (?w * 4)"
      using mult_le_mono1 [of "Suc dy" ?h "?w * 4"] dy by simp
    then have "dy * (?w * 4) < 4294967296" using total by simp
    moreover have "dy < 4294967296" using dy unat_lt_u32 [of dst_h] by simp
    ultimately have e2: "unat (word_of_nat dy * (dst_w * 4)) = dy * (?w * 4)"
      using u32_mult [of "word_of_nat dy" "dst_w * 4"] w4 by (simp add: unat_u32_nat)
    have "fold_opt (nearest_pixel src src_w (source_of dy (unat src_h) ?h * unat stride) (dy * (?w * 4)) dst_w) [0..<?w] dst =
        Some (take (dy * (?w * 4)) dst @ concat (map (px dy) [0..<?w]) @ drop (dy * (?w * 4) + ?w * 4) dst)"
      using le len0 ld lpx dy \<open>dy * (?w * 4) < 4294967296\<close>
      by (intro fold_write) (simp_all add: nearest_pixel_write [OF ok _ sy(2)] px_def)
    moreover have "length (concat (map (px dy) [0..<?w])) = ?w * 4"
      using length_concat_const [of "[0..<?w]" "px dy" 4] lpx dy by simp
    ultimately show ?thesis
      using le len0 ld unfolding e1 e2 by (simp add: write_slice_def)
  qed
  have "fold_opt (\<lambda>dy dst. do {
            sy \<leftarrow> ratio_index dy src_h dst_h;
            let src_row = unat (sy * stride);
            let dst_row = unat (word_of_nat dy * (dst_w * 4));
            fold_opt (nearest_pixel src src_w src_row dst_row dst_w) [0..<?w] dst
          }) [0..<?h] dst0 =
      Some (take 0 dst0 @ concat (map (\<lambda>dy. concat (map (px dy) [0..<?w])) [0..<?h]) @ drop (0 + ?h * (?w * 4)) dst0)"
  proof (rule fold_write)
    show "length (concat (map (px dy) [0..<?w])) = ?w * 4" if "dy < ?h" for dy
      using length_concat_const [of "[0..<?w]" "px dy" 4] lpx that by simp
  qed (use row source_index(1) [OF pos(3,4)] len0 in \<open>simp_all add: Let_def\<close>)
  then show ?thesis
    by (simp add: downscale_nearest_def nearest_image_def image_def px_def [abs_def] dst0_def Let_def len0 [unfolded dst0_def, simplified])
qed

section \<open>Box filter\<close>

definition span_lo :: "nat \<Rightarrow> nat \<Rightarrow> nat \<Rightarrow> nat" where
  "span_lo d src dst = source_of d src dst"

definition span_hi :: "nat \<Rightarrow> nat \<Rightarrow> nat \<Rightarrow> nat" where
  "span_hi d src dst = min (max (source_of (Suc d) src dst) (Suc (source_of d src dst))) src"

definition channel_sum :: "bytes \<Rightarrow> nat \<Rightarrow> nat list \<Rightarrow> nat list \<Rightarrow> nat \<Rightarrow> nat" where
  "channel_sum src stride ys xs c =
     sum_list (map (\<lambda>y. sum_list (map (\<lambda>x. unat (src ! (y * stride + x * 4 + c))) xs)) ys)"

definition box_average :: "bytes \<Rightarrow> nat \<Rightarrow> nat list \<Rightarrow> nat list \<Rightarrow> bytes" where
  "box_average src stride ys xs =
     map (\<lambda>c. word_of_nat (channel_sum src stride ys xs c div (length ys * length xs))) [0, 1, 2, 3]"

definition acc_of :: "nat \<times> nat \<times> nat \<times> nat \<times> nat \<Rightarrow> accum" where
  "acc_of a = (case a of (r, g, b, a, n) \<Rightarrow> (word_of_nat r, word_of_nat g, word_of_nat b, word_of_nat a, word_of_nat n))"

lemma span_bounds:
  assumes "d < dst" and "0 < src"
  shows "span_lo d src dst < span_hi d src dst" and "span_hi d src dst \<le> src"
  using source_of_lt [OF assms] by (auto simp: span_lo_def span_hi_def)

lemma box_span_nat:
  assumes "0 < (src :: u32)" and "d < unat (dst :: u32)"
  shows "box_span d src dst = Some (word_of_nat (span_lo d (unat src) (unat dst)), word_of_nat (span_hi d (unat src) (unat dst)))"
proof -
  have dst: "0 < dst" using assms(2) by (auto simp: word_less_nat_alt)
  note s = source_index [OF assms(1) dst assms(2)]
  let ?lo = "source_of d (unat src) (unat dst)" and ?raw = "source_of (Suc d) (unat src) (unat dst)"
  have sd: "unat (word_of_nat d + 1 :: u32) = Suc d"
    using assms(2) unat_lt_u32 [of dst] unat_u32_nat [of "Suc d"] by (simp add: add.commute)
  have "Suc d * unat src \<le> unat dst * unat src" by (rule mult_le_mono1) (use assms(2) in simp)
  then have "?raw \<le> unat dst * unat src div unat dst" unfolding source_of_def by (rule div_le_mono)
  also have "\<dots> = unat src" using assms(2) by simp
  finally have raw: "?raw \<le> unat src" .
  then have raw32: "?raw < 4294967296" using unat_lt_u32 [of src] by simp
  have r1: "ratio_index (Suc d) src dst = Some (word_of_nat ?raw)"
    using raw32 dst by (intro ratio_index_source) (simp_all add: source_of_def)
  have hi: "min (max (word_of_nat ?raw) (word_of_nat ?lo + 1)) src = word_of_nat (span_hi d (unat src) (unat dst))"
  proof -
    have l1: "word_of_nat ?lo + 1 = (word_of_nat (Suc ?lo) :: u32)" by (simp add: add.commute)
    have "Suc ?lo < 4294967296" using s(2) unat_lt_u32 [of src] by simp
    then have u: "unat (word_of_nat (Suc ?lo) :: u32) = Suc ?lo" "unat (word_of_nat ?raw :: u32) = ?raw"
      using raw32 by (simp_all only: unat_u32_nat)
    show ?thesis unfolding l1
      using u by (auto simp: span_hi_def min_def max_def word_le_nat_alt)
  qed
  show ?thesis
    using s(1) r1 hi by (simp add: box_span_def sd span_lo_def)
qed

lemma box_sample_nat:
  assumes "row_off + x * 4 + 4 \<le> length src" and "row_off < 4294967296" and "x * 4 < 4294967296"
  shows "box_sample src row_off x (acc_of (r, g, b, a, n)) =
     Some (acc_of (r + unat (src ! (row_off + x * 4)), g + unat (src ! (row_off + x * 4 + 1)),
                   b + unat (src ! (row_off + x * 4 + 2)), a + unat (src ! (row_off + x * 4 + 3)), Suc n))"
proof -
  have "x < 4294967296" using assms(3) by simp
  then have "unat (word_of_nat x * 4 :: u32) = x * 4"
    using u32_mult [of "word_of_nat x" 4] assms(3) by (simp add: unat_u32_nat)
  moreover have "usize_add row_off (x * 4) = row_off + x * 4" using assms by (simp add: no_wrap)
  moreover have "usize_add (row_off + x * 4) k = row_off + x * 4 + k" if "k < 4" for k
    using assms that by (simp add: no_wrap)
  ultimately show ?thesis using assms(1)
    by (simp add: box_sample_def acc_of_def index_def Let_def add.commute)
qed

definition acc_add :: "nat \<times> nat \<times> nat \<times> nat \<times> nat \<Rightarrow> (nat \<Rightarrow> nat) \<Rightarrow> nat \<Rightarrow> nat \<times> nat \<times> nat \<times> nat \<times> nat" where
  "acc_add acc f k = (case acc of (r, g, b, a, n) \<Rightarrow> (r + f 0, g + f 1, b + f 2, a + f 3, n + k))"

lemma box_line_nat:
  assumes "\<forall>x \<in> set xs. row_off + x * 4 + 4 \<le> length src \<and> x * 4 < 4294967296" and "row_off < 4294967296"
  shows "fold_opt (box_sample src row_off) xs (acc_of acc) =
     Some (acc_of (acc_add acc (\<lambda>c. sum_list (map (\<lambda>x. unat (src ! (row_off + x * 4 + c))) xs)) (length xs)))"
  using assms(1)
proof (induction xs arbitrary: acc)
  case (Cons x xs)
  obtain r g b a n where acc: "acc = (r, g, b, a, n)" by (cases acc)
  have "fold_opt (box_sample src row_off) (x # xs) (acc_of acc) =
     fold_opt (box_sample src row_off) xs (acc_of (r + unat (src ! (row_off + x * 4)), g + unat (src ! (row_off + x * 4 + 1)),
                   b + unat (src ! (row_off + x * 4 + 2)), a + unat (src ! (row_off + x * 4 + 3)), Suc n))"
    using box_sample_nat [OF _ assms(2), of x src r g b a n] Cons.prems acc by simp
  also have "\<dots> = Some (acc_of (acc_add (r + unat (src ! (row_off + x * 4)), g + unat (src ! (row_off + x * 4 + 1)),
                   b + unat (src ! (row_off + x * 4 + 2)), a + unat (src ! (row_off + x * 4 + 3)), Suc n)
        (\<lambda>c. sum_list (map (\<lambda>x. unat (src ! (row_off + x * 4 + c))) xs)) (length xs)))"
    by (rule Cons.IH) (use Cons.prems in simp)
  finally show ?case by (simp add: acc acc_add_def add.assoc)
qed (simp add: acc_add_def split: prod.splits)

lemma box_block_nat:
  assumes "\<forall>y \<in> set [y0..<y1]. \<forall>x \<in> set [x0..<x1]. y * unat stride + x * 4 + 4 \<le> length src \<and> x * 4 < 4294967296 \<and>
             y * unat stride < 4294967296"
    and "x0 < x1" and "x1 < 4294967296" and "y1 < 4294967296" and "y0 \<le> y1"
  shows "box_block src stride (word_of_nat y0, word_of_nat y1) (word_of_nat x0, word_of_nat x1) =
     Some (acc_of (acc_add (0, 0, 0, 0, 0) (channel_sum src (unat stride) [y0..<y1] [x0..<x1]) ((y1 - y0) * (x1 - x0))))"
proof -
  let ?xs = "[x0..<x1]"
  have row_lt: "y * unat stride < 4294967296" if "y \<in> set [y0..<y1]" for y
    using assms(1) [rule_format, OF that, of x0] assms(2) by simp
  have row: "unat (word_of_nat y * stride) = y * unat stride" if "y \<in> set [y0..<y1]" for y
  proof -
    have "y < 4294967296" using that assms(4) by simp
    then show ?thesis using u32_mult [of "word_of_nat y" stride] row_lt [OF that] by (simp add: unat_u32_nat)
  qed
  have "fold_opt (\<lambda>sy. fold_opt (box_sample src (unat (word_of_nat sy * stride))) ?xs) ys (acc_of acc) =
      Some (acc_of (acc_add acc (channel_sum src (unat stride) ys ?xs) (length ys * length ?xs)))"
    if "set ys \<subseteq> set [y0..<y1]" for ys acc
    using that
  proof (induction ys arbitrary: acc)
    case (Cons y ys)
    have y: "y \<in> set [y0..<y1]" using Cons.prems by simp
    have "fold_opt (box_sample src (unat (word_of_nat y * stride))) ?xs (acc_of acc) =
       Some (acc_of (acc_add acc (\<lambda>c. sum_list (map (\<lambda>x. unat (src ! (y * unat stride + x * 4 + c))) ?xs)) (length ?xs)))"
      unfolding row [OF y] using assms(1) y row_lt [OF y] by (intro box_line_nat) auto
    then show ?case
      using Cons.IH Cons.prems by (auto simp: acc_add_def channel_sum_def algebra_simps split: prod.splits)
  qed (simp add: acc_add_def channel_sum_def split: prod.splits)
  from this [OF order_refl, of "(0, 0, 0, 0, 0)"] show ?thesis
    using assms(2-5) by (simp add: box_block_def unat_u32_nat acc_of_def)
qed

lemma channel_sum_le: "channel_sum src stride ys xs c \<le> length ys * length xs * 255"
proof -
  have px: "unat (v :: u8) \<le> 255" for v using unat_lt_u8 [of v] by linarith
  have "sum_list (map (\<lambda>x. unat (src ! (y * stride + x * 4 + c))) xs) \<le> length xs * 255" for y
    using sum_list_mono [of xs "\<lambda>x. unat (src ! (y * stride + x * 4 + c))" "\<lambda>_. 255"] px by (simp add: sum_list_triv)
  then show ?thesis
    using sum_list_mono [of ys "\<lambda>y. sum_list (map (\<lambda>x. unat (src ! (y * stride + x * 4 + c))) xs)" "\<lambda>_. length xs * 255"]
    by (simp add: channel_sum_def sum_list_triv mult.assoc)
qed

lemma ucast_div:
  assumes "unat (word_of_nat n :: u32) = n" and "unat (word_of_nat m :: u32) = m"
  shows "(ucast (word_of_nat m div word_of_nat n :: u32) :: u8) = word_of_nat (m div n)"
proof -
  have "(ucast (word_of_nat m div word_of_nat n :: u32) :: u8) = word_of_nat (unat (word_of_nat m div word_of_nat n :: u32))"
    by (rule of_nat_unat [symmetric])
  also have "\<dots> = word_of_nat (m div n)" by (simp only: unat_div_distrib assms)
  finally show ?thesis .
qed

lemma box_pixel_nat:
  assumes "0 < n" and "n * 255 < 4294967296" and "\<forall>c < 4. f c \<le> n * 255"
  shows "box_pixel (acc_of (acc_add (0, 0, 0, 0, 0) f n)) = Some (map (\<lambda>c. word_of_nat (f c div n)) [0, 1, 2, 3])"
proof -
  have n: "unat (word_of_nat n :: u32) = n" using assms(2) by (intro unat_u32_nat) simp
  have d: "(ucast (word_of_nat (f c) div word_of_nat n :: u32) :: u8) = word_of_nat (f c div n)" if "c < 4" for c
  proof -
    have fc: "f c < 4294967296" using assms(2,3) that by (meson le_less_trans)
    then have "unat (word_of_nat (f c) :: u32) = f c" by (rule unat_u32_nat)
    then show ?thesis by (rule ucast_div [OF n])
  qed
  have nz: "(word_of_nat n :: u32) \<noteq> 0" using n assms(1) by (metis less_irrefl unat_0)
  have "(0 :: nat) < 4" "(1 :: nat) < 4" "(2 :: nat) < 4" "(3 :: nat) < 4" by simp_all
  note d4 = this [THEN d]
  show ?thesis
    unfolding box_pixel_def acc_add_def acc_of_def prod.case add_0 if_not_P [OF nz] d4 list.map by (rule refl)
qed

definition box_image :: "bytes \<Rightarrow> nat \<Rightarrow> nat \<Rightarrow> nat \<Rightarrow> nat \<Rightarrow> nat \<Rightarrow> bytes" where
  "box_image src src_w src_h stride dst_w dst_h =
     image dst_w dst_h (\<lambda>x y. box_average src stride
       [span_lo y src_h dst_h..<span_hi y src_h dst_h] [span_lo x src_w dst_w..<span_hi x src_w dst_w])"

lemma box_pixel_at:
  assumes ok: "image_ok src src_w src_h stride dst_w dst_h" and area: "unat src_w * unat src_h * 255 < 4294967296"
    and dx: "dx < unat dst_w" and dy: "dy < unat dst_h"
  shows "do {
      ys \<leftarrow> box_span dy src_h dst_h; xs \<leftarrow> box_span dx src_w dst_w;
      acc \<leftarrow> box_block src stride ys xs; box_pixel acc } =
    Some (box_average src (unat stride) [span_lo dy (unat src_h) (unat dst_h)..<span_hi dy (unat src_h) (unat dst_h)]
            [span_lo dx (unat src_w) (unat dst_w)..<span_hi dx (unat src_w) (unat dst_w)])"
proof -
  let ?x0 = "span_lo dx (unat src_w) (unat dst_w)" and ?x1 = "span_hi dx (unat src_w) (unat dst_w)"
    and ?y0 = "span_lo dy (unat src_h) (unat dst_h)" and ?y1 = "span_hi dy (unat src_h) (unat dst_h)"
  let ?n = "(?y1 - ?y0) * (?x1 - ?x0)"
  have pos: "0 < src_w" "0 < src_h" using ok by (simp_all add: image_ok_def)
  have x: "?x0 < ?x1" "?x1 \<le> unat src_w" and y: "?y0 < ?y1" "?y1 \<le> unat src_h"
    using span_bounds [OF dx, of "unat src_w"] span_bounds [OF dy, of "unat src_h"] pos by (simp_all add: word_less_nat_alt)
  have valid: "\<forall>y \<in> set [?y0..<?y1]. \<forall>x \<in> set [?x0..<?x1]. y * unat stride + x * 4 + 4 \<le> length src \<and> x * 4 < 4294967296 \<and>
             y * unat stride < 4294967296"
  proof (intro ballI)
    fix y' x' assume "y' \<in> set [?y0..<?y1]" and "x' \<in> set [?x0..<?x1]"
    then have "x' < unat src_w" "y' < unat src_h" using x y by auto
    from pixel_in_row [OF ok this] unat_lt_u32 [of stride]
    show "y' * unat stride + x' * 4 + 4 \<le> length src \<and> x' * 4 < 4294967296 \<and> y' * unat stride < 4294967296" by simp
  qed
  have lt: "?x1 < 4294967296" "?y1 < 4294967296"
    using x y unat_lt_u32 [of src_w] unat_lt_u32 [of src_h] by linarith+
  have "?n \<le> unat src_h * unat src_w" using x y by (intro mult_le_mono) simp_all
  then have n: "?n * 255 < 4294967296" using area by (simp add: mult.commute)
  have "0 < ?n" using x y by simp
  moreover have "\<forall>c < 4. channel_sum src (unat stride) [?y0..<?y1] [?x0..<?x1] c \<le> ?n * 255"
    using channel_sum_le [of src "unat stride" "[?y0..<?y1]" "[?x0..<?x1]"] by simp
  ultimately have "box_pixel (acc_of (acc_add (0, 0, 0, 0, 0) (channel_sum src (unat stride) [?y0..<?y1] [?x0..<?x1]) ?n)) =
      Some (box_average src (unat stride) [?y0..<?y1] [?x0..<?x1])"
    using box_pixel_nat [OF _ n] by (simp add: box_average_def)
  then show ?thesis
    using box_block_nat [OF valid x(1) lt less_imp_le [OF y(1)]] box_span_nat [OF pos(1) dx] box_span_nat [OF pos(2) dy]
    by simp
qed

lemma length_box_average [simp]: "length (box_average src stride ys xs) = 4"
  by (simp add: box_average_def)

lemma box_row_image:
  assumes ok: "image_ok src src_w src_h stride dst_w dst_h" and area: "unat src_w * unat src_h * 255 < 4294967296"
    and dy: "dy < unat dst_h" and row: "length row = unat dst_w * 4"
  shows "box_row src src_w src_h stride dst_w dst_h dy row =
     Some (concat (map (\<lambda>dx. box_average src (unat stride)
        [span_lo dy (unat src_h) (unat dst_h)..<span_hi dy (unat src_h) (unat dst_h)]
        [span_lo dx (unat src_w) (unat dst_w)..<span_hi dx (unat src_w) (unat dst_w)]) [0..<unat dst_w]))"
  (is "_ = Some (concat (map ?px _))")
proof -
  have "0 < src_h" using ok by (simp add: image_ok_def)
  then obtain ys where ys: "box_span dy src_h dst_h = Some ys" using box_span_nat [OF _ dy] by blast
  have di: "unat (word_of_nat dx * 4 :: u32) = dx * 4" if "dx < unat dst_w" for dx
    using u32_mult [of "word_of_nat dx" 4] that image_row_bytes(1) [OF ok] by (simp add: unat_u32_nat)
  have px: "do { xs \<leftarrow> box_span dx src_w dst_w; acc \<leftarrow> box_block src stride ys xs; box_pixel acc } = Some (?px dx)"
    if "dx < unat dst_w" for dx
    using box_pixel_at [OF ok area that dy] ys by simp
  have "fold_opt (\<lambda>dx row. do {
        xs \<leftarrow> box_span dx src_w dst_w;
        acc \<leftarrow> box_block src stride ys xs;
        px \<leftarrow> box_pixel acc;
        let di = unat (word_of_nat dx * 4 :: u32);
        write_slice row di px
      }) [0..<unat dst_w] row =
     Some (take 0 row @ concat (map ?px [0..<unat dst_w]) @ drop (0 + unat dst_w * 4) row)"
  proof (rule fold_write)
    fix dx d assume "dx < unat dst_w"
    then show "do {
        xs \<leftarrow> box_span dx src_w dst_w;
        acc \<leftarrow> box_block src stride ys xs;
        px \<leftarrow> box_pixel acc;
        let di = unat (word_of_nat dx * 4 :: u32);
        write_slice d di px
      } = write_slice d (0 + dx * 4) (?px dx)"
      using px [of dx] di [of dx] by (auto split: Option.bind_splits)
  qed (use row in simp_all)
  then show ?thesis using ys row by (simp add: box_row_def)
qed

lemma map_opt_upt: "(\<And>i. i < n \<Longrightarrow> f i = Some (g i)) \<Longrightarrow> map_opt f [0..<n] = Some (map g [0..<n])"
  by (rule map_opt_all) simp

lemma chunk_count_exact: "0 < k \<Longrightarrow> (h * k + k - 1) div k = h" for k :: nat
proof -
  assume k: "0 < k"
  then have "h * k + k - 1 = (k - 1) + h * k" by simp
  then show ?thesis using k by (simp only: div_mult_self1) simp
qed

lemma chunk_full: "i < h \<Longrightarrow> min k (h * k - i * k) = k" for k :: nat
proof -
  assume "i < h"
  then have "Suc i * k \<le> h * k" by (intro mult_le_mono1) simp
  then have "i * k + k \<le> h * k" by simp
  then show ?thesis by linarith
qed

lemma downscale_box_image:
  assumes ok: "image_ok src src_w src_h stride dst_w dst_h" and area: "unat src_w * unat src_h * 255 < 4294967296"
    and down: "dst_w < src_w \<or> dst_h < src_h"
  shows "downscale_box src src_w src_h stride dst_w dst_h =
     Some (box_image src (unat src_w) (unat src_h) (unat stride) (unat dst_w) (unat dst_h), dst_w * 4)"
proof -
  define k where "k = unat dst_w * 4"
  define h where "h = unat dst_h"
  have pos: "0 < dst_w" "0 < dst_h" using ok by (simp_all add: image_ok_def)
  then have k: "0 < k" by (simp add: word_less_nat_alt k_def)
  note w4 = image_row_bytes [OF ok, folded k_def]
  have "h * k < 4294967296" using ok by (simp only: image_ok_def h_def k_def)
  then have total: "unat (dst_w * 4 * dst_h) = h * k"
    using u32_mult [of "dst_w * 4" dst_h] w4 by (simp add: mult.commute h_def)
  have "map_opt (\<lambda>dy. box_row src src_w src_h stride dst_w dst_h dy (replicate (min k (h * k - dy * k)) 0)) [0..<h] =
     Some (map (\<lambda>dy. concat (map (\<lambda>dx. box_average src (unat stride)
        [span_lo dy (unat src_h) h..<span_hi dy (unat src_h) h]
        [span_lo dx (unat src_w) (unat dst_w)..<span_hi dx (unat src_w) (unat dst_w)]) [0..<unat dst_w])) [0..<h])"
    by (rule map_opt_upt)
      (simp only: chunk_full box_row_image [OF ok area, folded h_def] length_replicate k_def [symmetric])
  moreover have "dst_w \<noteq> 0" "dst_h \<noteq> 0" "\<not> (src_w \<le> dst_w \<and> src_h \<le> dst_h)" "k \<noteq> 0"
    using pos down k by auto
  ultimately show ?thesis
    unfolding downscale_box_def Let_def total w4(2) chunk_count_exact [OF k]
    by (auto simp: box_image_def image_def h_def)
qed

section \<open>Properties\<close>

text \<open>Stripes tile the frame: whatever the number of workers, the rows of the stripes, in order, are
  exactly the rows \<open>0, ..., height - 1\<close>, each once; every stripe spans the full width; and there are
  as many stripes as workers, at most one per row and at least one.\<close>

theorem stripes_cover:
  "concat (map row_interval (stripe_full_frame w h k)) = [0..<unat h] \<and>
   list_all (\<lambda>r. dr_x r = 0 \<and> dr_width r = w) (stripe_full_frame w h k) \<and>
   length (stripe_full_frame w h k) = unat (max (min (word_of_nat k) h) 1)"
  using stripes_tile [of w h k]
  by (auto simp: stripe_full_frame_rects stripe_rect_def DamageRect_new_def stripe_count_def list_all_iff)

text \<open>Nearest-neighbour downscaling: for dimensions whose byte sizes fit 32 bits, \<open>downscale_nearest\<close>
  does not panic and returns the image whose pixel \<open>(x, y)\<close> is the source pixel
  \<open>(x * src_w div dst_w, y * src_h div dst_h)\<close>.\<close>

theorem downscale_nearest_exact:
  assumes "image_ok src src_w src_h stride dst_w dst_h"
  shows "downscale_nearest src src_w src_h stride dst_w dst_h =
     Some (image (unat dst_w) (unat dst_h) (\<lambda>x y. pixel src (unat stride)
             (x * unat src_w div unat dst_w) (y * unat src_h div unat dst_h)), dst_w * 4)"
  using downscale_nearest_image [OF assms] by (simp add: nearest_image_def source_of_def)

theorem downscale_nearest_exact_witness:
  "downscale_nearest [1, 2, 3, 4, 5, 6, 7, 8] 2 1 8 1 1 =
     Some (image (unat (1 :: u32)) (unat (1 :: u32)) (\<lambda>x y. pixel [1, 2, 3, 4, 5, 6, 7, 8] (unat (8 :: u32))
             (x * unat (2 :: u32) div unat (1 :: u32)) (y * unat (1 :: u32) div unat (1 :: u32))), 1 * 4)"
  by (rule downscale_nearest_exact) (simp add: image_ok_def)

text \<open>C30. Box downscaling: for the same dimensions and a source of at most 16 million pixels, the 32-bit
  accumulators do not overflow, no division by zero or out-of-bounds access happens, and each
  channel of each output pixel is the rounded-down mean of that channel over the source block
  the pixel covers.\<close>

theorem downscale_box_exact:
  assumes "image_ok src src_w src_h stride dst_w dst_h" and "unat src_w * unat src_h * 255 < 4294967296"
    and "dst_w < src_w \<or> dst_h < src_h"
  shows "downscale_box src src_w src_h stride dst_w dst_h =
     Some (box_image src (unat src_w) (unat src_h) (unat stride) (unat dst_w) (unat dst_h), dst_w * 4)"
  by (rule downscale_box_image [OF assms])

theorem downscale_box_exact_witness:
  "downscale_box [10, 20, 30, 40, 20, 30, 40, 51] 2 1 8 1 1 = Some ([15, 25, 35, 45], 4)"
proof -
  have "downscale_box [10, 20, 30, 40, 20, 30, 40, 51] 2 1 8 1 1 =
     Some (box_image [10, 20, 30, 40, 20, 30, 40, 51] (unat (2 :: u32)) (unat (1 :: u32)) (unat (8 :: u32))
             (unat (1 :: u32)) (unat (1 :: u32)), 1 * 4)"
    by (rule downscale_box_exact) (simp_all add: image_ok_def)
  then show ?thesis
    by (simp add: box_image_def image_def box_average_def channel_sum_def span_lo_def span_hi_def source_of_def
        upt_rec flip: numeral_2_eq_2)
qed

lemma box_spans_upto:
  assumes "dst \<le> src" and "i \<le> dst" and "0 < dst"
  shows "concat (map (\<lambda>d. [span_lo d src dst..<span_hi d src dst]) [0..<i]) = [0..<source_of i src dst]"
  using assms(2)
proof (induction i)
  case (Suc i)
  have step: "Suc (source_of i src dst) \<le> source_of (Suc i) src dst"
  proof -
    have "i * src div dst + 1 = (i * src + dst) div dst" using assms(3) by (subst div_add_self2) simp_all
    also have "\<dots> \<le> Suc i * src div dst" using assms(1) by (intro div_le_mono) simp
    finally show ?thesis by (simp add: source_of_def)
  qed
  have le: "source_of (Suc i) src dst \<le> src"
  proof -
    have "Suc i * src div dst \<le> dst * src div dst" using Suc.prems by (intro div_le_mono mult_le_mono1)
    then show ?thesis using assms(3) by (simp add: source_of_def)
  qed
  have "[0..<source_of (Suc i) src dst] = [0..<source_of i src dst] @ [source_of i src dst..<source_of (Suc i) src dst]"
    using step upt_add_eq_append [of 0 "source_of i src dst" "source_of (Suc i) src dst - source_of i src dst"] by simp
  then show ?case using Suc step le by (simp add: span_lo_def span_hi_def max_absorb1 min_absorb1)
qed (simp add: source_of_def)

text \<open>The blocks of the box filter partition the source: when the destination is not larger than the
  source, the spans of successive destination coordinates cover every source coordinate exactly once, in
  order, so no source pixel is skipped or counted twice.\<close>

theorem box_blocks_partition:
  assumes "0 < dst" and "dst \<le> src"
  shows "\<exists>spans. map_opt (\<lambda>d. box_span d src dst) [0..<unat dst] = Some spans \<and>
           concat (map (\<lambda>(a, b). [unat a..<unat b]) spans) = [0..<unat src]"
proof -
  have pos: "0 < src" "0 < unat dst" "unat dst \<le> unat src" "0 < unat src"
    using assms by (simp_all add: word_less_nat_alt word_le_nat_alt)
  let ?span = "\<lambda>d. (word_of_nat (span_lo d (unat src) (unat dst)) :: u32, word_of_nat (span_hi d (unat src) (unat dst)) :: u32)"
  have run: "map_opt (\<lambda>d. box_span d src dst) [0..<unat dst] = Some (map ?span [0..<unat dst])"
    by (rule map_opt_upt) (rule box_span_nat [OF pos(1)])
  have "unat (word_of_nat (span_lo d (unat src) (unat dst)) :: u32) = span_lo d (unat src) (unat dst) \<and>
        unat (word_of_nat (span_hi d (unat src) (unat dst)) :: u32) = span_hi d (unat src) (unat dst)"
    if "d < unat dst" for d
    using span_bounds [OF that pos(4)] unat_lt_u32 [of src] by (intro conjI unat_u32_nat) linarith+
  then have "concat (map (\<lambda>(a, b). [unat a..<unat b]) (map ?span [0..<unat dst])) =
      concat (map (\<lambda>d. [span_lo d (unat src) (unat dst)..<span_hi d (unat src) (unat dst)]) [0..<unat dst])"
    by (intro arg_cong [of _ _ concat]) simp
  also have "\<dots> = [0..<source_of (unat dst) (unat src) (unat dst)]"
    by (rule box_spans_upto [OF pos(3) order_refl pos(2)])
  finally show ?thesis using run pos(2) by (auto simp: source_of_def)
qed

theorem box_blocks_partition_witness:
  "\<exists>spans. map_opt (\<lambda>d. box_span d (5 :: u32) (2 :: u32)) [0..<unat (2 :: u32)] = Some spans \<and>
     concat (map (\<lambda>(a, b). [unat a..<unat b]) spans) = [0..<unat (5 :: u32)]"
  by (rule box_blocks_partition) simp_all

end
