(* ===== verification/Transport.thy ===== *)
theory Transport
  imports Multiplexer
begin

text \<open>
  \<^verbatim>\<open>crates/remoteway-transport/src/ssh_transport.rs\<close>: the sender handle, the read loop and the
  write loop. The channels (\<^verbatim>\<open>tokio::sync::mpsc\<close>) and the byte sink (\<^verbatim>\<open>AsyncWrite\<close>) are not part
  of the repository: they are the parameter records \<open>Mpsc\<close> and \<open>Sink\<close>, and what the transport relies
  on is \<open>fifo_channel\<close>, the documented first-in first-out behaviour. The write task and its
  clients interleave: \<open>transport_step\<close> performs one call or one turn of the loop, and a
  run is any sequence of them.
\<close>

section \<open>Channels and sinks\<close>

record 'c Mpsc =
  chan_send :: "'c \<Rightarrow> bytes \<Rightarrow> 'c option"
  chan_recv :: "'c \<Rightarrow> (bytes \<times> 'c) option"
  chan_closed :: "'c \<Rightarrow> bool"
  chan_free :: "'c \<Rightarrow> nat"

record 'w Sink =
  write_all :: "'w \<Rightarrow> bytes \<Rightarrow> 'w option"
  flush :: "'w \<Rightarrow> 'w option"

text \<open>\<open>chan_send\<close> is \<^verbatim>\<open>send\<close> or \<^verbatim>\<open>try_send\<close> (\<open>None\<close> is the \<^verbatim>\<open>Err\<close>), \<open>chan_recv\<close> a ready receive, \<open>chan_free\<close> the
  \<^verbatim>\<open>capacity()\<close> left. The documented contract, with the queued items as abstraction: items come
  out in the order they went in; a send is refused when the receiver is gone or a bounded
  channel is full.\<close>

definition fifo_channel :: "'c Mpsc \<Rightarrow> ('c \<Rightarrow> bytes list) \<Rightarrow> bool" where
  "fifo_channel M queued \<longleftrightarrow>
     (\<forall>c d c'. chan_send M c d = Some c' \<longrightarrow> queued c' = queued c @ [d]) \<and>
     (\<forall>c d c'. chan_recv M c = Some (d, c') \<longrightarrow> queued c = d # queued c') \<and>
     (\<forall>c. chan_recv M c = None \<longrightarrow> queued c = [])"

definition bounded_channel :: "'c Mpsc \<Rightarrow> ('c \<Rightarrow> bytes list) \<Rightarrow> nat \<Rightarrow> 'c \<Rightarrow> bool" where
  "bounded_channel M queued cap c0 \<longleftrightarrow> queued c0 = [] \<and>
     (\<forall>c. length (queued c) \<le> cap \<longrightarrow> length (queued c) + chan_free M c = cap) \<and>
     (\<forall>c d. chan_free M c = 0 \<longrightarrow> chan_send M c d = None)"

section \<open>ssh_transport.rs\<close>

definition READ_BUF_SIZE :: nat where "READ_BUF_SIZE = 64 * 1024"
definition FRAME_QUEUE_DEPTH :: nat where "FRAME_QUEUE_DEPTH = 2"
definition INCOMING_QUEUE_DEPTH :: nat where "INCOMING_QUEUE_DEPTH = 2"

datatype TransportError = TransportIo | TransportMultiplexer MultiplexerError | Disconnected

record ('u, 'b) TransportSender =
  input_tx :: 'u
  anchor_tx :: 'u
  frame_tx :: 'b

definition send_input ::
  "'u Mpsc \<Rightarrow> ('u, 'b) TransportSender \<Rightarrow> bytes \<Rightarrow> bool \<times> ('u, 'b) TransportSender" where
  "send_input U s data = (case chan_send U (input_tx s) data of
     Some c \<Rightarrow> (True, s\<lparr>input_tx := c\<rparr>) | None \<Rightarrow> (False, s))"

definition send_anchor ::
  "'u Mpsc \<Rightarrow> ('u, 'b) TransportSender \<Rightarrow> bytes \<Rightarrow> bool \<times> ('u, 'b) TransportSender" where
  "send_anchor U s data = (case chan_send U (anchor_tx s) data of
     Some c \<Rightarrow> (True, s\<lparr>anchor_tx := c\<rparr>) | None \<Rightarrow> (False, s))"

definition try_send_frame ::
  "'b Mpsc \<Rightarrow> ('u, 'b) TransportSender \<Rightarrow> bytes \<Rightarrow> bool \<times> ('u, 'b) TransportSender" where
  "try_send_frame B s data = (case chan_send B (frame_tx s) data of
     Some c \<Rightarrow> (True, s\<lparr>frame_tx := c\<rparr>) | None \<Rightarrow> (False, s))"

text \<open>\<^verbatim>\<open>max_capacity() - capacity()\<close>; the maximum of the channel is \<open>FRAME_QUEUE_DEPTH\<close>.\<close>

definition frame_queue_len :: "'b Mpsc \<Rightarrow> ('u, 'b) TransportSender \<Rightarrow> usize" where
  "frame_queue_len B s = FRAME_QUEUE_DEPTH - chan_free B (frame_tx s)"

text \<open>One round of \<^verbatim>\<open>tokio::select!\<close> with \<^verbatim>\<open>biased\<close>: the first ready branch in the order input, anchor,
  frame; \<open>LoopElse\<close> when every channel is closed and drained, \<open>LoopPending\<close> when the task waits.\<close>

datatype channel = ChInput | ChAnchor | ChFrame

datatype selected = LoopData channel bytes | LoopElse | LoopPending

definition select_biased ::
  "'u Mpsc \<Rightarrow> 'b Mpsc \<Rightarrow> ('u, 'b) TransportSender \<Rightarrow> selected \<times> ('u, 'b) TransportSender" where
  "select_biased U B s = (case chan_recv U (input_tx s) of
     Some (d, c) \<Rightarrow> (LoopData ChInput d, s\<lparr>input_tx := c\<rparr>)
   | None \<Rightarrow> (case chan_recv U (anchor_tx s) of
       Some (d, c) \<Rightarrow> (LoopData ChAnchor d, s\<lparr>anchor_tx := c\<rparr>)
     | None \<Rightarrow> (case chan_recv B (frame_tx s) of
         Some (d, c) \<Rightarrow> (LoopData ChFrame d, s\<lparr>frame_tx := c\<rparr>)
       | None \<Rightarrow> (if chan_closed U (input_tx s) \<and> chan_closed U (anchor_tx s) \<and> chan_closed B (frame_tx s)
                  then LoopElse else LoopPending, s))))"

record ('u, 'b, 'w) SshTransport =
  tr_sender :: "('u, 'b) TransportSender"
  tr_writer :: 'w
  tr_running :: bool
  tr_disconnected :: bool

definition SshTransport_new :: "'u \<Rightarrow> 'u \<Rightarrow> 'b \<Rightarrow> 'w \<Rightarrow> ('u, 'b, 'w) SshTransport" where
  "SshTransport_new input anchor frame writer =
     \<lparr>tr_sender = \<lparr>input_tx = input, anchor_tx = anchor, frame_tx = frame\<rparr>,
      tr_writer = writer, tr_running = True, tr_disconnected = False\<rparr>"

text \<open>One turn of \<open>write_loop\<close>, with what it wrote.\<close>

definition write_turn ::
  "'u Mpsc \<Rightarrow> 'b Mpsc \<Rightarrow> 'w Sink \<Rightarrow> ('u, 'b, 'w) SshTransport
   \<Rightarrow> (channel \<times> bytes) list \<times> ('u, 'b, 'w) SshTransport" where
  "write_turn U B S t = (if \<not> tr_running t then ([], t) else
     case select_biased U B (tr_sender t) of
       (LoopPending, s) \<Rightarrow> ([], t\<lparr>tr_sender := s\<rparr>)
     | (LoopElse, s) \<Rightarrow> ([], t\<lparr>tr_sender := s, tr_running := False, tr_disconnected := True\<rparr>)
     | (LoopData ch data, s) \<Rightarrow> (case write_all S (tr_writer t) data of
         None \<Rightarrow> ([], t\<lparr>tr_sender := s, tr_running := False, tr_disconnected := True\<rparr>)
       | Some w \<Rightarrow> (case flush S w of
           None \<Rightarrow> ([(ch, data)], t\<lparr>tr_sender := s, tr_writer := w, tr_running := False, tr_disconnected := True\<rparr>)
         | Some w' \<Rightarrow> ([(ch, data)], t\<lparr>tr_sender := s, tr_writer := w'\<rparr>))))"

datatype read_result = ReadOk bytes | ReadErr

text \<open>\<open>read_loop\<close> over the results of successive reads. \<open>msg_tx\<close> delivers a message (\<open>None\<close> when the receiver
  was dropped, which ends the loop without the disconnect signal). A \<open>ReadOk []\<close> is end of file.\<close>

datatype loop_end = StillReading | Disconnect | ReceiverGone

fun send_all :: "('m \<Rightarrow> IncomingMessage \<Rightarrow> 'm option) \<Rightarrow> IncomingMessage list \<Rightarrow> 'm \<Rightarrow> bool \<times> 'm" where
  "send_all msg_tx [] q = (True, q)"
| "send_all msg_tx (m # ms) q = (case msg_tx q m of None \<Rightarrow> (False, q) | Some q' \<Rightarrow> send_all msg_tx ms q')"

fun read_loop ::
  "('m \<Rightarrow> IncomingMessage \<Rightarrow> 'm option) \<Rightarrow> read_result list \<Rightarrow> StreamParser \<Rightarrow> 'm \<Rightarrow> loop_end \<times> 'm" where
  "read_loop msg_tx [] p q = (StillReading, q)"
| "read_loop msg_tx (ReadErr # rs) p q = (Disconnect, q)"
| "read_loop msg_tx (ReadOk buf # rs) p q =
     (if buf = [] then (Disconnect, q) else
      case push p buf of
        (_, Inl _) \<Rightarrow> (Disconnect, q)
      | (p', Inr msgs) \<Rightarrow> (case send_all msg_tx msgs q of
          (False, q') \<Rightarrow> (ReceiverGone, q')
        | (True, q') \<Rightarrow> read_loop msg_tx rs p' q'))"

section \<open>Interleavings\<close>

datatype transport_op = OpInput bytes | OpAnchor bytes | OpFrame bytes | OpWrite

datatype transport_event = Accepted channel bytes | Rejected channel bytes | Written channel bytes

fun transport_step ::
  "'u Mpsc \<Rightarrow> 'b Mpsc \<Rightarrow> 'w Sink \<Rightarrow> transport_op \<Rightarrow> ('u, 'b, 'w) SshTransport
   \<Rightarrow> transport_event list \<times> ('u, 'b, 'w) SshTransport" where
  "transport_step U B S (OpInput d) t = (case send_input U (tr_sender t) d of
     (ok, s) \<Rightarrow> ([if ok then Accepted ChInput d else Rejected ChInput d], t\<lparr>tr_sender := s\<rparr>))"
| "transport_step U B S (OpAnchor d) t = (case send_anchor U (tr_sender t) d of
     (ok, s) \<Rightarrow> ([if ok then Accepted ChAnchor d else Rejected ChAnchor d], t\<lparr>tr_sender := s\<rparr>))"
| "transport_step U B S (OpFrame d) t = (case try_send_frame B (tr_sender t) d of
     (ok, s) \<Rightarrow> ([if ok then Accepted ChFrame d else Rejected ChFrame d], t\<lparr>tr_sender := s\<rparr>))"
| "transport_step U B S OpWrite t = (case write_turn U B S t of
     (ws, t') \<Rightarrow> (map (\<lambda>(c, d). Written c d) ws, t'))"

fun transport_run ::
  "'u Mpsc \<Rightarrow> 'b Mpsc \<Rightarrow> 'w Sink \<Rightarrow> transport_op list \<Rightarrow> ('u, 'b, 'w) SshTransport
   \<Rightarrow> transport_event list \<times> ('u, 'b, 'w) SshTransport" where
  "transport_run U B S [] t = ([], t)"
| "transport_run U B S (op # ops) t =
     (let (es, t') = transport_step U B S op t; (es', t'') = transport_run U B S ops t'
      in (es @ es', t''))"

fun accepted_on :: "channel \<Rightarrow> transport_event list \<Rightarrow> bytes list" where
  "accepted_on c [] = []"
| "accepted_on c (Accepted c' d # es) = (if c = c' then d # accepted_on c es else accepted_on c es)"
| "accepted_on c (_ # es) = accepted_on c es"

fun written_on :: "channel \<Rightarrow> transport_event list \<Rightarrow> bytes list" where
  "written_on c [] = []"
| "written_on c (Written c' d # es) = (if c = c' then d # written_on c es else written_on c es)"
| "written_on c (_ # es) = written_on c es"

fun waiting ::
  "('u \<Rightarrow> bytes list) \<Rightarrow> ('b \<Rightarrow> bytes list) \<Rightarrow> channel \<Rightarrow> ('u, 'b, 'w) SshTransport \<Rightarrow> bytes list" where
  "waiting qu qb ChInput t = qu (input_tx (tr_sender t))"
| "waiting qu qb ChAnchor t = qu (anchor_tx (tr_sender t))"
| "waiting qu qb ChFrame t = qb (frame_tx (tr_sender t))"

lemma accepted_on_append [simp]: "accepted_on c (es @ es') = accepted_on c es @ accepted_on c es'"
  by (induction c es rule: accepted_on.induct) simp_all

lemma written_on_append [simp]: "written_on c (es @ es') = written_on c es @ written_on c es'"
  by (induction c es rule: written_on.induct) simp_all

lemma fifo_channelD:
  assumes "fifo_channel M q"
  shows fifo_send: "chan_send M c d = Some c' \<Longrightarrow> q c' = q c @ [d]"
    and fifo_recv: "chan_recv M c = Some (d, c') \<Longrightarrow> q c = d # q c'"
    and fifo_recv_None: "chan_recv M c = None \<Longrightarrow> q c = []"
  using assms by (simp_all add: fifo_channel_def)

lemma fifo_idle: "fifo_channel M q \<Longrightarrow> q c = [] \<Longrightarrow> chan_recv M c = None"
  by (cases "chan_recv M c") (fastforce dest: fifo_recv)+

lemma fifo_ready:
  assumes "fifo_channel M q" and "q c = d # ds"
  shows "\<exists>c'. chan_recv M c = Some (d, c') \<and> q c' = ds"
proof (cases "chan_recv M c")
  case None
  then show ?thesis using fifo_recv_None [OF assms(1) None] assms(2) by simp
next
  case (Some p)
  then show ?thesis using fifo_recv [OF assms(1), of c "fst p" "snd p"] assms(2) by (cases p) simp
qed

lemmas sender_defs = send_input_def send_anchor_def try_send_frame_def

text \<open>Conservation in one step: what was waiting and what was accepted is what was written, at
  most one item lost to a failing sink, and what is waiting now.\<close>

definition conserved ::
  "bytes list \<Rightarrow> bytes list \<Rightarrow> bytes list \<Rightarrow> bytes list \<Rightarrow> bool \<Rightarrow> bool \<Rightarrow> bool" where
  "conserved before accepted written after was_running running \<longleftrightarrow>
     (\<exists>lost. before @ accepted = written @ lost @ after \<and> length lost \<le> 1 \<and>
             (lost \<noteq> [] \<longrightarrow> was_running \<and> \<not> running))"

lemma conserved_intros [simp, intro]:
  "conserved q [] [] q r r'"
  "conserved (d # q) [] [d] q r r'"
  "conserved (d # q) [] [] q True False"
  "conserved q [d] [] (q @ [d]) r r'"
  unfolding conserved_def by (fastforce intro: exI [of _ "[]"] exI [of _ "[d]"])+

lemma select_biased_waiting:
  assumes "fifo_channel U qu" and "fifo_channel B qb" and "select_biased U B s = (r, s')"
  shows "case r of
      LoopData ChInput d \<Rightarrow> qu (input_tx s) = d # qu (input_tx s') \<and> anchor_tx s' = anchor_tx s \<and> frame_tx s' = frame_tx s
    | LoopData ChAnchor d \<Rightarrow> qu (input_tx s) = [] \<and> qu (anchor_tx s) = d # qu (anchor_tx s') \<and>
        input_tx s' = input_tx s \<and> frame_tx s' = frame_tx s
    | LoopData ChFrame d \<Rightarrow> qu (input_tx s) = [] \<and> qu (anchor_tx s) = [] \<and>
        qb (frame_tx s) = d # qb (frame_tx s') \<and> input_tx s' = input_tx s \<and> anchor_tx s' = anchor_tx s
    | _ \<Rightarrow> s' = s \<and> qu (input_tx s) = [] \<and> qu (anchor_tx s) = [] \<and> qb (frame_tx s) = []"
  using assms(3) fifo_channelD [OF assms(1)] fifo_channelD [OF assms(2)]
  by (auto simp: select_biased_def split: option.splits prod.splits if_splits)

lemma write_turn_cases:
  assumes "write_turn U B S t = (ws, t')"
  obtains (stopped) "\<not> tr_running t" "ws = []" "t' = t"
  | (idle) s' r where "tr_running t" "select_biased U B (tr_sender t) = (r, s')" "r = LoopElse \<or> r = LoopPending"
      "ws = []" "tr_sender t' = s'"
  | (wrote) ch d s' where "tr_running t" "select_biased U B (tr_sender t) = (LoopData ch d, s')"
      "ws = [(ch, d)]" "tr_sender t' = s'"
  | (failed) ch d s' where "tr_running t" "select_biased U B (tr_sender t) = (LoopData ch d, s')"
      "ws = []" "tr_sender t' = s'" "\<not> tr_running t'"
  using assms
  by (auto simp: write_turn_def split: if_splits prod.splits selected.splits option.splits)

lemma write_turn_conserves:
  assumes "fifo_channel U qu" and "fifo_channel B qb" and "write_turn U B S t = (ws, t')"
  shows "conserved (waiting qu qb c t) [] (map snd (filter (\<lambda>w. fst w = c) ws)) (waiting qu qb c t')
           (tr_running t) (tr_running t')"
  using assms(3)
proof (cases rule: write_turn_cases)
  case (idle s' r)
  with select_biased_waiting [OF assms(1,2) idle(2)] show ?thesis by (cases c) auto
next
  case (wrote ch d s')
  with select_biased_waiting [OF assms(1,2) wrote(2)] show ?thesis by (cases ch; cases c) auto
next
  case (failed ch d s')
  with select_biased_waiting [OF assms(1,2) failed(2)] show ?thesis by (cases ch; cases c) auto
qed simp

lemma written_on_map [simp]:
  "written_on c (map (\<lambda>(c, d). Written c d) ws) = map snd (filter (\<lambda>w. fst w = c) ws)"
  "accepted_on c (map (\<lambda>(c, d). Written c d) ws) = []"
  by (induction ws) auto

lemma transport_step_conserves:
  assumes "fifo_channel U qu" and "fifo_channel B qb" and "transport_step U B S op t = (es, t')"
  shows "conserved (waiting qu qb c t) (accepted_on c es) (written_on c es) (waiting qu qb c t')
           (tr_running t) (tr_running t')"
proof (cases op)
  case OpWrite
  then show ?thesis
    using assms(3) write_turn_conserves [OF assms(1,2)] by (auto split: prod.splits)
next
  case (OpInput d)
  then show ?thesis using assms(3) fifo_send [OF assms(1)]
    by (cases c) (auto simp: sender_defs split: option.splits)
next
  case (OpAnchor d)
  then show ?thesis using assms(3) fifo_send [OF assms(1)]
    by (cases c) (auto simp: sender_defs split: option.splits)
next
  case (OpFrame d)
  then show ?thesis using assms(3) fifo_send [OF assms(2)]
    by (cases c) (auto simp: sender_defs split: option.splits)
qed

lemma transport_step_running:
  assumes "transport_step U B S op t = (es, t')"
  shows "tr_running t' \<Longrightarrow> tr_running t" and "\<not> tr_running t \<Longrightarrow> written_on c es = []"
  using assms
  by (cases op; auto simp: sender_defs write_turn_def
        split: option.splits prod.splits selected.splits if_splits)+

lemma conserved_trans:
  assumes "conserved a acc wr b r r1" and "conserved b acc' wr' c r1 r2" and "r2 \<Longrightarrow> r1" and "r1 \<Longrightarrow> r"
    and "\<not> r1 \<Longrightarrow> wr' = []"
  shows "conserved a (acc @ acc') (wr @ wr') c r r2"
proof -
  obtain l where l: "a @ acc = wr @ l @ b" "length l \<le> 1" "l \<noteq> [] \<longrightarrow> r \<and> \<not> r1"
    using assms(1) by (auto simp: conserved_def)
  obtain l' where l': "b @ acc' = wr' @ l' @ c" "length l' \<le> 1" "l' \<noteq> [] \<longrightarrow> r1 \<and> \<not> r2"
    using assms(2) by (auto simp: conserved_def)
  have eq: "a @ acc @ acc' = wr @ l @ wr' @ l' @ c"
    using l(1) l'(1) by (metis append.assoc)
  show ?thesis
  proof (cases "l = []")
    case True
    then show ?thesis using eq l l' assms(4) by (auto simp: conserved_def)
  next
    case False
    then have "wr' = []" "l' = []" "\<not> r2" using l(3) l'(3) assms(3,5) by auto
    then show ?thesis using False eq l by (auto simp: conserved_def)
  qed
qed


lemma transport_run_stopped:
  assumes "transport_run U B S ops t = (es, t')"
  shows "(tr_running t' \<longrightarrow> tr_running t) \<and> (\<not> tr_running t \<longrightarrow> written_on c es = [])"
  using assms
proof (induction ops arbitrary: t es)
  case (Cons op ops)
  obtain e1 t1 e2 where s: "transport_step U B S op t = (e1, t1)" "transport_run U B S ops t1 = (e2, t')"
    and es: "es = e1 @ e2"
    using Cons.prems by (auto split: prod.splits)
  show ?case
    using transport_step_running [OF s(1)] Cons.IH [OF s(2)] es by auto
qed simp

lemma transport_run_conserves:
  assumes "fifo_channel U qu" and "fifo_channel B qb" and "transport_run U B S ops t = (es, t')"
  shows "conserved (waiting qu qb c t) (accepted_on c es) (written_on c es) (waiting qu qb c t')
           (tr_running t) (tr_running t')"
  using assms(3)
proof (induction ops arbitrary: t es)
  case (Cons op ops)
  obtain e1 t1 e2 where s: "transport_step U B S op t = (e1, t1)" "transport_run U B S ops t1 = (e2, t')"
    and es: "es = e1 @ e2"
    using Cons.prems by (auto split: prod.splits)
  show ?case
    unfolding es accepted_on_append written_on_append
    by (rule conserved_trans [OF transport_step_conserves [OF assms(1,2) s(1)] Cons.IH [OF s(2)]])
      (use transport_run_stopped [OF s(2)] transport_step_running [OF s(1)] in auto)
qed simp


lemma frame_queue_bounded_step:
  assumes "fifo_channel B qb" and "bounded_channel B qb cap c0" and "fifo_channel U qu"
    and "transport_step U B S op t = (es, t')" and "length (waiting qu qb ChFrame t) \<le> cap"
  shows "length (waiting qu qb ChFrame t') \<le> cap"
proof (cases op)
  case (OpFrame d)
  then show ?thesis
  proof (cases "chan_send B (frame_tx (tr_sender t)) d")
    case (Some c)
    then have "chan_free B (frame_tx (tr_sender t)) \<noteq> 0"
      using assms(2) by (metis bounded_channel_def option.distinct(1))
    moreover have "length (qb (frame_tx (tr_sender t))) + chan_free B (frame_tx (tr_sender t)) = cap"
      using assms(2,5) by (simp add: bounded_channel_def)
    ultimately show ?thesis
      using Some OpFrame assms(4) fifo_send [OF assms(1) Some] by (auto simp: try_send_frame_def)
  qed (use assms(4,5) in \<open>auto simp: try_send_frame_def\<close>)
next
  case OpWrite
  have "conserved (waiting qu qb ChFrame t) (accepted_on ChFrame es) (written_on ChFrame es)
      (waiting qu qb ChFrame t') (tr_running t) (tr_running t')"
    by (rule transport_step_conserves [OF assms(3,1,4)])
  moreover have "accepted_on ChFrame es = []" using OpWrite assms(4) by (auto split: prod.splits)
  ultimately have "\<exists>l. waiting qu qb ChFrame t = l @ waiting qu qb ChFrame t'"
    by (auto simp: conserved_def)
  then show ?thesis using assms(5) by auto
qed (use assms(4,5) in \<open>auto simp: sender_defs split: option.splits\<close>)

lemma frame_queue_bounded:
  assumes "fifo_channel B qb" and "bounded_channel B qb cap c0" and "fifo_channel U qu"
    and "transport_run U B S ops t = (es, t')" and "length (waiting qu qb ChFrame t) \<le> cap"
  shows "length (waiting qu qb ChFrame t') \<le> cap"
  using assms(4,5)
proof (induction ops arbitrary: t es)
  case (Cons op ops)
  obtain e1 t1 e2 where s: "transport_step U B S op t = (e1, t1)" "transport_run U B S ops t1 = (e2, t')"
    using Cons.prems(1) by (auto split: prod.splits)
  show ?case
    by (rule Cons.IH [OF s(2) frame_queue_bounded_step [OF assms(1-3) s(1) Cons.prems(2)]])
qed simp

lemma send_all_Some:
  assumes "\<And>q m. \<exists>q'. msg_tx q m = Some q' \<and> recvd q' = recvd q @ [m]"
  shows "\<exists>q'. send_all msg_tx ms q = (True, q') \<and> recvd q' = recvd q @ ms"
proof (induction ms arbitrary: q)
  case (Cons m ms)
  obtain q1 where q1: "msg_tx q m = Some q1" "recvd q1 = recvd q @ [m]" using assms by blast
  then show ?case using Cons.IH [of q1] by auto
qed simp

lemma read_loop_feed:
  assumes "\<And>q m. \<exists>q'. msg_tx q m = Some q' \<and> recvd q' = recvd q @ [m]"
    and "\<forall>d \<in> set ds. d \<noteq> []" and "feed p ds = (p', Inr ms)"
  shows "\<exists>q'. (\<forall>rest. read_loop msg_tx (map ReadOk ds @ rest) p q = read_loop msg_tx rest p' q') \<and>
           recvd q' = recvd q @ ms"
  using assms(2,3)
proof (induction ds arbitrary: p q ms)
  case (Cons d ds)
  obtain p1 ms1 ms2 where p: "push p d = (p1, Inr ms1)" "feed p1 ds = (p', Inr ms2)" and ms: "ms = ms1 @ ms2"
    using Cons.prems(2) by (auto split: prod.splits sum.splits)
  obtain q1 where q1: "send_all msg_tx ms1 q = (True, q1)" "recvd q1 = recvd q @ ms1"
    using send_all_Some [where msg_tx = msg_tx and recvd = recvd, OF assms(1)] by blast
  obtain q2 where "\<forall>rest. read_loop msg_tx (map ReadOk ds @ rest) p1 q1 = read_loop msg_tx rest p' q2"
    "recvd q2 = recvd q1 @ ms2"
    using Cons.IH [OF _ p(2), of q1] Cons.prems(1) by auto
  then show ?case using p q1 ms Cons.prems(1) by auto
qed auto

section \<open>Properties\<close>

text \<open>A channel as an unbounded or bounded list, for concrete runs.\<close>

definition list_channel :: "nat option \<Rightarrow> (bytes list) Mpsc" where
  "list_channel cap =
     \<lparr>chan_send = (\<lambda>q d. if (case cap of None \<Rightarrow> True | Some k \<Rightarrow> length q < k) then Some (q @ [d]) else None),
      chan_recv = (\<lambda>q. case q of [] \<Rightarrow> None | d # q' \<Rightarrow> Some (d, q')),
      chan_closed = (\<lambda>q. False), chan_free = (\<lambda>q. case cap of None \<Rightarrow> 0 | Some k \<Rightarrow> k - length q)\<rparr>"

definition list_sink :: "bytes Sink" where
  "list_sink = \<lparr>write_all = (\<lambda>w d. Some (w @ d)), flush = Some\<rparr>"

definition demo_sender :: "(bytes list, bytes list) TransportSender" where
  "demo_sender = \<lparr>input_tx = [], anchor_tx = [], frame_tx = []\<rparr>"

lemma list_channel_fifo: "fifo_channel (list_channel cap) (\<lambda>q. q)"
  by (auto simp: fifo_channel_def list_channel_def split: list.splits if_splits)

lemma list_channel_bounded: "bounded_channel (list_channel (Some k)) (\<lambda>q. q) k []"
  by (auto simp: bounded_channel_def list_channel_def)

text \<open>C5. Queues keep their promises: over any interleaving of sends and turns of the write loop on a
  fresh transport, each of the three queues delivers in order and exactly once: what was
  accepted on a channel is what was written from it, then at most one item taken by a write
  that failed (and then the loop has stopped), then what still waits; and nothing is lost while
  the loop runs.\<close>

theorem transport_no_loss:
  assumes "fifo_channel U qu" and "fifo_channel B qb" and "qu ci = []" and "qu ca = []" and "qb cf = []"
    and "transport_run U B S ops (SshTransport_new ci ca cf w) = (es, t')"
  shows "\<exists>lost. accepted_on c es = written_on c es @ lost @ waiting qu qb c t' \<and> length lost \<le> 1 \<and>
           (if tr_running t' then lost = [] else True)"
proof -
  have "waiting qu qb c (SshTransport_new ci ca cf w) = []"
    using assms(3-5) by (cases c) (simp_all add: SshTransport_new_def)
  then show ?thesis
    using transport_run_conserves [OF assms(1,2,6), of c] by (auto simp: conserved_def)
qed

theorem transport_no_loss_witness:
  "\<exists>lost. accepted_on ChInput [Accepted ChInput [1], Accepted ChFrame [2], Written ChInput [1]] =
     written_on ChInput [Accepted ChInput [1], Accepted ChFrame [2], Written ChInput [1]] @ lost @
     waiting (\<lambda>q. q) (\<lambda>q. q) ChInput (snd (transport_run (list_channel None) (list_channel (Some 2)) list_sink
       [OpInput [1], OpFrame [2], OpWrite] (SshTransport_new [] [] [] []))) \<and> length lost \<le> 1 \<and>
     (if tr_running (snd (transport_run (list_channel None) (list_channel (Some 2)) list_sink
       [OpInput [1], OpFrame [2], OpWrite] (SshTransport_new [] [] [] []))) then lost = [] else True)"
proof (rule transport_no_loss [OF list_channel_fifo list_channel_fifo])
  show "transport_run (list_channel None) (list_channel (Some 2)) list_sink
       [OpInput [1], OpFrame [2], OpWrite] (SshTransport_new [] [] [] []) =
     ([Accepted ChInput [1], Accepted ChFrame [2], Written ChInput [1]],
      snd (transport_run (list_channel None) (list_channel (Some 2)) list_sink
       [OpInput [1], OpFrame [2], OpWrite] (SshTransport_new [] [] [] [])))"
    by (simp add: SshTransport_new_def sender_defs write_turn_def select_biased_def list_channel_def list_sink_def)
qed simp_all

text \<open>C38. Priorities: a turn of the write loop writes a frame chunk only when no input event and no
  anchor frame waits, and an anchor frame only when no input event waits.\<close>

theorem write_priority:
  assumes "fifo_channel U qu" and "fifo_channel B qb" and "write_turn U B S t = (ws, t')" and "(c, d) \<in> set ws"
  shows "(c = ChFrame \<longrightarrow> waiting qu qb ChInput t = [] \<and> waiting qu qb ChAnchor t = []) \<and>
         (c = ChAnchor \<longrightarrow> waiting qu qb ChInput t = []) \<and> hd (waiting qu qb c t) = d \<and> waiting qu qb c t \<noteq> []"
  using assms(3)
proof (cases rule: write_turn_cases)
  case (wrote ch d' s')
  with assms(4) select_biased_waiting [OF assms(1,2) wrote(2)] show ?thesis by (cases ch) auto
qed (use assms(4) in auto)

theorem write_priority_witness:
  "hd (waiting (\<lambda>q. q) (\<lambda>q. q) ChAnchor (SshTransport_new [] [[7]] [[8]] ([] :: bytes))) = [7 :: u8]"
proof -
  have "write_turn (list_channel None) (list_channel (Some 2)) list_sink (SshTransport_new [] [[7]] [[8]] []) =
      ([(ChAnchor, [7])], SshTransport_new [] [] [[8]] [7])"
    by (simp add: SshTransport_new_def write_turn_def select_biased_def list_channel_def list_sink_def)
  from write_priority [OF list_channel_fifo list_channel_fifo this] show ?thesis by auto
qed

text \<open>Bounded latency: the frame queue never holds more than \<open>FRAME_QUEUE_DEPTH\<close> chunks, over any
  interleaving, and \<open>frame_queue_len\<close> reports how many it holds.\<close>

theorem frame_queue_depth:
  assumes "fifo_channel U qu" and "fifo_channel B qb" and "bounded_channel B qb FRAME_QUEUE_DEPTH cf"
    and "transport_run U B S ops (SshTransport_new ci ca cf w) = (es, t')"
  shows "frame_queue_len B (tr_sender t') = length (waiting qu qb ChFrame t') \<and>
         length (waiting qu qb ChFrame t') \<le> FRAME_QUEUE_DEPTH"
proof -
  have "length (waiting qu qb ChFrame (SshTransport_new ci ca cf w)) \<le> FRAME_QUEUE_DEPTH"
    using assms(3) by (simp add: SshTransport_new_def bounded_channel_def)
  then have le: "length (waiting qu qb ChFrame t') \<le> FRAME_QUEUE_DEPTH"
    by (rule frame_queue_bounded [OF assms(2,3,1,4)])
  then have "length (waiting qu qb ChFrame t') + chan_free B (frame_tx (tr_sender t')) = FRAME_QUEUE_DEPTH"
    using assms(3) by (simp add: bounded_channel_def)
  with le show ?thesis by (simp add: frame_queue_len_def)
qed

theorem frame_queue_depth_witness:
  "\<exists>t'. snd (transport_run (list_channel None) (list_channel (Some FRAME_QUEUE_DEPTH)) list_sink
       [OpFrame [1], OpFrame [2], OpFrame [3]] (SshTransport_new [] [] [] [])) = t' \<and>
     frame_queue_len (list_channel (Some FRAME_QUEUE_DEPTH)) (tr_sender t') =
       length (waiting (\<lambda>q. q) (\<lambda>q. q) ChFrame t') \<and>
     length (waiting (\<lambda>q. q) (\<lambda>q. q) ChFrame t') \<le> FRAME_QUEUE_DEPTH"
  using frame_queue_depth [OF list_channel_fifo list_channel_fifo list_channel_bounded,
      where ops = "[OpFrame [1], OpFrame [2], OpFrame [3]]" and ci = "[]" and ca = "[]" and w = "[]" and S = list_sink]
  by (metis surjective_pairing)

text \<open>C37. Reading: whatever the sizes of the reads, messages chunked by the sender reach the incoming
  queue in order and unchanged, and end of file, a read error or a protocol error then ends
  the loop with the disconnect signal.\<close>

theorem read_loop_delivers:
  assumes "0 < cs" and "cs \<le> MAX_PAYLOAD_LEN" and "\<forall>m \<in> set ms. sendable m"
    and "list_all2 (\<lambda>m w. wire_of cs m = Some w) ms ws" and "concat reads = concat ws" and "\<forall>d \<in> set reads. d \<noteq> []"
    and "\<And>q m. \<exists>q'. msg_tx q m = Some q' \<and> recvd q' = recvd q @ [m]"
  shows "\<exists>q'. read_loop msg_tx (map ReadOk reads) StreamParser_new q = (StillReading, q') \<and>
           read_loop msg_tx (map ReadOk reads @ [ReadOk []]) StreamParser_new q = (Disconnect, q') \<and>
           read_loop msg_tx (map ReadOk reads @ [ReadErr]) StreamParser_new q = (Disconnect, q') \<and>
           recvd q' = recvd q @ map (delivered cs) ms"
proof -
  have "feed StreamParser_new reads = (StreamParser_new, Inr (map (delivered cs) ms))"
    using push_messages [OF assms(1-4)] assms(5) by (simp add: feed_push_Inr)
  from read_loop_feed [where msg_tx = msg_tx and recvd = recvd, OF assms(7,6) this]
  obtain q' where run: "\<forall>rest. read_loop msg_tx (map ReadOk reads @ rest) StreamParser_new q =
      read_loop msg_tx rest StreamParser_new q'" and "recvd q' = recvd q @ map (delivered cs) ms"
    by blast
  then show ?thesis using run [rule_format, of "[]"] by auto
qed

theorem read_loop_delivers_witness:
  "\<exists>w q'. read_loop (\<lambda>q m. Some (q @ [m])) [ReadOk w] StreamParser_new [] = (StillReading, q') \<and>
     q' = map (delivered 2)
       [\<lparr>out_sid = 1, out_type = FrameUpdate, out_flags = COMPRESSED, out_ts = 5, out_payload = [7, 8, 9]\<rparr>]"
proof -
  let ?m = "\<lparr>out_sid = 1, out_type = FrameUpdate, out_flags = COMPRESSED, out_ts = 5, out_payload = [7, 8, 9]\<rparr>"
  have s: "sendable ?m" by (simp add: sendable_def COMPRESSED_def LAST_CHUNK_def)
  obtain w where w: "wire_of 2 ?m = Some w"
    using push_loop_message [of 2 ?m Map.empty] s by auto
  then have "length w = 16 * length (chunks_of 2 [7, 8, 9 :: u8]) + 3"
    by (auto simp: wire_of_def split_into_chunks_frames length_frames_wire concat_chunks_of)
  then have "w \<noteq> []" by auto
  then show ?thesis
    using read_loop_delivers [of 2 "[?m]" "[w]" "[w]" "\<lambda>q m. Some (q @ [m])" "\<lambda>q. q" "[]"] w s by auto
qed

text \<open>The anchor queue overtakes the frame queue: an anchor frame accepted after a regular frame
  that still waits is written before it, so the receiver meets the two in the opposite order.\<close>

theorem anchor_overtakes_frame:
  assumes "fifo_channel U qu" and "fifo_channel B qb" and "qu ci = []" and "qu ca = []" and "qb cf = []"
    and "chan_send B cf f = Some cf'" and "chan_send U ca a = Some ca'"
    and "\<And>w d. \<exists>w' w''. write_all S w d = Some w' \<and> flush S w' = Some w''"
  shows "fst (transport_run U B S [OpFrame f, OpAnchor a, OpWrite, OpWrite] (SshTransport_new ci ca cf w)) =
     [Accepted ChFrame f, Accepted ChAnchor a, Written ChAnchor a, Written ChFrame f]"
proof -
  have "qu ca' = [a]" and "qb cf' = [f]"
    using fifo_send [OF assms(1) assms(7)] fifo_send [OF assms(2) assms(6)] assms(4,5) by simp_all
  then obtain ca'' cf'' where ra: "chan_recv U ca' = Some (a, ca'')" "qu ca'' = []"
    and rf: "chan_recv B cf' = Some (f, cf'')"
    using fifo_ready [OF assms(1), of ca' a "[]"] fifo_ready [OF assms(2), of cf' f "[]"] by blast
  note idle = fifo_idle [OF assms(1)]
  obtain w1 w2 where w1: "write_all S w a = Some w1" "flush S w1 = Some w2" using assms(8) by blast
  obtain w3 w4 where w2: "write_all S w2 f = Some w3" "flush S w3 = Some w4" using assms(8) by blast
  show ?thesis
    using idle [OF assms(3)] idle [OF ra(2)] ra(1) rf w1 w2 assms(6,7)
    by (simp add: SshTransport_new_def sender_defs write_turn_def select_biased_def)
qed

theorem anchor_overtakes_frame_witness:
  "fst (transport_run (list_channel None) (list_channel (Some FRAME_QUEUE_DEPTH)) list_sink
     [OpFrame [1], OpAnchor [2], OpWrite, OpWrite] (SshTransport_new [] [] [] [])) =
     [Accepted ChFrame [1], Accepted ChAnchor [2], Written ChAnchor [2], Written ChFrame [1]]"
  by (rule anchor_overtakes_frame [OF list_channel_fifo list_channel_fifo, where cf' = "[[1]]" and ca' = "[[2]]"])
    (simp_all add: list_channel_def list_sink_def FRAME_QUEUE_DEPTH_def)

end
