(* ===== verification/Server.thy ===== *)
theory Server
  imports Capture Downscale Transport
begin

text \<open>
  \<^verbatim>\<open>crates/remoteway-server\<close>: command-line choices (\<^verbatim>\<open>cli.rs\<close>), the retry loop and the capture mode
  (\<^verbatim>\<open>main.rs\<close>), and the pipeline (\<^verbatim>\<open>pipeline.rs\<close>): handshake, frame payload and the loop that compresses and sends. The floating-point scale factor appears as
  the function it induces on dimensions; the number of rayon workers and the clock are arguments.
\<close>

section \<open>cli.rs\<close>

datatype CaptureBackendArg = ArgAuto | ArgWlrScreencopy | ArgExtImageCapture | ArgPortal

datatype CompressArg = ArgNone | ArgLz4 | ArgZstd

fun to_kind :: "CompressArg \<Rightarrow> CompressorKind" where
  "to_kind ArgNone = Kind_None"
| "to_kind ArgLz4 = Kind_Lz4"
| "to_kind ArgZstd = Kind_Zstd"

datatype DownscaleFilterArg = FilterBox | FilterNearest

section \<open>main.rs\<close>

definition determine_capture_mode :: "string option \<Rightarrow> string list \<Rightarrow> bool \<times> bool" where
  "determine_capture_mode app_id command =
     (app_id = None \<and> command \<noteq> [], app_id \<noteq> None \<and> command \<noteq> [])"

text \<open>\<open>attempts i\<close> is the outcome of the \<open>i\<close>-th call of \<^verbatim>\<open>try_fn\<close>, counted from 1. An error carries the capture
  error at its root, if that is its cause. \<open>NotFound\<close> is the error with the context added after the
  last attempt; \<open>None\<close> is the \<^verbatim>\<open>unreachable!()\<close> of a loop with no attempts.\<close>

datatype retry_error = Permanent "CaptureError option" | NotFound "CaptureError option"

fun retry_from ::
  "(nat \<Rightarrow> CaptureError option + 'b) \<Rightarrow> nat \<Rightarrow> nat \<Rightarrow> nat \<Rightarrow> (retry_error + 'b) option \<times> nat" where
  "retry_from attempts max_retries 0 sleeps = (None, sleeps)"
| "retry_from attempts max_retries (Suc left) sleeps =
     (let attempt = max_retries - left in
      case attempts attempt of
        Inr b \<Rightarrow> (Some (Inr b), sleeps)
      | Inl e \<Rightarrow>
          if (case e of Some ce \<Rightarrow> \<not> is_retriable ce | None \<Rightarrow> False) then (Some (Inl (Permanent e)), sleeps)
          else if attempt = max_retries then (Some (Inl (NotFound e)), sleeps)
          else retry_from attempts max_retries left (Suc sleeps))"

definition retry_capture_backend_with_params ::
  "(nat \<Rightarrow> CaptureError option + 'b) \<Rightarrow> nat \<Rightarrow> (retry_error + 'b) option \<times> nat" where
  "retry_capture_backend_with_params attempts max_retries = retry_from attempts max_retries max_retries 0"

definition retry_capture_backend :: "(nat \<Rightarrow> CaptureError option + 'b) \<Rightarrow> (retry_error + 'b) option \<times> nat" where
  "retry_capture_backend attempts = retry_capture_backend_with_params attempts 50"

section \<open>pipeline.rs: constants\<close>

definition CHUNK_SIZE :: usize where "CHUNK_SIZE = 64 * 1024"

definition ANCHOR_INTERVAL :: u64 where "ANCHOR_INTERVAL = 300"

section \<open>pipeline.rs: messages\<close>

fun capture_flag :: "CaptureBackendArg \<Rightarrow> u8" where
  "capture_flag ArgAuto = (WLR_SCREENCOPY OR EXT_IMAGE_CAPTURE) OR PORTAL"
| "capture_flag ArgWlrScreencopy = WLR_SCREENCOPY"
| "capture_flag ArgExtImageCapture = EXT_IMAGE_CAPTURE"
| "capture_flag ArgPortal = PORTAL"

fun compress_flag :: "CompressArg \<Rightarrow> u8" where
  "compress_flag ArgNone = FLAG_NONE"
| "compress_flag ArgLz4 = FLAG_LZ4"
| "compress_flag ArgZstd = FLAG_LZ4 OR FLAG_ZSTD"

definition server_handshake :: "CaptureBackendArg \<Rightarrow> CompressArg \<Rightarrow> bytes" where
  "server_handshake capture_arg compress_arg =
     FrameHeader_bytes (FrameHeader_new 0 HandshakeMsg LAST_CHUNK 8 0) @
     HandshakePayload_bytes (HandshakePayload_new (capture_flag capture_arg) (compress_flag compress_arg))"

definition serialize_frame_payload ::
  "u32 \<Rightarrow> u32 \<Rightarrow> u32 \<Rightarrow> DamageRect list \<Rightarrow> CompressedFrame \<Rightarrow> bytes option" where
  "serialize_frame_payload width height stride regions compressed = do {
     payload \<leftarrow> fold_opt (\<lambda>(i, rect) payload. do {
         sz \<leftarrow> index (region_sizes compressed) i;
         Some (payload @ WireRegion_bytes (WireRegion_new (dr_x rect) (dr_y rect) (dr_width rect) (dr_height rect)
                 (word_of_nat sz)))
       }) (enumerate 0 regions)
       (FrameMeta_bytes (FrameMeta_new width height stride (word_of_nat (length regions))));
     Some (payload @ cf_data compressed)
   }"

section \<open>pipeline.rs: the compress and send loop\<close>

record SendConfig =
  sc_codecs :: Codecs
  sc_kind :: CompressorKind
  sc_scale :: "(u32 \<Rightarrow> u32) option"
  sc_filter :: DownscaleFilterArg
  sc_threads :: usize

record ('u, 'b) SendLoop =
  previous_frame :: bytes
  is_first :: bool
  sl_frame_count :: u64
  need_full_damage :: bool
  sl_compressed :: CompressedFrame
  sl_sender :: "('u, 'b) TransportSender"

definition SendLoop_start :: "('u, 'b) TransportSender \<Rightarrow> ('u, 'b) SendLoop" where
  "SendLoop_start sender = \<lparr>previous_frame = [], is_first = True, sl_frame_count = 0, need_full_damage = False,
     sl_compressed = CompressedFrame_default, sl_sender = sender\<rparr>"

text \<open>\<open>sc_scale\<close> is \<open>None\<close> for a scale of 1.0, otherwise the map of a dimension \<open>d\<close> to \<^verbatim>\<open>(d as f64 * scale).round() as u32\<close>.\<close>

definition scaled_frame :: "SendConfig \<Rightarrow> CapturedFrame \<Rightarrow> (bytes \<times> u32 \<times> u32 \<times> u32) option" where
  "scaled_frame cfg frame = (case sc_scale cfg of
     None \<Rightarrow> Some (cap_data frame, cap_width frame, cap_height frame, cap_stride frame)
   | Some scale \<Rightarrow>
       (let tw = scale (cap_width frame); th = scale (cap_height frame) in do {
          (buf, _) \<leftarrow> (case sc_filter cfg of
              FilterBox \<Rightarrow> downscale_box (cap_data frame) (cap_width frame) (cap_height frame) (cap_stride frame) tw th
            | FilterNearest \<Rightarrow> downscale_nearest (cap_data frame) (cap_width frame) (cap_height frame) (cap_stride frame) tw th);
          Some (buf, tw, th, tw * 4)
        }))"

definition force_anchor :: "('u, 'b) SendLoop \<Rightarrow> bool" where
  "force_anchor s \<longleftrightarrow> is_first s \<or> (0 < sl_frame_count s \<and> sl_frame_count s mod ANCHOR_INTERVAL = 0)"

definition frame_regions :: "SendConfig \<Rightarrow> bool \<Rightarrow> u32 \<Rightarrow> u32 \<Rightarrow> CapturedFrame \<Rightarrow> DamageRect list" where
  "frame_regions cfg use_full_damage w h frame =
     (if use_full_damage \<or> sc_scale cfg \<noteq> None then stripe_full_frame w h (max (sc_threads cfg) 1)
      else map (\<lambda>d. DamageRect_new (dr_x d) (dr_y d) (dr_width d) (dr_height d)) (damage frame))"

text \<open>The body of the loop for one drained frame. \<open>skipped\<close> says that newer frames replaced others,
  \<open>dropped\<close> is the flag taken from the capture thread. The result carries the payload, whether
  it went out, and as what message type.\<close>

definition send_turn ::
  "'u Mpsc \<Rightarrow> 'b Mpsc \<Rightarrow> SendConfig \<Rightarrow> duration \<times> duration \<Rightarrow> CapturedFrame \<Rightarrow> bool \<Rightarrow> bool \<Rightarrow> ('u, 'b) SendLoop
   \<Rightarrow> ((MsgType \<times> bytes \<times> bool) \<times> ('u, 'b) SendLoop) option" where
  "send_turn U B cfg clock frame skipped dropped s = do {
     let full = need_full_damage s \<or> skipped \<or> dropped;
     (frame_data, frame_w, frame_h, frame_stride) \<leftarrow> scaled_frame cfg frame;
     let anchor = force_anchor s;
     let use_full_damage = anchor \<or> damage frame = [] \<or> full;
     let regions = frame_regions cfg use_full_damage frame_w frame_h frame;
     let msg_type = (if anchor then AnchorFrame else FrameUpdate);
     let base = (if anchor then vec_resize (previous_frame s) (length frame_data) 0 else previous_frame s);
     (_, cf) \<leftarrow> compress_frame_into (sc_codecs cfg) frame_data base (unat frame_stride) regions
                  (sl_compressed s) (sc_kind cfg) clock;
     payload \<leftarrow> serialize_frame_payload frame_w frame_h frame_stride regions cf;
     wire \<leftarrow> split_into_chunks 1 msg_type COMPRESSED payload (cap_timestamp_ns frame) CHUNK_SIZE [];
     let (sent, sender) = (if anchor then send_anchor U (sl_sender s) wire else try_send_frame B (sl_sender s) wire);
     Some ((msg_type, payload, sent),
       \<lparr>previous_frame = (if sent then frame_data else base), is_first = False, sl_frame_count = sl_frame_count s + 1,
        need_full_damage = \<not> sent, sl_compressed = cf, sl_sender = sender\<rparr>)
   }"

text \<open>Draining the capture ring to its newest frame.\<close>

fun drain_ring :: "('r, CapturedFrame) Ring \<Rightarrow> nat \<Rightarrow> CapturedFrame \<Rightarrow> nat \<Rightarrow> 'r CaptureThread
   \<Rightarrow> CapturedFrame \<times> nat \<times> 'r CaptureThread" where
  "drain_ring R 0 frame skipped t = (frame, skipped, t)"
| "drain_ring R (Suc k) frame skipped t = (case try_recv R t of
     (Some newer, t') \<Rightarrow> drain_ring R k newer (Suc skipped) t'
   | (None, t') \<Rightarrow> (frame, skipped, t'))"

datatype loop_action = Slept | CaptureDone | Sent MsgType bytes bool

text \<open>One iteration of \<open>compress_send_loop\<close>; \<open>fuel\<close> bounds the drain, which stops at the first empty read.\<close>

definition compress_send_turn ::
  "('r, CapturedFrame) Ring \<Rightarrow> nat \<Rightarrow> 'u Mpsc \<Rightarrow> 'b Mpsc \<Rightarrow> SendConfig \<Rightarrow> duration \<times> duration
   \<Rightarrow> 'r CaptureThread \<times> ('u, 'b) SendLoop \<Rightarrow> (loop_action \<times> 'r CaptureThread \<times> ('u, 'b) SendLoop) option" where
  "compress_send_turn R fuel U B cfg clock ts = (case ts of (t, s) \<Rightarrow>
     (case try_recv R t of
        (None, t') \<Rightarrow> Some (if is_finished t' then CaptureDone else Slept, t', s)
      | (Some first, t') \<Rightarrow> do {
          let (frame, skipped, t'') = drain_ring R fuel first 0 t';
          let (dropped, t3) = take_dropped_flag t'';
          ((mt, payload, sent), s') \<leftarrow> send_turn U B cfg clock frame (0 < skipped) dropped s;
          Some (Sent mt payload sent, t3, s')
        }))"

section \<open>pipeline.rs: the receive loop\<close>

text \<open>\<open>inject\<close> is \<^verbatim>\<open>InputInjectThread::send\<close>; \<open>None\<close> for the message is a closed transport.\<close>

datatype dispatch_action = Injected InputEvent bool | Ignored | ShutDown

definition recv_dispatch_turn ::
  "('i \<Rightarrow> InputEvent \<Rightarrow> bool \<times> 'i) \<Rightarrow> IncomingMessage option \<Rightarrow> 'i \<Rightarrow> dispatch_action \<times> 'i" where
  "recv_dispatch_turn inject msg q = (case msg of
     None \<Rightarrow> (ShutDown, q)
   | Some m \<Rightarrow> (case header_msg_type (im_header m) of
       Inr InputEventMsg \<Rightarrow>
         (if InputEvent_SIZE \<le> length (im_payload m) then
            (case InputEvent_read (take InputEvent_SIZE (im_payload m)) of
               Some event \<Rightarrow> (case inject q event of (ok, q') \<Rightarrow> (Injected event ok, q'))
             | None \<Rightarrow> (Ignored, q))
          else (Ignored, q))
     | _ \<Rightarrow> (Ignored, q)))"

end
