(* ===== verification/Interpolate.thy ===== *)
theory Interpolate
  imports Prelude
begin

text \<open>
  \<^verbatim>\<open>crates/remoteway-interpolate\<close>: frames and the linear blend (\<^verbatim>\<open>interpolator.rs\<close>), the frame window
  (\<^verbatim>\<open>manager.rs\<close>), the backend list (\<^verbatim>\<open>backend.rs\<close>) and the errors (\<^verbatim>\<open>error.rs\<close>). A blend factor \<open>t : f32\<close> appears as
  the record \<open>Factor\<close> of the three values the code derives from it. The GPU backends are a
  parameter: an \<open>Interpolator\<close> is the method table of the trait object.
\<close>

section \<open>error.rs, interpolator.rs\<close>

datatype InterpolateError =
  InterpNoBackend | DeviceLost | DimensionMismatch u32 u32 u32 u32 | InvalidFactor | InitFailed string
| InterpolateFailed string

record GpuFrame =
  gf_data :: bytes
  gf_width :: u32
  gf_height :: u32
  gf_stride :: u32
  gf_timestamp_ns :: u64

definition GpuFrame_new :: "u32 \<Rightarrow> u32 \<Rightarrow> u32 \<Rightarrow> u64 \<Rightarrow> GpuFrame" where
  "GpuFrame_new width height stride ts =
     \<lparr>gf_data = replicate (unat (stride * height)) 0, gf_width = width, gf_height = height, gf_stride = stride,
      gf_timestamp_ns = ts\<rparr>"

definition GpuFrame_from_data :: "bytes \<Rightarrow> u32 \<Rightarrow> u32 \<Rightarrow> u32 \<Rightarrow> u64 \<Rightarrow> GpuFrame" where
  "GpuFrame_from_data data width height stride ts =
     \<lparr>gf_data = data, gf_width = width, gf_height = height, gf_stride = stride, gf_timestamp_ns = ts\<rparr>"

definition byte_size :: "GpuFrame \<Rightarrow> usize" where
  "byte_size f = length (gf_data f)"

definition gf_pixel_count :: "GpuFrame \<Rightarrow> u64" where
  "gf_pixel_count f = ucast (gf_width f) * ucast (gf_height f)"

definition same_dimensions :: "GpuFrame \<Rightarrow> GpuFrame \<Rightarrow> bool" where
  "same_dimensions a b \<longleftrightarrow> gf_width a = gf_width b \<and> gf_height a = gf_height b \<and> gf_stride a = gf_stride b"

text \<open>\<open>in_range\<close> is \<^verbatim>\<open>(0.0..=1.0).contains(&t)\<close>, \<open>t_fixed\<close> is \<^verbatim>\<open>(t * 256.0) as u16\<close>, \<open>t_advance d\<close> is
  \<^verbatim>\<open>(d as f64 * f64::from(t)) as u64\<close>.\<close>

record Factor =
  in_range :: bool
  t_fixed :: u16
  t_advance :: "u64 \<Rightarrow> u64"

definition blend_byte :: "Factor \<Rightarrow> u8 \<Rightarrow> u8 \<Rightarrow> u8" where
  "blend_byte t a b = ucast (drop_bit 8 (ucast a * (256 - t_fixed t) + ucast b * t_fixed t))"

definition linear_blend :: "GpuFrame \<Rightarrow> GpuFrame \<Rightarrow> Factor \<Rightarrow> InterpolateError + GpuFrame" where
  "linear_blend a b t =
     (if \<not> in_range t then Inl InvalidFactor
      else if \<not> same_dimensions a b
      then Inl (DimensionMismatch (gf_width a) (gf_height a) (gf_width b) (gf_height b))
      else Inr \<lparr>gf_data = map2 (blend_byte t) (gf_data a) (gf_data b), gf_width = gf_width a,
             gf_height = gf_height a, gf_stride = gf_stride a,
             gf_timestamp_ns = (if gf_timestamp_ns a \<le> gf_timestamp_ns b
                then gf_timestamp_ns a + t_advance t (gf_timestamp_ns b - gf_timestamp_ns a)
                else gf_timestamp_ns a)\<rparr>)"

record 'k Interpolator =
  be_interpolate :: "'k \<Rightarrow> GpuFrame \<Rightarrow> GpuFrame \<Rightarrow> Factor \<Rightarrow> (InterpolateError + GpuFrame) \<times> 'k"
  be_upscale :: "'k \<Rightarrow> GpuFrame \<Rightarrow> u32 \<Rightarrow> u32 \<Rightarrow> InterpolateError + GpuFrame"

section \<open>backend.rs\<close>

datatype BackendKind = LinearBlend | Fsr2 | Fsr3 | Fsr2Rife

fun BackendKind_name :: "BackendKind \<Rightarrow> string" where
  "BackendKind_name LinearBlend = ''linear-blend''"
| "BackendKind_name Fsr2 = ''fsr2''"
| "BackendKind_name Fsr3 = ''fsr3''"
| "BackendKind_name Fsr2Rife = ''fsr2-rife''"

definition BackendKind_from_str :: "string \<Rightarrow> string + BackendKind" where
  "BackendKind_from_str s =
     (if s = ''linear-blend'' then Inr LinearBlend
      else if s = ''fsr2'' then Inr Fsr2
      else if s = ''fsr3'' then Inr Fsr3
      else if s = ''fsr2-rife'' then Inr Fsr2Rife
      else Inl (''unknown backend '' @ [CHR 0x27] @ s @ [CHR 0x27] @ ''. Available: fsr3, fsr2, fsr2-rife, linear-blend''))"

definition detect_available :: "bool \<Rightarrow> bool \<Rightarrow> BackendKind list" where
  "detect_available has_fsr3 has_fsr2 =
     (if has_fsr3 then [Fsr3] else []) @ (if has_fsr2 then [Fsr2] else []) @ [LinearBlend]"

text \<open>The outcomes of the GPU constructors are arguments; \<open>None\<close> is a build without the feature.\<close>

definition create_backend ::
  "(InterpolateError + 'k) option \<Rightarrow> (InterpolateError + 'k) option \<Rightarrow> (InterpolateError + 'k) option \<Rightarrow> 'k
   \<Rightarrow> BackendKind \<Rightarrow> InterpolateError + 'k" where
  "create_backend fsr2 fsr3 rife linear kind = (case kind of
     LinearBlend \<Rightarrow> Inr linear
   | Fsr2 \<Rightarrow> (case fsr2 of Some r \<Rightarrow> r | None \<Rightarrow> Inl (InitFailed ''fsr2 feature not enabled''))
   | Fsr3 \<Rightarrow> (case fsr3 of
        Some (Inr b) \<Rightarrow> Inr b
      | Some (Inl e) \<Rightarrow> (case fsr2 of Some r \<Rightarrow> r | None \<Rightarrow> Inl e)
      | None \<Rightarrow> Inl (InitFailed ''fsr3 feature not enabled''))
   | Fsr2Rife \<Rightarrow> (case rife of Some r \<Rightarrow> r | None \<Rightarrow> Inl (InitFailed ''fsr2-rife feature not enabled'')))"

definition select_best ::
  "bool \<Rightarrow> bool \<Rightarrow> (InterpolateError + 'k) option \<Rightarrow> (InterpolateError + 'k) option \<Rightarrow> (InterpolateError + 'k) option
   \<Rightarrow> 'k \<Rightarrow> InterpolateError + 'k" where
  "select_best has_fsr3 has_fsr2 fsr2 fsr3 rife linear =
     create_backend fsr2 fsr3 rife linear
       (case detect_available has_fsr3 has_fsr2 of k # _ \<Rightarrow> k | [] \<Rightarrow> LinearBlend)"

section \<open>manager.rs\<close>

record 'k InterpolationManager =
  im_backend :: 'k
  anchor :: "GpuFrame option"
  target :: "GpuFrame option"
  im_frame_count :: u64
  interpolated_count :: u64
  force_reset :: bool

definition InterpolationManager_new :: "'k \<Rightarrow> 'k InterpolationManager" where
  "InterpolationManager_new backend =
     \<lparr>im_backend = backend, anchor = None, target = None, im_frame_count = 0, interpolated_count = 0,
      force_reset = False\<rparr>"

definition push_frame :: "GpuFrame \<Rightarrow> 'k InterpolationManager \<Rightarrow> 'k InterpolationManager" where
  "push_frame frame m =
     (if force_reset m then m\<lparr>anchor := None, force_reset := False, target := Some frame, im_frame_count := im_frame_count m + 1\<rparr>
      else m\<lparr>anchor := target m, target := Some frame, im_frame_count := im_frame_count m + 1\<rparr>)"

definition interpolate ::
  "'k Interpolator \<Rightarrow> Factor \<Rightarrow> 'k InterpolationManager
   \<Rightarrow> (InterpolateError + GpuFrame option) \<times> 'k InterpolationManager" where
  "interpolate K t m = (case (anchor m, target m) of
     (Some a, Some b) \<Rightarrow> (case be_interpolate K (im_backend m) a b t of
         (Inl e, k) \<Rightarrow> (Inl e, m\<lparr>im_backend := k\<rparr>)
       | (Inr f, k) \<Rightarrow> (Inr (Some f), m\<lparr>im_backend := k, interpolated_count := interpolated_count m + 1\<rparr>))
   | _ \<Rightarrow> (Inr None, m))"

definition can_interpolate :: "'k InterpolationManager \<Rightarrow> bool" where
  "can_interpolate m \<longleftrightarrow> anchor m \<noteq> None \<and> target m \<noteq> None"

definition reset_anchor :: "'k InterpolationManager \<Rightarrow> 'k InterpolationManager" where
  "reset_anchor m = m\<lparr>force_reset := True\<rparr>"

definition manager_clear :: "'k InterpolationManager \<Rightarrow> 'k InterpolationManager" where
  "manager_clear m =
     m\<lparr>anchor := None, target := None, im_frame_count := 0, interpolated_count := 0, force_reset := False\<rparr>"

definition anchor_timestamp_ns :: "'k InterpolationManager \<Rightarrow> u64 option" where
  "anchor_timestamp_ns m = map_option gf_timestamp_ns (anchor m)"

definition target_timestamp_ns :: "'k InterpolationManager \<Rightarrow> u64 option" where
  "target_timestamp_ns m = map_option gf_timestamp_ns (target m)"

section \<open>Properties\<close>

text \<open>The specification of the window: the frames received since the last cut, a cut being a clear, or a
  reset, which takes effect at the next frame.\<close>

datatype 'k manager_op = OpPush GpuFrame | OpInterpolate Factor | OpReset | OpClear

fun manager_step :: "'k Interpolator \<Rightarrow> 'k manager_op \<Rightarrow> 'k InterpolationManager \<Rightarrow> 'k InterpolationManager" where
  "manager_step K (OpPush f) m = push_frame f m"
| "manager_step K (OpInterpolate t) m = snd (interpolate K t m)"
| "manager_step K OpReset m = reset_anchor m"
| "manager_step K OpClear m = manager_clear m"

fun segment_step :: "'k manager_op \<Rightarrow> GpuFrame list \<times> bool \<Rightarrow> GpuFrame list \<times> bool" where
  "segment_step (OpPush f) (fs, c) = (if c then [f] else f # fs, False)"
| "segment_step (OpInterpolate t) s = s"
| "segment_step OpReset (fs, c) = (fs, True)"
| "segment_step OpClear s = ([], False)"

definition window_of :: "GpuFrame list \<Rightarrow> GpuFrame option \<times> GpuFrame option" where
  "window_of fs = (case fs of [] \<Rightarrow> (None, None) | [f] \<Rightarrow> (None, Some f) | f # g # _ \<Rightarrow> (Some g, Some f))"

lemma manager_window_step:
  assumes "(anchor m, target m) = window_of fs" and "force_reset m = c"
  shows "(anchor (manager_step K op m), target (manager_step K op m)) = window_of (fst (segment_step op (fs, c))) \<and>
         force_reset (manager_step K op m) = snd (segment_step op (fs, c))"
  using assms
  by (cases op)
    (auto simp: push_frame_def interpolate_def reset_anchor_def manager_clear_def window_of_def
       split: list.splits option.splits prod.splits sum.splits)

lemma manager_window_run:
  assumes "(anchor m, target m) = window_of fs" and "force_reset m = c"
  shows "(anchor (fold (manager_step K) ops m), target (fold (manager_step K) ops m)) =
         window_of (fst (fold segment_step ops (fs, c)))"
  using assms
proof (induction ops arbitrary: m fs c)
  case (Cons op ops)
  obtain fs' c' where s: "segment_step op (fs, c) = (fs', c')" by fastforce
  show ?case
    using manager_window_step [OF Cons.prems, of K op] Cons.IH [of "manager_step K op m" fs' c'] s by simp
qed simp

text \<open>The interpolation window: after any sequence of frames, interpolations, anchor resets and clears,
  the pair the manager blends is exactly the last two frames received since the last cut, so it
  never blends across a reset or a clear.\<close>

theorem manager_window:
  "(anchor (fold (manager_step K) ops (InterpolationManager_new k)),
    target (fold (manager_step K) ops (InterpolationManager_new k))) =
   window_of (fst (fold segment_step ops ([], False)))"
  by (rule manager_window_run) (simp_all add: InterpolationManager_new_def window_of_def)

lemma blend_bound:
  fixes a b t :: nat
  assumes "t \<le> 256" and "a \<le> 255" and "b \<le> 255"
  shows "a * (256 - t) + b * t \<le> 65280"
proof -
  have "a * (256 - t) + b * t \<le> 255 * (256 - t) + 255 * t"
    using assms by (intro add_mono mult_le_mono1)
  also have "\<dots> = 255 * ((256 - t) + t)" by (simp only: add_mult_distrib2)
  finally show ?thesis using assms(1) by simp
qed

lemma unat_u8_le: "unat (v :: u8) \<le> 255"
  using unat_lt_u8 [of v] by linarith

lemma blend_byte_nat:
  assumes "unat (t_fixed t) \<le> 256"
  shows "unat (blend_byte t a b) = (unat a * (256 - unat (t_fixed t)) + unat b * unat (t_fixed t)) div 256"
proof -
  let ?s = "unat a * (256 - unat (t_fixed t)) + unat b * unat (t_fixed t)"
  have u: "unat (ucast v :: u16) = unat v" for v :: u8
  proof -
    have "unat v < 2 ^ 16" by (rule le_less_trans [OF unat_u8_le]) simp
    then show ?thesis by (simp only: unsigned_ucast_eq) (simp add: take_bit_nat_eq_self)
  qed
  have inv: "unat (256 - t_fixed t) = 256 - unat (t_fixed t)"
    using assms by (simp add: unat_sub word_le_nat_alt)
  have le: "?s \<le> 65280" by (rule blend_bound [OF assms unat_u8_le unat_u8_le])
  have "unat (ucast a * (256 - t_fixed t) + ucast b * t_fixed t :: u16) = ?s"
    using le by (simp add: unat_word_ariths u inv)
  then have d: "unat (drop_bit 8 (ucast a * (256 - t_fixed t) + ucast b * t_fixed t :: u16)) = ?s div 256"
    using le by (simp only: unsigned_drop_bit_eq) (simp add: drop_bit_eq_div take_bit_nat_eq_self)
  moreover have "?s div 256 < 256" using le by simp
  ultimately show ?thesis
    by (simp add: blend_byte_def unsigned_ucast_eq take_bit_nat_eq_self)
qed

lemma blend_between:
  fixes a b t :: nat
  assumes "t \<le> 256" and "lo \<le> a" "lo \<le> b" "a \<le> hi" "b \<le> hi"
  shows "lo \<le> (a * (256 - t) + b * t) div 256 \<and> (a * (256 - t) + b * t) div 256 \<le> hi"
proof -
  have "lo * (256 - t) + lo * t \<le> a * (256 - t) + b * t" "a * (256 - t) + b * t \<le> hi * (256 - t) + hi * t"
    using assms by (auto intro!: add_mono mult_le_mono1)
  moreover have "x * (256 - t) + x * t = x * 256" for x
    using assms(1) by (simp flip: add_mult_distrib2)
  ultimately have "lo * 256 \<le> a * (256 - t) + b * t" "a * (256 - t) + b * t \<le> hi * 256" by simp_all
  then show ?thesis using div_le_mono [of "lo * 256" _ 256] div_le_mono [of _ "hi * 256" 256] by fastforce
qed

text \<open>The linear blend: for frames of equal size and a factor in range, the 16-bit arithmetic does not
  overflow, every output byte lies between the two input bytes, the ends of the range give back the
  input frames' pixels exactly, and the blend keeps the frames' dimensions.\<close>

theorem linear_blend_between:
  assumes "in_range t" and "unat (t_fixed t) \<le> 256" and "same_dimensions a b" and "length (gf_data a) = length (gf_data b)"
  shows "\<exists>f. linear_blend a b t = Inr f \<and> same_dimensions f a \<and> length (gf_data f) = length (gf_data a) \<and>
     list_all (\<lambda>(x, y, z). min x y \<le> z \<and> z \<le> max x y) (zip (gf_data a) (zip (gf_data b) (gf_data f))) \<and>
     (if t_fixed t = 0 then gf_data f = gf_data a else True) \<and>
     (if t_fixed t = 256 then gf_data f = gf_data b else True)"
proof -
  let ?d = "map2 (blend_byte t) (gf_data a) (gf_data b)"
  have btw: "min x y \<le> blend_byte t x y \<and> blend_byte t x y \<le> max x y" for x y
    using blend_between [OF assms(2), of "min (unat x) (unat y)" "unat x" "unat y" "max (unat x) (unat y)"]
    by (auto simp: word_le_nat_alt blend_byte_nat [OF assms(2)] min_def max_def)
  have "blend_byte t x y = x" if "t_fixed t = 0" for x y
    using blend_byte_nat [OF assms(2), of x y] that by (simp add: word_unat_eq_iff)
  moreover have "blend_byte t x y = y" if "t_fixed t = 256" for x y
    using blend_byte_nat [OF assms(2), of x y] that by (simp add: word_unat_eq_iff)
  ultimately have ends: "t_fixed t = 0 \<longrightarrow> ?d = gf_data a" "t_fixed t = 256 \<longrightarrow> ?d = gf_data b"
    using assms(4) by (auto intro!: nth_equalityI)
  show ?thesis
    using assms(1,3,4) ends btw
    by (auto simp: linear_blend_def same_dimensions_def list_all_length)
qed

text \<open>The factor 0.5, at which the client interpolates.\<close>

definition half_factor :: Factor where
  "half_factor = \<lparr>in_range = True, t_fixed = 128, t_advance = (\<lambda>d. d div 2)\<rparr>"

theorem linear_blend_between_witness:
  "\<exists>f. linear_blend (GpuFrame_from_data [0, 10, 200, 255] 1 1 4 5) (GpuFrame_from_data [255, 20, 100, 255] 1 1 4 9)
         half_factor = Inr f \<and> length (gf_data f) = 4"
  using linear_blend_between [of half_factor "GpuFrame_from_data [0, 10, 200, 255] 1 1 4 5"
      "GpuFrame_from_data [255, 20, 100, 255] 1 1 4 9"]
  by (auto simp: half_factor_def GpuFrame_from_data_def same_dimensions_def)

text \<open>Backend names round trip: parsing the name of a backend gives the backend back, and a string that
  parses is the name of what it parses to.\<close>

theorem backend_name_roundtrip:
  "BackendKind_from_str (BackendKind_name k) = Inr k \<and>
   (case BackendKind_from_str s of Inr k' \<Rightarrow> BackendKind_name k' = s | Inl _ \<Rightarrow> True)"
  by (cases k) (auto simp: BackendKind_from_str_def)

end
