(* ===== verification/Overlay.thy ===== *)
theory Overlay
  imports Delta
begin

text \<open>
  \<^verbatim>\<open>crates/remoteway-client/src/fps_overlay.rs\<close>: the bitmap font and the text painted over the
  top-left corner of a frame. An \<^verbatim>\<open>i32\<close> is an integer brought back into range by \<open>wrap_i32\<close>. The formatted text of
  \<^verbatim>\<open>draw_fps\<close> is an argument: \<^verbatim>\<open>"FPS: "\<close> and a number of width five, ten characters.
\<close>

definition GLYPH_W :: nat where "GLYPH_W = 5"
definition GLYPH_H :: nat where "GLYPH_H = 7"
definition GLYPH_STRIDE :: nat where "GLYPH_STRIDE = GLYPH_W + 1"
definition TEXT_SCALE :: nat where "TEXT_SCALE = 3"
definition PAD :: nat where "PAD = 4"

definition glyph :: "char \<Rightarrow> u8 list option" where
  "glyph c =
     (if c = CHR ''0'' then Some [0b01110, 0b10001, 0b10011, 0b10101, 0b11001, 0b10001, 0b01110]
      else if c = CHR ''1'' then Some [0b00100, 0b01100, 0b00100, 0b00100, 0b00100, 0b00100, 0b01110]
      else if c = CHR ''2'' then Some [0b01110, 0b10001, 0b00001, 0b00010, 0b00100, 0b01000, 0b11111]
      else if c = CHR ''3'' then Some [0b11110, 0b00001, 0b00001, 0b01110, 0b00001, 0b00001, 0b11110]
      else if c = CHR ''4'' then Some [0b00010, 0b00110, 0b01010, 0b10010, 0b11111, 0b00010, 0b00010]
      else if c = CHR ''5'' then Some [0b11111, 0b10000, 0b11110, 0b00001, 0b00001, 0b10001, 0b01110]
      else if c = CHR ''6'' then Some [0b00110, 0b01000, 0b10000, 0b11110, 0b10001, 0b10001, 0b01110]
      else if c = CHR ''7'' then Some [0b11111, 0b00001, 0b00010, 0b00100, 0b01000, 0b01000, 0b01000]
      else if c = CHR ''8'' then Some [0b01110, 0b10001, 0b10001, 0b01110, 0b10001, 0b10001, 0b01110]
      else if c = CHR ''9'' then Some [0b01110, 0b10001, 0b10001, 0b01111, 0b00001, 0b00010, 0b01100]
      else if c = CHR ''.'' then Some [0b00000, 0b00000, 0b00000, 0b00000, 0b00000, 0b00000, 0b00100]
      else if c = CHR '':'' then Some [0b00000, 0b00100, 0b00100, 0b00000, 0b00100, 0b00100, 0b00000]
      else if c = CHR ''F'' then Some [0b11111, 0b10000, 0b10000, 0b11110, 0b10000, 0b10000, 0b10000]
      else if c = CHR ''P'' then Some [0b11110, 0b10001, 0b10001, 0b11110, 0b10000, 0b10000, 0b10000]
      else if c = CHR ''S'' then Some [0b01110, 0b10001, 0b10000, 0b01110, 0b00001, 0b10001, 0b01110]
      else if c = CHR '' '' then Some (replicate GLYPH_H 0)
      else None)"

definition put_pixel :: "u32 \<Rightarrow> u32 \<Rightarrow> u32 \<Rightarrow> int \<Rightarrow> int \<Rightarrow> bytes \<Rightarrow> bytes \<Rightarrow> bytes" where
  "put_pixel width height stride x y rgba buf =
     (if x < 0 \<or> y < 0 then buf else
      let xu = word_of_int x :: u32; yu = word_of_int y :: u32 in
      if width \<le> xu \<or> height \<le> yu then buf else
      let off = unat (yu * stride + xu * 4) in
      if usize_add off 4 \<le> length buf then take off buf @ rgba @ drop (off + 4) buf else buf)"

text \<open>The cells a text covers, as lists of coordinates in painting order: the background, then for each
  known character the scaled pixels of its set bits.\<close>

definition bg_size :: "string \<Rightarrow> int \<times> int" where
  "bg_size text =
     (wrap_i32 (wrap_i32 (int (usize_mul (usize_mul (length text) GLYPH_STRIDE) TEXT_SCALE)) + int PAD * 2),
      wrap_i32 (int (GLYPH_H * TEXT_SCALE) + int PAD * 2))"

definition bg_cells :: "int \<Rightarrow> int \<Rightarrow> string \<Rightarrow> (int \<times> int) list" where
  "bg_cells x y text =
     concat (map (\<lambda>by. map (\<lambda>bx. (wrap_i32 (x + int bx), wrap_i32 (y + int by))) [0..<nat (fst (bg_size text))])
       [0..<nat (snd (bg_size text))])"

definition bit_cells :: "int \<Rightarrow> int \<Rightarrow> (int \<times> int) list" where
  "bit_cells px_x px_y =
     concat (map (\<lambda>dy. map (\<lambda>dx. (wrap_i32 (px_x + int dx), wrap_i32 (px_y + int dy))) [0..<TEXT_SCALE]) [0..<TEXT_SCALE])"

definition glyph_cells :: "int \<Rightarrow> int \<Rightarrow> u8 list \<Rightarrow> (int \<times> int) list" where
  "glyph_cells cx text_y rows =
     concat (map (\<lambda>(row_idx, row_bits). concat (map (\<lambda>col.
         if drop_bit (GLYPH_W - 1 - col) row_bits AND 1 = 0 then []
         else bit_cells (wrap_i32 (cx + int (col * TEXT_SCALE))) (wrap_i32 (text_y + int (row_idx * TEXT_SCALE))))
       [0..<GLYPH_W])) (enumerate 0 rows))"

definition text_cells :: "int \<Rightarrow> int \<Rightarrow> string \<Rightarrow> (int \<times> int) list" where
  "text_cells x y text =
     (let text_x = wrap_i32 (x + int PAD); text_y = wrap_i32 (y + int PAD) in
      concat (map (\<lambda>(i, ch). case glyph ch of None \<Rightarrow> []
         | Some rows \<Rightarrow> glyph_cells (wrap_i32 (text_x + wrap_i32 (int (usize_mul (usize_mul i GLYPH_STRIDE) TEXT_SCALE)))) text_y rows)
       (enumerate 0 text)))"

definition draw_text :: "u32 \<Rightarrow> u32 \<Rightarrow> u32 \<Rightarrow> int \<Rightarrow> int \<Rightarrow> string \<Rightarrow> bytes \<Rightarrow> bytes" where
  "draw_text width height stride x y text buf =
     fold (\<lambda>(px, py). put_pixel width height stride px py [255, 255, 255, 255]) (text_cells x y text)
       (fold (\<lambda>(px, py). put_pixel width height stride px py [0, 0, 0, 255]) (bg_cells x y text) buf)"

definition overlay_rect :: "u32 \<Rightarrow> u32 \<Rightarrow> u32 \<times> u32 \<times> u32 \<times> u32" where
  "overlay_rect x y =
     (x, y, word_of_nat (10 * GLYPH_STRIDE * TEXT_SCALE + PAD * 2), word_of_nat (GLYPH_H * TEXT_SCALE + PAD * 2))"

definition draw_fps :: "u32 \<Rightarrow> u32 \<Rightarrow> u32 \<Rightarrow> string \<Rightarrow> bytes \<Rightarrow> bytes" where
  "draw_fps width height stride text buf = draw_text width height stride 10 10 text buf"

section \<open>What the overlay touches\<close>

definition only_inside :: "(nat \<Rightarrow> bool) \<Rightarrow> bytes \<Rightarrow> bytes \<Rightarrow> bool" where
  "only_inside P buf buf' \<longleftrightarrow> length buf' = length buf \<and> (\<forall>j < length buf. \<not> P j \<longrightarrow> buf' ! j = buf ! j)"

lemma only_inside_refl: "only_inside P buf buf"
  by (simp add: only_inside_def)

lemma only_inside_trans: "only_inside P a b \<Longrightarrow> only_inside P b c \<Longrightarrow> only_inside P a c"
  by (simp add: only_inside_def)

lemma only_inside_fold:
  "(\<And>x b. x \<in> set xs \<Longrightarrow> only_inside P b (f x b)) \<Longrightarrow> only_inside P b (fold f xs b)"
proof (induction xs arbitrary: b)
  case (Cons x xs)
  then show ?case using only_inside_trans [of P b "f x b"] by simp
qed (simp add: only_inside_refl)

lemma only_inside_write:
  assumes "off + 4 \<le> length buf" and "length rgba = 4" and "\<And>j. off \<le> j \<Longrightarrow> j < off + 4 \<Longrightarrow> P j"
  shows "only_inside P buf (take off buf @ rgba @ drop (off + 4) buf)"
proof -
  have "(take off buf @ rgba @ drop (off + 4) buf) ! j = buf ! j" if "j < length buf" "\<not> P j" for j
  proof (cases "j < off")
    case False
    then have "off + 4 \<le> j" using assms(3) [of j] that(2) by (meson linorder_not_le)
    moreover from this have "\<not> j - off < 4" by linarith
    ultimately show ?thesis using assms(1,2) that(1) by (simp add: nth_append)
  qed (use assms(1) in \<open>simp add: nth_append\<close>)
  then show ?thesis using assms(1,2) by (simp add: only_inside_def)
qed

lemma put_pixel_inside:
  assumes "unat height * unat stride < 4294967296" and "unat width * 4 \<le> unat stride" and "length rgba = 4"
    and "\<And>j. 0 \<le> x \<Longrightarrow> 0 \<le> y \<Longrightarrow> nat x < unat width \<Longrightarrow> nat y < unat height \<Longrightarrow>
      nat y * unat stride + nat x * 4 \<le> j \<Longrightarrow> j < nat y * unat stride + nat x * 4 + 4 \<Longrightarrow> P j"
    and "x < 4294967296" and "y < 4294967296"
  shows "only_inside P buf (put_pixel width height stride x y rgba buf)"
proof -
  let ?xu = "word_of_int x :: u32" and ?yu = "word_of_int y :: u32"
  show ?thesis
  proof (cases "x < 0 \<or> y < 0 \<or> width \<le> ?xu \<or> height \<le> ?yu")
    case True
    then show ?thesis by (auto simp: put_pixel_def only_inside_refl Let_def)
  next
    case False
    have xu: "unat ?xu = nat x" and yu: "unat ?yu = nat y"
      using False assms(5,6) by (auto simp: unsigned_of_int take_bit_int_eq_self)
    have x: "nat x < unat width" and y: "nat y < unat height"
      using False xu yu by (auto simp: word_le_nat_alt)
    have "Suc (nat y) * unat stride \<le> unat height * unat stride" by (rule mult_le_mono1) (use y in simp)
    then have row: "nat y * unat stride + unat stride < 4294967296" using assms(1) by simp
    have x4: "nat x * 4 + 4 \<le> unat stride" using x assms(2) by simp
    have m: "unat (?yu * stride) = nat y * unat stride" "unat (?xu * 4) = nat x * 4"
      using row x4 by (simp_all add: unat_word_ariths xu yu)
    have "unat (?yu * stride + ?xu * 4) = (unat (?yu * stride) + unat (?xu * 4)) mod 4294967296"
      by (simp only: unat_word_ariths) simp
    then have off: "unat (?yu * stride + ?xu * 4) = nat y * unat stride + nat x * 4"
      using row x4 by (simp only: m) simp
    let ?off = "nat y * unat stride + nat x * 4"
    have add4: "usize_add ?off 4 = ?off + 4" using row x4 by (simp add: no_wrap)
    have "only_inside P buf (take ?off buf @ rgba @ drop (?off + 4) buf)" if "?off + 4 \<le> length buf"
      using only_inside_write [OF that assms(3)] assms(4) [OF _ _ x y] False by simp
    then show ?thesis
      using False by (simp add: put_pixel_def Let_def off add4 only_inside_refl)
  qed
qed

text \<open>The cells stay inside the rectangle \<open>overlay_rect 10 10\<close> when the text has at most ten characters.\<close>

definition in_overlay :: "int \<times> int \<Rightarrow> bool" where
  "in_overlay p \<longleftrightarrow> 10 \<le> fst p \<and> fst p < 198 \<and> 10 \<le> snd p \<and> snd p < 39"

lemmas overlay_consts = GLYPH_W_def GLYPH_H_def GLYPH_STRIDE_def TEXT_SCALE_def PAD_def

lemma bg_cells_inside:
  assumes "length text \<le> 10"
  shows "\<forall>p \<in> set (bg_cells 10 10 text). in_overlay p"
proof -
  have "usize_mul (usize_mul (length text) 6) 3 = length text * 18"
    using assms by (simp add: usize_mul_def)
  then have b: "fst (bg_size text) = int (length text) * 18 + 8" "snd (bg_size text) = 29"
    using assms by (simp_all add: bg_size_def overlay_consts wrap_i32_id)
  show ?thesis
  proof
    fix p assume "p \<in> set (bg_cells 10 10 text)"
    then obtain bx by' where "bx < nat (fst (bg_size text))" "by' < nat (snd (bg_size text))"
      and p: "p = (wrap_i32 (10 + int bx), wrap_i32 (10 + int by'))"
      by (auto simp: bg_cells_def)
    then have "bx < 188" "by' < 29" using assms by (simp_all add: b nat_add_distrib)
    then show "in_overlay p" by (simp add: p wrap_i32_id in_overlay_def)
  qed
qed

lemma bit_cells_inside:
  assumes "14 \<le> px" and "px \<le> 190" and "14 \<le> py" and "py \<le> 32"
  shows "\<forall>p \<in> set (bit_cells px py). in_overlay p"
proof
  fix p assume "p \<in> set (bit_cells px py)"
  then obtain dx dy where d: "dx < 3" "dy < 3" and p: "p = (wrap_i32 (px + int dx), wrap_i32 (py + int dy))"
    by (auto simp: bit_cells_def TEXT_SCALE_def)
  have "wrap_i32 (px + int dx) = px + int dx" "wrap_i32 (py + int dy) = py + int dy"
    using assms d by (auto intro!: wrap_i32_id)
  then show "in_overlay p" using assms d by (simp add: p in_overlay_def)
qed

lemma glyph_rows: "glyph c = Some rows \<Longrightarrow> length rows = 7"
  by (auto simp: glyph_def GLYPH_H_def split: if_splits)

lemma glyph_cells_inside:
  assumes "14 \<le> cx" and "cx \<le> 176" and "length rows = 7"
  shows "\<forall>p \<in> set (glyph_cells cx 14 rows). in_overlay p"
proof
  fix p assume "p \<in> set (glyph_cells cx 14 rows)"
  then obtain row_idx bits col where "(row_idx, bits) \<in> set (enumerate 0 rows)" and col: "col < 5"
    and p: "p \<in> set (bit_cells (wrap_i32 (cx + int (col * 3))) (wrap_i32 (14 + int (row_idx * 3))))"
    by (auto simp: glyph_cells_def TEXT_SCALE_def GLYPH_W_def split: if_splits)
  then have "row_idx < 7" using assms(3) by (auto simp: in_set_enumerate_eq)
  then have "wrap_i32 (cx + int (col * 3)) = cx + int (col * 3)" "wrap_i32 (14 + int (row_idx * 3)) = 14 + int (row_idx * 3)"
    using assms(1,2) col by (auto intro!: wrap_i32_id)
  then show "in_overlay p"
    using p bit_cells_inside [of "cx + int (col * 3)" "14 + int (row_idx * 3)"] assms(1,2) col \<open>row_idx < 7\<close> by simp
qed

lemma text_cells_inside:
  assumes "length text \<le> 10"
  shows "\<forall>p \<in> set (text_cells 10 10 text). in_overlay p"
proof
  fix p assume "p \<in> set (text_cells 10 10 text)"
  then obtain i ch where i: "(i, ch) \<in> set (enumerate 0 text)"
    and c: "p \<in> set (case glyph ch of None \<Rightarrow> [] | Some rows \<Rightarrow>
        glyph_cells (wrap_i32 (wrap_i32 14 + wrap_i32 (int (usize_mul (usize_mul i 6) 3)))) (wrap_i32 14) rows)"
    by (auto simp: text_cells_def Let_def overlay_consts)
  then obtain rows where rows: "glyph ch = Some rows"
    and p: "p \<in> set (glyph_cells (wrap_i32 (wrap_i32 14 + wrap_i32 (int (usize_mul (usize_mul i 6) 3)))) (wrap_i32 14) rows)"
    by (cases "glyph ch") simp_all
  from i have "i < 10" using assms by (auto simp: in_set_enumerate_eq)
  then have "usize_mul (usize_mul i 6) 3 = i * 18" by (simp add: usize_mul_def)
  then have "wrap_i32 (wrap_i32 14 + wrap_i32 (int (usize_mul (usize_mul i 6) 3))) = 14 + int i * 18" "wrap_i32 14 = 14"
    using \<open>i < 10\<close> by (simp_all add: wrap_i32_id)
  then show "in_overlay p"
    using p glyph_cells_inside [of "14 + int i * 18" rows] glyph_rows [OF rows] \<open>i < 10\<close> by simp
qed

text \<open>The rectangle the receive loop adds to the damage list, cut at the frame's edges.\<close>

definition overlay_damage :: "u32 \<Rightarrow> u32 \<Rightarrow> DamageRect" where
  "overlay_damage width height = (case overlay_rect 10 10 of (ox, oy, ow, oh) \<Rightarrow>
     DamageRect_new ox oy (min ow (if ox \<le> width then width - ox else 0)) (min oh (if oy \<le> height then height - oy else 0)))"

lemma overlay_column: "10 \<le> a \<Longrightarrow> a < 198 \<Longrightarrow> a < n \<Longrightarrow> a * 4 + 4 \<le> 40 + min 188 (n - 10) * 4" for a n :: nat
proof (cases "188 \<le> n - 10")
  case False
  assume "10 \<le> a" "a < n"
  then obtain k where "n = 10 + k" "a < 10 + k" using le_Suc_ex [of 10 n] by auto
  then show ?thesis using False by simp
qed simp

lemma overlay_damage_covers:
  assumes "in_overlay (x, y)" and "nat x < unat width" and "nat y < unat height"
    and "nat y * stride + nat x * 4 \<le> j" and "j < nat y * stride + nat x * 4 + 4"
  shows "covered stride [overlay_damage width height] j"
proof -
  have le: "10 \<le> width" "10 \<le> height" using assms(1-3) by (auto simp: in_overlay_def word_le_nat_alt)
  have r: "dr_x (overlay_damage width height) = 10" "dr_y (overlay_damage width height) = 10"
    "unat (dr_width (overlay_damage width height)) = min 188 (unat width - 10)"
    "unat (dr_height (overlay_damage width height)) = min 29 (unat height - 10)"
    using le by (auto simp: overlay_damage_def overlay_rect_def DamageRect_new_def overlay_consts unat_sub
        min_def word_le_nat_alt)
  define row where "row = nat y - 10"
  have row: "nat y = 10 + row" "row < unat (dr_height (overlay_damage width height))"
    using assms(1,3) r(4) by (auto simp: row_def in_overlay_def)
  have "covers (row_seg stride (overlay_damage width height) row) j"
  proof -
    have x: "10 \<le> nat x" "nat x < 198" using assms(1) by (auto simp: in_overlay_def)
    have "nat x * 4 + 4 \<le> 40 + min 188 (unat width - 10) * 4" using x assms(2) by (rule overlay_column)
    then show ?thesis
      using assms(4,5) x row(1) by (simp add: covers_def row_seg_def r(1-3))
  qed
  then show ?thesis using row(2) by (auto simp: covered_def segments_def rect_segments_def list_ex_iff)
qed

section \<open>Properties\<close>

text \<open>The overlay stays inside its damage: for a text of at most ten characters (every frame rate the
  client formats), drawing it never panics, keeps the buffer's length, and changes no byte outside
  the rectangle the receive loop adds to the damage list, also for frames smaller than the overlay
  and for rows with padding.\<close>

theorem overlay_inside_damage:
  assumes "length text \<le> 10" and "unat height * unat stride < 4294967296" and "unat width * 4 \<le> unat stride"
  shows "only_inside (covered (unat stride) [overlay_damage width height]) buf (draw_fps width height stride text buf)"
proof -
  let ?P = "covered (unat stride) [overlay_damage width height]"
  have cell: "only_inside ?P b (put_pixel width height stride x y rgba b)"
    if "in_overlay (x, y)" "length rgba = 4" for x y rgba b
    using overlay_damage_covers [OF that(1)] that
    by (intro put_pixel_inside [OF assms(2,3)]) (auto simp: in_overlay_def)
  have "only_inside ?P buf (fold (\<lambda>(px, py). put_pixel width height stride px py [0, 0, 0, 255]) (bg_cells 10 10 text) buf)"
    using cell bg_cells_inside [OF assms(1)] by (intro only_inside_fold) auto
  moreover have "only_inside ?P b (fold (\<lambda>(px, py). put_pixel width height stride px py [255, 255, 255, 255]) (text_cells 10 10 text) b)" for b
    using cell text_cells_inside [OF assms(1)] by (intro only_inside_fold) auto
  ultimately show ?thesis
    unfolding draw_fps_def draw_text_def by (rule only_inside_trans)
qed

theorem overlay_inside_damage_witness:
  "only_inside (covered (unat (800 :: u32)) [overlay_damage 200 40]) (replicate 32000 7)
     (draw_fps 200 40 800 ''FPS:  60.0'' (replicate 32000 7))"
  by (rule overlay_inside_damage) simp_all

end
