(* ===== verification/Upscale.thy ===== *)
theory Upscale
  imports Downscale
begin

text \<open>
  The two bicubic upscalers: \<open>upscale_bicubic\<close> of \<^verbatim>\<open>crates/remoteway-client/src/pipeline.rs\<close> and
  \<open>cpu_bicubic_upscale\<close> of \<^verbatim>\<open>crates/remoteway-interpolate/src/interpolator.rs\<close>. Their floating-point part is the
  parameter record \<open>Kernel\<close> (the anchor sample of an output coordinate, its four weights, and the
  weighted sum of sixteen samples rounded to a byte); the index arithmetic, the clamping at
  the edges and the memory accesses are modelled.
\<close>

section \<open>pipeline.rs, interpolator.rs\<close>

record 'f Kernel =
  anchor_of :: "nat \<Rightarrow> u32 \<Rightarrow> u32 \<Rightarrow> int"
  cubic_weights :: "nat \<Rightarrow> u32 \<Rightarrow> u32 \<Rightarrow> 'f list"
  convolve :: "(u8 \<times> 'f \<times> 'f) list \<Rightarrow> u8"

text \<open>\<^verbatim>\<open>v.clamp(0, n as i32 - 1) as u32\<close>, which panics when the upper bound is negative.\<close>

definition clamp_index :: "u32 \<Rightarrow> int \<Rightarrow> u32 option" where
  "clamp_index n v = (let hi = wrap_i32 (sint n - 1) in
     if hi < 0 then None else Some (word_of_int (max 0 (min v hi))))"

definition client_taps :: "u32 \<Rightarrow> int \<Rightarrow> u32 list option" where
  "client_taps n a = map_opt (clamp_index n) [wrap_i32 (a - 1), a, wrap_i32 (a + 1), wrap_i32 (a + 2)]"

text \<open>The interpolator clamps the anchor itself before it takes the neighbours.\<close>

definition interp_taps :: "u32 \<Rightarrow> int \<Rightarrow> u32 list option" where
  "interp_taps n a = (let hi = wrap_i32 (sint n - 1); a' = min (max a 0) hi in
     Some [word_of_int (max (wrap_i32 (a' - 1)) 0), word_of_int a', word_of_int (min (wrap_i32 (a' + 1)) hi),
           word_of_int (min (wrap_i32 (a' + 2)) hi)])"

definition bicubic_byte ::
  "'f Kernel \<Rightarrow> bytes \<Rightarrow> u32 \<Rightarrow> (u32 \<times> 'f) list \<Rightarrow> (u32 \<times> 'f) list \<Rightarrow> nat \<Rightarrow> u8 option" where
  "bicubic_byte K src stride rows cols c = do {
     samples \<leftarrow> map_opt (\<lambda>((row_idx, wy), (col_idx, wx)). do {
         v \<leftarrow> index src (usize_add (usize_add (unat (row_idx * stride)) (unat (col_idx * 4))) c);
         Some (v, wx, wy)
       }) (List.product rows cols);
     Some (convolve K samples)
   }"

definition bicubic_with ::
  "(u32 \<Rightarrow> int \<Rightarrow> u32 list option) \<Rightarrow> 'f Kernel \<Rightarrow> bytes \<Rightarrow> u32 \<Rightarrow> u32 \<Rightarrow> u32 \<Rightarrow> u32 \<Rightarrow> u32 \<Rightarrow> bytes option" where
  "bicubic_with taps K src src_w src_h stride dst_w dst_h =
     (let dst_stride = dst_w * 4; total = unat (dst_stride * dst_h) in
      fold_opt (\<lambda>dy dst. do {
          ys \<leftarrow> taps src_h (anchor_of K dy src_h dst_h);
          let rows = zip ys (cubic_weights K dy src_h dst_h);
          let dst_row = unat (word_of_nat dy * dst_stride);
          fold_opt (\<lambda>dx dst. do {
              xs \<leftarrow> taps src_w (anchor_of K dx src_w dst_w);
              let cols = zip xs (cubic_weights K dx src_w dst_w);
              let di = usize_add dst_row (unat (word_of_nat dx * 4 :: u32));
              px \<leftarrow> map_opt (bicubic_byte K src stride rows cols) [0..<4];
              write_slice dst di px
            }) [0..<unat dst_w] dst
        }) [0..<unat dst_h] (replicate total 0))"

definition upscale_bicubic ::
  "'f Kernel \<Rightarrow> bytes \<Rightarrow> u32 \<Rightarrow> u32 \<Rightarrow> u32 \<Rightarrow> u32 \<Rightarrow> u32 \<Rightarrow> (bytes \<times> u32 \<times> u32 \<times> u32) option" where
  "upscale_bicubic K src src_w src_h stride dst_w dst_h = do {
     dst \<leftarrow> bicubic_with client_taps K src src_w src_h stride dst_w dst_h;
     Some (dst, dst_w, dst_h, dst_w * 4)
   }"

definition cpu_bicubic_upscale ::
  "'f Kernel \<Rightarrow> bytes \<Rightarrow> u32 \<Rightarrow> u32 \<Rightarrow> u32 \<Rightarrow> u32 \<Rightarrow> u32 \<Rightarrow> (bytes \<times> u32 \<times> u32 \<times> u32) option" where
  "cpu_bicubic_upscale K src src_w src_h stride dst_w dst_h = do {
     dst \<leftarrow> bicubic_with interp_taps K src src_w src_h stride dst_w dst_h;
     Some (dst, dst_w, dst_h, dst_w * 4)
   }"

section \<open>Sampling\<close>

definition edge :: "nat \<Rightarrow> int \<Rightarrow> nat" where
  "edge n v = nat (max 0 (min v (int n - 1)))"

lemma uint_unat: "uint (n :: u32) = int (unat n)"
  by simp

lemma sint_small:
  assumes "unat (n :: u32) < 2147483648"
  shows "sint n = int (unat n)"
proof -
  have u: "uint n < 2147483648" using assms by (simp only: uint_unat)
  have l: "- 2147483648 \<le> uint n" using uint_ge_0 [of n] by linarith
  have "sint n = signed_take_bit 31 (uint n)" by (simp add: sint_uint)
  also have "\<dots> = uint n" by (rule signed_take_bit_int_eq_self) (use u l in simp_all)
  finally show ?thesis by (simp only: uint_unat)
qed

lemma last_index:
  fixes n :: u32
  assumes "0 < n" and "unat n < 2147483648"
  shows "wrap_i32 (sint n - 1) = int (unat n) - 1"
proof -
  have "0 < unat n" using assms(1) by (simp add: word_less_nat_alt)
  then show ?thesis unfolding sint_small [OF assms(2)] by (intro wrap_i32_id) (use assms(2) in linarith)+
qed

lemma clamp_index_edge:
  fixes n :: u32
  assumes "0 < n" and "unat n < 2147483648"
  shows "clamp_index n v = Some (word_of_nat (edge (unat n) v))" and "edge (unat n) v < unat n"
proof -
  have n: "0 < unat n" using assms(1) by (simp add: word_less_nat_alt)
  have "(word_of_int (max 0 (min v (int (unat n) - 1))) :: u32) = word_of_nat (edge (unat n) v)"
    unfolding edge_def by (subst of_int_of_nat_eq [symmetric]) (simp only: nat_0_le max.cobounded1)
  moreover have "\<not> int (unat n) - 1 < 0" using n by linarith
  ultimately show "clamp_index n v = Some (word_of_nat (edge (unat n) v))"
    unfolding clamp_index_def last_index [OF assms] Let_def by (simp only: if_False)
  show "edge (unat n) v < unat n" using n unfolding edge_def by linarith
qed

definition tap_list :: "nat \<Rightarrow> int \<Rightarrow> nat list" where
  "tap_list n a = [edge n (a - 1), edge n a, edge n (a + 1), edge n (a + 2)]"

lemma client_taps_edges:
  assumes "0 < n" and "unat n < 2147483648" and "- 1000000000 \<le> a" and "a < 2147483000"
  shows "client_taps n a = Some (map word_of_nat (tap_list (unat n) a))"
  using assms by (simp add: client_taps_def tap_list_def clamp_index_edge wrap_i32_id)

lemma interp_taps_edges:
  assumes "0 < n" and "unat n < 2147483000" and "0 \<le> a" and "a < int (unat n)"
  shows "interp_taps n a = Some (map word_of_nat (tap_list (unat n) a))"
proof -
  have n31: "unat n < 2147483648" using assms(2) by linarith
  define m where "m = int (unat n)"
  have hi: "wrap_i32 (sint n - 1) = m - 1" unfolding m_def by (rule last_index [OF assms(1) n31])
  have a: "min (max a 0) (m - 1) = a" using assms(3,4) unfolding m_def by linarith
  have al: "a < 2147483000" using assms(2,4) by linarith
  have w: "wrap_i32 (a - 1) = a - 1" "wrap_i32 (a + 1) = a + 1" "wrap_i32 (a + 2) = a + 2"
    using assms(3) al by (auto intro!: wrap_i32_id)
  have e: "max (a - 1) 0 = int (edge (unat n) (a - 1))" "a = int (edge (unat n) a)"
    "min (a + 1) (m - 1) = int (edge (unat n) (a + 1))" "min (a + 2) (m - 1) = int (edge (unat n) (a + 2))"
    using assms(3,4) unfolding m_def edge_def by linarith+
  show ?thesis
    unfolding interp_taps_def Let_def hi a w tap_list_def list.map
    by (simp only: e [THEN arg_cong, of "word_of_int :: int \<Rightarrow> u32", unfolded of_int_of_nat_eq])
qed

section \<open>The upscaled image\<close>

definition bicubic_samples ::
  "bytes \<Rightarrow> nat \<Rightarrow> (nat \<times> 'f) list \<Rightarrow> (nat \<times> 'f) list \<Rightarrow> nat \<Rightarrow> (u8 \<times> 'f \<times> 'f) list" where
  "bicubic_samples src stride rows cols c =
     concat (map (\<lambda>(r, wy). map (\<lambda>(q, wx). (src ! (r * stride + q * 4 + c), wx, wy)) cols) rows)"

definition bicubic_image ::
  "'f Kernel \<Rightarrow> bytes \<Rightarrow> u32 \<Rightarrow> u32 \<Rightarrow> nat \<Rightarrow> u32 \<Rightarrow> u32 \<Rightarrow> bytes" where
  "bicubic_image K src src_w src_h stride dst_w dst_h =
     image (unat dst_w) (unat dst_h) (\<lambda>x y. map (\<lambda>c. convolve K (bicubic_samples src stride
        (zip (tap_list (unat src_h) (anchor_of K y src_h dst_h)) (cubic_weights K y src_h dst_h))
        (zip (tap_list (unat src_w) (anchor_of K x src_w dst_w)) (cubic_weights K x src_w dst_w)) c)) [0..<4])"

lemma map_opt_product:
  assumes "\<And>x y. x \<in> set xs \<Longrightarrow> y \<in> set ys \<Longrightarrow> f (h x, k y) = Some (g x y)"
  shows "map_opt f (List.product (map h xs) (map k ys)) = Some (concat (map (\<lambda>x. map (g x) ys) xs))"
proof -
  have app: "map_opt f (as @ bs) = (case map_opt f as of None \<Rightarrow> None
      | Some us \<Rightarrow> (case map_opt f bs of None \<Rightarrow> None | Some vs \<Rightarrow> Some (us @ vs)))" for as bs
    by (induction as) (auto split: option.splits Option.bind_splits)
  have row: "map_opt f (map (\<lambda>y. (h x, k y)) zs) = Some (map (g x) zs)" if "x \<in> set xs" "set zs \<subseteq> set ys" for x zs
    using that(2) by (induction zs) (simp_all add: assms [OF that(1)])
  have "map_opt f (List.product (map h zs) (map k ys)) = Some (concat (map (\<lambda>x. map (g x) ys) zs))" if "set zs \<subseteq> set xs" for zs
    using that by (induction zs) (simp_all add: app row comp_def)
  then show ?thesis by blast
qed

lemma bicubic_byte_samples:
  assumes ok: "image_ok src src_w src_h stride dst_w dst_h" and "\<forall>r \<in> set rs. r < unat src_h" and "\<forall>q \<in> set qs. q < unat src_w"
    and "c < 4"
  shows "bicubic_byte K src stride (zip (map word_of_nat rs) wys) (zip (map word_of_nat qs) wxs) c =
     Some (convolve K (bicubic_samples src (unat stride) (zip rs wys) (zip qs wxs) c))"
proof -
  have at: "index src (usize_add (usize_add (unat (word_of_nat r * stride)) (unat (word_of_nat q * 4 :: u32))) c) =
      Some (src ! (r * unat stride + q * 4 + c))" if "r < unat src_h" "q < unat src_w" for r q
  proof -
    note p = pixel_in_row [OF ok that(2,1)]
    have "r < 4294967296" "q < 4294967296" using that unat_lt_u32 [of src_h] unat_lt_u32 [of src_w] by linarith+
    moreover have "q * 4 < 4294967296" using p(3) unat_lt_u32 [of stride] by linarith
    ultimately have u: "unat (word_of_nat r * stride) = r * unat stride" "unat (word_of_nat q * 4 :: u32) = q * 4"
      using u32_mult [of "word_of_nat r" stride] u32_mult [of "word_of_nat q" 4] p(2) by (simp_all add: unat_u32_nat)
    have "usize_add (r * unat stride) (q * 4) = r * unat stride + q * 4"
      "usize_add (r * unat stride + q * 4) c = r * unat stride + q * 4 + c"
      using p(2) \<open>q * 4 < 4294967296\<close> assms(4) by (simp_all add: no_wrap)
    then show ?thesis unfolding u using p(1) assms(4) by (simp add: index_def)
  qed
  have "map_opt (\<lambda>((row_idx, wy), (col_idx, wx)). do {
         v \<leftarrow> index src (usize_add (usize_add (unat (row_idx * stride)) (unat (col_idx * 4 :: u32))) c);
         Some (v, wx, wy)
       }) (List.product (map (\<lambda>(r, wy). (word_of_nat r, wy)) (zip rs wys)) (map (\<lambda>(q, wx). (word_of_nat q, wx)) (zip qs wxs))) =
     Some (concat (map (\<lambda>p. map (\<lambda>u. (src ! (fst p * unat stride + fst u * 4 + c), snd u, snd p)) (zip qs wxs)) (zip rs wys)))"
  proof (rule map_opt_product)
    fix x y assume "x \<in> set (zip rs wys)" and "y \<in> set (zip qs wxs)"
    then have "fst x < unat src_h" "fst y < unat src_w"
      using assms(2,3) by (metis prod.collapse set_zip_leftD)+
    from at [OF this]
    show "(case (case x of (r, wy) \<Rightarrow> (word_of_nat r, wy), case y of (q, wx) \<Rightarrow> (word_of_nat q, wx)) of
        (x, xa) \<Rightarrow> (case x of (row_idx, wy) \<Rightarrow> \<lambda>(col_idx, wx). do {
         v \<leftarrow> index src (usize_add (usize_add (unat (row_idx * stride)) (unat (col_idx * 4 :: u32))) c);
         Some (v, wx, wy)
       }) xa) = Some (src ! (fst x * unat stride + fst y * 4 + c), snd y, snd x)"
      by (simp add: case_prod_beta')
  qed
  then show ?thesis
    by (simp add: bicubic_byte_def bicubic_samples_def zip_map1 case_prod_beta')
qed

lemma tap_list_in: "0 < n \<Longrightarrow> \<forall>r \<in> set (tap_list n a). r < n"
  by (auto simp: tap_list_def edge_def)

lemma image_ok_small:
  assumes "image_ok src src_w src_h stride dst_w dst_h"
  shows "unat src_w < 2147483000" and "unat src_h < 2147483000"
proof -
  have s: "unat src_w * 4 \<le> unat stride" "0 < unat src_w" using assms by (simp_all add: image_ok_def word_less_nat_alt)
  then show "unat src_w < 2147483000" using unat_lt_u32 [of stride] by linarith
  have "unat src_h * 4 \<le> unat src_h * unat stride" using s by (intro mult_le_mono2) simp
  moreover have "unat src_h * unat stride < 4294967296" using assms by (simp only: image_ok_def)
  ultimately show "unat src_h < 2147483000" by linarith
qed

locale edge_taps =
  fixes taps :: "u32 \<Rightarrow> int \<Rightarrow> u32 list option" and valid :: "nat \<Rightarrow> int \<Rightarrow> bool"
  assumes taps_edges: "0 < n \<Longrightarrow> unat n < 2147483000 \<Longrightarrow> valid (unat n) a \<Longrightarrow>
    taps n a = Some (map word_of_nat (tap_list (unat n) a))"
begin

lemma bicubic_with_image:
  assumes ok: "image_ok src src_w src_h stride dst_w dst_h"
    and vx: "\<And>x. x < unat dst_w \<Longrightarrow> valid (unat src_w) (anchor_of K x src_w dst_w)"
    and vy: "\<And>y. y < unat dst_h \<Longrightarrow> valid (unat src_h) (anchor_of K y src_h dst_h)"
  shows "bicubic_with taps K src src_w src_h stride dst_w dst_h =
     Some (bicubic_image K src src_w src_h (unat stride) dst_w dst_h)"
proof -
  let ?w = "unat dst_w" and ?h = "unat dst_h"
  define rows where "rows y = zip (tap_list (unat src_h) (anchor_of K y src_h dst_h)) (cubic_weights K y src_h dst_h)" for y
  define cols where "cols x = zip (tap_list (unat src_w) (anchor_of K x src_w dst_w)) (cubic_weights K x src_w dst_w)" for x
  define px where "px y x = map (\<lambda>c. convolve K (bicubic_samples src (unat stride) (rows y) (cols x) c)) [0..<4]" for y x
  define dst0 where "dst0 = replicate (unat (dst_w * 4 * dst_h)) (0 :: u8)"
  have pos: "0 < src_w" "0 < src_h" "0 < unat src_w" "0 < unat src_h"
    using ok by (simp_all add: image_ok_def word_less_nat_alt)
  note small = image_ok_small [OF ok] and w4 = image_row_bytes [OF ok]
  have total: "?h * (?w * 4) < 4294967296" using ok by (simp only: image_ok_def)
  then have "unat (dst_w * 4 * dst_h) = ?h * (?w * 4)"
    using u32_mult [of "dst_w * 4" dst_h] w4 by (simp add: mult.commute)
  then have len0: "length dst0 = ?h * (?w * 4)" by (simp add: dst0_def)
  have tx: "taps src_w (anchor_of K x src_w dst_w) = Some (map word_of_nat (tap_list (unat src_w) (anchor_of K x src_w dst_w)))"
    if "x < ?w" for x by (rule taps_edges [OF pos(1) small(1) vx [OF that]])
  have ty: "taps src_h (anchor_of K y src_h dst_h) = Some (map word_of_nat (tap_list (unat src_h) (anchor_of K y src_h dst_h)))"
    if "y < ?h" for y by (rule taps_edges [OF pos(2) small(2) vy [OF that]])
  have bytes: "map_opt (bicubic_byte K src stride
       (zip (map word_of_nat (tap_list (unat src_h) (anchor_of K y src_h dst_h))) (cubic_weights K y src_h dst_h))
       (zip (map word_of_nat (tap_list (unat src_w) (anchor_of K x src_w dst_w))) (cubic_weights K x src_w dst_w))) [0..<4] =
     Some (px y x)" for x y
    unfolding px_def rows_def cols_def
    by (rule map_opt_upt) (rule bicubic_byte_samples [OF ok tap_list_in [OF pos(4)] tap_list_in [OF pos(3)]])
  have row: "fold_opt (\<lambda>dx dst. do {
              xs \<leftarrow> taps src_w (anchor_of K dx src_w dst_w);
              let cols = zip xs (cubic_weights K dx src_w dst_w);
              let di = usize_add (unat (word_of_nat dy * (dst_w * 4))) (unat (word_of_nat dx * 4 :: u32));
              px \<leftarrow> map_opt (bicubic_byte K src stride
                 (zip (map word_of_nat (tap_list (unat src_h) (anchor_of K dy src_h dst_h))) (cubic_weights K dy src_h dst_h)) cols) [0..<4];
              write_slice dst di px
            }) [0..<?w] dst =
      write_slice dst (0 + dy * (?w * 4)) (concat (map (px dy) [0..<?w]))"
    if dy: "dy < ?h" and ld: "length dst = length dst0" for dy and dst :: bytes
  proof -
    have le: "dy * (?w * 4) + ?w * 4 \<le> ?h * (?w * 4)"
      using mult_le_mono1 [of "Suc dy" ?h "?w * 4"] dy by simp
    then have lt: "dy * (?w * 4) < 4294967296" using total by linarith
    moreover have "dy < 4294967296" using dy unat_lt_u32 [of dst_h] by linarith
    ultimately have e2: "unat (word_of_nat dy * (dst_w * 4)) = dy * (?w * 4)"
      using u32_mult [of "word_of_nat dy" "dst_w * 4"] w4 by (simp add: unat_u32_nat)
    have di: "usize_add (dy * (?w * 4)) (unat (word_of_nat dx * 4 :: u32)) = dy * (?w * 4) + dx * 4" if "dx < ?w" for dx
    proof -
      have "dx * 4 < 4294967296" using that w4(1) by linarith
      then show ?thesis using lt u32_mult [of "word_of_nat dx" 4] by (simp add: unat_u32_nat no_wrap)
    qed
    have "fold_opt (\<lambda>dx dst. do {
              xs \<leftarrow> taps src_w (anchor_of K dx src_w dst_w);
              let cols = zip xs (cubic_weights K dx src_w dst_w);
              let di = usize_add (dy * (?w * 4)) (unat (word_of_nat dx * 4 :: u32));
              px \<leftarrow> map_opt (bicubic_byte K src stride
                 (zip (map word_of_nat (tap_list (unat src_h) (anchor_of K dy src_h dst_h))) (cubic_weights K dy src_h dst_h)) cols) [0..<4];
              write_slice dst di px
            }) [0..<?w] dst =
        Some (take (dy * (?w * 4)) dst @ concat (map (px dy) [0..<?w]) @ drop (dy * (?w * 4) + ?w * 4) dst)"
    proof (rule fold_write)
      show "dy * (?w * 4) + ?w * 4 \<le> length dst" using le len0 ld by simp
    qed (simp_all add: tx bytes di Let_def, simp add: px_def)
    moreover have "length (concat (map (px dy) [0..<?w])) = ?w * 4"
      using length_concat_const [of "[0..<?w]" "px dy" 4] by (simp add: px_def)
    ultimately show ?thesis
      using le len0 ld unfolding e2 by (simp add: write_slice_def)
  qed
  have "fold_opt (\<lambda>dy dst. do {
          ys \<leftarrow> taps src_h (anchor_of K dy src_h dst_h);
          let rows = zip ys (cubic_weights K dy src_h dst_h);
          let dst_row = unat (word_of_nat dy * (dst_w * 4));
          fold_opt (\<lambda>dx dst. do {
              xs \<leftarrow> taps src_w (anchor_of K dx src_w dst_w);
              let cols = zip xs (cubic_weights K dx src_w dst_w);
              let di = usize_add dst_row (unat (word_of_nat dx * 4 :: u32));
              px \<leftarrow> map_opt (bicubic_byte K src stride rows cols) [0..<4];
              write_slice dst di px
            }) [0..<?w] dst
        }) [0..<?h] dst0 =
      Some (take 0 dst0 @ concat (map (\<lambda>dy. concat (map (px dy) [0..<?w])) [0..<?h]) @ drop (0 + ?h * (?w * 4)) dst0)"
  proof (rule fold_write)
    show "length (concat (map (px dy) [0..<?w])) = ?w * 4" for dy
      using length_concat_const [of "[0..<?w]" "px dy" 4] by (simp add: px_def)
    show "0 + ?h * (?w * 4) \<le> length dst0" using len0 by simp
  next
    fix dy and d :: bytes assume "dy < ?h" "length d = length dst0"
    then show "do {
          ys \<leftarrow> taps src_h (anchor_of K dy src_h dst_h);
          let rows = zip ys (cubic_weights K dy src_h dst_h);
          let dst_row = unat (word_of_nat dy * (dst_w * 4));
          fold_opt (\<lambda>dx dst. do {
              xs \<leftarrow> taps src_w (anchor_of K dx src_w dst_w);
              let cols = zip xs (cubic_weights K dx src_w dst_w);
              let di = usize_add dst_row (unat (word_of_nat dx * 4 :: u32));
              px \<leftarrow> map_opt (bicubic_byte K src stride rows cols) [0..<4];
              write_slice dst di px
            }) [0..<?w] d
        } = write_slice d (0 + dy * (?w * 4)) (concat (map (px dy) [0..<?w]))"
      using row [of dy d] by (simp add: ty Let_def)
  qed
  moreover have "drop (0 + ?h * (?w * 4)) dst0 = []" using len0 by simp
  ultimately show ?thesis
    by (simp add: bicubic_with_def bicubic_image_def image_def px_def [abs_def] rows_def cols_def dst0_def Let_def)
qed

end

lemma client_taps_valid:
  assumes "0 < n" and "unat n < 2147483000" and "- 1 \<le> a \<and> a < int (unat n)"
  shows "client_taps n a = Some (map word_of_nat (tap_list (unat n) a))"
proof (rule client_taps_edges [OF assms(1)])
  show "unat n < 2147483648" "- 1000000000 \<le> a" "a < 2147483000" using assms(2,3) by linarith+
qed

interpretation client: edge_taps client_taps "\<lambda>n a. - 1 \<le> a \<and> a < int n"
  by unfold_locales (rule client_taps_valid)

interpretation interp: edge_taps interp_taps "\<lambda>n a. 0 \<le> a \<and> a < int n"
  by unfold_locales (rule interp_taps_edges, auto)

section \<open>Properties\<close>

definition anchors_within :: "'f Kernel \<Rightarrow> int \<Rightarrow> u32 \<Rightarrow> u32 \<Rightarrow> bool" where
  "anchors_within K lo src dst \<longleftrightarrow>
     list_all (\<lambda>d. lo \<le> anchor_of K d src dst \<and> anchor_of K d src dst < int (unat src)) [0..<unat dst]"

lemma anchors_withinD:
  assumes "anchors_within K lo src dst" and "d < unat dst"
  shows "lo \<le> anchor_of K d src dst \<and> anchor_of K d src dst < int (unat src)"
  using assms by (simp add: anchors_within_def list_all_iff)

text \<open>C39. Client upscaling: for dimensions whose byte sizes fit 32 bits and kernel anchors between -1 and the
  last source sample, \<open>upscale_bicubic\<close> neither panics nor reads outside the source, and
  each output byte is the convolution of the sixteen samples around the anchor, those beyond an edge
  replaced by the edge sample.\<close>

theorem upscale_bicubic_exact:
  assumes "image_ok src src_w src_h stride dst_w dst_h"
    and "anchors_within K (- 1) src_w dst_w" and "anchors_within K (- 1) src_h dst_h"
  shows "upscale_bicubic K src src_w src_h stride dst_w dst_h =
     Some (bicubic_image K src src_w src_h (unat stride) dst_w dst_h, dst_w, dst_h, dst_w * 4)"
proof -
  have "bicubic_with client_taps K src src_w src_h stride dst_w dst_h =
      Some (bicubic_image K src src_w src_h (unat stride) dst_w dst_h)"
  proof (rule client.bicubic_with_image [OF assms(1)])
    show "- 1 \<le> anchor_of K x src_w dst_w \<and> anchor_of K x src_w dst_w < int (unat src_w)" if "x < unat dst_w" for x
      by (rule anchors_withinD [OF assms(2) that])
    show "- 1 \<le> anchor_of K y src_h dst_h \<and> anchor_of K y src_h dst_h < int (unat src_h)" if "y < unat dst_h" for y
      by (rule anchors_withinD [OF assms(3) that])
  qed
  then show ?thesis by (simp add: upscale_bicubic_def)
qed

text \<open>A kernel for concrete runs: it picks the sample at the anchor.\<close>

definition nearest_kernel :: "nat Kernel" where
  "nearest_kernel = \<lparr>anchor_of = (\<lambda>d src dst. int (d * unat src div unat dst)), cubic_weights = (\<lambda>d src dst. [0, 1, 0, 0]),
     convolve = (\<lambda>ss. sum_list (map (\<lambda>(v, wx, wy). if wx * wy = 1 then v else 0) ss))\<rparr>"

theorem upscale_bicubic_exact_witness:
  "upscale_bicubic nearest_kernel [1, 2, 3, 4] 1 1 4 2 1 =
     Some (bicubic_image nearest_kernel [1, 2, 3, 4] 1 1 (unat (4 :: u32)) 2 1, 2, 1, 2 * 4)"
  by (rule upscale_bicubic_exact)
    (simp_all add: image_ok_def anchors_within_def nearest_kernel_def upt_rec)

text \<open>The two CPU upscalers agree inside: when no anchor falls before the first sample, the interpolator's
  \<open>cpu_bicubic_upscale\<close> returns the very image of the client's \<open>upscale_bicubic\<close>.\<close>

theorem bicubic_variants_agree:
  assumes "image_ok src src_w src_h stride dst_w dst_h"
    and "anchors_within K 0 src_w dst_w" and "anchors_within K 0 src_h dst_h"
  shows "cpu_bicubic_upscale K src src_w src_h stride dst_w dst_h = upscale_bicubic K src src_w src_h stride dst_w dst_h"
proof -
  have "bicubic_with interp_taps K src src_w src_h stride dst_w dst_h =
      Some (bicubic_image K src src_w src_h (unat stride) dst_w dst_h)"
    by (rule interp.bicubic_with_image [OF assms(1)])
      (rule anchors_withinD [OF assms(2)], assumption, rule anchors_withinD [OF assms(3)], assumption)
  moreover have "bicubic_with client_taps K src src_w src_h stride dst_w dst_h =
      Some (bicubic_image K src src_w src_h (unat stride) dst_w dst_h)"
  proof (rule client.bicubic_with_image [OF assms(1)])
    show "- 1 \<le> anchor_of K x src_w dst_w \<and> anchor_of K x src_w dst_w < int (unat src_w)" if "x < unat dst_w" for x
      using anchors_withinD [OF assms(2) that] by linarith
    show "- 1 \<le> anchor_of K y src_h dst_h \<and> anchor_of K y src_h dst_h < int (unat src_h)" if "y < unat dst_h" for y
      using anchors_withinD [OF assms(3) that] by linarith
  qed
  ultimately show ?thesis by (simp add: cpu_bicubic_upscale_def upscale_bicubic_def)
qed

theorem bicubic_variants_agree_witness:
  "cpu_bicubic_upscale nearest_kernel [1, 2, 3, 4] 1 1 4 2 1 = upscale_bicubic nearest_kernel [1, 2, 3, 4] 1 1 4 2 1"
  by (rule bicubic_variants_agree)
    (simp_all add: image_ok_def anchors_within_def nearest_kernel_def upt_rec)

text \<open>They differ at the edge: where the anchor lies half a pixel before the first sample (the first output
  pixel of any upscale), the interpolator's version moves the whole kernel by one sample, weighting
  samples 0, 0, 1, 2 where the client's version weights 0, 0, 0, 1.\<close>

theorem bicubic_edge_shift:
  assumes "3 \<le> unat (n :: u32)" and "unat n < 2147483000"
  shows "client_taps n (- 1) = Some [0, 0, 0, 1] \<and> interp_taps n (- 1) = Some [0, 0, 1, 2]"
proof -
  have n: "0 < n" using assms(1) by (simp add: word_less_nat_alt)
  have c: "client_taps n (- 1) = Some (map word_of_nat (tap_list (unat n) (- 1)))"
    by (rule client_taps_valid [OF n assms(2)]) (use assms in linarith)
  have hi: "wrap_i32 (sint n - 1) = int (unat n) - 1" by (rule last_index [OF n]) (use assms in linarith)
  have "edge (unat n) (- 2) = 0" "edge (unat n) (- 1) = 0" "edge (unat n) 0 = 0" "edge (unat n) 1 = 1"
    using assms(1) unfolding edge_def by linarith+
  then have "client_taps n (- 1) = Some [0, 0, 0, 1]" by (simp add: c tap_list_def)
  moreover have "min (max (- 1) 0) (int (unat n) - 1) = 0" "min 1 (int (unat n) - 1) = 1" "min 2 (int (unat n) - 1) = 2"
    using assms(1) by linarith+
  ultimately show ?thesis
    unfolding interp_taps_def hi Let_def by (simp add: wrap_i32_id)
qed

theorem bicubic_edge_shift_witness:
  "client_taps 640 (- 1) = Some [0, 0, 0, 1] \<and> interp_taps 640 (- 1) = Some [0, 0, 1, 2]"
  by (rule bicubic_edge_shift) simp_all

end
