(* ===== verification/Display.thy ===== *)
theory Display
  imports Capture Proto
begin

text \<open>
  \<^verbatim>\<open>crates/remoteway-display\<close>: presentation timing (\<^verbatim>\<open>presentation.rs\<close>), the double-buffered uploader
  (\<^verbatim>\<open>shm.rs\<close>), the surfaces (\<^verbatim>\<open>surface.rs\<close>), the display thread (\<^verbatim>\<open>thread.rs\<close>) and the local cursor
  (\<^verbatim>\<open>cursor.rs\<close>). The compositor is outside: what it sends is a list of \<open>WlEvent\<close>, what
  the code asks of it is the list of \<open>WlRequest\<close> each operation returns; the outcomes of
  system calls and of socket reads are arguments. Proxies are present or absent.
\<close>

section \<open>error.rs\<close>

datatype DisplayError =
  WaylandConnect | WaylandDispatch | NoCompositor | NoShm | NoXdgWmBase | DisplayNoSeat | ShmBuffer string | NotConfigured
| SurfaceNotFound u16 | DisplayThreadSpawn | DisplaySessionEnded

section \<open>presentation.rs\<close>

record PresentationSync =
  last_presented_ns :: u64
  frame_interval_ns :: u64
  ps_clock_id :: u32
  ps_sample_count :: u64

definition PresentationSync_new :: "u32 \<Rightarrow> PresentationSync" where
  "PresentationSync_new clock_id =
     \<lparr>last_presented_ns = 0, frame_interval_ns = 16666667, ps_clock_id = clock_id, ps_sample_count = 0\<rparr>"

definition record_presentation :: "u64 \<Rightarrow> PresentationSync \<Rightarrow> PresentationSync" where
  "record_presentation timestamp_ns p =
     (let p' = (if 0 < last_presented_ns p then
                  (let interval = (if last_presented_ns p \<le> timestamp_ns then timestamp_ns - last_presented_ns p else 0) in
                   if 0 < interval \<and> interval < 100000000 then
                     (if ps_sample_count p < 4 then p\<lparr>frame_interval_ns := interval\<rparr>
                      else p\<lparr>frame_interval_ns := (frame_interval_ns p * 7 + interval) div 8\<rparr>)
                   else p)
                else p) in
      p'\<lparr>last_presented_ns := timestamp_ns, ps_sample_count := ps_sample_count p' + 1\<rparr>)"

definition record_discarded :: "PresentationSync \<Rightarrow> PresentationSync" where
  "record_discarded p = p"

section \<open>shm.rs\<close>

record DamageRegion =
  rg_x :: u32
  rg_y :: u32
  rg_width :: u32
  rg_height :: u32

definition DamageRegion_new :: "u32 \<Rightarrow> u32 \<Rightarrow> u32 \<Rightarrow> u32 \<Rightarrow> DamageRegion" where
  "DamageRegion_new x y width height = \<lparr>rg_x = x, rg_y = y, rg_width = width, rg_height = height\<rparr>"

definition region_pixel_count :: "DamageRegion \<Rightarrow> usize" where
  "region_pixel_count r = usize_mul (unat (rg_width r)) (unat (rg_height r))"

datatype WlRequest =
  Bind u32 string u32 | Pong u32 | AckConfigure u16 u32 | CreateSurface u16 | GetXdgSurface u16 | GetToplevel u16
| GetViewport u16 | SetTitle u16 string | SetAppId u16 string | SetDestination u16 int int | SetSource u16 u32 u32
| CreatePool int | CreateBuffer nat int int int int | Attach u16 nat | DamageBuffer u16 int int int int
| FrameCallback u16 | Commit u16 | DestroyUploader | DestroyViewport u16 | DestroySurface u16

record ShmFrameUploader =
  shm_map :: bytes
  active :: nat
  released :: "bool \<times> bool"
  up_width :: u32
  up_height :: u32
  up_stride :: u32

definition buffer_size :: "ShmFrameUploader \<Rightarrow> usize" where
  "buffer_size u = usize_mul (unat (up_stride u)) (unat (up_height u))"

text \<open>\<open>os\<close> is the message of the first system call that fails, if one does.\<close>

definition ShmFrameUploader_new ::
  "u32 \<Rightarrow> u32 \<Rightarrow> u32 \<Rightarrow> string option \<Rightarrow> DisplayError + (WlRequest list \<times> ShmFrameUploader)" where
  "ShmFrameUploader_new width height stride os =
     (case checked_mul (unat width) 4 of
        None \<Rightarrow> Inl (ShmBuffer ''stride overflow'')
      | Some min_stride \<Rightarrow>
          if unat stride < min_stride then Inl (ShmBuffer ''stride < width * 4'')
          else (case checked_mul (unat stride) (unat height) of
             None \<Rightarrow> Inl (ShmBuffer ''buffer size overflow'')
           | Some buf_size \<Rightarrow> (case checked_mul buf_size 2 of
                None \<Rightarrow> Inl (ShmBuffer ''total size overflow'')
              | Some total_size \<Rightarrow>
                  if total_size = 0 then Inl (ShmBuffer ''zero-size buffer'')
                  else (case os of
                     Some e \<Rightarrow> Inl (ShmBuffer e)
                   | None \<Rightarrow> Inr
                       ([CreatePool (wrap_i32 (int total_size)),
                         CreateBuffer 0 0 (sint width) (sint height) (sint stride),
                         CreateBuffer 1 (wrap_i32 (int buf_size)) (sint width) (sint height) (sint stride)],
                        \<lparr>shm_map = replicate total_size 0, active = 0, released = (True, True), up_width = width,
                         up_height = height, up_stride = stride\<rparr>)))))"

definition upload :: "bytes \<Rightarrow> ShmFrameUploader \<Rightarrow> ShmFrameUploader" where
  "upload data u =
     (let buf_size = buffer_size u; offset = active u * buf_size; copy_len = min (length data) buf_size in
      u\<lparr>shm_map := take offset (shm_map u) @ take copy_len data @ drop (offset + copy_len) (shm_map u)\<rparr>)"

definition is_released :: "nat \<Rightarrow> ShmFrameUploader \<Rightarrow> bool" where
  "is_released i u = (if i = 0 then fst (released u) else snd (released u))"

definition set_released :: "nat \<Rightarrow> bool \<Rightarrow> ShmFrameUploader \<Rightarrow> ShmFrameUploader" where
  "set_released i b u = u\<lparr>released := (if i = 0 then (b, snd (released u)) else (fst (released u), b))\<rparr>"

definition swap :: "ShmFrameUploader \<Rightarrow> ShmFrameUploader" where
  "swap u = (set_released (active u) False u)\<lparr>active := 1 - active u\<rparr>"

definition mark_released :: "nat \<Rightarrow> ShmFrameUploader \<Rightarrow> ShmFrameUploader" where
  "mark_released buffer_idx u = (if buffer_idx < 2 then set_released buffer_idx True u else u)"

definition can_upload :: "ShmFrameUploader \<Rightarrow> bool" where
  "can_upload u = is_released (active u) u"

section \<open>surface.rs: surfaces\<close>

text \<open>\<open>aspect\<close> holds the two dimensions whose quotient is the stored ratio. Instants are nanoseconds.\<close>

record ManagedSurface =
  surface_id :: u16
  viewport :: bool
  uploader :: "ShmFrameUploader option"
  ms_width :: u32
  ms_height :: u32
  ms_stride :: u32
  title :: string
  app_id :: string
  configured :: bool
  frame_callback_pending :: bool
  frame_callback_requested_at :: "nat option"
  pending_configure_serial :: "u32 option"
  aspect :: "u32 \<times> u32"

definition FRAME_CALLBACK_TIMEOUT :: nat where "FRAME_CALLBACK_TIMEOUT = 50000000"

definition damage_requests :: "ManagedSurface \<Rightarrow> DamageRegion list \<Rightarrow> WlRequest list" where
  "damage_requests s regions =
     (if regions = [] then [DamageBuffer (surface_id s) 0 0 (sint (ms_width s)) (sint (ms_height s))]
      else map (\<lambda>r. DamageBuffer (surface_id s) (sint (rg_x r)) (sint (rg_y r)) (sint (rg_width r)) (sint (rg_height r))) regions)"

definition clear_stale :: "nat \<Rightarrow> ManagedSurface \<Rightarrow> ManagedSurface option" where
  "clear_stale now s =
     (if \<not> frame_callback_pending s then Some s
      else (case frame_callback_requested_at s of
         Some t \<Rightarrow> if FRAME_CALLBACK_TIMEOUT \<le> now - t
                   then Some (s\<lparr>frame_callback_pending := False, frame_callback_requested_at := None\<rparr>) else None
       | None \<Rightarrow> None))"

definition surface_present_frame ::
  "nat \<Rightarrow> bytes \<Rightarrow> DamageRegion list \<Rightarrow> ManagedSurface \<Rightarrow> bool \<times> WlRequest list \<times> ManagedSurface" where
  "surface_present_frame now data regions s =
     (if \<not> configured s then (False, [], s)
      else (case clear_stale now s of
         None \<Rightarrow> (False, [], s)
       | Some s' \<Rightarrow> (case uploader s' of
            None \<Rightarrow> (False, [], s')
          | Some u \<Rightarrow>
              if \<not> can_upload u then (False, [], s')
              else
                (True,
                 [Attach (surface_id s') (active u)] @ damage_requests s' regions @
                 (if viewport s' then [SetSource (surface_id s') (ms_width s') (ms_height s')] else []) @
                 [FrameCallback (surface_id s'), Commit (surface_id s')],
                 s'\<lparr>uploader := Some (swap (upload data u)), frame_callback_pending := True,
                    frame_callback_requested_at := Some now\<rparr>))))"

record DisplayState =
  ds_compositor :: bool
  ds_shm :: bool
  ds_xdg_wm_base :: bool
  ds_seat :: bool
  ds_viewporter :: bool
  surfaces :: "ManagedSurface list"
  frame_done :: bool

text \<open>\<^verbatim>\<open>iter_mut().find(..)\<close>: the first surface with the identifier, updated in place.\<close>

fun update_surface :: "u16 \<Rightarrow> (ManagedSurface \<Rightarrow> ManagedSurface) \<Rightarrow> ManagedSurface list \<Rightarrow> ManagedSurface list" where
  "update_surface i f [] = []"
| "update_surface i f (s # ss) = (if surface_id s = i then f s # ss else s # update_surface i f ss)"

definition get_surface :: "u16 \<Rightarrow> DisplayState \<Rightarrow> ManagedSurface option" where
  "get_surface i d = find (\<lambda>s. surface_id s = i) (surfaces d)"

definition fit_preserve_aspect :: "u32 \<Rightarrow> u32 \<Rightarrow> int \<Rightarrow> int \<Rightarrow> int \<times> int" where
  "fit_preserve_aspect src_w src_h dst_w dst_h =
     (if src_w = 0 \<or> src_h = 0 then (dst_w, dst_h)
      else
        let dw = word_of_int dst_w :: u64; dh = word_of_int dst_h :: u64; sw = ucast src_w :: u64; sh = ucast src_h :: u64;
            lhs = sw * dh; rhs = dw * sh in
        if lhs \<le> rhs then (max (sint (ucast (dh * sw div sh) :: u32)) 1, dst_h)
        else (dst_w, max (sint (ucast (dw * sh div sw) :: u32)) 1))"

section \<open>surface.rs: events\<close>

datatype WlEvent =
  Global u32 string u32 | BufferRelease nat | Ping u32 | SurfaceConfigure u16 u32 | ToplevelConfigure u16 int int
| CallbackDone u16 | OtherEvent

definition bind_global :: "u32 \<Rightarrow> string \<Rightarrow> u32 \<Rightarrow> DisplayState \<Rightarrow> WlRequest list \<times> DisplayState" where
  "bind_global name interface version d =
     (if interface = ''wl_compositor'' then ([Bind name interface (min version 6)], d\<lparr>ds_compositor := True\<rparr>)
      else if interface = ''wl_shm'' then ([Bind name interface (min version 1)], d\<lparr>ds_shm := True\<rparr>)
      else if interface = ''xdg_wm_base'' then ([Bind name interface (min version 5)], d\<lparr>ds_xdg_wm_base := True\<rparr>)
      else if interface = ''wl_seat'' then ([Bind name interface (min version 8)], d\<lparr>ds_seat := True\<rparr>)
      else if interface = ''wp_viewporter'' then ([Bind name interface (min version 1)], d\<lparr>ds_viewporter := True\<rparr>)
      else ([], d))"

definition buffer_release :: "nat \<Rightarrow> DisplayState \<Rightarrow> DisplayState" where
  "buffer_release buffer_idx d =
     d\<lparr>surfaces := map (\<lambda>s. s\<lparr>uploader := map_option (mark_released buffer_idx) (uploader s)\<rparr>) (surfaces d)\<rparr>"

definition toplevel_configure :: "u16 \<Rightarrow> int \<Rightarrow> int \<Rightarrow> DisplayState \<Rightarrow> WlRequest list" where
  "toplevel_configure i width height d =
     (if 0 < width \<and> 0 < height then
        (case get_surface i d of
           Some s \<Rightarrow> if viewport s
             then (case fit_preserve_aspect (ms_width s) (ms_height s) width height of (w, h) \<Rightarrow> [SetDestination i w h])
             else []
         | None \<Rightarrow> [])
      else [])"

fun display_event :: "WlEvent \<Rightarrow> DisplayState \<Rightarrow> WlRequest list \<times> DisplayState" where
  "display_event (Global name interface version) d = bind_global name interface version d"
| "display_event (BufferRelease idx) d = ([], buffer_release idx d)"
| "display_event (Ping serial) d = ([Pong serial], d)"
| "display_event (SurfaceConfigure i serial) d =
     ([AckConfigure i serial],
      d\<lparr>surfaces := update_surface i (\<lambda>s. s\<lparr>pending_configure_serial := Some serial, configured := True\<rparr>) (surfaces d)\<rparr>)"
| "display_event (ToplevelConfigure i width height) d = (toplevel_configure i width height d, d)"
| "display_event (CallbackDone i) d =
     ([], d\<lparr>surfaces := update_surface i (\<lambda>s. s\<lparr>frame_callback_pending := False, frame_callback_requested_at := None\<rparr>)
              (surfaces d), frame_done := True\<rparr>)"
| "display_event OtherEvent d = ([], d)"

fun display_events :: "WlEvent list \<Rightarrow> DisplayState \<Rightarrow> WlRequest list \<times> DisplayState" where
  "display_events [] d = ([], d)"
| "display_events (e # es) d = (case display_event e d of (rq, d') \<Rightarrow>
     (case display_events es d' of (rq', d'') \<Rightarrow> (rq @ rq', d'')))"

section \<open>surface.rs: the display\<close>

text \<open>A roundtrip delivers events and may fail.\<close>

type_synonym roundtrip = "WlEvent list \<times> bool"

definition DisplayState_empty :: DisplayState where
  "DisplayState_empty = \<lparr>ds_compositor = False, ds_shm = False, ds_xdg_wm_base = False, ds_seat = False,
     ds_viewporter = False, surfaces = [], frame_done = False\<rparr>"

definition WaylandDisplay_new :: "bool \<Rightarrow> roundtrip \<Rightarrow> DisplayError + DisplayState" where
  "WaylandDisplay_new connected rt =
     (if \<not> connected then Inl WaylandConnect
      else
        let d = snd (display_events (fst rt) DisplayState_empty) in
        if \<not> snd rt then Inl WaylandDispatch
        else if \<not> ds_compositor d then Inl NoCompositor
        else if \<not> ds_shm d then Inl NoShm
        else if \<not> ds_xdg_wm_base d then Inl NoXdgWmBase
        else Inr d)"

definition init_surface_uploader ::
  "u16 \<Rightarrow> string option \<Rightarrow> DisplayState \<Rightarrow> (DisplayError option \<times> WlRequest list) \<times> DisplayState" where
  "init_surface_uploader i os d =
     (if \<not> ds_shm d then ((Some NoShm, []), d)
      else (case get_surface i d of
         None \<Rightarrow> ((Some (SurfaceNotFound i), []), d)
       | Some s \<Rightarrow>
           if uploader s \<noteq> None then ((None, []), d)
           else (case ShmFrameUploader_new (ms_width s) (ms_height s) (ms_stride s) os of
              Inl e \<Rightarrow> ((Some e, []), d)
            | Inr (rq, u) \<Rightarrow>
                ((None, rq),
                 d\<lparr>surfaces := update_surface i (\<lambda>s. s\<lparr>uploader := Some u, configured := True\<rparr>) (surfaces d)\<rparr>))))"

definition new_surface :: "u16 \<Rightarrow> string \<Rightarrow> string \<Rightarrow> u32 \<Rightarrow> u32 \<Rightarrow> u32 \<times> u32 \<Rightarrow> bool \<Rightarrow> ManagedSurface" where
  "new_surface i ttl app width height ar vp =
     \<lparr>surface_id = i, viewport = vp, uploader = None, ms_width = width, ms_height = height, ms_stride = width * 4,
      title = ttl, app_id = app, configured = False, frame_callback_pending = False,
      frame_callback_requested_at = None, pending_configure_serial = None, aspect = ar\<rparr>"

definition create_surface ::
  "u16 \<Rightarrow> string \<Rightarrow> string \<Rightarrow> u32 \<Rightarrow> u32 \<Rightarrow> u32 \<times> u32 \<Rightarrow> roundtrip \<Rightarrow> string option \<Rightarrow> DisplayState
   \<Rightarrow> (DisplayError option \<times> WlRequest list) \<times> DisplayState" where
  "create_surface i ttl app width height ar rt os d =
     (if \<not> ds_compositor d then ((Some NoCompositor, []), d)
      else if \<not> ds_xdg_wm_base d then ((Some NoXdgWmBase, []), d)
      else
        let rq = [CreateSurface i, GetXdgSurface i, GetToplevel i, SetTitle i ttl, SetAppId i app] @
               (if ds_viewporter d then [GetViewport i] else []) @ [Commit i];
            d1 = d\<lparr>surfaces := surfaces d @ [new_surface i ttl app width height ar (ds_viewporter d)]\<rparr>;
            (rq', d2) = display_events (fst rt) d1 in
        if \<not> snd rt then ((Some WaylandDispatch, rq @ rq'), d2)
        else (case init_surface_uploader i os d2 of ((e, rq''), d3) \<Rightarrow> ((e, rq @ rq' @ rq''), d3)))"

definition update_surface_metadata ::
  "u16 \<Rightarrow> string \<Rightarrow> string \<Rightarrow> DisplayState \<Rightarrow> (DisplayError option \<times> WlRequest list) \<times> DisplayState" where
  "update_surface_metadata i ttl app d = (case get_surface i d of
     None \<Rightarrow> ((Some (SurfaceNotFound i), []), d)
   | Some s \<Rightarrow> ((None, [SetTitle i ttl, SetAppId i app]),
        d\<lparr>surfaces := update_surface i (\<lambda>s. s\<lparr>title := ttl, app_id := app\<rparr>) (surfaces d)\<rparr>))"

fun remove_surface :: "u16 \<Rightarrow> ManagedSurface list \<Rightarrow> ManagedSurface list" where
  "remove_surface i [] = []"
| "remove_surface i (s # ss) = (if surface_id s = i then ss else s # remove_surface i ss)"

definition destroy_surface :: "u16 \<Rightarrow> DisplayState \<Rightarrow> WlRequest list \<times> DisplayState" where
  "destroy_surface i d = (case get_surface i d of
     None \<Rightarrow> ([], d)
   | Some s \<Rightarrow>
       ((if uploader s \<noteq> None then [DestroyUploader] else []) @ (if viewport s then [DestroyViewport i] else []) @
        [DestroySurface i],
        d\<lparr>surfaces := remove_surface i (surfaces d)\<rparr>))"

definition present_frame ::
  "nat \<Rightarrow> u16 \<Rightarrow> bytes \<Rightarrow> DamageRegion list \<Rightarrow> DisplayState \<Rightarrow> ((DisplayError + bool) \<times> WlRequest list) \<times> DisplayState" where
  "present_frame now i data regions d = (case get_surface i d of
     None \<Rightarrow> ((Inl (SurfaceNotFound i), []), d)
   | Some s \<Rightarrow> (case surface_present_frame now data regions s of (committed, rq, s') \<Rightarrow>
       ((Inr committed, rq), d\<lparr>surfaces := update_surface i (\<lambda>_. s') (surfaces d)\<rparr>)))"

text \<open>The outcomes of the flush and of the read, with the events each dispatch finds.\<close>

datatype wl_io = IoOk | IoWouldBlock | IoFailed

record DispatchIo =
  io_flush :: wl_io
  io_pending :: roundtrip
  io_read :: "wl_io option"
  io_later :: roundtrip

definition dispatch_pending :: "DispatchIo \<Rightarrow> DisplayState \<Rightarrow> (DisplayError option \<times> WlRequest list) \<times> DisplayState" where
  "dispatch_pending io d =
     (if io_flush io = IoFailed then ((Some WaylandDispatch, []), d)
      else (case display_events (fst (io_pending io)) d of (rq, d1) \<Rightarrow>
        if \<not> snd (io_pending io) then ((Some WaylandDispatch, rq), d1)
        else (case io_read io of
           None \<Rightarrow> ((None, rq), d1)
         | Some IoWouldBlock \<Rightarrow> ((None, rq), d1)
         | Some IoFailed \<Rightarrow> ((Some WaylandDispatch, rq), d1)
         | Some IoOk \<Rightarrow> (case display_events (fst (io_later io)) d1 of (rq', d2) \<Rightarrow>
             ((if snd (io_later io) then None else Some WaylandDispatch, rq @ rq'), d2)))))"

definition dispatch_blocking :: "roundtrip \<Rightarrow> DisplayState \<Rightarrow> (DisplayError option \<times> WlRequest list) \<times> DisplayState" where
  "dispatch_blocking rt d = (case display_events (fst rt) d of (rq, d') \<Rightarrow>
     ((if snd rt then None else Some WaylandDispatch, rq), d'))"

definition resize_surface ::
  "u16 \<Rightarrow> u32 \<Rightarrow> u32 \<Rightarrow> string option \<Rightarrow> DisplayState \<Rightarrow> (DisplayError option \<times> WlRequest list) \<times> DisplayState" where
  "resize_surface i width height os d =
     (if \<not> ds_shm d then ((Some NoShm, []), d)
      else (case get_surface i d of
         None \<Rightarrow> ((Some (SurfaceNotFound i), []), d)
       | Some s \<Rightarrow>
           if ms_width s = width \<and> ms_height s = height then ((None, []), d)
           else
             let d1 = d\<lparr>surfaces := update_surface i (\<lambda>s. s\<lparr>ms_width := width, ms_height := height, ms_stride := width * 4\<rparr>) (surfaces d)\<rparr> in
             (case ShmFrameUploader_new width height (width * 4) os of
                Inl e \<Rightarrow> ((Some e, []), d1)
              | Inr (rq, u) \<Rightarrow>
                  ((None, rq @ (if uploader s \<noteq> None then [DestroyUploader] else [])),
                   d1\<lparr>surfaces := update_surface i (\<lambda>s. s\<lparr>uploader := Some u\<rparr>) (surfaces d1)\<rparr>))))"

section \<open>thread.rs\<close>

record DisplayFrame =
  df_surface_id :: u16
  df_data :: bytes
  df_damage :: "DamageRegion list"
  df_width :: u32
  df_height :: u32
  df_stride :: u32
  df_timestamp_ns :: u64

record DisplayThreadConfig =
  dc_core_id :: usize
  dc_sched_priority :: u8
  dc_ring_capacity :: usize

definition DisplayThreadConfig_default :: DisplayThreadConfig where
  "DisplayThreadConfig_default = \<lparr>dc_core_id = 3, dc_sched_priority = 0, dc_ring_capacity = 4\<rparr>"

record 'r DisplayThread =
  dt_ring :: 'r
  dt_stop_flag :: bool
  dt_exit :: "DisplayError option option"

definition DisplayThread_spawn :: "'r \<Rightarrow> 'r DisplayThread" where
  "DisplayThread_spawn ring = \<lparr>dt_ring = ring, dt_stop_flag = False, dt_exit = None\<rparr>"

definition send_frame :: "('r, DisplayFrame) Ring \<Rightarrow> DisplayFrame \<Rightarrow> 'r DisplayThread \<Rightarrow> bool \<times> 'r DisplayThread" where
  "send_frame R frame t = (case ring_push R (dt_ring t) frame of
     Some r \<Rightarrow> (True, t\<lparr>dt_ring := r\<rparr>) | None \<Rightarrow> (False, t))"

text \<open>The producer's \<^verbatim>\<open>slots()\<close> is the free room, \<open>cap\<close> less what is buffered.\<close>

definition display_buffered_frames :: "('r, DisplayFrame) Ring \<Rightarrow> nat \<Rightarrow> 'r DisplayThread \<Rightarrow> usize" where
  "display_buffered_frames R cap t = cap - ring_slots R (dt_ring t)"

definition display_stop :: "'r DisplayThread \<Rightarrow> 'r DisplayThread" where
  "display_stop t = t\<lparr>dt_stop_flag := True\<rparr>"

definition is_running :: "'r DisplayThread \<Rightarrow> bool" where
  "is_running t \<longleftrightarrow> dt_exit t = None"

record 'r DisplayLoop =
  dl_consumer :: 'r
  dl_display :: DisplayState
  dl_aspect_ratio :: "(u32 \<times> u32) option"
  dl_pending_frame :: "DisplayFrame option"

text \<open>\<open>fuel\<close> bounds the drain, which stops at the first failed \<^verbatim>\<open>pop\<close>.\<close>

fun drain_newest :: "('r, DisplayFrame) Ring \<Rightarrow> nat \<Rightarrow> DisplayFrame option \<Rightarrow> 'r \<Rightarrow> DisplayFrame option \<times> 'r" where
  "drain_newest R 0 pending r = (pending, r)"
| "drain_newest R (Suc k) pending r = (case ring_pop R r of
     Some (frame, r') \<Rightarrow> drain_newest R k (Some frame) r'
   | None \<Rightarrow> (pending, r))"

definition frame_aspect :: "DisplayFrame \<Rightarrow> u32 \<times> u32" where
  "frame_aspect frame = (if 0 < df_height frame then (df_width frame, df_height frame) else (1, 1))"

text \<open>What one iteration meets: the stop flag, the sockets, the roundtrip and the system calls of a new
  surface or buffer, the instant, and the decimal text of the surface identifier.\<close>

record DisplayInput =
  in_stop :: bool
  in_io :: DispatchIo
  in_roundtrip :: roundtrip
  in_os :: "string option"
  in_resize_os :: "string option"
  in_now :: nat

datatype display_exit = Continue bool | Stopped | DisplayFailed DisplayError

definition ensure_surface ::
  "(u16 \<Rightarrow> string) \<Rightarrow> DisplayInput \<Rightarrow> DisplayFrame \<Rightarrow> 'r DisplayLoop \<Rightarrow> (DisplayError option \<times> WlRequest list) \<times> 'r DisplayLoop" where
  "ensure_surface name inp frame s = (case get_surface (df_surface_id frame) (dl_display s) of
     Some _ \<Rightarrow> ((None, []), s)
   | None \<Rightarrow>
       let ar = (case dl_aspect_ratio s of Some r \<Rightarrow> r | None \<Rightarrow> frame_aspect frame);
           (res, d) = create_surface (df_surface_id frame) (''RemoteWay #'' @ name (df_surface_id frame)) ''remoteway''
             (df_width frame) (df_height frame) ar (in_roundtrip inp) (in_os inp) (dl_display s) in
       (res, s\<lparr>dl_display := d, dl_aspect_ratio := Some ar\<rparr>))"

definition ensure_size ::
  "DisplayInput \<Rightarrow> DisplayFrame \<Rightarrow> 'r DisplayLoop \<Rightarrow> (DisplayError option \<times> WlRequest list) \<times> 'r DisplayLoop" where
  "ensure_size inp frame s = (case get_surface (df_surface_id frame) (dl_display s) of
     Some ms \<Rightarrow>
       if ms_width ms \<noteq> df_width frame \<or> ms_height ms \<noteq> df_height frame then
         (case resize_surface (df_surface_id frame) (df_width frame) (df_height frame) (in_resize_os inp) (dl_display s) of
            (res, d) \<Rightarrow> (res, s\<lparr>dl_display := d\<rparr>))
       else ((None, []), s)
   | None \<Rightarrow> ((None, []), s))"

definition show_pending ::
  "DisplayInput \<Rightarrow> DisplayFrame \<Rightarrow> 'r DisplayLoop \<Rightarrow> (display_exit \<times> WlRequest list) \<times> 'r DisplayLoop" where
  "show_pending inp frame s =
     (case present_frame (in_now inp) (df_surface_id frame) (df_data frame) (df_damage frame) (dl_display s) of
        ((Inr True, rq), d) \<Rightarrow> ((Continue True, rq), s\<lparr>dl_display := d, dl_pending_frame := None\<rparr>)
      | ((Inr False, rq), d) \<Rightarrow> ((Continue False, rq), s\<lparr>dl_display := d, dl_pending_frame := Some frame\<rparr>)
      | ((Inl e, rq), d) \<Rightarrow> ((DisplayFailed e, rq), s\<lparr>dl_display := d, dl_pending_frame := None\<rparr>))"

text \<open>One iteration of \<open>display_loop\<close>; \<open>Continue True\<close> is a committed frame.\<close>

definition display_turn ::
  "('r, DisplayFrame) Ring \<Rightarrow> nat \<Rightarrow> (u16 \<Rightarrow> string) \<Rightarrow> DisplayInput \<Rightarrow> 'r DisplayLoop
   \<Rightarrow> (display_exit \<times> WlRequest list) \<times> 'r DisplayLoop" where
  "display_turn R fuel name inp s =
     (if in_stop inp then ((Stopped, []), s)
      else (case dispatch_pending (in_io inp) (dl_display s) of
         ((Some e, rq), d) \<Rightarrow> ((DisplayFailed e, rq), s\<lparr>dl_display := d\<rparr>)
       | ((None, rq), d) \<Rightarrow>
           let (pending, r) = drain_newest R fuel (dl_pending_frame s) (dl_consumer s);
               s1 = s\<lparr>dl_display := d, dl_consumer := r, dl_pending_frame := None\<rparr> in
           (case pending of
              None \<Rightarrow> ((Continue False, rq), s1)
            | Some frame \<Rightarrow> (case ensure_surface name inp frame s1 of
                 ((Some e, rq1), s2) \<Rightarrow> ((DisplayFailed e, rq @ rq1), s2)
               | ((None, rq1), s2) \<Rightarrow> (case ensure_size inp frame s2 of
                    ((Some e, rq2), s3) \<Rightarrow> ((DisplayFailed e, rq @ rq1 @ rq2), s3)
                  | ((None, rq2), s3) \<Rightarrow> (case show_pending inp frame s3 of
                       ((x, rq3), s4) \<Rightarrow> ((x, rq @ rq1 @ rq2 @ rq3), s4)))))))"

fun display_loop ::
  "('r, DisplayFrame) Ring \<Rightarrow> nat \<Rightarrow> (u16 \<Rightarrow> string) \<Rightarrow> DisplayInput list \<Rightarrow> 'r DisplayLoop
   \<Rightarrow> (display_exit \<times> WlRequest list) \<times> 'r DisplayLoop" where
  "display_loop R fuel name [] s = ((Continue False, []), s)"
| "display_loop R fuel name (i # is) s = (case display_turn R fuel name i s of
     ((Continue _, rq), s') \<Rightarrow> (case display_loop R fuel name is s' of ((x, rq'), s'') \<Rightarrow> ((x, rq @ rq'), s''))
   | ((x, rq), s') \<Rightarrow> ((x, rq), s'))"

section \<open>cursor.rs\<close>

text \<open>The bitmap surface of the cursor. Positions are the bit patterns of \<^verbatim>\<open>f32\<close>.\<close>

record CursorBuffer =
  cb_map :: bytes
  cb_width :: u32
  cb_height :: u32

record CursorOverlay =
  cursor_buffer :: "CursorBuffer option"
  co_hotspot_x :: int
  co_hotspot_y :: int
  current_x :: u32
  current_y :: u32
  has_server_cursor :: bool
  last_enter_serial :: u32

datatype CursorRequest =
  CursorPool int | CursorWlBuffer int int int | CursorAttach | CursorDamage int int | CursorCommit | CursorBufferDestroy
| SetCursor u32 bool int int

definition CursorOverlay_new :: CursorOverlay where
  "CursorOverlay_new = \<lparr>cursor_buffer = None, co_hotspot_x = 0, co_hotspot_y = 0, current_x = 0, current_y = 0,
     has_server_cursor = False, last_enter_serial = 0\<rparr>"

definition update_position :: "u32 \<Rightarrow> u32 \<Rightarrow> CursorOverlay \<Rightarrow> CursorOverlay" where
  "update_position x y c = c\<lparr>current_x := x, current_y := y\<rparr>"

definition set_enter_serial :: "u32 \<Rightarrow> CursorOverlay \<Rightarrow> CursorOverlay" where
  "set_enter_serial serial c = c\<lparr>last_enter_serial := serial\<rparr>"

definition set_cursor_bitmap ::
  "bytes \<Rightarrow> u32 \<Rightarrow> u32 \<Rightarrow> string option \<Rightarrow> CursorOverlay \<Rightarrow> (DisplayError option \<times> CursorRequest list) \<times> CursorOverlay" where
  "set_cursor_bitmap data width height os c =
     (let stride = width * 4; buf_size = usize_mul (unat stride) (unat height) in
      if buf_size = 0 then ((Some (ShmBuffer ''cursor bitmap has zero size''), []), c)
      else if length data < buf_size then ((Some (ShmBuffer ''cursor bitmap data too small''), []), c)
      else (case os of
         Some e \<Rightarrow> ((Some (ShmBuffer e), []), c)
       | None \<Rightarrow>
           ((None, [CursorPool (wrap_i32 (int buf_size)), CursorWlBuffer (sint width) (sint height) (sint stride),
              CursorAttach, CursorDamage (sint width) (sint height), CursorCommit] @
              (if cursor_buffer c \<noteq> None then [CursorBufferDestroy] else [])),
            c\<lparr>cursor_buffer := Some \<lparr>cb_map = take buf_size data, cb_width = width, cb_height = height\<rparr>\<rparr>)))"

definition apply_cursor_update ::
  "CursorUpdate \<Rightarrow> bytes option \<Rightarrow> string option \<Rightarrow> CursorOverlay
   \<Rightarrow> (DisplayError option \<times> CursorRequest list) \<times> CursorOverlay" where
  "apply_cursor_update update bitmap_data os c =
     (let c1 = c\<lparr>co_hotspot_x := int (unat (hotspot_x update)), co_hotspot_y := int (unat (hotspot_y update)),
                 current_x := cu_x update, current_y := cu_y update\<rparr> in
      if cu_has_bitmap update \<noteq> 0 then
        (case bitmap_data of
           None \<Rightarrow> ((None, []), c1)
         | Some data \<Rightarrow>
             (case set_cursor_bitmap data (ucast (bitmap_width update)) (ucast (bitmap_height update)) os c1 of
                ((Some e, rq), c2) \<Rightarrow> ((Some e, rq), c2)
              | ((None, rq), c2) \<Rightarrow> ((None, rq), c2\<lparr>has_server_cursor := True\<rparr>)))
      else ((None, []), c1))"

definition set_on_pointer :: "CursorOverlay \<Rightarrow> CursorRequest list" where
  "set_on_pointer c = (if cursor_buffer c \<noteq> None
     then [SetCursor (last_enter_serial c) True (co_hotspot_x c) (co_hotspot_y c)] else [])"

definition hide_cursor :: "CursorOverlay \<Rightarrow> CursorRequest list" where
  "hide_cursor c = [SetCursor (last_enter_serial c) False 0 0]"

section \<open>Presentation timing\<close>

definition timing_ok :: "PresentationSync \<Rightarrow> bool" where
  "timing_ok p \<longleftrightarrow> 0 < unat (frame_interval_ns p) \<and> unat (frame_interval_ns p) < 100000000"

lemma ema_word:
  fixes f i :: u64
  assumes "unat f < 100000000" and "unat i < 100000000"
  shows "unat ((f * 7 + i) div 8) = (unat f * 7 + unat i) div 8"
proof -
  have "unat (f * 7) = unat f * 7" using assms(1) by (subst unat_mult_lem [THEN iffD1]) simp_all
  moreover from this have "unat (f * 7 + i) = unat (f * 7) + unat i"
    using assms by (intro unat_add_lem [THEN iffD1]) simp
  ultimately show ?thesis by (simp add: unat_div)
qed

lemma record_presentation_ok: "timing_ok p \<Longrightarrow> timing_ok (record_presentation t p)"
proof -
  assume p: "timing_ok p"
  have ema: "0 < unat ((frame_interval_ns p * 7 + i) div 8) \<and> unat ((frame_interval_ns p * 7 + i) div 8) < 100000000"
    if "0 < i" "i < 100000000" for i
  proof -
    have i: "0 < unat i" "unat i < 100000000" using that by (simp_all add: word_less_nat_alt)
    show ?thesis using p i unfolding ema_word [OF p [unfolded timing_ok_def, THEN conjunct2] i(2)] timing_ok_def by linarith
  qed
  show ?thesis
    using p ema by (auto simp: record_presentation_def timing_ok_def Let_def word_less_nat_alt)
qed

text \<open>The frame interval estimate stays a plausible one: whatever timestamps the compositor reports, in
  whatever order, it is positive and below 100 ms.\<close>

theorem presentation_bounds:
  "timing_ok (fold record_presentation ts (PresentationSync_new c))"
proof -
  have "timing_ok p \<Longrightarrow> timing_ok (fold record_presentation ts p)" for p
    by (induction ts arbitrary: p) (simp_all add: record_presentation_ok)
  then show ?thesis by (simp add: timing_ok_def PresentationSync_new_def)
qed

lemma ema_fixed: "unat (d :: u64) < 100000000 \<Longrightarrow> (d * 7 + d) div 8 = d"
proof (rule word_unat_eq_iff [THEN iffD2])
  assume d: "unat d < 100000000"
  have "(unat d * 7 + unat d) div 8 = unat d" by presburger
  then show "unat ((d * 7 + d) div 8) = unat d" using ema_word [OF d d] by (rule trans [rotated])
qed

text \<open>A steady display is measured exactly: timestamps \<open>d\<close> apart, from a nonzero first one, give the
  interval \<open>d\<close> from the second timestamp on.\<close>

theorem presentation_steady:
  assumes "0 < t0" and "0 < d" and "d < 100000000" and "unat t0 + (n + 1) * unat d < usize_bound"
  shows "frame_interval_ns (fold record_presentation (map (\<lambda>k. t0 + of_nat k * d) [0..<n + 2]) (PresentationSync_new c)) = d"
proof -
  have d: "0 < unat d" "unat d < 100000000" using assms(2,3) by (simp_all add: word_less_nat_alt)
  have t: "unat (t0 + of_nat k * d) = unat t0 + k * unat d" if "k \<le> n + 1" for k
  proof -
    have "k * unat d \<le> (n + 1) * unat d" using that by (rule mult_le_mono1)
    then have b: "unat t0 + k * unat d < usize_bound" using assms(4) by linarith
    have "k \<le> k * unat d" using d(1) by simp
    then have "unat (of_nat k * d) = k * unat d"
      using b by (simp add: unat_word_ariths unat_of_nat mod_simps)
    then show ?thesis using b by (simp add: unat_word_ariths)
  qed
  have step: "(let p' = record_presentation (t0 + of_nat (Suc k) * d) p in
      last_presented_ns p' = t0 + of_nat (Suc k) * d \<and> frame_interval_ns p' = d)"
    if "last_presented_ns p = t0 + of_nat k * d" "k \<le> n" "ps_sample_count p < 4 \<or> frame_interval_ns p = d" for k p
  proof -
    have "unat (t0 + of_nat k * d) \<le> unat (t0 + of_nat (Suc k) * d)" using t [of k] t [of "Suc k"] that(2) by simp
    then have le: "t0 + of_nat k * d \<le> t0 + of_nat (Suc k) * d" by (simp only: word_le_nat_alt)
    have pos: "0 < t0 + of_nat k * d" using t [of k] that(2) assms(1) by (simp add: word_less_nat_alt)
    have df: "t0 + of_nat (Suc k) * d - (t0 + of_nat k * d) = d" by (simp add: algebra_simps)
    show ?thesis
      using le pos df that(1,3) assms(2,3) ema_fixed [OF d(2)] by (auto simp: record_presentation_def Let_def)
  qed
  have "last_presented_ns (fold record_presentation (map (\<lambda>k. t0 + of_nat k * d) [0..<m + 2]) (PresentationSync_new c)) =
          t0 + of_nat (Suc m) * d \<and>
      frame_interval_ns (fold record_presentation (map (\<lambda>k. t0 + of_nat k * d) [0..<m + 2]) (PresentationSync_new c)) = d"
    if "m \<le> n" for m
    using that
  proof (induction m)
    case 0
    have "last_presented_ns (record_presentation t0 (PresentationSync_new c)) = t0 + of_nat 0 * d"
      "ps_sample_count (record_presentation t0 (PresentationSync_new c)) < 4"
      by (simp_all add: record_presentation_def PresentationSync_new_def)
    from step [OF this(1)] this(2) show ?case by (simp add: Let_def)
  next
    case (Suc m)
    then have IH: "last_presented_ns (fold record_presentation (map (\<lambda>k. t0 + of_nat k * d) [0..<m + 2]) (PresentationSync_new c)) =
          t0 + of_nat (Suc m) * d"
      "frame_interval_ns (fold record_presentation (map (\<lambda>k. t0 + of_nat k * d) [0..<m + 2]) (PresentationSync_new c)) = d"
      by simp_all
    have split: "[0..<Suc m + 2] = [0..<m + 2] @ [Suc (Suc m)]" by simp
    show ?case
      unfolding split map_append fold_append comp_def
      using step [OF IH(1)] IH(2) Suc.prems by (simp add: Let_def)
  qed
  then show ?thesis by simp
qed

theorem presentation_steady_witness:
  "frame_interval_ns (fold record_presentation (map (\<lambda>k. 5 + of_nat k * 16666667) [0..<6 + 2]) (PresentationSync_new 1)) = 16666667"
  by (rule presentation_steady) simp_all

section \<open>The uploader\<close>

definition uploader_ok :: "ShmFrameUploader \<Rightarrow> bool" where
  "uploader_ok u \<longleftrightarrow> active u < 2 \<and> length (shm_map u) = 2 * buffer_size u"

definition shm_buffer :: "nat \<Rightarrow> ShmFrameUploader \<Rightarrow> bytes" where
  "shm_buffer i u = take (buffer_size u) (drop (i * buffer_size u) (shm_map u))"

lemma uploader_fields [simp]:
  "buffer_size (upload data u) = buffer_size u" "buffer_size (swap u) = buffer_size u"
  "buffer_size (mark_released i u) = buffer_size u" "buffer_size (set_released i b u) = buffer_size u"
  "shm_map (swap u) = shm_map u" "shm_map (mark_released i u) = shm_map u" "shm_map (set_released i b u) = shm_map u"
  "active (upload data u) = active u" "active (swap u) = 1 - active u" "active (mark_released i u) = active u"
  "active (set_released i b u) = active u" "released (upload data u) = released u"
  by (simp_all add: upload_def swap_def mark_released_def set_released_def buffer_size_def Let_def)

lemma is_released_simps [simp]:
  "i < 2 \<Longrightarrow> j < 2 \<Longrightarrow> is_released i (set_released j b u) = (if i = j then b else is_released i u)"
  "is_released i (upload data u) = is_released i u"
  "is_released i (swap u) = is_released i (set_released (active u) False u)"
  by (auto simp: is_released_def set_released_def swap_def)

lemma is_released_mark: "i < 2 \<Longrightarrow> is_released i (mark_released j u) = (is_released i u \<or> i = j)"
  by (auto simp: mark_released_def)

lemma ShmFrameUploader_new_ok:
  assumes "ShmFrameUploader_new w h stride os = Inr (rq, u)"
  shows "uploader_ok u" and "0 < buffer_size u" and "unat w * 4 \<le> unat stride" and "is_released 0 u" and "is_released 1 u"
    and "active u = 0" and "buffer_size u = unat stride * unat h"
  using assms
  by (auto simp: ShmFrameUploader_new_def uploader_ok_def buffer_size_def checked_mul_def usize_mul_def is_released_def
      split: if_splits option.splits)

lemma upload_buffers:
  assumes "uploader_ok u"
  shows "shm_buffer (active u) (upload data u) =
      take (buffer_size u) data @ drop (length data) (shm_buffer (active u) u)"
    and "shm_buffer (1 - active u) (upload data u) = shm_buffer (1 - active u) u"
    and "uploader_ok (upload data u)"
proof -
  define n where "n = buffer_size u"
  define c where "c = min (length data) n"
  have len: "length (shm_map u) = 2 * n" using assms by (simp add: uploader_ok_def n_def)
  have act: "active u = 0 \<or> active u = 1" using assms by (auto simp: uploader_ok_def)
  have m: "shm_map (upload data u) = take (active u * n) (shm_map u) @ take c data @ drop (active u * n + c) (shm_map u)"
    by (simp add: upload_def n_def c_def Let_def)
  have c: "length (take c data) = c" "c \<le> n" by (simp_all add: c_def)
  show "uploader_ok (upload data u)"
    using act len c assms by (auto simp: uploader_ok_def m n_def [symmetric])
  have td: "take n data = take c data" by (auto simp: c_def min_def)
  have dd: "drop (length data) (take n xs) = drop c (take n xs)" for xs :: bytes
    by (auto simp: c_def min_def)
  have split: "shm_map u = take n (shm_map u) @ drop n (shm_map u)" by simp
  define lo where "lo = take n (shm_map u)"
  define hi where "hi = drop n (shm_map u)"
  have lohi: "shm_map u = lo @ hi" "length lo = n" "length hi = n" using len by (simp_all add: lo_def hi_def)
  have b: "shm_buffer 0 v = take n (shm_map v)" "shm_buffer 1 v = take n (drop n (shm_map v))" if "buffer_size v = n" for v
    using that by (simp_all add: shm_buffer_def)
  have n': "buffer_size u = n" "buffer_size (upload data u) = n" by (simp_all add: n_def)
  show "shm_buffer (active u) (upload data u) = take (buffer_size u) data @ drop (length data) (shm_buffer (active u) u)"
  proof (cases "active u = 0")
    case True
    show ?thesis unfolding True b [OF n'(1)] b [OF n'(2)] unfolding m n_def [symmetric] td dd True lohi(1)
      using c lohi(2,3) by simp
  next
    case False
    then have a1: "active u = 1" using act by linarith
    show ?thesis unfolding a1 b [OF n'(1)] b [OF n'(2)] unfolding m n_def [symmetric] td dd a1 lohi(1)
      using c lohi(2,3) by simp
  qed
  show "shm_buffer (1 - active u) (upload data u) = shm_buffer (1 - active u) u"
  proof (cases "active u = 0")
    case True
    then have "1 - active u = 1" by simp
    then show ?thesis unfolding b [OF n'(1)] b [OF n'(2)] \<open>1 - active u = 1\<close> unfolding m True lohi(1)
      using c lohi(2,3) by simp
  next
    case False
    then have a1: "active u = 1" "1 - active u = 0" using act by simp_all
    show ?thesis unfolding a1(2) b [OF n'(1)] b [OF n'(2)] unfolding m a1(1) lohi(1)
      using c lohi(2,3) by simp
  qed
qed


text \<open>A configured surface with an uploader, for concrete runs.\<close>

definition fresh_uploader :: "u32 \<Rightarrow> u32 \<Rightarrow> ShmFrameUploader" where
  "fresh_uploader w h = \<lparr>shm_map = replicate (2 * (unat (w * 4) * unat h)) 0, active = 0, released = (True, True),
     up_width = w, up_height = h, up_stride = w * 4\<rparr>"

definition fresh_surface :: "u16 \<Rightarrow> u32 \<Rightarrow> u32 \<Rightarrow> ManagedSurface" where
  "fresh_surface i w h = (new_surface i ''w'' ''a'' w h (w, h) False)
     \<lparr>uploader := Some (fresh_uploader w h), configured := True\<rparr>"

lemmas fresh_defs = fresh_surface_def fresh_uploader_def new_surface_def uploader_ok_def buffer_size_def usize_mul_def
  surface_present_frame_def clear_stale_def can_upload_def is_released_def set_released_def swap_def upload_def
  damage_requests_def shm_buffer_def


section \<open>Buffers held by the compositor\<close>

text \<open>A compositor beside the display: it holds a buffer from the request that attaches it until it
  releases it, and may send any other event at any time.\<close>

definition attached :: "WlRequest list \<Rightarrow> (u16 \<times> nat) set" where
  "attached rq = {(i, k). Attach i k \<in> set rq}"

inductive compositor_step :: "DisplayState \<times> (u16 \<times> nat) set \<Rightarrow> DisplayState \<times> (u16 \<times> nat) set \<Rightarrow> bool" where
  Shown: "present_frame now i data regions d = ((r, rq), d') \<Longrightarrow> compositor_step (d, H) (d', H \<union> attached rq)"
| Released: "(i, k) \<in> H \<Longrightarrow> compositor_step (d, H) (snd (display_event (BufferRelease k) d), H - {(i, k)})"
| Other: "(\<And>k. e \<noteq> BufferRelease k) \<Longrightarrow> compositor_step (d, H) (snd (display_event e d), H)"

definition tracks :: "(u16 \<times> nat) set \<Rightarrow> ManagedSurface \<Rightarrow> bool" where
  "tracks H s \<longleftrightarrow> H \<subseteq> {(surface_id s, 0), (surface_id s, 1)} \<and>
     (\<exists>u. uploader s = Some u \<and> active u < 2 \<and> (\<forall>k < 2. is_released k u \<longleftrightarrow> (surface_id s, k) \<notin> H))"

definition sole :: "DisplayState \<times> (u16 \<times> nat) set \<Rightarrow> bool" where
  "sole dH \<longleftrightarrow> (\<exists>s. surfaces (fst dH) = [s] \<and> tracks (snd dH) s)"

lemma clear_stale_same: "clear_stale now s = Some t \<Longrightarrow> uploader t = uploader s \<and> surface_id t = surface_id s"
  by (auto simp: clear_stale_def split: if_splits option.splits)

lemma surface_present_cases:
  obtains (skip) t where "surface_present_frame now data regions s = (False, [], t)"
      "uploader t = uploader s" "surface_id t = surface_id s"
  | (commit) u rq' t where "uploader s = Some u" "can_upload u"
      "surface_present_frame now data regions s = (True, Attach (surface_id s) (active u) # rq', t)"
      "uploader t = Some (swap (upload data u))" "surface_id t = surface_id s" "\<And>i k. Attach i k \<notin> set rq'"
proof (cases "configured s \<and> clear_stale now s \<noteq> None")
  case True
  then obtain t where t: "clear_stale now s = Some t" by blast
  note same = clear_stale_same [OF t]
  show ?thesis
  proof (cases "\<exists>u. uploader s = Some u \<and> can_upload u")
    case True
    then obtain u where u: "uploader s = Some u" "can_upload u" by blast
    show ?thesis
      by (rule commit [OF u, of "damage_requests t regions @
           (if viewport t then [SetSource (surface_id t) (ms_width t) (ms_height t)] else []) @
           [FrameCallback (surface_id t), Commit (surface_id t)]"
           "t\<lparr>uploader := Some (swap (upload data u)), frame_callback_pending := True, frame_callback_requested_at := Some now\<rparr>"])
        (use \<open>configured s \<and> _\<close> u t same in \<open>auto simp: surface_present_frame_def damage_requests_def\<close>)
  next
    case False
    then show ?thesis using \<open>configured s \<and> _\<close> t same
      by (intro skip [of t]) (auto simp: surface_present_frame_def split: option.splits)
  qed
next
  case False
  then show ?thesis by (intro skip [of s]) (auto simp: surface_present_frame_def)
qed

lemma tracks_shown:
  assumes "tracks H s" and "surface_present_frame now data regions s = (c, rq, s')"
  shows "tracks (H \<union> attached rq) s' \<and> attached rq \<inter> H = {}"
proof (cases rule: surface_present_cases [of now data regions s])
  case (skip t)
  then show ?thesis using assms by (auto simp: tracks_def attached_def)
next
  case (commit u rq' t)
  have u: "active u < 2" "\<forall>k < 2. is_released k u \<longleftrightarrow> (surface_id s, k) \<notin> H" "H \<subseteq> {(surface_id s, 0), (surface_id s, 1)}"
    using assms(1) commit(1) by (auto simp: tracks_def)
  have rq: "attached rq = {(surface_id s, active u)}" and s': "uploader s' = Some (swap (upload data u))" "surface_id s' = surface_id s"
    using assms(2) commit(3-6) by (auto simp: attached_def)
  have "(surface_id s, active u) \<notin> H" using u(1,2) commit(2) by (simp add: can_upload_def)
  moreover have "tracks (H \<union> {(surface_id s, active u)}) s'"
    unfolding tracks_def s' using u by (auto simp: less_2_cases_iff)
  ultimately show ?thesis by (simp add: rq)
qed

lemma present_sole:
  assumes "surfaces d = [s]" and "present_frame now i data regions d = ((r, rq), d')"
  shows "(rq = [] \<and> d' = d) \<or>
     (\<exists>c s'. surface_present_frame now data regions s = (c, rq, s') \<and> surfaces d' = [s'])"
  using assms by (auto simp: present_frame_def get_surface_def split: if_splits prod.splits)

lemma tracks_event:
  assumes "tracks H s" and "uploader s' = uploader s" and "surface_id s' = surface_id s"
  shows "tracks H s'"
  using assms by (simp add: tracks_def)

lemma sole_step:
  assumes "compositor_step dH dH'" and "sole dH"
  shows "sole dH'"
  using assms
proof (induction rule: compositor_step.induct)
  case (Shown now i data regions d r rq d' H)
  then obtain s where s: "surfaces d = [s]" "tracks H s" by (auto simp: sole_def)
  from present_sole [OF s(1) Shown.hyps] show ?case
    using s tracks_shown [OF s(2)] by (auto simp: sole_def attached_def)
next
  case (Released i k H d)
  then obtain s u where s: "surfaces d = [s]" "tracks H s" "uploader s = Some u" by (auto simp: sole_def tracks_def)
  have "i = surface_id s" "k < 2" using Released.hyps s(2) by (auto simp: tracks_def)
  then have "tracks (H - {(i, k)}) (s\<lparr>uploader := Some (mark_released k u)\<rparr>)"
    using s(2,3) by (auto simp: tracks_def is_released_mark)
  then show ?case using s by (simp add: sole_def buffer_release_def)
next
  case (Other e d H)
  then obtain s where s: "surfaces d = [s]" "tracks H s" by (auto simp: sole_def)
  have "\<exists>s'. surfaces (snd (display_event e d)) = [s'] \<and> uploader s' = uploader s \<and> surface_id s' = surface_id s"
    using s Other.hyps by (cases e) (auto simp: bind_global_def toplevel_configure_def)
  then show ?case using tracks_event [OF s(2)] by (auto simp: sole_def)
qed

lemma sole_reachable: "compositor_step\<^sup>*\<^sup>* dH dH' \<Longrightarrow> sole dH \<Longrightarrow> sole dH'"
  by (induction rule: rtranclp_induct) (auto dest: sole_step)

text \<open>C6. With one window the double buffering is safe: whatever the compositor sends and in whatever order
  frames are presented, a buffer that is attached (and so overwritten) is one the compositor
  does not hold.\<close>

theorem held_buffer_safe:
  assumes "surfaces d0 = [s]" and "uploader s = Some u" and "active u < 2" and "is_released 0 u" and "is_released 1 u"
    and "compositor_step\<^sup>*\<^sup>* (d0, {}) (d, H)"
    and "present_frame now i data regions d = ((r, rq), d')"
  shows "attached rq \<inter> H = {}"
proof -
  have "sole (d0, {})" using assms(1-5) by (auto simp: sole_def tracks_def less_2_cases_iff)
  from sole_reachable [OF assms(6) this] obtain t where t: "surfaces d = [t]" "tracks H t" by (auto simp: sole_def)
  from present_sole [OF t(1) assms(7)] show ?thesis
  proof
    assume "rq = [] \<and> d' = d"
    then show ?thesis by (simp add: attached_def)
  next
    assume "\<exists>c s'. surface_present_frame now data regions t = (c, rq, s') \<and> surfaces d' = [s']"
    then show ?thesis using tracks_shown [OF t(2)] by blast
  qed
qed

definition display_of :: "ManagedSurface list \<Rightarrow> DisplayState" where
  "display_of ss = DisplayState_empty\<lparr>ds_compositor := True, ds_shm := True, ds_xdg_wm_base := True, surfaces := ss\<rparr>"

lemma compositor_present:
  "compositor_step (d, H) (snd (present_frame now i data regions d), H \<union> attached (snd (fst (present_frame now i data regions d))))"
  by (rule compositor_step.Shown [of _ _ _ _ _ "fst (fst (present_frame now i data regions d))"]) simp

lemmas display_run_defs = display_of_def DisplayState_empty_def present_frame_def get_surface_def buffer_release_def
  attached_def mark_released_def fresh_defs

theorem held_buffer_safe_witness:
  "attached [Attach 1 1, DamageBuffer 1 0 0 1 1, FrameCallback 1, Commit 1] \<inter> {(1, 0)} = {}"
proof -
  let ?d = "display_of [fresh_surface 1 1 1]"
  let ?p = "present_frame 0 1 [1, 2, 3, 4] [] ?d"
  have "compositor_step\<^sup>*\<^sup>* (?d, {}) (snd ?p, {} \<union> attached (snd (fst ?p)))"
    by (rule r_into_rtranclp) (rule compositor_present)
  moreover have "{} \<union> attached (snd (fst ?p)) = {(1, 0)}" by (auto simp: display_run_defs)
  ultimately have run: "compositor_step\<^sup>*\<^sup>* (?d, {}) (snd ?p, {(1, 0)})" by simp
  have "present_frame 60000000 1 [5, 6, 7, 8] [] (snd ?p) =
      ((Inr True, [Attach 1 1, DamageBuffer 1 0 0 1 1, FrameCallback 1, Commit 1]),
       snd (present_frame 60000000 1 [5, 6, 7, 8] [] (snd ?p)))"
    by (simp add: display_run_defs FRAME_CALLBACK_TIMEOUT_def)
  from held_buffer_safe [OF _ _ _ _ _ run this, of "fresh_surface 1 1 1" "fresh_uploader 1 1"]
  show ?thesis by (simp add: display_of_def fresh_defs)
qed

text \<open>C19. With two windows it is not: \<open>Release\<close> events carry only the buffer's index, and the handler marks
  that buffer free in every window. Here window 2 has both its buffers held when window 1's buffer 0 is
  released; the next frame of window 2 is written into its buffer 0, which the compositor still holds.\<close>

theorem release_crosses_windows:
  "\<exists>d H r rq d'. compositor_step\<^sup>*\<^sup>* (display_of [fresh_surface 1 1 1, fresh_surface 2 1 1], {}) (d, H) \<and>
     present_frame 180000000 2 [9, 9, 9, 9] [] d = ((Inr True, rq), d') \<and> (2, 0) \<in> attached rq \<and> (2, 0) \<in> H"
proof -
  define d1 where "d1 = display_of [fresh_surface 1 1 1, fresh_surface 2 1 1]"
  define p2 where "p2 = present_frame 0 2 [1, 1, 1, 1] [] d1"
  define p3 where "p3 = present_frame 60000000 2 [2, 2, 2, 2] [] (snd p2)"
  define p4 where "p4 = present_frame 60000000 1 [3, 3, 3, 3] [] (snd p3)"
  define d5 where "d5 = snd (display_event (BufferRelease 0) (snd p4))"
  define p6 where "p6 = present_frame 180000000 2 [9, 9, 9, 9] [] d5"
  let ?H2 = "{} \<union> attached (snd (fst p2))"
  let ?H3 = "?H2 \<union> attached (snd (fst p3))"
  let ?H4 = "?H3 \<union> attached (snd (fst p4))"
  have p2: "p2 = ((Inr True, [Attach 2 0, DamageBuffer 2 0 0 1 1, FrameCallback 2, Commit 2]), snd p2)"
    by (simp add: p2_def d1_def display_run_defs)
  have p3: "p3 = ((Inr True, [Attach 2 1, DamageBuffer 2 0 0 1 1, FrameCallback 2, Commit 2]), snd p3)"
    by (simp add: p3_def p2_def d1_def display_run_defs FRAME_CALLBACK_TIMEOUT_def)
  have p4: "p4 = ((Inr True, [Attach 1 0, DamageBuffer 1 0 0 1 1, FrameCallback 1, Commit 1]), snd p4)"
    by (simp add: p4_def p3_def p2_def d1_def display_run_defs FRAME_CALLBACK_TIMEOUT_def)
  have p6: "p6 = ((Inr True, [Attach 2 0, DamageBuffer 2 0 0 1 1, FrameCallback 2, Commit 2]), snd p6)"
    by (simp add: p6_def d5_def p4_def p3_def p2_def d1_def display_run_defs FRAME_CALLBACK_TIMEOUT_def)
  have H: "(2, 0) \<in> ?H2" "(1, 0) \<in> ?H4" using p2 p4 by (auto simp: attached_def prod_eq_iff)
  have "compositor_step\<^sup>*\<^sup>* (d1, {}) (d5, ?H4 - {(1, 0)})"
    using compositor_present [of d1 "{}" 0 2 "[1, 1, 1, 1]" "[]", folded p2_def]
      compositor_present [of "snd p2" ?H2 60000000 2 "[2, 2, 2, 2]" "[]", folded p3_def]
      compositor_present [of "snd p3" ?H3 60000000 1 "[3, 3, 3, 3]" "[]", folded p4_def]
      compositor_step.Released [OF H(2), of "snd p4", folded d5_def]
    by (meson converse_rtranclp_into_rtranclp rtranclp.rtrancl_refl)
  moreover have "(2, 0) \<in> ?H4 - {(1, 0)}" using H(1) by simp
  moreover have "(2, 0) \<in> attached [Attach 2 0, DamageBuffer 2 0 0 1 1, FrameCallback 2, Commit 2]" by (simp add: attached_def)
  ultimately show ?thesis using p6 unfolding p6_def d1_def by blast
qed

section \<open>The display thread\<close>

lemma drain_newest_spsc:
  assumes "spsc_ring R items cap" and "length (items r) \<le> fuel"
  shows "fst (drain_newest R fuel pending r) = (if items r = [] then pending else Some (last (items r))) \<and>
         items (snd (drain_newest R fuel pending r)) = []"
  using assms(2)
proof (induction fuel arbitrary: pending r)
  case (Suc k)
  show ?case
  proof (cases "items r")
    case Nil
    then show ?thesis using ring_pop_Nil [OF assms(1) Nil] by simp
  next
    case (Cons f fs)
    then obtain r' where r': "ring_pop R r = Some (f, r')" "items r' = fs" using ring_pop_Cons [OF assms(1)] by blast
    then show ?thesis using Suc.IH [of r' "Some f"] Suc.prems Cons by simp
  qed
qed simp

text \<open>C16. The display shows the newest frame: an iteration that finds frames in the ring empties it, hands
  exactly the last of them to the compositor with that frame's damage alone, and keeps it for
  the next iteration when the compositor was not ready. Older frames, and their damage, are gone.\<close>

theorem newest_frame_shown:
  assumes "spsc_ring R items cap" and "items (dl_consumer s) = fs @ [f]" and "length fs < fuel" and "\<not> in_stop inp"
    and "dispatch_pending (in_io inp) (dl_display s) = ((None, rq), d)"
    and "get_surface (df_surface_id f) d = Some ms" and "ms_width ms = df_width f" and "ms_height ms = df_height f"
    and "present_frame (in_now inp) (df_surface_id f) (df_data f) (df_damage f) d = ((Inr c, rq'), d')"
    and "display_turn R fuel name inp s = ((x, out), s')"
  shows "x = Continue c \<and> out = rq @ rq' \<and> dl_display s' = d' \<and> items (dl_consumer s') = [] \<and>
     dl_pending_frame s' = (if c then None else Some f)"
proof -
  obtain p r where dr: "drain_newest R fuel (dl_pending_frame s) (dl_consumer s) = (p, r)" by fastforce
  have "p = Some f" "items r = []"
    using drain_newest_spsc [OF assms(1), of "dl_consumer s" fuel "dl_pending_frame s"] assms(2,3) dr by auto
  then show ?thesis
    using assms(4-10) dr
    by (auto simp: display_turn_def ensure_surface_def ensure_size_def show_pending_def split: if_splits bool.splits)
qed

definition quiet_io :: DispatchIo where
  "quiet_io = \<lparr>io_flush = IoOk, io_pending = ([], True), io_read = None, io_later = ([], True)\<rparr>"

definition quiet_input :: "nat \<Rightarrow> DisplayInput" where
  "quiet_input now = \<lparr>in_stop = False, in_io = quiet_io, in_roundtrip = ([], True), in_os = None, in_resize_os = None,
     in_now = now\<rparr>"

definition dot_frame :: "u8 \<Rightarrow> DisplayFrame" where
  "dot_frame v = \<lparr>df_surface_id = 1, df_data = [v, v, v, v], df_damage = [DamageRegion_new 0 0 1 1], df_width = 1,
     df_height = 1, df_stride = 4, df_timestamp_ns = 0\<rparr>"

definition loop_of :: "DisplayFrame list \<Rightarrow> DisplayFrame list DisplayLoop" where
  "loop_of fs = \<lparr>dl_consumer = fs, dl_display = display_of [fresh_surface 1 1 1], dl_aspect_ratio = None,
     dl_pending_frame = None\<rparr>"

theorem newest_frame_shown_witness:
  "\<exists>x out s'. display_turn (list_ring 4) 4 (\<lambda>_. []) (quiet_input 9) (loop_of [dot_frame 1, dot_frame 2]) = ((x, out), s') \<and>
     x = Continue True \<and> out = [Attach 1 0, DamageBuffer 1 0 0 1 1, FrameCallback 1, Commit 1] \<and>
     dl_consumer s' = [] \<and> dl_pending_frame s' = None"
proof -
  let ?d = "display_of [fresh_surface 1 1 1]"
  obtain x out s' where run: "display_turn (list_ring 4) 4 (\<lambda>_. []) (quiet_input 9) (loop_of [dot_frame 1, dot_frame 2]) = ((x, out), s')"
    by (metis prod.exhaust)
  have p: "present_frame 9 1 [2, 2, 2, 2] [DamageRegion_new 0 0 1 1] ?d =
      ((Inr True, [Attach 1 0, DamageBuffer 1 0 0 1 1, FrameCallback 1, Commit 1]),
       snd (present_frame 9 1 [2, 2, 2, 2] [DamageRegion_new 0 0 1 1] ?d))"
    by (simp add: display_run_defs DamageRegion_new_def)
  have "x = Continue True \<and> out = [] @ [Attach 1 0, DamageBuffer 1 0 0 1 1, FrameCallback 1, Commit 1] \<and>
      dl_display s' = snd (present_frame 9 1 [2, 2, 2, 2] [DamageRegion_new 0 0 1 1] ?d) \<and> dl_consumer s' = [] \<and>
      dl_pending_frame s' = (if True then None else Some (dot_frame 2))"
  proof (rule newest_frame_shown [OF list_ring_spsc _ _ _ _ _ _ _ _ run, where fs = "[dot_frame 1]" and d = ?d and ms = "fresh_surface 1 1 1"])
    show "present_frame (in_now (quiet_input 9)) (df_surface_id (dot_frame 2)) (df_data (dot_frame 2)) (df_damage (dot_frame 2)) ?d =
      ((Inr True, [Attach 1 0, DamageBuffer 1 0 0 1 1, FrameCallback 1, Commit 1]),
       snd (present_frame 9 1 [2, 2, 2, 2] [DamageRegion_new 0 0 1 1] ?d))"
      using p by (simp add: quiet_input_def dot_frame_def)
    show "dispatch_pending (in_io (quiet_input 9)) (dl_display (loop_of [dot_frame 1, dot_frame 2])) = ((None, []), ?d)"
      by (simp add: dispatch_pending_def quiet_input_def quiet_io_def loop_of_def)
    show "get_surface (df_surface_id (dot_frame 2)) ?d = Some (fresh_surface 1 1 1)"
      by (simp add: get_surface_def display_of_def dot_frame_def fresh_surface_def new_surface_def)
  qed (simp_all add: loop_of_def quiet_input_def dot_frame_def fresh_surface_def new_surface_def)
  then show ?thesis using run by simp
qed

text \<open>The stride of a frame is not used: the surface always reads rows of four bytes per pixel.\<close>

lemma display_ignores_stride:
  "show_pending inp (f\<lparr>df_stride := n\<rparr>) s =
     (case show_pending inp f s of (out, s') \<Rightarrow> (out, s'\<lparr>dl_pending_frame := map_option (df_stride_update (\<lambda>_. n)) (dl_pending_frame s')\<rparr>))"
  by (auto simp: show_pending_def split: prod.splits sum.splits bool.splits)

section \<open>Letterboxing\<close>

lemma sint_ucast_quotient:
  fixes x :: u64
  assumes "unat x < 2147483648"
  shows "sint (ucast x :: u32) = int (unat x)"
proof -
  have u: "unat (ucast x :: u32) = unat x" using assms by (simp add: unsigned_ucast_eq take_bit_nat_eq_self)
  have "- 2147483648 \<le> uint (ucast x :: u32)" using uint_ge_0 [of "ucast x :: u32"] by linarith
  moreover have i: "uint (ucast x :: u32) = int (unat (ucast x :: u32))" by simp
  then have "uint (ucast x :: u32) < 2147483648" using assms u by linarith
  ultimately have "sint (ucast x :: u32) = uint (ucast x :: u32)"
    unfolding sint_uint by (intro signed_take_bit_int_eq_self) simp_all
  then show ?thesis using i u by (simp only:)
qed

lemma u64_of_i32:
  assumes "0 < v" and "v < 2147483648"
  shows "unat (word_of_int v :: u64) = nat v"
  using assms by (simp add: unsigned_of_int take_bit_int_eq_self)

lemma u64_product:
  fixes a b :: u64
  assumes "unat a < 4294967296" and "unat b < 2147483648"
  shows "unat (a * b) = unat a * unat b"
proof -
  have "unat a * unat b \<le> 4294967296 * 2147483648" using assms by (intro mult_le_mono) simp_all
  then show ?thesis by (intro unat_mult_lem [THEN iffD1]) simp
qed

text \<open>Letterboxing: for a frame and a window with positive sizes the fitted rectangle has the frame's
  proportions rounded down, is not empty, lies inside the window, and touches it in one dimension.\<close>

theorem fit_inside_window:
  assumes "0 < src_w" and "0 < src_h" and "0 < dst_w" and "dst_w < 2147483648" and "0 < dst_h" and "dst_h < 2147483648"
    and "fit_preserve_aspect src_w src_h dst_w dst_h = (w, h)"
  shows "1 \<le> w \<and> w \<le> dst_w \<and> 1 \<le> h \<and> h \<le> dst_h \<and>
     (if int (unat src_w) * dst_h \<le> dst_w * int (unat src_h)
      then h = dst_h \<and> w = max 1 (dst_h * int (unat src_w) div int (unat src_h))
      else w = dst_w \<and> h = max 1 (dst_w * int (unat src_h) div int (unat src_w)))"
proof -
  let ?sw = "ucast src_w :: u64" and ?sh = "ucast src_h :: u64"
  let ?dw = "word_of_int dst_w :: u64" and ?dh = "word_of_int dst_h :: u64"
  define a where "a = unat src_w"
  define b where "b = unat src_h"
  define p where "p = nat dst_w"
  define q where "q = nat dst_h"
  have pos: "0 < a" "0 < b" "0 < p" "0 < q" using assms(1-3,5) by (simp_all add: a_def b_def p_def q_def word_less_nat_alt)
  have lt: "a < 4294967296" "b < 4294967296" "p < 2147483648" "q < 2147483648"
    using unat_lt_u32 assms(4,6) by (simp_all add: a_def b_def p_def q_def)
  have w64: "unat src_w < 2 ^ 64" "unat src_h < 2 ^ 64" using unat_lt_u32 [of src_w] unat_lt_u32 [of src_h] by simp_all
  have u: "unat ?sw = a" "unat ?sh = b" "unat ?dw = p" "unat ?dh = q"
    using assms(3-6) w64
    by (simp_all add: a_def b_def p_def q_def u64_of_i32 unsigned_ucast_eq take_bit_nat_eq_self)
  have pr: "unat (?sw * ?dh) = a * q" "unat (?dw * ?sh) = p * b" "unat (?dh * ?sw) = q * a" "unat (?dw * ?sh) = p * b"
    using u64_product [of ?sw ?dh] u64_product [of ?sh ?dw] u lt by (simp_all add: mult.commute)
  have ints: "dst_w = int p" "dst_h = int q" using assms(3,5) by (simp_all add: p_def q_def)
  have sh0: "src_w \<noteq> 0" "src_h \<noteq> 0" using assms(1,2) by simp_all
  show ?thesis
  proof (cases "a * q \<le> p * b")
    case True
    have "q * a div b \<le> p * b div b" using True by (intro div_le_mono) (simp add: mult.commute)
    then have le: "q * a div b \<le> p" using pos(2) by simp
    have "sint (ucast (?dh * ?sw div ?sh) :: u32) = int (q * a div b)"
      using sint_ucast_quotient [of "?dh * ?sw div ?sh"] le lt(3) by (simp add: unat_div pr u)
    moreover have "?sw * ?dh \<le> ?dw * ?sh" using True by (simp add: word_le_nat_alt pr)
    ultimately have wh: "w = max (int (q * a div b)) 1" "h = dst_h"
      using assms(7) sh0 by (auto simp: fit_preserve_aspect_def Let_def)
    have i: "int a * int q \<le> int p * int b" using True by (simp only: of_nat_mult [symmetric] of_nat_le_iff)
    have "int (q * a div b) \<le> int p" using le by (simp only: of_nat_le_iff)
    then show ?thesis using i pos unfolding a_def [symmetric] b_def [symmetric] ints wh
      by (simp add: zdiv_int of_nat_mult max.commute)
  next
    case False
    then have lt2: "p * b \<le> a * q" by simp
    have "p * b div a \<le> a * q div a" by (rule div_le_mono [OF lt2])
    then have le: "p * b div a \<le> q" using pos(1) by simp
    have "sint (ucast (?dw * ?sh div ?sw) :: u32) = int (p * b div a)"
      using sint_ucast_quotient [of "?dw * ?sh div ?sw"] le lt(4) by (simp add: unat_div pr u)
    moreover have "\<not> ?sw * ?dh \<le> ?dw * ?sh" using False by (simp add: word_le_nat_alt pr)
    ultimately have wh: "w = dst_w" "h = max (int (p * b div a)) 1"
      using assms(7) sh0 by (auto simp: fit_preserve_aspect_def Let_def)
    have i: "\<not> int a * int q \<le> int p * int b" using False by (simp only: of_nat_mult [symmetric] of_nat_le_iff) simp
    have "int (p * b div a) \<le> int q" using le by (simp only: of_nat_le_iff)
    then show ?thesis using i pos unfolding a_def [symmetric] b_def [symmetric] ints wh
      by (simp add: zdiv_int of_nat_mult max.commute)
  qed
qed

theorem fit_inside_window_witness:
  "1 \<le> (1422 :: int) \<and> (1422 :: int) \<le> 1600 \<and> 1 \<le> (800 :: int) \<and> (800 :: int) \<le> 800 \<and>
     (if int (unat (1920 :: u32)) * 800 \<le> 1600 * int (unat (1080 :: u32))
      then (800 :: int) = 800 \<and> (1422 :: int) = max 1 (800 * int (unat (1920 :: u32)) div int (unat (1080 :: u32)))
      else (1422 :: int) = 1600 \<and> (800 :: int) = max 1 (1600 * int (unat (1080 :: u32)) div int (unat (1920 :: u32))))"
  by (rule fit_inside_window) (simp_all add: fit_preserve_aspect_def Let_def)

end
