(* ===== verification/Client.thy ===== *)
theory Client
  imports Transport Interpolate Overlay Upscale Display
begin

text \<open>
  \<^verbatim>\<open>crates/remoteway-client\<close>: the command line it builds for the server (\<^verbatim>\<open>cli.rs\<close>) and its pipeline
  (\<^verbatim>\<open>pipeline.rs\<close>): handshake, frame payloads, input messages and the loop that decompresses, interpolates,
  upscales and displays. What the loop computes in floating point is a field of \<open>RecvConfig\<close>: the
  upscaled dimension, the scaled damage coordinate and the frame-rate estimate with its text.
\<close>

section \<open>cli.rs\<close>

datatype ClientCompress = CompNone | CompLz4 | CompZstd

datatype ClientCapture = CapAuto | CapWlrScreencopy | CapExtImageCapture | CapPortal

fun client_to_kind :: "ClientCompress \<Rightarrow> CompressorKind" where
  "client_to_kind CompNone = Kind_None"
| "client_to_kind CompLz4 = Kind_Lz4"
| "client_to_kind CompZstd = Kind_Zstd"

fun compress_as_server_arg :: "ClientCompress \<Rightarrow> string" where
  "compress_as_server_arg CompNone = ''none''"
| "compress_as_server_arg CompLz4 = ''lz4''"
| "compress_as_server_arg CompZstd = ''zstd''"

fun capture_as_server_arg :: "ClientCapture \<Rightarrow> string" where
  "capture_as_server_arg CapAuto = ''auto''"
| "capture_as_server_arg CapWlrScreencopy = ''wlr-screencopy''"
| "capture_as_server_arg CapExtImageCapture = ''ext-image-capture''"
| "capture_as_server_arg CapPortal = ''portal''"

definition parse_backend_kind :: "string \<Rightarrow> string + BackendKind" where
  "parse_backend_kind s = BackendKind_from_str s"

text \<open>\<open>cli_server_scale\<close> is the text of a scale that differs from 1.0.\<close>

record Cli =
  cli_host :: string
  cli_capture :: ClientCapture
  cli_compress :: ClientCompress
  cli_server_scale :: "string option"
  cli_app_id :: "string option"
  cli_capture_fps :: u32
  cli_server_bin :: string
  cli_ssh_opt :: "string list"
  cli_command :: "string list"

definition ssh_command :: "Cli \<Rightarrow> string list" where
  "ssh_command c =
     [''ssh''] @ cli_ssh_opt c @ [cli_host c, cli_server_bin c] @
     (if cli_capture c \<noteq> CapAuto then [''--capture'', capture_as_server_arg (cli_capture c)] else []) @
     (case cli_app_id c of Some a \<Rightarrow> [''--app-id'', a] | None \<Rightarrow> []) @
     [''--capture-fps'', decimal (unat (cli_capture_fps c))] @
     (if cli_compress c \<noteq> CompLz4 then [''--compress'', compress_as_server_arg (cli_compress c)] else []) @
     (case cli_server_scale c of Some s \<Rightarrow> [''--scale'', s] | None \<Rightarrow> []) @
     (if cli_command c \<noteq> [] then ''--'' # cli_command c else [])"

section \<open>pipeline.rs: messages\<close>

definition client_handshake :: bytes where
  "client_handshake =
     FrameHeader_bytes (FrameHeader_new 0 HandshakeMsg LAST_CHUNK 8 0) @
     HandshakePayload_bytes (HandshakePayload_new (WLR_SCREENCOPY OR EXT_IMAGE_CAPTURE) FLAG_LZ4)"

datatype payload_error = ShortMeta | BadMeta | ShortRegions | BadRegion | ShortData

type_synonym parsed_regions = "DamageRect list \<times> usize list \<times> usize list \<times> usize"

definition parse_region ::
  "bytes \<Rightarrow> nat \<Rightarrow> parsed_regions \<Rightarrow> (payload_error + parsed_regions) option" where
  "parse_region payload i st = (case st of (regions, offs, sizes, data_offset) \<Rightarrow>
     do {
       let off = FrameMeta_SIZE + i * WireRegion_SIZE;
       b \<leftarrow> vslice payload off (off + WireRegion_SIZE);
       Some (case WireRegion_read b of
          None \<Rightarrow> Inl BadRegion
        | Some wr \<Rightarrow>
            (let cs = unat (compressed_size wr) in
             Inr (regions @ [DamageRect_new (wr_x wr) (wr_y wr) (wr_w wr) (wr_h wr)], offs @ [data_offset],
                  sizes @ [cs], usize_add data_offset cs)))
     })"

fun parse_regions ::
  "bytes \<Rightarrow> nat list \<Rightarrow> parsed_regions \<Rightarrow> (payload_error + parsed_regions) option" where
  "parse_regions payload [] st = Some (Inr st)"
| "parse_regions payload (i # is) st = (case parse_region payload i st of
     None \<Rightarrow> None
   | Some (Inl e) \<Rightarrow> Some (Inl e)
   | Some (Inr st') \<Rightarrow> parse_regions payload is st')"

definition deserialize_frame_payload ::
  "bytes \<Rightarrow> (payload_error + (u32 \<times> u32 \<times> u32 \<times> DamageRect list \<times> CompressedFrame)) option" where
  "deserialize_frame_payload payload =
     (if length payload < FrameMeta_SIZE then Some (Inl ShortMeta)
      else (case FrameMeta_read (take FrameMeta_SIZE payload) of
         None \<Rightarrow> Some (Inl BadMeta)
       | Some meta \<Rightarrow>
           let n = unat (num_regions meta); regions_end = FrameMeta_SIZE + WireRegion_SIZE * n in
           if length payload < regions_end then Some (Inl ShortRegions)
           else (case parse_regions payload [0..<n] ([], [], [], 0) of
              None \<Rightarrow> None
            | Some (Inl e) \<Rightarrow> Some (Inl e)
            | Some (Inr (regions, offs, sizes, data_offset)) \<Rightarrow>
                let compressed_data = drop regions_end payload in
                if length compressed_data < data_offset then Some (Inl ShortData)
                else Some (Inr (meta_width meta, meta_height meta, meta_stride meta, regions,
                  \<lparr>cf_data = compressed_data, region_offsets = offs, region_sizes = sizes,
                   cf_stats = FrameStats_default\<rparr>)))))"

definition input_wire :: "InputEvent \<Rightarrow> bytes" where
  "input_wire event =
     FrameHeader_bytes (FrameHeader_new 0 InputEventMsg LAST_CHUNK (word_of_nat InputEvent_SIZE) 0) @ InputEvent_bytes event"

definition make_input_sender ::
  "'u Mpsc \<Rightarrow> ('u, 'b) TransportSender \<Rightarrow> InputEvent \<Rightarrow> bool \<times> ('u, 'b) TransportSender" where
  "make_input_sender U sender event = send_input U sender (input_wire event)"

section \<open>pipeline.rs: the receive and display loop\<close>

text \<open>\<open>rc_upscale\<close> is \<open>None\<close> for a factor of 1.0, else the map of a dimension to
  \<^verbatim>\<open>(d as f64 * factor).round() as u32\<close>; \<open>rc_scale v display source\<close> is \<^verbatim>\<open>(v as f64 * (display as f64 / source as f64)).round() as u32\<close>.\<close>

record ('k, 'f, 'e) RecvConfig =
  rc_codecs :: Codecs
  rc_kind :: CompressorKind
  rc_backend :: "'k Interpolator"
  rc_half :: Factor
  rc_kernel :: "'f Kernel"
  rc_upscale :: "(u32 \<Rightarrow> u32) option"
  rc_scale :: "u32 \<Rightarrow> u32 \<Rightarrow> u32 \<Rightarrow> u32"
  rc_debug :: bool
  rc_fps_step :: "nat \<Rightarrow> nat \<Rightarrow> 'e \<Rightarrow> 'e"
  rc_fps_text :: "'e \<Rightarrow> string"

record ('k, 'e) RecvLoop =
  rl_previous_frame :: bytes
  has_previous :: bool
  interpolation :: "'k InterpolationManager option"
  rl_frame_count :: u64
  last_frame_at :: "nat option"
  fps_ema :: 'e

definition RecvLoop_start :: "'k InterpolationManager option \<Rightarrow> 'e \<Rightarrow> ('k, 'e) RecvLoop" where
  "RecvLoop_start im fps0 = \<lparr>rl_previous_frame = [], has_previous = False, interpolation = im, rl_frame_count = 0,
     last_frame_at = None, fps_ema = fps0\<rparr>"

text \<open>Upscaling: the GPU backend if it succeeds, else the CPU.\<close>

definition spatial_upscale ::
  "('k, 'f, 'e) RecvConfig \<Rightarrow> 'k InterpolationManager option \<Rightarrow> GpuFrame \<Rightarrow> (bytes \<times> u32 \<times> u32 \<times> u32) option" where
  "spatial_upscale cfg im f = (case rc_upscale cfg of
     None \<Rightarrow> Some (gf_data f, gf_width f, gf_height f, gf_stride f)
   | Some up \<Rightarrow>
       let tw = up (gf_width f); th = up (gf_height f) in
       (case (case im of None \<Rightarrow> None
              | Some m \<Rightarrow> (case be_upscale (rc_backend cfg) (im_backend m) f tw th of Inr g \<Rightarrow> Some g | Inl _ \<Rightarrow> None)) of
          Some g \<Rightarrow> Some (gf_data g, gf_width g, gf_height g, gf_stride g)
        | None \<Rightarrow> upscale_bicubic (rc_kernel cfg) (gf_data f) (gf_width f) (gf_height f) (gf_stride f) tw th))"

definition display_damage ::
  "('k, 'f, 'e) RecvConfig \<Rightarrow> u32 \<Rightarrow> u32 \<Rightarrow> u32 \<Rightarrow> u32 \<Rightarrow> DamageRect list \<Rightarrow> DamageRegion list" where
  "display_damage cfg display_w display_h width height regions =
     map (\<lambda>r. \<lparr>rg_x = rc_scale cfg (dr_x r) display_w width, rg_y = rc_scale cfg (dr_y r) display_h height,
              rg_width = rc_scale cfg (dr_width r) display_w width,
              rg_height = rc_scale cfg (dr_height r) display_h height\<rparr>) regions"

definition u32_saturating_sub :: "u32 \<Rightarrow> u32 \<Rightarrow> u32" where
  "u32_saturating_sub a b = (if b \<le> a then a - b else 0)"

definition badge_damage :: "u32 \<Rightarrow> u32 \<Rightarrow> DamageRegion" where
  "badge_damage display_w display_h = (case overlay_rect 10 10 of (ox, oy, ow, oh) \<Rightarrow>
     \<lparr>rg_x = ox, rg_y = oy, rg_width = min ow (u32_saturating_sub display_w ox),
      rg_height = min oh (u32_saturating_sub display_h oy)\<rparr>)"

definition update_fps :: "('k, 'f, 'e) RecvConfig \<Rightarrow> nat \<Rightarrow> ('k, 'e) RecvLoop \<Rightarrow> ('k, 'e) RecvLoop" where
  "update_fps cfg now s =
     s\<lparr>fps_ema := (case last_frame_at s of Some prev \<Rightarrow> rc_fps_step cfg prev now (fps_ema s) | None \<Rightarrow> fps_ema s),
       last_frame_at := Some now\<rparr>"

definition real_frame ::
  "('k, 'f, 'e) RecvConfig \<Rightarrow> FrameHeader \<Rightarrow> 'e \<Rightarrow> GpuFrame \<Rightarrow> DamageRect list \<Rightarrow> bytes \<times> u32 \<times> u32 \<times> u32 \<Rightarrow> DisplayFrame" where
  "real_frame cfg hdr fps f regions up = (case up of (display_data, display_w, display_h, display_stride) \<Rightarrow>
     \<lparr>df_surface_id = hdr_stream_id hdr,
      df_data = (if rc_debug cfg then draw_fps display_w display_h display_stride (rc_fps_text cfg fps) display_data
                 else display_data),
      df_damage = display_damage cfg display_w display_h (gf_width f) (gf_height f) regions @
        (if rc_debug cfg then [badge_damage display_w display_h] else []),
      df_width = display_w, df_height = display_h, df_stride = display_stride,
      df_timestamp_ns = hdr_timestamp_ns hdr\<rparr>)"

definition interpolated_frame ::
  "('k, 'f, 'e) RecvConfig \<Rightarrow> FrameHeader \<Rightarrow> 'e \<Rightarrow> GpuFrame \<Rightarrow> bytes \<times> u32 \<times> u32 \<times> u32 \<Rightarrow> DisplayFrame" where
  "interpolated_frame cfg hdr fps f up = (case up of (idata, iw, ih, istride) \<Rightarrow>
     \<lparr>df_surface_id = hdr_stream_id hdr,
      df_data = (if rc_debug cfg then draw_fps iw ih istride (rc_fps_text cfg fps) idata else idata),
      df_damage = [\<lparr>rg_x = 0, rg_y = 0, rg_width = iw, rg_height = ih\<rparr>], df_width = iw, df_height = ih,
      df_stride = istride, df_timestamp_ns = gf_timestamp_ns f\<rparr>)"

text \<open>Feeding the interpolation manager and asking it for the midpoint.\<close>

definition feed_manager ::
  "('k, 'f, 'e) RecvConfig \<Rightarrow> GpuFrame \<Rightarrow> 'k InterpolationManager option \<Rightarrow> GpuFrame option \<times> 'k InterpolationManager option" where
  "feed_manager cfg f im = (case im of
     None \<Rightarrow> (None, None)
   | Some m \<Rightarrow> (case interpolate (rc_backend cfg) (rc_half cfg) (push_frame f m) of
        (Inr g, m') \<Rightarrow> (g, Some m')
      | (Inl _, m') \<Rightarrow> (None, Some m')))"

datatype recv_action = ParseFailed payload_error | DecodeFailed CompressorError | Displayed "DisplayFrame list" | OtherMessage

text \<open>The frame branch: \<open>None\<close> is a panic. The frames are those offered to the display, in order.\<close>

definition decode_frame ::
  "('k, 'f, 'e) RecvConfig \<Rightarrow> bool \<Rightarrow> bytes \<Rightarrow> ('k, 'e) RecvLoop
   \<Rightarrow> (recv_action + (u32 \<times> u32 \<times> u32 \<times> DamageRect list \<times> bytes)) option \<times> ('k, 'e) RecvLoop" where
  "decode_frame cfg is_anchor payload s =
     (case deserialize_frame_payload payload of
        None \<Rightarrow> (None, s)
      | Some (Inl e) \<Rightarrow> (Some (Inl (ParseFailed e)), s)
      | Some (Inr (width, height, stride, regions, compressed)) \<Rightarrow>
          let frame_size = unat (stride * height);
              s1 = (if is_anchor \<or> \<not> has_previous s
                then s\<lparr>rl_previous_frame := vec_resize (rl_previous_frame s) frame_size 0,
                       interpolation := map_option reset_anchor (interpolation s)\<rparr>
                else s) in
          (case decompress_frame_into (rc_codecs cfg) compressed (rl_previous_frame s1) (unat stride) regions [] (rc_kind cfg) of
             None \<Rightarrow> (None, s1)
           | Some (Inl e) \<Rightarrow> (Some (Inl (DecodeFailed e)), s1)
           | Some (Inr output) \<Rightarrow> (Some (Inr (width, height, stride, regions, output)), s1)))"

definition recv_frame ::
  "('k, 'f, 'e) RecvConfig \<Rightarrow> nat \<Rightarrow> FrameHeader \<Rightarrow> bool \<Rightarrow> bytes \<Rightarrow> ('k, 'e) RecvLoop
   \<Rightarrow> (recv_action \<times> ('k, 'e) RecvLoop) option" where
  "recv_frame cfg now hdr is_anchor payload s =
     (case decode_frame cfg is_anchor payload s of
        (None, _) \<Rightarrow> None
      | (Some (Inl a), s1) \<Rightarrow> Some (a, s1)
      | (Some (Inr (width, height, stride, regions, output)), s1) \<Rightarrow>
          let f = GpuFrame_from_data output width height stride (hdr_timestamp_ns hdr);
              (interpolated, im) = feed_manager cfg f (interpolation s1);
              s2 = update_fps cfg now (s1\<lparr>interpolation := im, rl_previous_frame := output, has_previous := True,
                      rl_frame_count := rl_frame_count s1 + 1\<rparr>) in do {
            up \<leftarrow> spatial_upscale cfg im f;
            let shown = real_frame cfg hdr (fps_ema s2) f regions up;
            (case interpolated of
               None \<Rightarrow> Some (Displayed [shown], s2)
             | Some g \<Rightarrow> do {
                 iup \<leftarrow> spatial_upscale cfg im g;
                 Some (Displayed [shown, interpolated_frame cfg hdr (fps_ema s2) g iup], s2)
               })
          })"

definition recv_resize :: "bytes \<Rightarrow> ('k, 'e) RecvLoop \<Rightarrow> ('k, 'e) RecvLoop" where
  "recv_resize payload s =
     (if ResizePayload_SIZE \<le> length payload \<and> ResizePayload_read (take ResizePayload_SIZE payload) \<noteq> None
      then s\<lparr>has_previous := False, interpolation := map_option manager_clear (interpolation s)\<rparr> else s)"

definition recv_message ::
  "('k, 'f, 'e) RecvConfig \<Rightarrow> nat \<Rightarrow> IncomingMessage \<Rightarrow> ('k, 'e) RecvLoop \<Rightarrow> (recv_action \<times> ('k, 'e) RecvLoop) option" where
  "recv_message cfg now m s = (case header_msg_type (im_header m) of
     Inr AnchorFrame \<Rightarrow> recv_frame cfg now (im_header m) True (im_payload m) s
   | Inr FrameUpdate \<Rightarrow> recv_frame cfg now (im_header m) False (im_payload m) s
   | Inr ResizeMsg \<Rightarrow> Some (OtherMessage, recv_resize (im_payload m) s)
   | _ \<Rightarrow> Some (OtherMessage, s))"

fun send_frames :: "('r, DisplayFrame) Ring \<Rightarrow> DisplayFrame list \<Rightarrow> 'r DisplayThread \<Rightarrow> bool list \<times> 'r DisplayThread" where
  "send_frames R [] t = ([], t)"
| "send_frames R (f # fs) t = (case send_frame R f t of (ok, t') \<Rightarrow>
     (case send_frames R fs t' of (oks, t'') \<Rightarrow> (ok # oks, t'')))"

text \<open>One iteration of \<open>recv_decompress_loop\<close>; \<open>None\<close> for the message is a closed transport.\<close>

definition recv_decompress_turn ::
  "('k, 'f, 'e) RecvConfig \<Rightarrow> ('r, DisplayFrame) Ring \<Rightarrow> nat \<Rightarrow> IncomingMessage option \<Rightarrow> ('k, 'e) RecvLoop \<times> 'r DisplayThread
   \<Rightarrow> ((recv_action \<times> bool list) option \<times> ('k, 'e) RecvLoop \<times> 'r DisplayThread) option" where
  "recv_decompress_turn cfg R now msg st = (case st of (s, display) \<Rightarrow> (case msg of
     None \<Rightarrow> Some (None, s, display_stop display)
   | Some m \<Rightarrow> (case recv_message cfg now m s of
        None \<Rightarrow> None
      | Some (Displayed fs, s') \<Rightarrow> (case send_frames R fs display of
          (oks, display') \<Rightarrow> Some (Some (Displayed fs, oks), s', display'))
      | Some (a, s') \<Rightarrow> Some (Some (a, []), s', display))))"

section \<open>Parsing a frame payload\<close>

definition wire_rect :: "WireRegion \<Rightarrow> DamageRect" where
  "wire_rect w = DamageRect_new (wr_x w) (wr_y w) (wr_w w) (wr_h w)"

definition wire_size :: "WireRegion \<Rightarrow> nat" where
  "wire_size w = unat (compressed_size w)"

lemma parse_region_Some:
  assumes "FrameMeta_SIZE + WireRegion_SIZE * n \<le> length payload" and "i < n"
  shows "\<exists>wr. parse_region payload i (rs, offs, sizes, k) =
    Some (Inr (rs @ [wire_rect wr], offs @ [k], sizes @ [wire_size wr], usize_add k (wire_size wr)))"
proof -
  have "i * WireRegion_SIZE + WireRegion_SIZE \<le> WireRegion_SIZE * n" using assms(2) by (simp add: Suc_leI mult.commute flip: mult_Suc)
  then obtain b where b: "vslice payload (FrameMeta_SIZE + i * WireRegion_SIZE) (FrameMeta_SIZE + i * WireRegion_SIZE + WireRegion_SIZE) = Some b"
    "length b = WireRegion_SIZE"
    using assms(1) by (simp add: vslice_def)
  then obtain wr where "WireRegion_read b = Some wr" by (simp add: WireRegion_read_def)
  with b(1) show ?thesis by (auto simp: parse_region_def wire_rect_def wire_size_def Let_def)
qed

lemma parse_regions_Some:
  assumes "FrameMeta_SIZE + WireRegion_SIZE * n \<le> length payload" and "\<forall>i \<in> set is. i < n"
  shows "\<exists>ws k'. parse_regions payload is (rs, offs, sizes, k) =
    Some (Inr (rs @ map wire_rect ws, offs @ k', sizes @ map wire_size ws, fold (\<lambda>w k. usize_add k (wire_size w)) ws k)) \<and>
    length ws = length is \<and> length k' = length is"
  using assms(2)
proof (induction "is" arbitrary: rs offs sizes k)
  case Nil
  show ?case by (intro exI [of _ "[]"]) simp
next
  case (Cons i "is")
  obtain wr where wr: "parse_region payload i (rs, offs, sizes, k) =
      Some (Inr (rs @ [wire_rect wr], offs @ [k], sizes @ [wire_size wr], usize_add k (wire_size wr)))"
    using parse_region_Some [OF assms(1), of i rs offs sizes k] Cons.prems by auto
  obtain ws k' where "parse_regions payload is (rs @ [wire_rect wr], offs @ [k], sizes @ [wire_size wr], usize_add k (wire_size wr)) =
    Some (Inr ((rs @ [wire_rect wr]) @ map wire_rect ws, (offs @ [k]) @ k', (sizes @ [wire_size wr]) @ map wire_size ws,
      fold (\<lambda>w k. usize_add k (wire_size w)) ws (usize_add k (wire_size wr))))"
    "length ws = length is" "length k' = length is"
    using Cons.IH [of "rs @ [wire_rect wr]" "offs @ [k]" "sizes @ [wire_size wr]" "usize_add k (wire_size wr)"] Cons.prems by auto
  then show ?case using wr by (intro exI [of _ "wr # ws"] exI [of _ "k # k'"]) simp
qed

text \<open>C13. A frame payload is parsed or refused, never a panic: whatever bytes arrive, \<open>deserialize_frame_payload\<close>
  returns, and what it accepts has one offset and one size for each region.\<close>

theorem payload_parse_total:
  "case deserialize_frame_payload payload of
     None \<Rightarrow> False
   | Some (Inl _) \<Rightarrow> True
   | Some (Inr (w, h, st, regions, cf)) \<Rightarrow>
       length (region_offsets cf) = length regions \<and> length (region_sizes cf) = length regions"
proof (cases "length payload < FrameMeta_SIZE")
  case True
  then show ?thesis by (simp add: deserialize_frame_payload_def)
next
  case False
  then obtain m where m: "FrameMeta_read (take FrameMeta_SIZE payload) = Some m" by (simp add: FrameMeta_read_def)
  let ?n = "unat (num_regions m)"
  show ?thesis
  proof (cases "length payload < FrameMeta_SIZE + WireRegion_SIZE * ?n")
    case True
    then show ?thesis using False m by (simp add: deserialize_frame_payload_def)
  next
    case F2: False
    obtain ws k' where "parse_regions payload [0..<?n] ([], [], [], 0) =
      Some (Inr ([] @ map wire_rect ws, [] @ k', [] @ map wire_size ws, fold (\<lambda>w k. usize_add k (wire_size w)) ws 0))"
      "length ws = length [0..<?n]" "length k' = length [0..<?n]"
      using parse_regions_Some [of ?n payload "[0..<?n]" "[]" "[]" "[]" 0] F2 by auto
    then show ?thesis using False F2 m by (simp add: deserialize_frame_payload_def Let_def)
  qed
qed

section \<open>Parsing what was serialised\<close>

lemma parse_regions_wire:
  assumes "payload = pre @ concat (map WireRegion_bytes (ws1 @ ws2)) @ post" and "length pre = FrameMeta_SIZE"
    and "k + sum_list (map wire_size ws2) < usize_bound"
  shows "parse_regions payload [length ws1..<length ws1 + length ws2] (rs, offs, sizes, k) =
    Some (Inr (rs @ map wire_rect ws2, offs @ offsets_from k (map wire_size ws2), sizes @ map wire_size ws2,
      k + sum_list (map wire_size ws2)))"
  using assms
proof (induction ws2 arbitrary: ws1 rs offs sizes k)
  case (Cons w ws2)
  have len: "length (concat (map WireRegion_bytes ws)) = length ws * WireRegion_SIZE" for ws
    by (rule length_concat_const) simp
  have "vslice payload (FrameMeta_SIZE + length ws1 * WireRegion_SIZE)
      (FrameMeta_SIZE + length ws1 * WireRegion_SIZE + WireRegion_SIZE) = Some (WireRegion_bytes w)"
    using Cons.prems(1,2) len [of ws1] by (simp add: vslice_def)
  then have step: "parse_region payload (length ws1) (rs, offs, sizes, k) =
      Some (Inr (rs @ [wire_rect w], offs @ [k], sizes @ [wire_size w], usize_add k (wire_size w)))"
    by (simp add: parse_region_def wire_region.get_put wire_rect_def wire_size_def Let_def)
  have add: "usize_add k (wire_size w) = k + wire_size w" using Cons.prems(3) by (simp add: no_wrap)
  have upt: "[length ws1..<length ws1 + length (w # ws2)] = length ws1 # [length (ws1 @ [w])..<length (ws1 @ [w]) + length ws2]"
    by (subst upt_conv_Cons) simp_all
  have "parse_regions payload [length (ws1 @ [w])..<length (ws1 @ [w]) + length ws2]
      (rs @ [wire_rect w], offs @ [k], sizes @ [wire_size w], k + wire_size w) =
    Some (Inr ((rs @ [wire_rect w]) @ map wire_rect ws2, (offs @ [k]) @ offsets_from (k + wire_size w) (map wire_size ws2),
      (sizes @ [wire_size w]) @ map wire_size ws2, k + wire_size w + sum_list (map wire_size ws2)))"
    using Cons.prems by (intro Cons.IH) simp_all
  then show ?case unfolding upt by (simp add: step add add.assoc)
qed simp

lemma deserialize_wire:
  assumes "payload = FrameMeta_bytes (FrameMeta_new w h st (word_of_nat (length ws))) @ concat (map WireRegion_bytes ws) @ data"
    and "length ws < 4294967296" and "sum_list (map wire_size ws) \<le> length data" and "length data < usize_bound"
  shows "deserialize_frame_payload payload =
    Some (Inr (w, h, st, map wire_rect ws, \<lparr>cf_data = data, region_offsets = offsets_from 0 (map wire_size ws),
      region_sizes = map wire_size ws, cf_stats = FrameStats_default\<rparr>))"
proof -
  let ?m = "FrameMeta_new w h st (word_of_nat (length ws))"
  have len: "length (concat (map WireRegion_bytes ws)) = length ws * WireRegion_SIZE" by (rule length_concat_const) simp
  have n: "unat (num_regions ?m) = length ws" using assms(2) by (simp add: FrameMeta_new_def unat_u32_nat)
  have "take FrameMeta_SIZE payload = FrameMeta_bytes ?m" using assms(1) by simp
  then have m: "FrameMeta_read (take FrameMeta_SIZE payload) = Some ?m" by (simp add: frame_meta.get_put)
  have total: "length payload = FrameMeta_SIZE + WireRegion_SIZE * length ws + length data"
    using assms(1) len by simp
  have rest: "drop (FrameMeta_SIZE + WireRegion_SIZE * length ws) payload = data"
    using assms(1) len by (simp add: mult.commute)
  have "parse_regions payload [0..<length ws] ([], [], [], 0) =
      Some (Inr (map wire_rect ws, offsets_from 0 (map wire_size ws), map wire_size ws, sum_list (map wire_size ws)))"
    using assms(3,4) parse_regions_wire [of payload "FrameMeta_bytes ?m" "[]" ws data 0 "[]" "[]" "[]"] assms(1)
    by simp
  then show ?thesis
    using m n total rest assms(3) by (simp add: deserialize_frame_payload_def Let_def FrameMeta_new_def)
qed

end
