(* ===== verification/Mirror.thy ===== *)
theory Mirror
  imports Multiplexer Server Client
begin

text \<open>
  The two ends together: what the server serialises the client parses, what it compresses against
  its own previous frame the client decodes against its own, and over a whole session the
  client shows the captured frames.
\<close>

section \<open>Serialising and parsing\<close>

definition wire_regions :: "DamageRect list \<Rightarrow> bytes list \<Rightarrow> WireRegion list" where
  "wire_regions rs blobs =
     map2 (\<lambda>r b. WireRegion_new (dr_x r) (dr_y r) (dr_width r) (dr_height r) (word_of_nat (length b))) rs blobs"

lemma serialize_wire:
  assumes "region_sizes cf = map length blobs" and "length rs = length blobs"
  shows "serialize_frame_payload w h st rs cf =
    Some (FrameMeta_bytes (FrameMeta_new w h st (word_of_nat (length rs))) @
          concat (map WireRegion_bytes (wire_regions rs blobs)) @ cf_data cf)"
proof -
  let ?g = "\<lambda>(i, rect). WireRegion_bytes (WireRegion_new (dr_x rect) (dr_y rect) (dr_width rect) (dr_height rect)
                 (word_of_nat (length (blobs ! i))))"
  have fold: "fold_opt (\<lambda>(i, rect) payload. do {
         sz \<leftarrow> index (region_sizes cf) i;
         Some (payload @ WireRegion_bytes (WireRegion_new (dr_x rect) (dr_y rect) (dr_width rect) (dr_height rect)
                 (word_of_nat sz)))
       }) (enumerate 0 rs) pl = Some (pl @ concat (map ?g (enumerate 0 rs)))" for pl
    by (rule fold_opt_emit) (use assms in \<open>auto simp: in_set_enumerate_eq index_def\<close>)
  have "map ?g (enumerate 0 rs) = map WireRegion_bytes (wire_regions rs blobs)"
    using assms(2) by (intro nth_equalityI) (simp_all add: wire_regions_def nth_enumerate_eq)
  then show ?thesis by (simp add: serialize_frame_payload_def fold)
qed

lemma wire_regions_back:
  assumes "length rs = length blobs" and "list_all (\<lambda>b. length b < 4294967296) blobs"
  shows "map wire_rect (wire_regions rs blobs) = rs" and "map wire_size (wire_regions rs blobs) = map length blobs"
    and "length (wire_regions rs blobs) = length rs"
proof -
  show "map wire_rect (wire_regions rs blobs) = rs"
    using assms(1) by (intro nth_equalityI) (simp_all add: wire_regions_def wire_rect_def WireRegion_new_def DamageRect_new_def)
  show "map wire_size (wire_regions rs blobs) = map length blobs"
    using assms by (intro nth_equalityI)
      (simp_all add: wire_regions_def wire_size_def WireRegion_new_def list_all_length unat_u32_nat)
qed (use assms(1) in \<open>simp add: wire_regions_def\<close>)

lemma payload_parsed:
  assumes "describes cf blobs" and "cf_data cf = concat blobs" and "length rs = length blobs" and "length rs < 4294967296"
    and "list_all (\<lambda>b. length b < 4294967296) blobs"
  shows "\<exists>payload cf'. serialize_frame_payload w h st rs cf = Some payload \<and>
     deserialize_frame_payload payload = Some (Inr (w, h, st, rs, cf')) \<and>
     cf_data cf' = cf_data cf \<and> region_offsets cf' = region_offsets cf \<and> region_sizes cf' = region_sizes cf \<and>
     frame_blobs cf' rs = Some blobs \<and> length payload = FrameMeta_SIZE + WireRegion_SIZE * length rs + length (cf_data cf)"
proof -
  note wb = wire_regions_back [OF assms(3,5)]
  have cf: "region_sizes cf = map length blobs" "region_offsets cf = offsets_from 0 (map length blobs)"
    "length (cf_data cf) < usize_bound"
    using assms(1) by (simp_all add: describes_def)
  let ?p = "FrameMeta_bytes (FrameMeta_new w h st (word_of_nat (length rs))) @
          concat (map WireRegion_bytes (wire_regions rs blobs)) @ cf_data cf"
  let ?cf = "\<lparr>cf_data = cf_data cf, region_offsets = offsets_from 0 (map length blobs), region_sizes = map length blobs,
      cf_stats = FrameStats_default\<rparr>"
  have "deserialize_frame_payload ?p = Some (Inr (w, h, st, rs, ?cf))"
    using deserialize_wire [of ?p w h st "wire_regions rs blobs" "cf_data cf"] wb assms(2,4) cf(3)
    by (simp add: length_concat)
  moreover have "frame_blobs ?cf rs = Some blobs"
    using assms(1,3) by (intro frame_blobs_describes) (simp_all add: describes_def)
  moreover have "length ?p = FrameMeta_SIZE + WireRegion_SIZE * length rs + length (cf_data cf)"
    using length_concat_const [of "wire_regions rs blobs" WireRegion_bytes WireRegion_SIZE] wb(3) by simp
  ultimately show ?thesis
    using serialize_wire [OF cf(1) assms(3), of w h st] cf by (intro exI [of _ ?p] exI [of _ ?cf]) simp
qed

text \<open>C4. Frame payloads round trip: a frame whose three vectors describe its blobs, with fewer than 2^32 regions and
  blobs under 4 GiB, is parsed by the client into the same dimensions and regions, and its
  blobs are found again.\<close>

theorem payload_roundtrip:
  assumes "describes cf blobs" and "cf_data cf = concat blobs" and "length rs = length blobs" and "length rs < 4294967296"
    and "list_all (\<lambda>b. length b < 4294967296) blobs"
  shows "\<exists>payload cf'. serialize_frame_payload w h st rs cf = Some payload \<and>
     deserialize_frame_payload payload = Some (Inr (w, h, st, rs, cf')) \<and>
     cf_data cf' = cf_data cf \<and> region_offsets cf' = region_offsets cf \<and> region_sizes cf' = region_sizes cf \<and>
     frame_blobs cf' rs = Some blobs \<and> length payload = FrameMeta_SIZE + WireRegion_SIZE * length rs + length (cf_data cf)"
  using payload_parsed [OF assms] .

theorem payload_roundtrip_witness:
  "\<exists>payload cf'. serialize_frame_payload 1 1 4 [DamageRect_new 0 0 1 1] (stitch [5, 6] CompressedFrame_default) = Some payload \<and>
     deserialize_frame_payload payload = Some (Inr (1, 1, 4, [DamageRect_new 0 0 1 1], cf')) \<and>
     cf_data cf' = cf_data (stitch [5, 6] CompressedFrame_default) \<and>
     region_offsets cf' = region_offsets (stitch [5, 6] CompressedFrame_default) \<and>
     region_sizes cf' = region_sizes (stitch [5, 6] CompressedFrame_default) \<and>
     frame_blobs cf' [DamageRect_new 0 0 1 1] = Some [[5, 6]] \<and>
     length payload = FrameMeta_SIZE + WireRegion_SIZE * length [DamageRect_new 0 0 1 1] +
       length (cf_data (stitch [5, 6] CompressedFrame_default))"
  by (rule payload_roundtrip) (simp_all add: describes_def stitch_def CompressedFrame_default_def)

section \<open>One frame\<close>

text \<open>The frame a client with base \<open>pc\<close> reconstructs from a delta of \<open>cur\<close> taken against \<open>ps\<close>.\<close>

definition shifted :: "bytes \<Rightarrow> bytes \<Rightarrow> bytes \<Rightarrow> bytes" where
  "shifted cur ps pc = map (\<lambda>j. (cur ! j XOR ps ! j) XOR pc ! j) [0..<length pc]"

lemma length_shifted [simp]: "length (shifted cur ps pc) = length pc"
  by (simp add: shifted_def)

lemma rect_delta_shifted:
  assumes "length cur = length pc" and "length ps = length pc" and "rect_fits (length pc) st r"
  shows "rect_delta (shifted cur ps pc) pc st r = rect_delta cur ps st r"
proof -
  have "xor_seg (shifted cur ps pc) pc s = xor_seg cur ps s" if "seg_fits (length pc) s" for s
  proof (rule nth_equalityI)
    show "length (xor_seg (shifted cur ps pc) pc s) = length (xor_seg cur ps s)"
      using assms that by (simp add: length_xor_seg)
    fix i assume "i < length (xor_seg (shifted cur ps pc) pc s)"
    then have i: "i < snd s" "fst s + i < length pc" using that by (simp_all add: length_xor_seg seg_fits_def)
    then show "xor_seg (shifted cur ps pc) pc s ! i = xor_seg cur ps s ! i"
      using assms by (simp add: xor_seg_def shifted_def xor.assoc)
  qed
  then show ?thesis
    using assms(3) by (simp add: rect_delta_def rect_fits_def list_all_iff cong: map_cong)
qed

text \<open>What the codecs must do beyond inverting themselves: encoding a block under 2 GiB succeeds and stays under
  4 GiB.\<close>

definition encoder_ok :: "Codecs \<Rightarrow> CompressorKind \<Rightarrow> bool" where
  "encoder_ok E kind \<longleftrightarrow> codecs_ok E \<and>
     (\<forall>d. length d < 2147483648 \<longrightarrow> compressible E kind d \<and> length (blob_of E kind d) < 4294967296)"

lemma encoder_okD:
  assumes "encoder_ok E kind" and "length d < 2147483648"
  shows "compressible E kind d" and "length (blob_of E kind d) < 4294967296"
  using assms unfolding encoder_ok_def by blast+

definition frame_shape :: "u32 \<Rightarrow> u32 \<Rightarrow> u32 \<Rightarrow> bool" where
  "frame_shape w h st \<longleftrightarrow> 0 < w \<and> unat w * 4 \<le> unat st \<and> unat st * unat h < 2147483648"

definition rect_inside :: "u32 \<Rightarrow> u32 \<Rightarrow> DamageRect \<Rightarrow> bool" where
  "rect_inside w h r \<longleftrightarrow> unat (dr_x r) + unat (dr_width r) \<le> unat w \<and> unat (dr_y r) + unat (dr_height r) \<le> unat h"

definition regions_ok :: "u32 \<Rightarrow> u32 \<Rightarrow> DamageRect list \<Rightarrow> bool" where
  "regions_ok w h rs \<longleftrightarrow> length rs < 1073741824 \<and> list_all (rect_inside w h) rs"

lemma rect_inside_row:
  assumes "frame_shape w h st" and "rect_inside w h r" and "row < unat (dr_height r)"
  shows "fst (row_seg (unat st) r row) + snd (row_seg (unat st) r row) \<le> unat st * unat h"
proof -
  have x: "unat (dr_x r) * 4 + unat (dr_width r) * 4 \<le> unat st"
    using assms(1,2) by (simp add: frame_shape_def rect_inside_def)
  have "Suc (unat (dr_y r) + row) * unat st \<le> unat h * unat st"
    by (rule mult_le_mono1) (use assms(2,3) in \<open>simp add: rect_inside_def\<close>)
  then show ?thesis using x by (simp add: row_seg_def mult.commute)
qed

lemma rect_inside_fits: "frame_shape w h st \<Longrightarrow> rect_inside w h r \<Longrightarrow> rect_fits (unat st * unat h) (unat st) r"
  using rect_inside_row [of w h st r] by (simp add: rect_fits_def rect_segments_def list_all_iff seg_fits_def)

lemma rect_inside_bytes:
  assumes "frame_shape w h st" and "rect_inside w h r"
  shows "rect_bytes r < 2147483648"
proof -
  have "unat (dr_width r) * 4 * unat (dr_height r) \<le> unat st * unat h"
    using assms by (intro mult_le_mono) (auto simp: frame_shape_def rect_inside_def)
  moreover have "unat st * unat h < 2147483648" using assms(1) by (simp only: frame_shape_def)
  ultimately show ?thesis unfolding rect_bytes_def by linarith
qed

lemma regions_ok_frame:
  assumes "frame_shape w h st" and "regions_ok w h rs"
  shows "frame_ok (unat st * unat h) (unat st) rs" and "delta_total rs < 9223372036854775808"
proof -
  show "frame_ok (unat st * unat h) (unat st) rs"
    using assms rect_inside_fits [OF assms(1)] by (auto simp: frame_ok_def frame_shape_def regions_ok_def list_all_iff)
  have "delta_total rs \<le> sum_list (map (\<lambda>_. 2147483648) rs)"
    unfolding delta_total_def using assms(2) rect_inside_bytes [OF assms(1)]
    by (intro sum_list_mono) (auto simp: regions_ok_def list_all_iff less_imp_le)
  also have "\<dots> = length rs * 2147483648" by (simp add: sum_list_triv)
  finally show "delta_total rs < 9223372036854775808" using assms(2) by (simp add: regions_ok_def)
qed

text \<open>One frame through compression, the payload and decompression, with any client base of the right
  length.\<close>

lemma frame_transfer:
  assumes E: "encoder_ok E kind" and shape: "frame_shape w h st" and rs: "regions_ok w h rs"
    and len: "length cur = unat st * unat h" "length ps = unat st * unat h" "length pc = unat st * unat h"
  shows "\<exists>scratch cf payload cf'. compress_frame_into E cur ps (unat st) rs out kind clock = Some (scratch, cf) \<and>
     serialize_frame_payload w h st rs cf = Some payload \<and>
     deserialize_frame_payload payload = Some (Inr (w, h, st, rs, cf')) \<and>
     decompress_frame_into E cf' pc (unat st) rs output kind = Some (Inr (overlay (unat st) rs (shifted cur ps pc) pc)) \<and>
     length payload < 9223372036854775808"
proof -
  have cod: "codecs_ok E" using E by (simp add: encoder_ok_def)
  note ok = regions_ok_frame [OF shape rs]
  define blobs where "blobs = map (blob_of E kind) (map (rect_delta cur ps (unat st)) rs)"
  have fit: "rect_fits (unat st * unat h) (unat st) r" if "r \<in> set rs" for r
    using that rs rect_inside_fits [OF shape] by (simp add: regions_ok_def list_all_iff)
  have dl: "length (rect_delta cur ps (unat st) r) < 2147483648" if "r \<in> set rs" for r
    using that rs length_rect_delta [of cur ps "unat st" r] fit [OF that] len rect_inside_bytes [OF shape, of r]
    by (simp add: regions_ok_def list_all_iff)
  have small: "list_all (\<lambda>b. length b < 4294967296) blobs"
    using encoder_okD(2) [OF E dl] by (simp add: blobs_def list_all_iff)
  have lb: "length rs = length blobs" by (simp add: blobs_def)
  have "sum_list (map length blobs) \<le> sum_list (map (\<lambda>_. 4294967296) blobs)"
    using small by (intro sum_list_mono) (auto simp: list_all_iff less_imp_le)
  then have sum: "length (concat blobs) \<le> length rs * 4294967296" by (simp add: length_concat sum_list_triv lb)
  have total: "delta_total rs < usize_bound" using ok(2) by simp
  have f: "frame_ok (length ps) (unat st) rs" "length cur = length ps" using ok(1) len by simp_all
  obtain scratch cf where run: "compress_frame_into E cur ps (unat st) rs out kind clock = Some (scratch, cf)"
    and data: "cf_data cf = concat blobs"
    using compress_frame_into_blobs [OF cod f total, of out kind clock]
    by (auto simp: fold_stitch CompressedFrame_reset_def blobs_def)
  have dlen: "length (cf_data cf) \<le> 1073741823 * 4294967296" using sum data rs
    by (simp add: regions_ok_def)
  then have desc: "describes cf blobs"
    unfolding blobs_def by (intro compress_frame_into_describes(1) [OF cod f total run]) simp
  have n: "length rs < 4294967296" using rs by (simp add: regions_ok_def)
  obtain payload cf' where p: "serialize_frame_payload w h st rs cf = Some payload"
    "deserialize_frame_payload payload = Some (Inr (w, h, st, rs, cf'))"
    "cf_data cf' = cf_data cf" "region_offsets cf' = region_offsets cf" "region_sizes cf' = region_sizes cf"
    "length payload = FrameMeta_SIZE + WireRegion_SIZE * length rs + length (cf_data cf)"
    using payload_parsed [OF desc data lb n small, of w h st] by blast
  have same: "map (rect_delta (shifted cur ps pc) pc (unat st)) rs = map (rect_delta cur ps (unat st)) rs"
    using len fit by (auto intro!: rect_delta_shifted)
  have "decompress_frame_into E cf' pc (unat st) rs output kind = Some (Inr (overlay (unat st) rs (shifted cur ps pc) pc))"
  proof (rule decompress_describes [OF cod])
    show "frame_ok (length pc) (unat st) rs" using ok(1) len by simp
    show "list_all (compressible E kind) (map (rect_delta (shifted cur ps pc) pc (unat st)) rs)"
      unfolding same using encoder_okD(1) [OF E dl] by (simp add: list_all_iff)
    show "describes cf' (map (blob_of E kind) (map (rect_delta (shifted cur ps pc) pc (unat st)) rs))"
      unfolding same using desc p(3-5) by (simp add: describes_def blobs_def)
  qed (use len ok(2) in simp_all)
  moreover have "length payload < 9223372036854775808" using p(6) dlen rs by (simp add: regions_ok_def)
  ultimately show ?thesis using run p(1,2) by blast
qed

section \<open>What is visible\<close>

definition in_view :: "u32 \<Rightarrow> u32 \<Rightarrow> u32 \<Rightarrow> bytes \<Rightarrow> bytes \<Rightarrow> bool" where
  "in_view w h st a b \<longleftrightarrow> length a = length b \<and>
     list_all (\<lambda>j. covered (unat st) [DamageRect_new 0 0 w h] j \<longrightarrow> a ! j = b ! j) [0..<length b]"

lemma in_viewD:
  "in_view w h st a b \<Longrightarrow> j < length b \<Longrightarrow> covered (unat st) [DamageRect_new 0 0 w h] j \<Longrightarrow> a ! j = b ! j"
  by (simp add: in_view_def list_all_iff)

lemma in_view_refl [simp]: "in_view w h st a a"
  by (simp add: in_view_def list_all_iff)

text \<open>The capture contract: the damage lies in the frame and covers every visible byte in which the frame
  differs from the one before.\<close>

definition damage_covers :: "u32 \<Rightarrow> u32 \<Rightarrow> u32 \<Rightarrow> DamageRect list \<Rightarrow> bytes \<Rightarrow> bytes \<Rightarrow> bool" where
  "damage_covers w h st rs cur lst \<longleftrightarrow> regions_ok w h rs \<and>
     list_all (\<lambda>j. covered (unat st) [DamageRect_new 0 0 w h] j \<longrightarrow> covered (unat st) rs j \<or> cur ! j = lst ! j) [0..<length cur]"

lemma overlay_in_view:
  assumes "damage_covers w h st rs cur ps" and "in_view w h st ps pc" and "length cur = length ps"
  shows "in_view w h st (overlay (unat st) rs (shifted cur ps pc) pc) cur"
proof -
  have len: "length pc = length cur" using assms(2,3) by (simp add: in_view_def)
  have "overlay (unat st) rs (shifted cur ps pc) pc ! j = cur ! j"
    if "j < length cur" "covered (unat st) [DamageRect_new 0 0 w h] j" for j
  proof -
    have eq: "ps ! j = pc ! j" using in_viewD [OF assms(2)] that len by simp
    have "covered (unat st) rs j \<or> cur ! j = ps ! j"
      using assms(1) that by (simp add: damage_covers_def list_all_iff)
    then show ?thesis using that len eq by (auto simp: nth_overlay shifted_def xor.assoc)
  qed
  then show ?thesis using len by (simp add: in_view_def list_all_iff)
qed

lemma regions_ok_stripes:
  assumes "frame_shape w h st"
  shows "regions_ok w h (stripe_full_frame w h k)"
proof -
  let ?n = "unat (stripe_count h k)"
  have le: "stripe_y ?n (unat h) i + stripe_h ?n (unat h) i \<le> unat h" if "i < ?n" for i
    using stripe_y_mono [of "Suc i" ?n ?n "unat h"] stripe_y_last [of ?n "unat h"] stripe_count_pos [of h k] that
    by (simp add: stripe_y_Suc word_less_nat_alt)
  have "rect_inside w h (stripe_rect w ?n (unat h) i)" if "i < ?n" for i
    using le [OF that] unat_lt_u32 [of h] by (simp add: rect_inside_def stripe_rect_def DamageRect_new_def unat_u32_nat)
  moreover have "?n < 1073741824"
  proof -
    have "4 \<le> unat st" "unat st * unat h < 2147483648"
      using assms by (simp_all add: frame_shape_def word_less_nat_alt)
    moreover have "4 * unat h \<le> unat st * unat h" using calculation(1) by (rule mult_le_mono1)
    ultimately have "unat h < 536870912" by linarith
    moreover have "?n \<le> max (unat h) 1"
      by (auto simp: stripe_count_def max_def min_def word_le_nat_alt split: if_splits)
    ultimately show ?thesis by simp
  qed
  ultimately show ?thesis
    by (auto simp: regions_ok_def stripe_full_frame_rects list_all_iff)
qed

lemma stripes_cover_damage:
  assumes "frame_shape w h st"
  shows "damage_covers w h st (stripe_full_frame w h k) cur ps"
  using regions_ok_stripes [OF assms]
  by (simp add: damage_covers_def list_all_iff covered_def stripe_segments)

section \<open>Sessions\<close>

record Turn =
  tn_frame :: CapturedFrame
  tn_skipped :: bool
  tn_dropped :: bool
  tn_clock :: "duration \<times> duration"

text \<open>The damage of a turn matters only when nothing was skipped, dropped or scaled.\<close>

definition trusted :: "SendConfig \<Rightarrow> Turn \<Rightarrow> bool" where
  "trusted cfg t \<longleftrightarrow> sc_scale cfg = None \<and> \<not> tn_skipped t \<and> \<not> tn_dropped t \<and> damage (tn_frame t) \<noteq> []"

definition turn_ok :: "SendConfig \<Rightarrow> u32 \<Rightarrow> u32 \<Rightarrow> u32 \<Rightarrow> bytes option \<Rightarrow> Turn \<Rightarrow> bool" where
  "turn_ok cfg w h st lst t = (case scaled_frame cfg (tn_frame t) of
     None \<Rightarrow> False
   | Some (d, w', h', st') \<Rightarrow> w' = w \<and> h' = h \<and> st' = st \<and> length d = unat st * unat h \<and>
       (case lst of
          Some l \<Rightarrow> trusted cfg t \<longrightarrow> damage_covers w h st (damage (tn_frame t)) d l
        | None \<Rightarrow> True))"

definition turn_data :: "SendConfig \<Rightarrow> Turn \<Rightarrow> bytes" where
  "turn_data cfg t = (case scaled_frame cfg (tn_frame t) of Some (d, _) \<Rightarrow> d | None \<Rightarrow> [])"

fun session_ok :: "SendConfig \<Rightarrow> u32 \<Rightarrow> u32 \<Rightarrow> u32 \<Rightarrow> bytes option \<Rightarrow> Turn list \<Rightarrow> bool" where
  "session_ok cfg w h st lst [] = True"
| "session_ok cfg w h st lst (t # ts) =
     (turn_ok cfg w h st lst t \<and> session_ok cfg w h st (Some (turn_data cfg t)) ts)"

text \<open>The server over a session: what it accepted for sending, with the frame each message carries.\<close>

fun send_run ::
  "'u Mpsc \<Rightarrow> 'b Mpsc \<Rightarrow> SendConfig \<Rightarrow> Turn list \<Rightarrow> ('u, 'b) SendLoop \<Rightarrow> ((bytes \<times> Outgoing) list \<times> ('u, 'b) SendLoop) option" where
  "send_run U B cfg [] s = Some ([], s)"
| "send_run U B cfg (t # ts) s = do {
     ((mt, payload, sent), s') \<leftarrow> send_turn U B cfg (tn_clock t) (tn_frame t) (tn_skipped t) (tn_dropped t) s;
     (ms, s'') \<leftarrow> send_run U B cfg ts s';
     Some ((if sent then [(turn_data cfg t, \<lparr>out_sid = 1, out_type = mt, out_flags = COMPRESSED,
              out_ts = cap_timestamp_ns (tn_frame t), out_payload = payload\<rparr>)] else []) @ ms, s'')
   }"

fun recv_run ::
  "('k, 'f, 'e) RecvConfig \<Rightarrow> nat \<Rightarrow> IncomingMessage list \<Rightarrow> ('k, 'e) RecvLoop \<Rightarrow> (recv_action list \<times> ('k, 'e) RecvLoop) option" where
  "recv_run cfg now [] c = Some ([], c)"
| "recv_run cfg now (m # ms) c = do {
     (a, c') \<leftarrow> recv_message cfg now m c;
     (as, c'') \<leftarrow> recv_run cfg now ms c';
     Some (a # as, c'')
   }"

text \<open>Both ends between turns: the bases agree where it is visible, and unless full damage is due the server's base is
  the last frame it processed.\<close>

definition base_of :: "nat \<Rightarrow> bytes \<Rightarrow> bytes" where
  "base_of n p = vec_resize p n 0"

definition server_state :: "nat \<Rightarrow> bytes option \<Rightarrow> ('u, 'b) SendLoop \<Rightarrow> bool" where
  "server_state n lst s \<longleftrightarrow>
     (is_first s \<or> length (previous_frame s) = n \<and> (need_full_damage s \<or> lst = Some (previous_frame s)))"

definition client_state :: "nat \<Rightarrow> ('k, 'e) RecvLoop \<Rightarrow> bool" where
  "client_state n c \<longleftrightarrow> (has_previous c \<longrightarrow> length (rl_previous_frame c) = n)"

lemma vec_resize_keep [simp]: "length p = n \<Longrightarrow> vec_resize p n z = p"
  by (auto simp: vec_resize_same)

lemma base_of_same [simp]: "length p = n \<Longrightarrow> base_of n p = p"
  by (auto simp: base_of_def)

lemma length_base_of [simp]: "length (base_of n p) = n"
  by (simp add: base_of_def)

lemma send_step:
  assumes E: "encoder_ok (sc_codecs cfg) (sc_kind cfg)" and shape: "frame_shape w h st"
    and t: "turn_ok cfg w h st lst t" and s: "server_state (unat st * unat h) lst s"
  shows "\<exists>mt payload sent s' rs cf. send_turn U B cfg (tn_clock t) (tn_frame t) (tn_skipped t) (tn_dropped t) s = Some ((mt, payload, sent), s') \<and>
     mt \<in> {AnchorFrame, FrameUpdate} \<and> length payload < 9223372036854775808 \<and>
     (force_anchor s \<longrightarrow> mt = AnchorFrame \<and> rs = stripe_full_frame w h (max (sc_threads cfg) 1)) \<and>
     deserialize_frame_payload payload = Some (Inr (w, h, st, rs, cf)) \<and>
     damage_covers w h st rs (turn_data cfg t) (base_of (unat st * unat h) (previous_frame s)) \<and>
     (\<forall>pc. length pc = unat st * unat h \<longrightarrow>
        decompress_frame_into (sc_codecs cfg) cf pc (unat st) rs [] (sc_kind cfg) =
          Some (Inr (overlay (unat st) rs (shifted (turn_data cfg t) (base_of (unat st * unat h) (previous_frame s)) pc) pc))) \<and>
     base_of (unat st * unat h) (previous_frame s') =
       (if sent then turn_data cfg t else base_of (unat st * unat h) (previous_frame s)) \<and>
     server_state (unat st * unat h) (Some (turn_data cfg t)) s'"
proof -
  let ?n = "unat st * unat h" and ?f = "tn_frame t"
  define d where "d = turn_data cfg t"
  have sc: "scaled_frame cfg ?f = Some (d, w, h, st)" and ld: "length d = ?n"
    using t by (auto simp: turn_ok_def d_def turn_data_def split: option.splits)
  define base where "base = base_of ?n (previous_frame s)"
  define full where "full \<longleftrightarrow> need_full_damage s \<or> tn_skipped t \<or> tn_dropped t"
  define rs where "rs = frame_regions cfg (force_anchor s \<or> damage ?f = [] \<or> full) w h ?f"
  have lb: "length base = ?n" by (simp add: base_def)
  have cover: "damage_covers w h st rs d base"
  proof (cases "(force_anchor s \<or> damage ?f = [] \<or> full) \<or> sc_scale cfg \<noteq> None")
    case True
    then show ?thesis using stripes_cover_damage [OF shape] by (auto simp: rs_def frame_regions_def)
  next
    case False
    have "\<not> is_first s" using False by (auto simp: force_anchor_def)
    then have prev: "length (previous_frame s) = ?n" "lst = Some (previous_frame s)"
      using s False by (auto simp: server_state_def full_def)
    have "trusted cfg t" using False by (simp add: trusted_def full_def)
    then have "damage_covers w h st (damage ?f) d (previous_frame s)"
      using t sc prev(2) by (simp add: turn_ok_def)
    moreover have "rs = damage ?f"
      using False by (simp add: rs_def frame_regions_def DamageRect_new_def map_idI)
    ultimately show ?thesis using prev(1) by (simp add: base_def)
  qed
  have rs: "regions_ok w h rs" using cover by (simp add: damage_covers_def)
  have b: "(if force_anchor s then vec_resize (previous_frame s) (length d) 0 else previous_frame s) = base"
    using s ld by (auto simp: base_def base_of_def server_state_def force_anchor_def)
  obtain scratch cf payload cf' where run:
      "compress_frame_into (sc_codecs cfg) d base (unat st) rs (sl_compressed s) (sc_kind cfg) (tn_clock t) = Some (scratch, cf)"
    and ser: "serialize_frame_payload w h st rs cf = Some payload"
    and des: "deserialize_frame_payload payload = Some (Inr (w, h, st, rs, cf'))" and lp: "length payload < 9223372036854775808"
    using frame_transfer [OF E shape rs ld lb lb] by blast
  have dec: "decompress_frame_into (sc_codecs cfg) cf' pc (unat st) rs [] (sc_kind cfg) =
      Some (Inr (overlay (unat st) rs (shifted d base pc) pc))" if "length pc = ?n" for pc
    using frame_transfer [OF E shape rs ld lb that, of "sl_compressed s" "tn_clock t" "[]"] run ser des by auto
  let ?mt = "if force_anchor s then AnchorFrame else FrameUpdate"
  obtain wire where wire: "split_into_chunks 1 ?mt COMPRESSED payload (cap_timestamp_ns ?f) CHUNK_SIZE [] = Some wire"
    using split_into_chunks_frames [of CHUNK_SIZE payload] lp by (simp add: CHUNK_SIZE_def)
  obtain sent sender where snd: "(if force_anchor s then send_anchor U (sl_sender s) wire else try_send_frame B (sl_sender s) wire) = (sent, sender)"
    by fastforce
  let ?s' = "\<lparr>previous_frame = (if sent then d else base), is_first = False, sl_frame_count = sl_frame_count s + 1,
        need_full_damage = \<not> sent, sl_compressed = cf, sl_sender = sender\<rparr>"
  have "send_turn U B cfg (tn_clock t) ?f (tn_skipped t) (tn_dropped t) s = Some ((?mt, payload, sent), ?s')"
    using run ser wire snd by (simp add: send_turn_def sc b full_def [symmetric] rs_def [symmetric] disj_assoc)
  moreover have "base_of ?n (previous_frame ?s') = (if sent then d else base)" using ld lb by simp
  moreover have "server_state ?n (Some d) ?s'" using ld lb by (auto simp: server_state_def)
  moreover have "force_anchor s \<Longrightarrow> rs = stripe_full_frame w h (max (sc_threads cfg) 1)" by (simp add: rs_def frame_regions_def)
  ultimately show ?thesis
    unfolding d_def [symmetric] base_def [symmetric] using des lp cover dec
    by (intro exI [of _ ?mt] exI [of _ payload] exI [of _ sent] exI [of _ ?s'] exI [of _ rs] exI [of _ cf']) simp
qed

lemma recv_step:
  assumes "rc_upscale cfg = None" and shape: "frame_shape w h st"
    and "header_msg_type (im_header m) = Inr mt" and "mt \<in> {AnchorFrame, FrameUpdate}"
    and "deserialize_frame_payload (im_payload m) = Some (Inr (w, h, st, rs, cf))"
    and "client_state (unat st * unat h) c"
    and "decompress_frame_into (rc_codecs cfg) cf (base_of (unat st * unat h) (rl_previous_frame c)) (unat st) rs [] (rc_kind cfg) =
       Some (Inr output)"
  shows "\<exists>shown more c'. recv_message cfg now m c = Some (Displayed (shown # more), c') \<and>
     rl_previous_frame c' = output \<and> has_previous c' \<and> df_width shown = w \<and> df_height shown = h \<and>
     df_stride shown = st \<and> (rc_debug cfg \<or> df_data shown = output)"
proof -
  have size: "unat (st * h) = unat st * unat h" using shape by (simp add: frame_shape_def u32_mult mult.commute)
  define s1 where "s1 = (if mt = AnchorFrame \<or> \<not> has_previous c
      then c\<lparr>rl_previous_frame := vec_resize (rl_previous_frame c) (unat st * unat h) 0,
             interpolation := map_option reset_anchor (interpolation c)\<rparr> else c)"
  have base: "rl_previous_frame s1 = base_of (unat st * unat h) (rl_previous_frame c)"
    using assms(6) by (auto simp: s1_def base_of_def client_state_def)
  have "decode_frame cfg (mt = AnchorFrame) (im_payload m) c = (Some (Inr (w, h, st, rs, output)), s1)"
    by (simp only: decode_frame_def assms(5) option.case sum.case prod.case Let_def size s1_def [symmetric] base assms(7))
  moreover have "recv_message cfg now m c = recv_frame cfg now (im_header m) (mt = AnchorFrame) (im_payload m) c"
    using assms(3,4) by (auto simp: recv_message_def)
  ultimately show ?thesis
    using assms(1)
    by (auto simp: recv_frame_def spatial_upscale_def real_frame_def update_fps_def GpuFrame_from_data_def Let_def
        split: prod.splits option.splits)
qed

section \<open>A whole session\<close>

definition shows_frame ::
  "('k, 'f, 'e) RecvConfig \<Rightarrow> u32 \<Rightarrow> u32 \<Rightarrow> u32 \<Rightarrow> bytes \<Rightarrow> recv_action \<Rightarrow> bool" where
  "shows_frame cfg w h st d a = (case a of
     Displayed (f # _) \<Rightarrow> df_width f = w \<and> df_height f = h \<and> df_stride f = st \<and>
       (rc_debug cfg \<or> in_view w h st (df_data f) d)
   | _ \<Rightarrow> False)"

definition same_codec :: "SendConfig \<Rightarrow> ('k, 'f, 'e) RecvConfig \<Rightarrow> bool" where
  "same_codec scfg rcfg \<longleftrightarrow> sc_codecs scfg = rc_codecs rcfg \<and> sc_kind scfg = rc_kind rcfg"

lemma delivered_simps [simp]:
  "im_payload (delivered cs m) = out_payload m" "header_msg_type (im_header (delivered cs m)) = Inr (out_type m)"
  by (simp_all add: delivered_def Let_def)

lemma sendable_frame:
  "length p < 9223372036854775808 \<Longrightarrow>
   sendable \<lparr>out_sid = 1, out_type = mt, out_flags = COMPRESSED, out_ts = ts, out_payload = p\<rparr>"
  by (simp add: sendable_def COMPRESSED_def LAST_CHUNK_def)

lemma session_steps:
  assumes E: "encoder_ok (sc_codecs scfg) (sc_kind scfg)" and shape: "frame_shape w h st"
    and same: "same_codec scfg rcfg" and up: "rc_upscale rcfg = None"
    and ok: "session_ok scfg w h st lst ts" and s: "server_state (unat st * unat h) lst s"
    and c: "client_state (unat st * unat h) c"
    and view: "in_view w h st (base_of (unat st * unat h) (previous_frame s)) (base_of (unat st * unat h) (rl_previous_frame c))"
  shows "\<exists>sent s' acts c'. send_run U B scfg ts s = Some (sent, s') \<and> list_all (\<lambda>(_, m). sendable m) sent \<and>
     recv_run rcfg now (map (\<lambda>(_, m). delivered CHUNK_SIZE m) sent) c = Some (acts, c') \<and>
     list_all2 (\<lambda>(d, _) a. shows_frame rcfg w h st d a) sent acts \<and>
     in_view w h st (base_of (unat st * unat h) (previous_frame s')) (base_of (unat st * unat h) (rl_previous_frame c'))"
  using ok s c view
proof (induction ts arbitrary: lst s c)
  case Nil
  then show ?case by simp
next
  case (Cons t ts)
  let ?n = "unat st * unat h"
  define d where "d = turn_data scfg t"
  have t: "turn_ok scfg w h st lst t" and rest: "session_ok scfg w h st (Some d) ts"
    using Cons.prems(1) by (simp_all add: d_def)
  have ld: "length d = ?n" using t by (auto simp: turn_ok_def d_def turn_data_def split: option.splits)
  obtain mt payload sent s1 rs cf where
    run: "send_turn U B scfg (tn_clock t) (tn_frame t) (tn_skipped t) (tn_dropped t) s = Some ((mt, payload, sent), s1)"
    and mt: "mt \<in> {AnchorFrame, FrameUpdate}" and lp: "length payload < 9223372036854775808"
    and des: "deserialize_frame_payload payload = Some (Inr (w, h, st, rs, cf))"
    and cover: "damage_covers w h st rs d (base_of ?n (previous_frame s))"
    and dec: "\<forall>pc. length pc = ?n \<longrightarrow> decompress_frame_into (sc_codecs scfg) cf pc (unat st) rs [] (sc_kind scfg) =
          Some (Inr (overlay (unat st) rs (shifted d (base_of ?n (previous_frame s)) pc) pc))"
    and base: "base_of ?n (previous_frame s1) = (if sent then d else base_of ?n (previous_frame s))"
    and s1: "server_state ?n (Some d) s1"
    using send_step [OF E shape t Cons.prems(2), of U B] unfolding d_def [symmetric] by blast
  let ?m = "\<lparr>out_sid = 1, out_type = mt, out_flags = COMPRESSED, out_ts = cap_timestamp_ns (tn_frame t), out_payload = payload\<rparr>"
  show ?case
  proof (cases sent)
    case False
    have "in_view w h st (base_of ?n (previous_frame s1)) (base_of ?n (rl_previous_frame c))"
      using base False Cons.prems(4) by simp
    from Cons.IH [OF rest s1 Cons.prems(3) this] show ?thesis using run False by (auto simp: d_def)
  next
    case True
    define pc where "pc = base_of ?n (rl_previous_frame c)"
    define outp where "outp = overlay (unat st) rs (shifted d (base_of ?n (previous_frame s)) pc) pc"
    have "rc_codecs rcfg = sc_codecs scfg" "rc_kind rcfg = sc_kind scfg" using same by (simp_all add: same_codec_def)
    then have out: "decompress_frame_into (rc_codecs rcfg) cf (base_of ?n (rl_previous_frame c)) (unat st) rs [] (rc_kind rcfg) = Some (Inr outp)"
      using dec by (simp add: pc_def outp_def)
    obtain shown more c1 where recv: "recv_message rcfg now (delivered CHUNK_SIZE ?m) c = Some (Displayed (shown # more), c1)"
      and c1: "rl_previous_frame c1 = outp" "has_previous c1"
      and fr: "df_width shown = w" "df_height shown = h" "df_stride shown = st" "rc_debug rcfg \<or> df_data shown = outp"
      using recv_step [OF up shape _ mt _ Cons.prems(3) out, of "delivered CHUNK_SIZE ?m" now] des by auto
    have view: "in_view w h st outp d"
      unfolding outp_def using cover Cons.prems(4) ld by (intro overlay_in_view) (simp_all add: pc_def)
    have lo: "length outp = ?n" by (simp add: outp_def pc_def)
    have "in_view w h st d outp" using view lo ld by (simp add: in_view_def list_all_iff)
    then have v1: "in_view w h st (base_of ?n (previous_frame s1)) (base_of ?n (rl_previous_frame c1))"
      using base True lo c1 by simp
    have "client_state ?n c1" using lo c1 by (simp add: client_state_def)
    from Cons.IH [OF rest s1 this v1] obtain sent' s' acts c' where IH:
      "send_run U B scfg ts s1 = Some (sent', s')" "list_all (\<lambda>(_, m). sendable m) sent'"
      "recv_run rcfg now (map (\<lambda>(_, m). delivered CHUNK_SIZE m) sent') c1 = Some (acts, c')"
      "list_all2 (\<lambda>(d, _) a. shows_frame rcfg w h st d a) sent' acts"
      "in_view w h st (base_of ?n (previous_frame s')) (base_of ?n (rl_previous_frame c'))"
      by blast
    have "shows_frame rcfg w h st d (Displayed (shown # more))" using fr view by (auto simp: shows_frame_def)
    then show ?thesis
      using run recv IH True sendable_frame [OF lp]
      by (intro exI [of _ "(d, ?m) # sent'"] exI [of _ s'] exI [of _ "Displayed (shown # more) # acts"] exI [of _ c'])
        (simp add: d_def)
  qed
qed

lemma wires_exist:
  assumes "list_all (\<lambda>(_, m). sendable m) sent"
  shows "\<exists>wires. list_all2 (\<lambda>(_, m) wire. wire_of CHUNK_SIZE m = Some wire) sent wires \<and>
     push StreamParser_new (concat wires) = (StreamParser_new, Inr (map (\<lambda>(_, m). delivered CHUNK_SIZE m) sent))"
proof -
  have cs: "0 < CHUNK_SIZE" "CHUNK_SIZE \<le> MAX_PAYLOAD_LEN" by (simp_all add: CHUNK_SIZE_def)
  have "\<exists>wires. list_all2 (\<lambda>m wire. wire_of CHUNK_SIZE m = Some wire) ms wires" if "\<forall>m \<in> set ms. sendable m" for ms
    using that
  proof (induction ms)
    case (Cons m ms)
    then obtain wires where "list_all2 (\<lambda>m wire. wire_of CHUNK_SIZE m = Some wire) ms wires" by auto
    moreover obtain w where "wire_of CHUNK_SIZE m = Some w" using push_loop_message [OF cs, of m Map.empty] Cons.prems by auto
    ultimately show ?case by (intro exI [of _ "w # wires"]) simp
  qed (simp add: exI [of _ "[]"])
  moreover have s: "\<forall>m \<in> set (map snd sent). sendable m" using assms by (auto simp: list_all_iff)
  ultimately obtain wires where w: "list_all2 (\<lambda>m wire. wire_of CHUNK_SIZE m = Some wire) (map snd sent) wires" by blast
  from push_messages [OF cs s this] w show ?thesis
    by (intro exI [of _ wires]) (simp add: list.rel_map case_prod_beta' comp_def)
qed


text \<open>A session of two captures of one pixel, for concrete runs.\<close>

definition demo_send :: SendConfig where
  "demo_send = \<lparr>sc_codecs = plain_codecs, sc_kind = Kind_None, sc_scale = None, sc_filter = FilterBox, sc_threads = 4\<rparr>"

definition demo_backend :: "unit Interpolator" where
  "demo_backend = \<lparr>be_interpolate = (\<lambda>k a b t. (linear_blend a b t, k)), be_upscale = (\<lambda>_ _ _ _. Inl InterpNoBackend)\<rparr>"

definition demo_recv :: "(unit, nat, unit) RecvConfig" where
  "demo_recv = \<lparr>rc_codecs = plain_codecs, rc_kind = Kind_None, rc_backend = demo_backend, rc_half = half_factor,
     rc_kernel = nearest_kernel, rc_upscale = None, rc_scale = (\<lambda>v _ _. v), rc_debug = False,
     rc_fps_step = (\<lambda>_ _ e. e), rc_fps_text = (\<lambda>_. [])\<rparr>"

definition dot_turn :: "u8 \<Rightarrow> Turn" where
  "dot_turn v = \<lparr>tn_frame = (pixel_frame v)\<lparr>damage := [DamageRect_new 0 0 1 1]\<rparr>, tn_skipped = False, tn_dropped = False,
     tn_clock = (0, 0)\<rparr>"

lemma plain_encoder_ok: "encoder_ok plain_codecs Kind_None"
  using plain_codecs_ok by (simp add: encoder_ok_def blob_of_def)

lemmas demo_defs = demo_send_def demo_recv_def dot_turn_def pixel_frame_def turn_ok_def turn_data_def scaled_frame_def
  trusted_def damage_covers_def regions_ok_def rect_inside_def frame_shape_def same_codec_def DamageRect_new_def


section \<open>Losing a frame\<close>

text \<open>C8. An anchor does not repair a client that has lost a frame. When the bases differ in a visible byte, the next
  anchor frame, although it covers the whole frame, is again a delta against the server's base, and the client
  decodes it against its own: the byte comes out wrong, off by the same bits as before.\<close>

theorem desync_survives_anchor:
  assumes "encoder_ok (sc_codecs scfg) (sc_kind scfg)" and "frame_shape w h st" and "same_codec scfg rcfg"
    and "turn_ok scfg w h st lst t" and "server_state (unat st * unat h) lst s" and "force_anchor s"
    and "client_state (unat st * unat h) c"
    and "j < unat st * unat h" and "covered (unat st) [DamageRect_new 0 0 w h] j"
  shows "\<exists>payload sent s' rs outp c'. send_turn U B scfg (tn_clock t) (tn_frame t) (tn_skipped t) (tn_dropped t) s =
       Some ((AnchorFrame, payload, sent), s') \<and>
     decode_frame rcfg True payload c = (Some (Inr (w, h, st, rs, outp)), c') \<and>
     outp ! j XOR turn_data scfg t ! j =
       base_of (unat st * unat h) (previous_frame s) ! j XOR base_of (unat st * unat h) (rl_previous_frame c) ! j"
proof -
  let ?n = "unat st * unat h"
  define d where "d = turn_data scfg t"
  have sc: "scaled_frame scfg (tn_frame t) = Some (d, w, h, st)"
    using assms(4) by (auto simp: turn_ok_def d_def turn_data_def split: option.splits)
  obtain mt payload sent s1 rs cf where
    run: "send_turn U B scfg (tn_clock t) (tn_frame t) (tn_skipped t) (tn_dropped t) s = Some ((mt, payload, sent), s1)"
    and mt: "mt = AnchorFrame" and rs: "rs = stripe_full_frame w h (max (sc_threads scfg) 1)"
    and des: "deserialize_frame_payload payload = Some (Inr (w, h, st, rs, cf))"
    and dec: "\<forall>pc. length pc = ?n \<longrightarrow> decompress_frame_into (sc_codecs scfg) cf pc (unat st) rs [] (sc_kind scfg) =
          Some (Inr (overlay (unat st) rs (shifted d (base_of ?n (previous_frame s)) pc) pc))"
    using send_step [OF assms(1,2,4,5), of U B] assms(6) unfolding d_def [symmetric] by blast
  define ps where "ps = base_of ?n (previous_frame s)"
  define pc where "pc = base_of ?n (rl_previous_frame c)"
  define outp where "outp = overlay (unat st) rs (shifted d ps pc) pc"
  have "rc_codecs rcfg = sc_codecs scfg" "rc_kind rcfg = sc_kind scfg" using assms(3) by (simp_all add: same_codec_def)
  then have out: "decompress_frame_into (rc_codecs rcfg) cf pc (unat st) rs [] (rc_kind rcfg) = Some (Inr outp)"
    using dec by (simp add: ps_def pc_def outp_def)
  have size: "unat (st * h) = ?n" using assms(2) by (simp add: frame_shape_def u32_mult mult.commute)
  have "vec_resize (rl_previous_frame c) (unat (st * h)) 0 = pc" by (simp add: size pc_def base_of_def)
  then have "\<exists>c'. decode_frame rcfg True payload c = (Some (Inr (w, h, st, rs, outp)), c')"
    using des out by (simp add: decode_frame_def Let_def)
  moreover have "outp ! j XOR d ! j = ps ! j XOR pc ! j"
  proof -
    have "covered (unat st) rs j" using assms(9) by (simp add: rs covered_def stripe_segments)
    then have "outp ! j = (d ! j XOR ps ! j) XOR pc ! j" using assms(8) by (simp add: outp_def nth_overlay shifted_def pc_def)
    then show ?thesis by (simp add: ac_simps)
  qed
  ultimately show ?thesis using run mt unfolding d_def ps_def pc_def by blast
qed

definition demo_server :: "(bytes list, bytes list) SendLoop" where
  "demo_server = (SendLoop_start demo_sender)\<lparr>previous_frame := [7, 7, 7, 7], is_first := False, sl_frame_count := 300\<rparr>"

definition demo_client :: "(unit, unit) RecvLoop" where
  "demo_client = (RecvLoop_start None ())\<lparr>rl_previous_frame := [5, 7, 7, 7], has_previous := True\<rparr>"

theorem desync_survives_anchor_witness:
  "\<exists>payload sent s' rs outp c'. send_turn (list_channel None) (list_channel (Some 2)) demo_send (tn_clock (dot_turn 8))
       (tn_frame (dot_turn 8)) (tn_skipped (dot_turn 8)) (tn_dropped (dot_turn 8)) demo_server =
       Some ((AnchorFrame, payload, sent), s') \<and>
     decode_frame demo_recv True payload demo_client = (Some (Inr (1, 1, 4, rs, outp)), c') \<and>
     outp ! 0 XOR turn_data demo_send (dot_turn 8) ! 0 =
       base_of (unat (4 :: u32) * unat (1 :: u32)) (previous_frame demo_server) ! 0 XOR
       base_of (unat (4 :: u32) * unat (1 :: u32)) (rl_previous_frame demo_client) ! 0"
proof (rule desync_survives_anchor [where lst = "Some [7, 7, 7, 7]"])
  show "encoder_ok (sc_codecs demo_send) (sc_kind demo_send)" using plain_encoder_ok by (simp add: demo_send_def)
  show "force_anchor demo_server" by (simp add: force_anchor_def demo_server_def ANCHOR_INTERVAL_def SendLoop_start_def)
  show "covered (unat (4 :: u32)) [DamageRect_new 0 0 1 1] 0"
    by (simp add: covered_def rect_segments_def row_seg_def covers_def DamageRect_new_def)
  show "turn_ok demo_send 1 1 4 (Some [7, 7, 7, 7]) (dot_turn 8)" by (simp add: demo_defs list_all_iff)
qed (simp_all add: demo_defs demo_server_def demo_client_def server_state_def client_state_def SendLoop_start_def RecvLoop_start_def)

end
