(* ===== verification/Input.thy ===== *)
theory Input
  imports Server Client
begin

text \<open>
  \<^verbatim>\<open>crates/remoteway-input\<close>: capture of pointer and keyboard events on the client (\<^verbatim>\<open>capture.rs\<close>,
  \<^verbatim>\<open>capture_thread.rs\<close>), injection on the server through the virtual Wayland devices
  (\<^verbatim>\<open>inject.rs\<close>, \<^verbatim>\<open>inject_thread.rs\<close>, \<^verbatim>\<open>keymap.rs\<close>) or libei (\<^verbatim>\<open>libei.rs\<close>). The compositor's events are lists, the
  requests made are lists that the operations return; floating-point coordinates are bit
  patterns, and their conversion to integers is an argument.
\<close>

section \<open>error.rs\<close>

datatype InputError =
  InWaylandConnect | InWaylandDispatch | NoVirtualPointer | NoVirtualKeyboard | InNoSeat | Keymap string | UnknownInputKind u8
| InThreadSpawn | InjectFailed string | InSessionEnded | Protocol string

section \<open>capture.rs\<close>

record CaptureState =
  cs_seat :: bool
  cs_pointer :: bool
  cs_keyboard :: bool
  pending_events :: "InputEvent list"
  cs_surface_id :: u16
  capabilities_received :: bool

definition CaptureState_empty :: CaptureState where
  "CaptureState_empty = \<lparr>cs_seat = False, cs_pointer = False, cs_keyboard = False, pending_events = [],
     cs_surface_id = 0, capabilities_received = False\<rparr>"

text \<open>The states and axes a compositor may send; the last constructor is a value the code does not know.\<close>

datatype press = Released | Pressed | OtherPress

datatype scroll_axis = VerticalScroll | HorizontalScroll | OtherAxis

datatype CaptureEvent =
  SeatGlobal string | SeatCapabilities bool bool | PointerMoved u32 u32 | PointerPressed u32 press
| PointerScrolled scroll_axis u32 | KeyPressed u32 press | OtherCapture

fun press_value :: "press \<Rightarrow> u32 option" where
  "press_value Released = Some 0"
| "press_value Pressed = Some 1"
| "press_value OtherPress = None"

fun axis_value :: "scroll_axis \<Rightarrow> u8 option" where
  "axis_value VerticalScroll = Some 0"
| "axis_value HorizontalScroll = Some 1"
| "axis_value OtherAxis = None"

definition push_event :: "InputEvent option \<Rightarrow> CaptureState \<Rightarrow> CaptureState option" where
  "push_event e s = do { ie \<leftarrow> e; Some (s\<lparr>pending_events := pending_events s @ [ie]\<rparr>) }"

definition seat_capabilities :: "bool \<Rightarrow> bool \<Rightarrow> CaptureState \<Rightarrow> CaptureState" where
  "seat_capabilities has_pointer has_keyboard s =
     (let s1 = (if has_pointer \<and> \<not> cs_pointer s then s\<lparr>cs_pointer := True\<rparr> else s);
          s2 = (if has_keyboard \<and> \<not> cs_keyboard s1 then s1\<lparr>cs_keyboard := True\<rparr> else s1) in
      s2\<lparr>capabilities_received := True\<rparr>)"

definition pointer_event :: "CaptureEvent \<Rightarrow> CaptureState \<Rightarrow> CaptureState option" where
  "pointer_event e s = (case e of
     PointerMoved x y \<Rightarrow>
       push_event (InputEvent_pointer_motion \<lparr>pm_surface_id = cs_surface_id s, pm_pad = 0, pm_x = x, pm_y = y\<rparr>) s
   | PointerPressed button p \<Rightarrow> (case press_value p of None \<Rightarrow> Some s
       | Some v \<Rightarrow> push_event (InputEvent_pointer_button \<lparr>pb_button = button, pb_state = v\<rparr>) s)
   | PointerScrolled a value \<Rightarrow> (case axis_value a of None \<Rightarrow> Some s
       | Some v \<Rightarrow> push_event (InputEvent_pointer_axis \<lparr>pa_axis = v, pa_pad = replicate 3 0, pa_value = value\<rparr>) s)
   | _ \<Rightarrow> Some s)"

definition keyboard_event :: "CaptureEvent \<Rightarrow> CaptureState \<Rightarrow> CaptureState option" where
  "keyboard_event e s = (case e of
     KeyPressed key p \<Rightarrow> (case press_value p of None \<Rightarrow> Some s
       | Some v \<Rightarrow> push_event (InputEvent_key \<lparr>ke_key = key, ke_state = v\<rparr>) s)
   | _ \<Rightarrow> Some s)"

fun capture_event :: "CaptureEvent \<Rightarrow> CaptureState \<Rightarrow> CaptureState option" where
  "capture_event (SeatGlobal interface) s = Some (if interface = ''wl_seat'' then s\<lparr>cs_seat := True\<rparr> else s)"
| "capture_event (SeatCapabilities p k) s = Some (seat_capabilities p k s)"
| "capture_event (KeyPressed key p) s = keyboard_event (KeyPressed key p) s"
| "capture_event e s = pointer_event e s"

definition capture_events :: "CaptureEvent list \<Rightarrow> CaptureState \<Rightarrow> CaptureState option" where
  "capture_events es s = fold_opt capture_event es s"

text \<open>A dispatch that fails has still delivered its events.\<close>

definition InputCapture_new ::
  "bool \<Rightarrow> CaptureEvent list \<times> bool \<Rightarrow> CaptureEvent list \<times> bool \<Rightarrow> (InputError + CaptureState) option" where
  "InputCapture_new connected rt1 rt2 =
     (if \<not> connected then Some (Inl InWaylandConnect)
      else do {
        s1 \<leftarrow> capture_events (fst rt1) CaptureState_empty;
        (if \<not> snd rt1 then Some (Inl InWaylandDispatch)
         else if \<not> cs_seat s1 then Some (Inl InNoSeat)
         else do {
           s2 \<leftarrow> capture_events (fst rt2) s1;
           Some (if snd rt2 then Inr s2 else Inl InWaylandDispatch)
         })
      })"

record PollIo =
  poll_pending :: "CaptureEvent list \<times> bool"
  poll_read :: "wl_io option"
  poll_later :: "CaptureEvent list \<times> bool"

definition poll_events :: "PollIo \<Rightarrow> CaptureState \<Rightarrow> ((InputError + InputEvent list) \<times> CaptureState) option" where
  "poll_events io s = do {
     s1 \<leftarrow> capture_events (fst (poll_pending io)) (s\<lparr>pending_events := []\<rparr>);
     (if \<not> snd (poll_pending io) then Some (Inl InWaylandDispatch, s1)
      else (case poll_read io of
         None \<Rightarrow> Some (Inr (pending_events s1), s1)
       | Some IoWouldBlock \<Rightarrow> Some (Inr (pending_events s1), s1)
       | Some IoFailed \<Rightarrow> Some (Inl (InjectFailed ''wayland read''), s1)
       | Some IoOk \<Rightarrow> do {
           s2 \<leftarrow> capture_events (fst (poll_later io)) s1;
           Some (if snd (poll_later io) then Inr (pending_events s2) else Inl InWaylandDispatch, s2)
         }))
   }"

definition poll_events_blocking ::
  "CaptureEvent list \<times> bool \<Rightarrow> CaptureState \<Rightarrow> ((InputError + InputEvent list) \<times> CaptureState) option" where
  "poll_events_blocking d s = do {
     s1 \<leftarrow> capture_events (fst d) (s\<lparr>pending_events := []\<rparr>);
     Some (if snd d then Inr (pending_events s1) else Inl InWaylandDispatch, s1)
   }"

section \<open>capture\_thread.rs\<close>

fun send_events :: "('s \<Rightarrow> InputEvent \<Rightarrow> bool \<times> 's) \<Rightarrow> InputEvent list \<Rightarrow> 's \<Rightarrow> bool \<times> 's" where
  "send_events sender [] q = (True, q)"
| "send_events sender (e # es) q = (case sender q e of
     (True, q') \<Rightarrow> send_events sender es q' | (False, q') \<Rightarrow> (False, q'))"

datatype input_exit = InGoOn | InStopped | InClosed | InError InputError

text \<open>The loop over its iterations: for each, the stop flag and what the poll meets.\<close>

fun input_capture_loop ::
  "('s \<Rightarrow> InputEvent \<Rightarrow> bool \<times> 's) \<Rightarrow> (bool \<times> PollIo) list \<Rightarrow> CaptureState \<times> 's \<Rightarrow> (input_exit \<times> CaptureState \<times> 's) option" where
  "input_capture_loop sender [] st = Some (InGoOn, st)"
| "input_capture_loop sender ((stop, io) # is) (s, q) =
     (if stop then Some (InStopped, s, q)
      else (case poll_events io s of
         None \<Rightarrow> None
       | Some (Inl e, s') \<Rightarrow> Some (InError e, s', q)
       | Some (Inr events, s') \<Rightarrow> (case send_events sender events q of
            (True, q') \<Rightarrow> input_capture_loop sender is (s', q')
          | (False, q') \<Rightarrow> Some (InClosed, s', q'))))"

section \<open>keymap.rs\<close>

text \<open>The contents written to the file and the size announced.\<close>

definition create_keymap_fd :: "bytes \<Rightarrow> string option \<Rightarrow> string option \<Rightarrow> InputError + (bytes \<times> u32)" where
  "create_keymap_fd keymap memfd write = (case memfd of
     Some e \<Rightarrow> Inl (Keymap e)
   | None \<Rightarrow> (case write of
        Some e \<Rightarrow> Inl (Keymap e)
      | None \<Rightarrow> Inr (keymap @ [0], word_of_nat (length keymap) + 1)))"

section \<open>inject.rs\<close>

record InjectState =
  is_seat :: bool
  vp_manager :: bool
  vk_manager :: bool
  virtual_pointer :: bool
  virtual_keyboard :: bool

datatype InjectRequest =
  BindInject string u32 | CreateVirtualPointer | CreateVirtualKeyboard | SetKeymap u32 bytes u32
| MotionAbsolute u32 u32 u32 u32 u32 | VpButton u32 u32 press | VpAxis u32 scroll_axis u32 | VpFrame | VkKey u32 u32 u32

definition POINTER_EXTENT :: u32 where "POINTER_EXTENT = 0xFFFF"

definition inject_global :: "string \<times> u32 \<Rightarrow> InjectState \<Rightarrow> InjectRequest list \<times> InjectState" where
  "inject_global g s = (case g of (interface, version) \<Rightarrow>
     if interface = ''wl_seat'' then ([BindInject interface (min version 1)], s\<lparr>is_seat := True\<rparr>)
     else if interface = ''zwlr_virtual_pointer_manager_v1'' then ([BindInject interface (min version 2)], s\<lparr>vp_manager := True\<rparr>)
     else if interface = ''zwp_virtual_keyboard_manager_v1'' then ([BindInject interface (min version 1)], s\<lparr>vk_manager := True\<rparr>)
     else ([], s))"

fun inject_globals :: "(string \<times> u32) list \<Rightarrow> InjectState \<Rightarrow> InjectRequest list \<times> InjectState" where
  "inject_globals [] s = ([], s)"
| "inject_globals (g # gs) s = (case inject_global g s of (rq, s') \<Rightarrow>
     (case inject_globals gs s' of (rq', s'') \<Rightarrow> (rq @ rq', s'')))"

definition VirtualInput_new ::
  "bool \<Rightarrow> (string \<times> u32) list \<times> bool \<Rightarrow> bytes \<Rightarrow> string option \<Rightarrow> string option \<Rightarrow> (string \<times> u32) list \<times> bool
   \<Rightarrow> InputError + (InjectRequest list \<times> InjectState)" where
  "VirtualInput_new connected rt1 default_keymap memfd write rt2 =
     (if \<not> connected then Inl InWaylandConnect
      else
        let (rq, s) = inject_globals (fst rt1)
              \<lparr>is_seat = False, vp_manager = False, vk_manager = False, virtual_pointer = False, virtual_keyboard = False\<rparr> in
        if \<not> snd rt1 then Inl InWaylandDispatch
        else if \<not> is_seat s then Inl InNoSeat
        else if \<not> vp_manager s then Inl NoVirtualPointer
        else if \<not> vk_manager s then Inl NoVirtualKeyboard
        else (case create_keymap_fd default_keymap memfd write of
           Inl e \<Rightarrow> Inl e
         | Inr (contents, n) \<Rightarrow>
             let (rq', s') = inject_globals (fst rt2) (s\<lparr>virtual_pointer := True, virtual_keyboard := True\<rparr>) in
             if \<not> snd rt2 then Inl InWaylandDispatch
             else Inr (rq @ [CreateVirtualPointer, CreateVirtualKeyboard, SetKeymap 1 contents n] @ rq', s')))"

definition inject_pointer_motion :: "(u32 \<Rightarrow> u32) \<Rightarrow> InjectState \<Rightarrow> u32 \<Rightarrow> PointerMotion \<Rightarrow> InjectRequest list" where
  "inject_pointer_motion f32_as_u32 s time m =
     (if virtual_pointer s
      then [MotionAbsolute time (f32_as_u32 (pm_x m)) (f32_as_u32 (pm_y m)) POINTER_EXTENT POINTER_EXTENT, VpFrame] else [])"

definition inject_pointer_button :: "InjectState \<Rightarrow> u32 \<Rightarrow> PointerButton \<Rightarrow> InjectRequest list" where
  "inject_pointer_button s time b =
     (if virtual_pointer s then [VpButton time (pb_button b) (if pb_state b \<noteq> 0 then Pressed else Released), VpFrame] else [])"

definition inject_pointer_axis :: "InjectState \<Rightarrow> u32 \<Rightarrow> PointerAxis \<Rightarrow> InjectRequest list" where
  "inject_pointer_axis s time a =
     (if virtual_pointer s
      then [VpAxis time (if pa_axis a = 0 then VerticalScroll else HorizontalScroll) (pa_value a), VpFrame] else [])"

definition inject_key :: "InjectState \<Rightarrow> u32 \<Rightarrow> KeyEvent \<Rightarrow> InjectRequest list" where
  "inject_key s time k = (if virtual_keyboard s then [VkKey time (ke_key k) (ke_state k)] else [])"

text \<open>Decoding the head of the payload; \<open>None\<close> is the panic of a payload that is too short.\<close>

definition payload_head :: "InputEvent \<Rightarrow> nat \<Rightarrow> bytes option" where
  "payload_head e n = vslice (ie_payload e) 0 n"

definition dispatch_event ::
  "(u32 \<Rightarrow> u32) \<Rightarrow> InjectState \<Rightarrow> u32 \<Rightarrow> InputEvent \<Rightarrow> (InputError + InjectRequest list) option" where
  "dispatch_event f32_as_u32 s time e = (case InputEvent_kind e of
     Inl k \<Rightarrow> Some (Inl (UnknownInputKind k))
   | Inr KindPointerMotion \<Rightarrow> do {
       b \<leftarrow> payload_head e PointerMotion_SIZE;
       Some (case PointerMotion_read b of None \<Rightarrow> Inl (InjectFailed ''decode PointerMotion'')
             | Some m \<Rightarrow> Inr (inject_pointer_motion f32_as_u32 s time m)) }
   | Inr KindPointerButton \<Rightarrow> do {
       b \<leftarrow> payload_head e PointerButton_SIZE;
       Some (case PointerButton_read b of None \<Rightarrow> Inl (InjectFailed ''decode PointerButton'')
             | Some m \<Rightarrow> Inr (inject_pointer_button s time m)) }
   | Inr KindPointerAxis \<Rightarrow> do {
       b \<leftarrow> payload_head e PointerAxis_SIZE;
       Some (case PointerAxis_read b of None \<Rightarrow> Inl (InjectFailed ''decode PointerAxis'')
             | Some m \<Rightarrow> Inr (inject_pointer_axis s time m)) }
   | Inr KindKey \<Rightarrow> do {
       b \<leftarrow> payload_head e KeyEvent_SIZE;
       Some (case KeyEvent_read b of None \<Rightarrow> Inl (InjectFailed ''decode KeyEvent'')
             | Some m \<Rightarrow> Inr (inject_key s time m)) })"

section \<open>inject\_thread.rs\<close>

record InputInjectConfig =
  ii_core_id :: usize
  ii_sched_priority :: u8
  ii_ring_capacity :: usize

definition InputInjectConfig_default :: InputInjectConfig where
  "InputInjectConfig_default = \<lparr>ii_core_id = 0, ii_sched_priority = 99, ii_ring_capacity = 256\<rparr>"

record 'r InputInjectThread =
  ij_ring :: 'r
  ij_stop :: bool
  ij_joined :: bool

definition InputInjectThread_spawn :: "'r \<Rightarrow> 'r InputInjectThread" where
  "InputInjectThread_spawn ring = \<lparr>ij_ring = ring, ij_stop = False, ij_joined = False\<rparr>"

definition inject_send :: "('r, InputEvent) Ring \<Rightarrow> 'r InputInjectThread \<Rightarrow> InputEvent \<Rightarrow> bool \<times> 'r InputInjectThread" where
  "inject_send R t e = (case ring_push R (ij_ring t) e of
     Some r \<Rightarrow> (True, t\<lparr>ij_ring := r\<rparr>) | None \<Rightarrow> (False, t))"

text \<open>\<^verbatim>\<open>slots()\<close> of the producer: the places left, which the argument gives.\<close>

definition buffered_events :: "('r \<Rightarrow> usize) \<Rightarrow> 'r InputInjectThread \<Rightarrow> usize" where
  "buffered_events producer_slots t = producer_slots (ij_ring t)"

definition inject_stop :: "'r InputInjectThread \<Rightarrow> 'r InputInjectThread" where
  "inject_stop t = t\<lparr>ij_stop := True, ij_joined := True\<rparr>"

text \<open>One iteration of the loop: \<open>None\<close> is a panic, the result says whether the loop goes on and what was requested.\<close>

definition inject_turn ::
  "('r, InputEvent) Ring \<Rightarrow> (u32 \<Rightarrow> u32) \<Rightarrow> InjectState \<Rightarrow> u32 \<Rightarrow> 'r InputInjectThread
   \<Rightarrow> (bool \<times> InjectRequest list \<times> 'r InputInjectThread) option" where
  "inject_turn R f32_as_u32 s time t =
     (if ij_stop t then Some (False, [], t)
      else (case ring_pop R (ij_ring t) of
         None \<Rightarrow> Some (True, [], t)
       | Some (e, r) \<Rightarrow> do {
           res \<leftarrow> dispatch_event f32_as_u32 s time e;
           Some (True, (case res of Inl err \<Rightarrow> [] | Inr rq \<Rightarrow> rq), t\<lparr>ij_ring := r\<rparr>)
         }))"

fun inject_loop ::
  "('r, InputEvent) Ring \<Rightarrow> (u32 \<Rightarrow> u32) \<Rightarrow> InjectState \<Rightarrow> u32 list \<Rightarrow> 'r InputInjectThread
   \<Rightarrow> (InjectRequest list \<times> 'r InputInjectThread) option" where
  "inject_loop R f s [] t = Some ([], t)"
| "inject_loop R f s (time # ts) t = do {
     (more, rq, t') \<leftarrow> inject_turn R f s time t;
     (if \<not> more then Some (rq, t')
      else do { (rq', t'') \<leftarrow> inject_loop R f s ts t'; Some (rq @ rq', t'') })
   }"

section \<open>libei.rs\<close>

text \<open>A device is what it offers; each flush succeeds or not, as an argument says.\<close>

record EiDevice =
  has_pointer :: bool
  has_pointer_absolute :: bool
  has_button :: bool
  has_scroll :: bool
  has_keyboard :: bool

datatype EiEvent = DeviceAdded EiDevice bool | DeviceRemoved | EiOther | EiBroken

datatype EiRequest =
  StartEmulating u32 u32 | EiMotionAbsolute u32 u32 | EiMotionRelative u32 u32 | EiButton u32 press | EiScroll u32 u32
| EiKey u32 press | EiFrame u32 u64

type_synonym ei_result = "(InputError + unit) \<times> EiRequest list \<times> EiDevice option"

fun ei_dispatch :: "u32 \<Rightarrow> EiEvent list \<Rightarrow> EiDevice option \<Rightarrow> ei_result" where
  "ei_dispatch serial [] dev = (Inr (), [], dev)"
| "ei_dispatch serial (EiBroken # es) dev = (Inl (Protocol ''EI event error''), [], dev)"
| "ei_dispatch serial (DeviceRemoved # es) dev = ei_dispatch serial es None"
| "ei_dispatch serial (EiOther # es) dev = ei_dispatch serial es dev"
| "ei_dispatch serial (DeviceAdded d flushed # es) dev =
     (if has_pointer d \<or> has_pointer_absolute d \<or> has_keyboard d
      then (if \<not> flushed then (Inl (Protocol ''EI flush failed''), [StartEmulating serial 0], dev)
            else (case ei_dispatch serial es (Some d) of (res, rq, dev') \<Rightarrow> (res, StartEmulating serial 0 # rq, dev')))
      else ei_dispatch serial es dev)"

definition ei_pointer_motion :: "EiDevice \<Rightarrow> u32 \<Rightarrow> PointerMotion \<Rightarrow> EiRequest list" where
  "ei_pointer_motion d serial m =
     (if has_pointer_absolute d then [EiMotionAbsolute (pm_x m) (pm_y m)]
      else if has_pointer d then [EiMotionRelative (pm_x m) (pm_y m)] else []) @ [EiFrame serial 0]"

definition ei_pointer_button :: "EiDevice \<Rightarrow> u32 \<Rightarrow> PointerButton \<Rightarrow> EiRequest list" where
  "ei_pointer_button d serial b =
     (if has_button d
      then [EiButton (pb_button b) (if pb_state b \<noteq> 0 then Pressed else Released), EiFrame serial 0] else [])"

definition ei_pointer_axis :: "EiDevice \<Rightarrow> u32 \<Rightarrow> PointerAxis \<Rightarrow> EiRequest list" where
  "ei_pointer_axis d serial a =
     (if has_scroll d
      then [if pa_axis a = 0 then EiScroll 0 (pa_value a) else EiScroll (pa_value a) 0, EiFrame serial 0] else [])"

definition ei_key :: "EiDevice \<Rightarrow> u32 \<Rightarrow> KeyEvent \<Rightarrow> EiRequest list" where
  "ei_key d serial k =
     (if has_keyboard d
      then [EiKey (ke_key k) (if ke_state k \<noteq> 0 then Pressed else Released), EiFrame serial 0] else [])"

definition ei_requests :: "EiDevice \<Rightarrow> u32 \<Rightarrow> InputEvent \<Rightarrow> InputKind \<Rightarrow> (InputError + EiRequest list) option" where
  "ei_requests d serial e k = (case k of
     KindPointerMotion \<Rightarrow> do {
       b \<leftarrow> payload_head e PointerMotion_SIZE;
       Some (case PointerMotion_read b of None \<Rightarrow> Inl (Protocol ''invalid PointerMotion payload'')
             | Some m \<Rightarrow> Inr (ei_pointer_motion d serial m)) }
   | KindPointerButton \<Rightarrow> do {
       b \<leftarrow> payload_head e PointerButton_SIZE;
       Some (case PointerButton_read b of None \<Rightarrow> Inl (Protocol ''invalid PointerButton payload'')
             | Some m \<Rightarrow> Inr (ei_pointer_button d serial m)) }
   | KindPointerAxis \<Rightarrow> do {
       b \<leftarrow> payload_head e PointerAxis_SIZE;
       Some (case PointerAxis_read b of None \<Rightarrow> Inl (Protocol ''invalid PointerAxis payload'')
             | Some m \<Rightarrow> Inr (ei_pointer_axis d serial m)) }
   | KindKey \<Rightarrow> do {
       b \<leftarrow> payload_head e KeyEvent_SIZE;
       Some (case KeyEvent_read b of None \<Rightarrow> Inl (Protocol ''invalid KeyEvent payload'')
             | Some m \<Rightarrow> Inr (ei_key d serial m)) })"

definition ei_inject :: "u32 \<Rightarrow> bool \<Rightarrow> InputEvent \<Rightarrow> EiDevice option \<Rightarrow> ((InputError + unit) \<times> EiRequest list) option" where
  "ei_inject serial flushed e dev = (case dev of
     None \<Rightarrow> Some (Inl (Protocol ''no EI device available''), [])
   | Some d \<Rightarrow> (case InputEvent_kind e of
        Inl k \<Rightarrow> Some (Inl (UnknownInputKind k), [])
      | Inr k \<Rightarrow> do {
          res \<leftarrow> ei_requests d serial e k;
          Some (case res of Inl err \<Rightarrow> (Inl err, [])
                | Inr rq \<Rightarrow> (if flushed then Inr () else Inl (Protocol ''EI flush failed''), rq)) }))"

text \<open>The batch with, for each event, the serial and whether the flush succeeds.\<close>

fun ei_inject_batch ::
  "(InputEvent \<times> u32 \<times> bool) list \<Rightarrow> EiDevice option \<Rightarrow> ((InputError + unit) \<times> EiRequest list) option" where
  "ei_inject_batch [] dev = Some (Inr (), [])"
| "ei_inject_batch ((e, serial, flushed) # es) dev = do {
     (res, rq) \<leftarrow> ei_inject serial flushed e dev;
     (case res of Inl err \<Rightarrow> Some (Inl err, rq)
      | Inr _ \<Rightarrow> do { (res', rq') \<leftarrow> ei_inject_batch es dev; Some (res', rq @ rq') })
   }"

end
