(* ===== verification/Replay.thy ===== *)
theory Replay
  imports Input
begin

text \<open>
  The input path from end to end: what the client's compositor reports (\<open>CaptureEvent\<close>) is polled by the capture
  thread, framed by the input sender, parsed by the server, put on the injection ring and replayed as requests of
  the virtual devices. The specification is \<open>replay\<close>, the requests that mirror one reported event.
\<close>

section \<open>Specification\<close>

text \<open>The events that are forwarded, the message each becomes and the requests it must cause.\<close>

fun forwarded :: "CaptureEvent \<Rightarrow> bool" where
  "forwarded (PointerMoved x y) = True"
| "forwarded (PointerPressed b p) = (p \<noteq> OtherPress)"
| "forwarded (PointerScrolled a v) = (a \<noteq> OtherAxis)"
| "forwarded (KeyPressed k p) = (p \<noteq> OtherPress)"
| "forwarded e = False"

fun replay :: "(u32 \<Rightarrow> u32) \<Rightarrow> u32 \<Rightarrow> CaptureEvent \<Rightarrow> InjectRequest list" where
  "replay f time (PointerMoved x y) = [MotionAbsolute time (f x) (f y) 0xFFFF 0xFFFF, VpFrame]"
| "replay f time (PointerPressed b p) = [VpButton time b p, VpFrame]"
| "replay f time (PointerScrolled a v) = [VpAxis time a v, VpFrame]"
| "replay f time (KeyPressed k p) = [VkKey time k (if p = Pressed then 1 else 0)]"
| "replay f time e = []"

definition padded :: "InputKind \<Rightarrow> bytes \<Rightarrow> InputEvent" where
  "padded k b = \<lparr>ie_kind = InputKind_to_u8 k, ie_pad = replicate 3 0, ie_payload = b @ replicate (12 - length b) 0\<rparr>"

fun event_of :: "u16 \<Rightarrow> CaptureEvent \<Rightarrow> InputEvent list" where
  "event_of sid (PointerMoved x y) =
     [padded KindPointerMotion (PointerMotion_bytes \<lparr>pm_surface_id = sid, pm_pad = 0, pm_x = x, pm_y = y\<rparr>)]"
| "event_of sid (PointerPressed b p) = (case press_value p of None \<Rightarrow> []
     | Some v \<Rightarrow> [padded KindPointerButton (PointerButton_bytes \<lparr>pb_button = b, pb_state = v\<rparr>)])"
| "event_of sid (PointerScrolled a value) = (case axis_value a of None \<Rightarrow> []
     | Some v \<Rightarrow> [padded KindPointerAxis (PointerAxis_bytes \<lparr>pa_axis = v, pa_pad = replicate 3 0, pa_value = value\<rparr>)])"
| "event_of sid (KeyPressed k p) = (case press_value p of None \<Rightarrow> []
     | Some v \<Rightarrow> [padded KindKey (KeyEvent_bytes \<lparr>ke_key = k, ke_state = v\<rparr>)])"
| "event_of sid e = []"

text \<open>What one iteration of the capture loop is given, and the server's loop over the received messages.\<close>

definition polled :: "bool \<times> PollIo \<Rightarrow> CaptureEvent list" where
  "polled it = fst (poll_pending (snd it)) @ (if poll_read (snd it) = Some IoOk then fst (poll_later (snd it)) else [])"

fun dispatch_run ::
  "('i \<Rightarrow> InputEvent \<Rightarrow> bool \<times> 'i) \<Rightarrow> IncomingMessage list \<Rightarrow> 'i \<Rightarrow> dispatch_action list \<times> 'i" where
  "dispatch_run inject [] q = ([], q)"
| "dispatch_run inject (m # ms) q = (case recv_dispatch_turn inject (Some m) q of (a, q') \<Rightarrow>
     (case dispatch_run inject ms q' of (as, q'') \<Rightarrow> (a # as, q'')))"

section \<open>Capture\<close>

lemma from_bytes_padded_ok: "length b \<le> 12 \<Longrightarrow> from_bytes_padded k b = Some (padded k b)"
  by (simp add: from_bytes_padded_def write_slice_def padded_def)

lemma length_PointerAxis_bytes:
  "length (PointerAxis_bytes \<lparr>pa_axis = v, pa_pad = replicate 3 0, pa_value = x\<rparr>) = 8"
  by (simp add: PointerAxis_bytes_def)

lemmas event_simps = InputEvent_pointer_motion_def InputEvent_pointer_button_def InputEvent_pointer_axis_def
  InputEvent_key_def from_bytes_padded_ok length_PointerAxis_bytes push_event_def pointer_event_def keyboard_event_def

lemma capture_event_step:
  "\<exists>s'. capture_event e s = Some s' \<and> pending_events s' = pending_events s @ event_of (cs_surface_id s) e \<and>
     cs_surface_id s' = cs_surface_id s"
  by (cases e)
    (auto simp: event_simps seat_capabilities_def Let_def split: option.splits)

lemma capture_events_step:
  "\<exists>s'. capture_events es s = Some s' \<and>
     pending_events s' = pending_events s @ concat (map (event_of (cs_surface_id s)) es) \<and>
     cs_surface_id s' = cs_surface_id s"
proof (induction es arbitrary: s)
  case (Cons e es)
  obtain s1 where s1: "capture_event e s = Some s1" "pending_events s1 = pending_events s @ event_of (cs_surface_id s) e"
      "cs_surface_id s1 = cs_surface_id s"
    using capture_event_step by blast
  with Cons.IH [of s1] show ?case by (auto simp: capture_events_def)
qed (simp add: capture_events_def)

lemma poll_events_step:
  "\<exists>r s'. poll_events io s = Some (r, s') \<and> cs_surface_id s' = cs_surface_id s \<and>
     (\<forall>evs. r = Inr evs \<longrightarrow> evs = concat (map (event_of (cs_surface_id s)) (polled (stop, io))))"
proof -
  obtain s1 where s1: "capture_events (fst (poll_pending io)) (s\<lparr>pending_events := []\<rparr>) = Some s1"
      "pending_events s1 = concat (map (event_of (cs_surface_id s)) (fst (poll_pending io)))"
      "cs_surface_id s1 = cs_surface_id s"
    using capture_events_step [of "fst (poll_pending io)" "s\<lparr>pending_events := []\<rparr>"] by auto
  obtain s2 where s2: "capture_events (fst (poll_later io)) s1 = Some s2"
      "pending_events s2 = pending_events s1 @ concat (map (event_of (cs_surface_id s1)) (fst (poll_later io)))"
      "cs_surface_id s2 = cs_surface_id s1"
    using capture_events_step by blast
  show ?thesis
    using s1 s2 by (auto simp: poll_events_def polled_def split: option.splits wl_io.splits)
qed

lemma send_events_queued:
  assumes "fifo_channel U qu" and "send_events (make_input_sender U) evs q = (True, q')"
  shows "qu (input_tx q') = qu (input_tx q) @ map input_wire evs"
  using assms(2)
proof (induction evs arbitrary: q)
  case (Cons e evs)
  obtain ok q1 where q1: "make_input_sender U q e = (ok, q1)" by (cases "make_input_sender U q e")
  with Cons.prems have "ok" "send_events (make_input_sender U) evs q1 = (True, q')" by (auto split: bool.splits)
  moreover from q1 \<open>ok\<close> obtain c where "chan_send U (input_tx q) (input_wire e) = Some c" "input_tx q1 = c"
    by (auto simp: make_input_sender_def send_input_def split: option.splits)
  moreover from this(1) assms(1) have "qu c = qu (input_tx q) @ [input_wire e]" by (simp add: fifo_channel_def)
  ultimately show ?case using Cons.IH by fastforce
qed simp

lemma capture_loop_queued:
  assumes U: "fifo_channel U qu" and "input_capture_loop (make_input_sender U) its (s, q) = Some (InGoOn, s', q')"
  shows "qu (input_tx q') = qu (input_tx q) @ map input_wire (concat (map (event_of (cs_surface_id s)) (concat (map polled its))))"
  using assms(2)
proof (induction its arbitrary: s q)
  case (Cons it its)
  obtain stop io where it: "it = (stop, io)" by (cases it)
  obtain r s1 where p: "poll_events io s = Some (r, s1)" "cs_surface_id s1 = cs_surface_id s"
      "\<forall>evs. r = Inr evs \<longrightarrow> evs = concat (map (event_of (cs_surface_id s)) (polled it))"
    using poll_events_step [of io s stop] it by auto
  from Cons.prems p(1) it obtain evs q1 where r: "r = Inr evs" "send_events (make_input_sender U) evs q = (True, q1)"
      "input_capture_loop (make_input_sender U) its (s1, q1) = Some (InGoOn, s', q')"
    by (auto split: if_splits sum.splits prod.splits bool.splits)
  from Cons.IH [OF r(3)] send_events_queued [OF U r(2)] p r(1) show ?case by simp
qed simp

section \<open>Wire and dispatch\<close>

definition event_message :: "InputEvent \<Rightarrow> Outgoing" where
  "event_message e = \<lparr>out_sid = 0, out_type = InputEventMsg, out_flags = 0, out_ts = 0, out_payload = InputEvent_bytes e\<rparr>"

lemma event_of_wf: "e \<in> set (event_of sid c) \<Longrightarrow> InputEvent_wf e"
  by (cases c) (auto simp: InputEvent_wf_def padded_def length_PointerAxis_bytes split: option.splits)

lemma length_InputEvent_bytes: "InputEvent_wf e \<Longrightarrow> length (InputEvent_bytes e) = 16"
  by (rule input_event.put_length)

lemma input_wire_message:
  assumes "InputEvent_wf e"
  shows "wire_of 16 (event_message e) = Some (input_wire e)" and "sendable (event_message e)"
    and "im_payload (delivered 16 (event_message e)) = InputEvent_bytes e"
    and "header_msg_type (im_header (delivered 16 (event_message e))) = Inr InputEventMsg"
proof -
  have l: "length (InputEvent_bytes e) = 16" using assms by (rule length_InputEvent_bytes)
  then have ne: "InputEvent_bytes e \<noteq> []" by auto
  have "chunks_of 16 (InputEvent_bytes e) = [InputEvent_bytes e]"
    using l ne by (subst chunks_of.simps) simp
  then show "wire_of 16 (event_message e) = Some (input_wire e)"
    using l ne by (simp add: wire_of_def event_message_def split_into_chunks_frames input_wire_def)
  show "sendable (event_message e)" by (simp add: sendable_def event_message_def l)
  show "im_payload (delivered 16 (event_message e)) = InputEvent_bytes e"
    by (simp add: delivered_def event_message_def Let_def)
  show "header_msg_type (im_header (delivered 16 (event_message e))) = Inr InputEventMsg"
    by (simp add: delivered_def event_message_def Let_def)
qed

lemma dispatch_run_rings:
  assumes R: "spsc_ring R items cap" and "\<forall>e \<in> set evs. InputEvent_wf e" and "length (items (ij_ring t)) + length evs \<le> cap"
  shows "\<exists>t'. dispatch_run (inject_send R) (map (\<lambda>e. delivered 16 (event_message e)) evs) t = (map (\<lambda>e. Injected e True) evs, t') \<and>
     items (ij_ring t') = items (ij_ring t) @ evs \<and> ij_stop t' = ij_stop t"
  using assms(2,3)
proof (induction evs arbitrary: t)
  case (Cons e evs)
  then have wf: "InputEvent_wf e" and room: "length (items (ij_ring t)) < cap" by simp_all
  from ring_push_room [OF R room] obtain r where r: "ring_push R (ij_ring t) e = Some r" "items r = items (ij_ring t) @ [e]"
    by blast
  have "recv_dispatch_turn (inject_send R) (Some (delivered 16 (event_message e))) t = (Injected e True, t\<lparr>ij_ring := r\<rparr>)"
    using input_wire_message [OF wf] length_InputEvent_bytes [OF wf] input_event.get_put [OF wf] r(1)
    by (simp add: recv_dispatch_turn_def inject_send_def)
  with Cons.IH [of "t\<lparr>ij_ring := r\<rparr>"] Cons.prems r(2) show ?case by auto
qed simp

section \<open>Injection\<close>

lemma payload_head_padded:
  "length b \<le> 12 \<Longrightarrow> payload_head (padded k b) (length b) = Some b"
  by (simp add: payload_head_def padded_def vslice_def)

lemma PointerAxis_back:
  "PointerAxis_read (PointerAxis_bytes \<lparr>pa_axis = v, pa_pad = replicate 3 0, pa_value = x\<rparr>) =
     Some \<lparr>pa_axis = v, pa_pad = replicate 3 0, pa_value = x\<rparr>"
  by (rule pointer_axis.get_put) (simp add: PointerAxis_wf_def)

lemma padded_kind [simp]: "InputEvent_kind (padded k b) = Inr k"
  by (simp add: InputEvent_kind_def padded_def input_kind.try_from_to)

lemmas heads = payload_head_padded [of "PointerMotion_bytes m" for m, simplified]
  payload_head_padded [of "PointerButton_bytes m" for m, simplified]
  payload_head_padded [of "KeyEvent_bytes m" for m, simplified]
  payload_head_padded [of "PointerAxis_bytes \<lparr>pa_axis = v, pa_pad = replicate 3 0, pa_value = x\<rparr>" for v x,
    simplified length_PointerAxis_bytes, simplified]

lemma event_skipped: "\<not> forwarded c \<Longrightarrow> event_of sid c = []"
  by (cases c rule: forwarded.cases) auto

lemma not_other [simp]:
  "p \<noteq> OtherPress \<longleftrightarrow> p = Pressed \<or> p = Released" "a \<noteq> OtherAxis \<longleftrightarrow> a = VerticalScroll \<or> a = HorizontalScroll"
  by (cases p; simp) (cases a; simp)

lemma event_replayed:
  assumes "virtual_pointer s" and "virtual_keyboard s" and "forwarded c"
  shows "\<exists>e. event_of sid c = [e] \<and> dispatch_event f s time e = Some (Inr (replay f time c))"
  using assms
  by (cases c rule: forwarded.cases)
    (auto simp: dispatch_event_def heads PointerAxis_back pointer_motion.get_put pointer_button.get_put key_event.get_put
      inject_pointer_motion_def inject_pointer_button_def inject_pointer_axis_def inject_key_def POINTER_EXTENT_def)

lemma inject_loop_replays:
  assumes R: "spsc_ring R items cap" and dev: "virtual_pointer s" "virtual_keyboard s"
    and "items (ij_ring t) = concat (map (event_of sid) cs)" and "\<not> ij_stop t" and "length ts = length (filter forwarded cs)"
  shows "\<exists>t'. inject_loop R f s ts t = Some (concat (map2 (replay f) ts (filter forwarded cs)), t') \<and> items (ij_ring t') = []"
  using assms(4-)
proof (induction cs arbitrary: t ts)
  case (Cons c cs)
  show ?case
  proof (cases "forwarded c")
    case False
    with Cons event_skipped [OF False] show ?thesis by simp
  next
    case True
    from event_replayed [OF dev True] obtain e where e: "event_of sid c = [e]" by blast
    from Cons.prems True obtain time ts' where ts: "ts = time # ts'" "length ts' = length (filter forwarded cs)"
      by (cases ts) auto
    from Cons.prems(1) e have "items (ij_ring t) = e # concat (map (event_of sid) cs)" by simp
    from ring_pop_Cons [OF R this] obtain r where r: "ring_pop R (ij_ring t) = Some (e, r)" "items r = concat (map (event_of sid) cs)"
      by blast
    have "inject_turn R f s time t = Some (True, replay f time c, t\<lparr>ij_ring := r\<rparr>)"
      using r(1) Cons.prems(2) event_replayed [OF dev True, of sid f time] e by (simp add: inject_turn_def)
    with Cons.IH [of "t\<lparr>ij_ring := r\<rparr>" ts'] Cons.prems(2) r(2) ts True show ?thesis by auto
  qed
qed simp

lemma length_events: "length (concat (map (event_of sid) cs)) = length (filter forwarded cs)"
proof (induction cs)
  case (Cons c cs)
  then show ?case
    by (cases c rule: forwarded.cases) (auto split: option.splits elim: press_value.elims axis_value.elims)
qed simp

lemma wires_messages:
  "\<forall>e \<in> set evs. InputEvent_wf e \<Longrightarrow> list_all2 (\<lambda>m w. wire_of 16 m = Some w) (map event_message evs) (map input_wire evs)"
  by (simp add: list_all2_map1 list_all2_map2 list_all2_same input_wire_message)

section \<open>Properties\<close>

text \<open>C7. Input is replayed faithfully, in order and exactly once: when the capture loop went over any sequence of
  polls, then however the bytes it queued are cut on their way, the server parses them completely, all of them fit the
  injection ring if its capacity allows, and the injection loop makes exactly the requests that mirror the forwarded
  events, each at the time of its turn, and leaves the ring empty.\<close>

theorem input_replayed:
  assumes U: "fifo_channel U qu" and q: "qu (input_tx q) = []" and R: "spsc_ring R items cap"
    and ring: "items (ij_ring t) = []" "\<not> ij_stop t" and dev: "virtual_pointer devs" "virtual_keyboard devs"
    and run: "input_capture_loop (make_input_sender U) its (s, q) = Some (InGoOn, s', q')"
    and cs: "cs = concat (map polled its)" and room: "length (filter forwarded cs) \<le> cap"
    and ts: "length ts = length (filter forwarded cs)" and ds: "concat ds = concat (qu (input_tx q'))"
  shows "\<exists>ms acts t1 t2. feed StreamParser_new ds = (StreamParser_new, Inr ms) \<and>
     dispatch_run (inject_send R) ms t = (acts, t1) \<and> length acts = length (filter forwarded cs) \<and>
     inject_loop R f devs ts t1 = Some (concat (map2 (replay f) ts (filter forwarded cs)), t2) \<and> items (ij_ring t2) = []"
proof -
  define evs where "evs = concat (map (event_of (cs_surface_id s)) cs)"
  have wf: "\<forall>e \<in> set evs. InputEvent_wf e" by (auto simp: evs_def event_of_wf)
  have len: "length evs = length (filter forwarded cs)" by (simp only: evs_def length_events)
  have "concat ds = concat (map input_wire evs)"
    using capture_loop_queued [OF U run] q ds by (simp add: evs_def cs)
  moreover have "push StreamParser_new (concat (map input_wire evs)) =
      (StreamParser_new, Inr (map (delivered 16) (map event_message evs)))"
    using wf wires_messages [OF wf] by (intro push_messages) (auto simp: input_wire_message)
  ultimately have fed: "feed StreamParser_new ds = (StreamParser_new, Inr (map (\<lambda>e. delivered 16 (event_message e)) evs))"
    by (simp add: feed_push_Inr comp_def)
  obtain t1 where t1: "dispatch_run (inject_send R) (map (\<lambda>e. delivered 16 (event_message e)) evs) t =
      (map (\<lambda>e. Injected e True) evs, t1)" "items (ij_ring t1) = evs" "\<not> ij_stop t1"
    using dispatch_run_rings [OF R wf, of t] ring room len by auto
  obtain t2 where "inject_loop R f devs ts t1 = Some (concat (map2 (replay f) ts (filter forwarded cs)), t2)"
      "items (ij_ring t2) = []"
    using inject_loop_replays [OF R dev t1(2) [unfolded evs_def] t1(3) ts] by blast
  with fed t1(1) len show ?thesis by auto
qed

definition demo_poll :: PollIo where
  "demo_poll = \<lparr>poll_pending = ([PointerMoved 7 9, KeyPressed 30 Pressed, KeyPressed 30 OtherPress], True),
     poll_read = None, poll_later = ([], True)\<rparr>"

definition demo_devices :: InjectState where
  "demo_devices = \<lparr>is_seat = True, vp_manager = True, vk_manager = True, virtual_pointer = True, virtual_keyboard = True\<rparr>"

theorem input_replayed_witness:
  "\<exists>s' q' ms acts t1 t2.
     input_capture_loop (make_input_sender (list_channel None)) [(False, demo_poll)] (CaptureState_empty, demo_sender) =
       Some (InGoOn, s', q') \<and>
     feed StreamParser_new [concat (input_tx q')] = (StreamParser_new, Inr ms) \<and>
     dispatch_run (inject_send (list_ring 4)) ms (InputInjectThread_spawn []) = (acts, t1) \<and> length acts = 2 \<and>
     inject_loop (list_ring 4) (\<lambda>x. x) demo_devices [100, 101] t1 =
       Some ([MotionAbsolute 100 7 9 0xFFFF 0xFFFF, VpFrame, VkKey 101 30 1], t2) \<and> ij_ring t2 = []"
proof -
  have "\<exists>s' q'. input_capture_loop (make_input_sender (list_channel None)) [(False, demo_poll)] (CaptureState_empty, demo_sender) =
      Some (InGoOn, s', q')"
    by (simp add: demo_poll_def poll_events_def capture_events_def event_simps CaptureState_empty_def demo_sender_def
        make_input_sender_def send_input_def list_channel_def)
  then obtain s' q' where run:
      "input_capture_loop (make_input_sender (list_channel None)) [(False, demo_poll)] (CaptureState_empty, demo_sender) =
       Some (InGoOn, s', q')" by blast
  have cs: "filter forwarded (polled (False, demo_poll)) = [PointerMoved 7 9, KeyPressed 30 Pressed]"
    by (simp add: polled_def demo_poll_def)
  have "length [PointerMoved 7 9, KeyPressed 30 Pressed] = 2"
    and "concat (map2 (replay (\<lambda>x. x)) [100, 101] [PointerMoved 7 9, KeyPressed 30 Pressed]) =
      [MotionAbsolute 100 7 9 0xFFFF 0xFFFF, VpFrame, VkKey 101 30 1]" by simp_all
  moreover have "\<exists>ms acts t1 t2. feed StreamParser_new [concat (input_tx q')] = (StreamParser_new, Inr ms) \<and>
     dispatch_run (inject_send (list_ring 4)) ms (InputInjectThread_spawn []) = (acts, t1) \<and>
     length acts = length (filter forwarded (polled (False, demo_poll))) \<and>
     inject_loop (list_ring 4) (\<lambda>x. x) demo_devices [100, 101] t1 =
       Some (concat (map2 (replay (\<lambda>x. x)) [100, 101] (filter forwarded (polled (False, demo_poll)))), t2) \<and> ij_ring t2 = []"
    by (rule input_replayed [OF list_channel_fifo _ list_ring_spsc _ _ _ _ run])
      (simp_all add: InputInjectThread_spawn_def demo_devices_def demo_sender_def polled_def demo_poll_def)
  ultimately show ?thesis using run unfolding cs by metis
qed

text \<open>Where the virtual pointer protocol puts a coordinate \<open>x\<close> of an extent on an output \<open>w\<close> pixels wide.\<close>

definition on_output :: "nat \<Rightarrow> u32 \<Rightarrow> u32 \<Rightarrow> nat" where
  "on_output w x extent = unat x * w div unat extent"

text \<open>C40. Injected motion lands short of where the pointer was: the client sends surface pixels, the server passes
  them on as coordinates of the extent 0xFFFF, so on any output narrower than that every position but the first column
  comes out strictly to the left.\<close>

theorem pointer_lands_short:
  assumes "virtual_pointer s" and "InputEvent_pointer_motion m = Some e"
    and x: "0 < unat (f (pm_x m))" and w: "w < 0xFFFF"
  shows "\<exists>x y rq. dispatch_event f s time e = Some (Inr (MotionAbsolute time x y POINTER_EXTENT POINTER_EXTENT # rq)) \<and>
     x = f (pm_x m) \<and> on_output w x POINTER_EXTENT < unat x"
proof -
  have e: "e = padded KindPointerMotion (PointerMotion_bytes m)"
    using assms(2) by (simp add: event_simps)
  have d: "dispatch_event f s time e = Some (Inr (inject_pointer_motion f s time m))"
    by (simp add: e dispatch_event_def heads pointer_motion.get_put)
  have "unat (f (pm_x m)) * w < unat (f (pm_x m)) * 0xFFFF" using x w by simp
  then have "on_output w (f (pm_x m)) POINTER_EXTENT < unat (f (pm_x m))"
    by (simp add: on_output_def POINTER_EXTENT_def less_mult_imp_div_less)
  with d assms(1) show ?thesis by (auto simp: inject_pointer_motion_def)
qed

theorem pointer_lands_short_witness:
  "\<exists>x y rq. dispatch_event (\<lambda>v. v) demo_devices 5
      (padded KindPointerMotion (PointerMotion_bytes \<lparr>pm_surface_id = 0, pm_pad = 0, pm_x = 960, pm_y = 540\<rparr>)) =
      Some (Inr (MotionAbsolute 5 x y POINTER_EXTENT POINTER_EXTENT # rq)) \<and>
     x = 960 \<and> on_output 1920 x POINTER_EXTENT < unat x"
  using pointer_lands_short [of demo_devices "\<lparr>pm_surface_id = 0, pm_pad = 0, pm_x = 960, pm_y = 540\<rparr>"
      "padded KindPointerMotion (PointerMotion_bytes \<lparr>pm_surface_id = 0, pm_pad = 0, pm_x = 960, pm_y = 540\<rparr>)"
      "\<lambda>v. v" 1920 5]
  by (simp add: demo_devices_def event_simps)

end
