(* ===== verification/Vk.thy ===== *)
theory Vk
  imports Prelude "HOL-Library.Multiset"
begin

text \<open>
  Programs over a Vulkan device. The driver is not part of the repository: a \<open>Driver\<close> says what each call returns, what
  memory types and requirements there are and what mapped memory holds. The state \<open>Vk\<close> is what the program has done:
  the objects alive, what they were created with, the commands recorded and submitted. A program is a function of the
  state that returns an error or a value with the new state; \<open>owns\<close> is the judgement on objects that the components
  share: what a program needs alive, what is alive when it succeeds, and what it leaves behind when it fails.
\<close>

section \<open>Devices\<close>

type_synonym handle = nat
type_synonym VkResult = int

text \<open>A formatted text: its literal part and the result code printed into it, if any.\<close>

type_synonym message = "string \<times> VkResult option"

datatype mem_flag = DEVICE_LOCAL | HOST_VISIBLE | HOST_COHERENT | HOST_CACHED

datatype obj_kind = KInstance | KDevice | KMemory | KBuffer | KImage | KImageView | KFence | KCommandPool | KQueryPool
  | KVideoSession | KVideoSessionParameters | KShaderModule | KDescriptorSetLayout | KPipelineLayout | KPipeline
  | KDescriptorPool | KFsrContext | KFrameGenContext

record MemReq =
  req_size :: u64
  req_bits :: u32

text \<open>\<open>drv_result n\<close> is the error of the \<open>n\<close>-th call that may fail, or \<open>None\<close>; \<open>drv_byte n h i\<close> is byte \<open>i\<close> of the
  memory \<open>h\<close> when it is read after \<open>n\<close> calls.\<close>

record Driver =
  drv_result :: "nat \<Rightarrow> VkResult option"
  drv_memory_types :: "mem_flag set list"
  drv_buffer_req :: "handle \<Rightarrow> MemReq"
  drv_image_req :: "handle \<Rightarrow> MemReq"
  drv_byte :: "nat \<Rightarrow> handle \<Rightarrow> nat \<Rightarrow> u8"

text \<open>\<open>'c\<close> are the commands and \<open>'i\<close> what objects are created with. Handles are numbered by the calls that made them.\<close>

record ('c, 'i) Vk =
  vk_calls :: nat
  vk_live :: "(obj_kind \<times> handle) multiset"
  vk_misuse :: bool
  vk_infos :: "'i list"
  vk_recorded :: "'c list"
  vk_submitted :: "'c list list"
  vk_uploads :: "(handle \<times> bytes) list"

definition Vk_empty :: "('c, 'i) Vk" where
  "Vk_empty = \<lparr>vk_calls = 0, vk_live = {#}, vk_misuse = False, vk_infos = [], vk_recorded = [], vk_submitted = [], vk_uploads = []\<rparr>"

type_synonym ('c, 'i, 'e, 'a) vk = "('c, 'i) Vk \<Rightarrow> ('e + 'a) \<times> ('c, 'i) Vk"

section \<open>Programs\<close>

definition vk_return :: "'a \<Rightarrow> ('c, 'i, 'e, 'a) vk" where
  "vk_return a s = (Inr a, s)"

definition vk_fail :: "'e \<Rightarrow> ('c, 'i, 'e, 'a) vk" where
  "vk_fail e s = (Inl e, s)"

definition vk_then :: "('c, 'i, 'e, 'a) vk \<Rightarrow> ('a \<Rightarrow> ('c, 'i, 'e, 'b) vk) \<Rightarrow> ('c, 'i, 'e, 'b) vk" where
  "vk_then m k s = (case m s of (Inl e, s') \<Rightarrow> (Inl e, s') | (Inr a, s') \<Rightarrow> k a s')"

definition vk_catch :: "('c, 'i, 'e, 'a) vk \<Rightarrow> ('e \<Rightarrow> ('c, 'i, 'f, 'a) vk) \<Rightarrow> ('c, 'i, 'f, 'a) vk" where
  "vk_catch m h s = (case m s of (Inl e, s') \<Rightarrow> h e s' | (Inr a, s') \<Rightarrow> (Inr a, s'))"

definition vk_lift :: "'e + 'a \<Rightarrow> ('c, 'i, 'e, 'a) vk" where
  "vk_lift r s = (r, s)"

fun vk_each :: "('x \<Rightarrow> ('c, 'i, 'e, 'a) vk) \<Rightarrow> 'x list \<Rightarrow> ('c, 'i, 'e, 'a list) vk" where
  "vk_each f [] = vk_return []"
| "vk_each f (x # xs) = vk_then (f x) (\<lambda>a. vk_then (vk_each f xs) (\<lambda>as. vk_return (a # as)))"

text \<open>A call that may fail, one that makes an object, one that destroys it, recording, submission and mapped memory.\<close>

definition vk_call :: "Driver \<Rightarrow> (VkResult \<Rightarrow> 'e) \<Rightarrow> ('c, 'i, 'e, unit) vk" where
  "vk_call D err s = ((case drv_result D (vk_calls s) of None \<Rightarrow> Inr () | Some code \<Rightarrow> Inl (err code)),
     s\<lparr>vk_calls := vk_calls s + 1\<rparr>)"

definition vk_create :: "Driver \<Rightarrow> (VkResult \<Rightarrow> 'e) \<Rightarrow> obj_kind \<Rightarrow> 'i \<Rightarrow> ('c, 'i, 'e, handle) vk" where
  "vk_create D err kind info s = vk_then (vk_call D err) (\<lambda>_ t.
     (Inr (vk_calls s), t\<lparr>vk_live := add_mset (kind, vk_calls s) (vk_live t), vk_infos := vk_infos t @ [info]\<rparr>)) s"

definition vk_destroy :: "obj_kind \<Rightarrow> handle \<Rightarrow> ('c, 'i, 'e, unit) vk" where
  "vk_destroy kind h s = (Inr (), s\<lparr>vk_live := vk_live s - {#(kind, h)#},
     vk_misuse := (vk_misuse s \<or> (kind, h) \<notin># vk_live s)\<rparr>)"

definition vk_begin :: "Driver \<Rightarrow> (VkResult \<Rightarrow> 'e) \<Rightarrow> ('c, 'i, 'e, unit) vk" where
  "vk_begin D err = vk_then (vk_call D err) (\<lambda>_ s. (Inr (), s\<lparr>vk_recorded := []\<rparr>))"

definition vk_record :: "'c list \<Rightarrow> ('c, 'i, 'e, unit) vk" where
  "vk_record cs s = (Inr (), s\<lparr>vk_recorded := vk_recorded s @ cs\<rparr>)"

definition vk_submit :: "Driver \<Rightarrow> (VkResult \<Rightarrow> 'e) \<Rightarrow> ('c, 'i, 'e, unit) vk" where
  "vk_submit D err = vk_then (vk_call D err) (\<lambda>_ s. (Inr (), s\<lparr>vk_submitted := vk_submitted s @ [vk_recorded s]\<rparr>))"

definition vk_write :: "Driver \<Rightarrow> (VkResult \<Rightarrow> 'e) \<Rightarrow> handle \<Rightarrow> bytes \<Rightarrow> ('c, 'i, 'e, unit) vk" where
  "vk_write D err h data = vk_then (vk_call D err) (\<lambda>_ s. (Inr (), s\<lparr>vk_uploads := vk_uploads s @ [(h, data)]\<rparr>))"

definition vk_read :: "Driver \<Rightarrow> (VkResult \<Rightarrow> 'e) \<Rightarrow> handle \<Rightarrow> usize \<Rightarrow> ('c, 'i, 'e, bytes) vk" where
  "vk_read D err h n = vk_then (vk_call D err) (\<lambda>_ s. (Inr (map (drv_byte D (vk_calls s) h) [0..<n]), s))"

text \<open>Noting what a call was made with.\<close>

definition vk_note :: "'i \<Rightarrow> ('c, 'i, 'e, unit) vk" where
  "vk_note i s = (Inr (), s\<lparr>vk_infos := vk_infos s @ [i]\<rparr>)"

text \<open>The first memory type that the requirement admits and that has the wanted properties.\<close>

definition find_memory_type :: "Driver \<Rightarrow> u32 \<Rightarrow> mem_flag set \<Rightarrow> nat option" where
  "find_memory_type D bits wanted =
     find (\<lambda>i. bit bits i \<and> wanted \<subseteq> drv_memory_types D ! i) [0..<length (drv_memory_types D)]"

text \<open>When a program succeeds, step by step.\<close>

named_theorems vk_ok \<open>successful runs\<close>

lemma vk_return_ok [vk_ok]: "vk_return a s = (Inr b, s') \<longleftrightarrow> b = a \<and> s' = s"
  by (auto simp: vk_return_def)

lemma vk_fail_ok [vk_ok]: "vk_fail e s = (Inr b, s') \<longleftrightarrow> False"
  by (simp add: vk_fail_def)

lemma vk_lift_ok [vk_ok]: "vk_lift r s = (Inr b, s') \<longleftrightarrow> r = Inr b \<and> s' = s"
  by (auto simp: vk_lift_def)

lemma vk_then_ok [vk_ok]: "vk_then m k s = (Inr b, s') \<longleftrightarrow> (\<exists>a t. m s = (Inr a, t) \<and> k a t = (Inr b, s'))"
  by (auto simp: vk_then_def split: prod.splits sum.splits)

lemma vk_catch_ok [vk_ok]:
  "vk_catch m h s = (Inr b, s') \<longleftrightarrow> m s = (Inr b, s') \<or> (\<exists>e t. m s = (Inl e, t) \<and> h e t = (Inr b, s'))"
  by (auto simp: vk_catch_def split: prod.splits sum.splits)

lemma vk_call_ok [vk_ok]:
  "vk_call D err s = (Inr u, s') \<longleftrightarrow> drv_result D (vk_calls s) = None \<and> s' = s\<lparr>vk_calls := vk_calls s + 1\<rparr>"
  by (auto simp: vk_call_def split: option.splits)

lemma vk_create_ok [vk_ok]:
  "vk_create D err k i s = (Inr h, s') \<longleftrightarrow> drv_result D (vk_calls s) = None \<and> h = vk_calls s \<and>
     s' = s\<lparr>vk_calls := vk_calls s + 1, vk_live := add_mset (k, vk_calls s) (vk_live s), vk_infos := vk_infos s @ [i]\<rparr>"
  by (auto simp: vk_create_def vk_then_def vk_call_def split: option.splits)

lemma vk_destroy_ok [vk_ok]:
  "vk_destroy k h s = (Inr u, s') \<longleftrightarrow>
     s' = s\<lparr>vk_live := vk_live s - {#(k, h)#}, vk_misuse := (vk_misuse s \<or> (k, h) \<notin># vk_live s)\<rparr>"
  by (auto simp: vk_destroy_def)

lemma vk_begin_ok [vk_ok]:
  "vk_begin D err s = (Inr u, s') \<longleftrightarrow>
     drv_result D (vk_calls s) = None \<and> s' = s\<lparr>vk_calls := vk_calls s + 1, vk_recorded := []\<rparr>"
  by (auto simp: vk_begin_def vk_then_def vk_call_def split: option.splits)

lemma vk_record_ok [vk_ok]: "vk_record cs s = (Inr u, s') \<longleftrightarrow> s' = s\<lparr>vk_recorded := vk_recorded s @ cs\<rparr>"
  by (auto simp: vk_record_def)

lemma vk_note_ok [vk_ok]: "vk_note i s = (Inr u, s') \<longleftrightarrow> s' = s\<lparr>vk_infos := vk_infos s @ [i]\<rparr>"
  by (auto simp: vk_note_def)

lemma vk_submit_ok [vk_ok]:
  "vk_submit D err s = (Inr u, s') \<longleftrightarrow> drv_result D (vk_calls s) = None \<and>
     s' = s\<lparr>vk_calls := vk_calls s + 1, vk_submitted := vk_submitted s @ [vk_recorded s]\<rparr>"
  by (auto simp: vk_submit_def vk_then_def vk_call_def split: option.splits)

lemma vk_write_ok [vk_ok]:
  "vk_write D err h data s = (Inr u, s') \<longleftrightarrow> drv_result D (vk_calls s) = None \<and>
     s' = s\<lparr>vk_calls := vk_calls s + 1, vk_uploads := vk_uploads s @ [(h, data)]\<rparr>"
  by (auto simp: vk_write_def vk_then_def vk_call_def split: option.splits)

lemma vk_read_ok [vk_ok]:
  "vk_read D err h n s = (Inr b, s') \<longleftrightarrow> drv_result D (vk_calls s) = None \<and>
     b = map (drv_byte D (vk_calls s + 1) h) [0..<n] \<and> s' = s\<lparr>vk_calls := vk_calls s + 1\<rparr>"
  by (auto simp: vk_read_def vk_then_def vk_call_def split: option.splits)

text \<open>Running a program whose calls are known to succeed or to fail.\<close>

named_theorems vk_run \<open>evaluation step by step\<close>

lemma vk_then_run [vk_run]:
  "m s = (Inr a, t) \<Longrightarrow> vk_then m k s = k a t"
  "m s = (Inl e, t) \<Longrightarrow> vk_then m k s = (Inl e, t)"
  by (simp_all add: vk_then_def)

lemma vk_catch_run [vk_run]:
  "m s = (Inr a, t) \<Longrightarrow> vk_catch m h s = (Inr a, t)"
  "m s = (Inl e, t) \<Longrightarrow> vk_catch m h s = h e t"
  by (simp_all add: vk_catch_def)

lemma vk_call_run [vk_run]:
  "drv_result D (vk_calls s) = None \<Longrightarrow> vk_call D err s = (Inr (), s\<lparr>vk_calls := vk_calls s + 1\<rparr>)"
  "drv_result D (vk_calls s) = Some code \<Longrightarrow> vk_call D err s = (Inl (err code), s\<lparr>vk_calls := vk_calls s + 1\<rparr>)"
  by (simp_all add: vk_call_def)

lemma vk_create_run [vk_run]:
  "drv_result D (vk_calls s) = None \<Longrightarrow> vk_create D err k i s = (Inr (vk_calls s),
     s\<lparr>vk_calls := vk_calls s + 1, vk_live := add_mset (k, vk_calls s) (vk_live s), vk_infos := vk_infos s @ [i]\<rparr>)"
  "drv_result D (vk_calls s) = Some code \<Longrightarrow> vk_create D err k i s = (Inl (err code), s\<lparr>vk_calls := vk_calls s + 1\<rparr>)"
  by (simp_all add: vk_create_def vk_then_def vk_call_def)

lemmas vk_eval [vk_run] = vk_return_def vk_fail_def vk_lift_def vk_destroy_def vk_record_def vk_note_def vk_begin_def vk_submit_def vk_write_def
  vk_read_def

section \<open>What a program owns\<close>

text \<open>\<open>owns P m Q E\<close>: wherever the objects \<open>P\<close> are alive, \<open>m\<close> touches no other objects, destroys only what is alive,
  succeeds with a value \<open>a\<close> and the objects \<open>Q a\<close> in place of \<open>P\<close>, or fails and leaves some \<open>L\<close> with \<open>E L\<close>.\<close>

definition outcome ::
  "('a \<Rightarrow> (obj_kind \<times> handle) multiset) \<Rightarrow> ((obj_kind \<times> handle) multiset \<Rightarrow> bool) \<Rightarrow> (obj_kind \<times> handle) multiset
   \<Rightarrow> 'e + 'a \<Rightarrow> (obj_kind \<times> handle) multiset \<Rightarrow> bool" where
  "outcome Q E B r live = (case r of Inr a \<Rightarrow> live = B + Q a | Inl e \<Rightarrow> \<exists>L. E L \<and> live = B + L)"

definition owns ::
  "(obj_kind \<times> handle) multiset \<Rightarrow> ('c, 'i, 'e, 'a) vk \<Rightarrow> ('a \<Rightarrow> (obj_kind \<times> handle) multiset)
   \<Rightarrow> ((obj_kind \<times> handle) multiset \<Rightarrow> bool) \<Rightarrow> bool" where
  "owns P m Q E \<longleftrightarrow> (\<forall>B s. vk_live s = B + P \<longrightarrow>
     vk_misuse (snd (m s)) = vk_misuse s \<and> outcome Q E B (fst (m s)) (vk_live (snd (m s))))"

lemma outcome_simps [simp]:
  "outcome Q E B (Inr a) live \<longleftrightarrow> live = B + Q a"
  "outcome Q E B (Inl e) live \<longleftrightarrow> (\<exists>L. E L \<and> live = B + L)"
  by (simp_all add: outcome_def)

lemma ownsI:
  assumes "\<And>B s. vk_live s = B + P \<Longrightarrow>
     vk_misuse (snd (m s)) = vk_misuse s \<and> outcome Q E B (fst (m s)) (vk_live (snd (m s)))"
  shows "owns P m Q E"
  using assms by (simp add: owns_def)

lemma ownsD:
  assumes "owns P m Q E" and "vk_live s = B + P" and "m s = (r, s')"
  shows "vk_misuse s' = vk_misuse s" and "outcome Q E B r (vk_live s')"
  using assms by (force simp: owns_def)+

lemma owns_apply:
  assumes "owns {#} m Q E"
  shows "vk_misuse (snd (m s)) = vk_misuse s \<and> outcome Q E (vk_live s) (fst (m s)) (vk_live (snd (m s)))"
  using assms by (simp add: owns_def)

lemma owns_return [intro]: "owns (Q a) (vk_return a) Q E"
  by (rule ownsI) (simp add: vk_return_def)

lemma owns_fail: "E P \<Longrightarrow> owns P (vk_fail e) Q E"
  by (rule ownsI) (auto simp: vk_fail_def)

lemma owns_then:
  fixes m :: "('c, 'i, 'e, 'a) vk"
  assumes "owns P m Q E" and "\<And>a. owns (Q a) (k a) R E"
  shows "owns P (vk_then m k) R E"
proof (rule ownsI)
  fix B and s :: "('c, 'i) Vk" assume s: "vk_live s = B + P"
  obtain r t where m: "m s = (r, t)" by fastforce
  note d = ownsD [OF assms(1) s m]
  show "vk_misuse (snd (vk_then m k s)) = vk_misuse s \<and>
     outcome R E B (fst (vk_then m k s)) (vk_live (snd (vk_then m k s)))"
  proof (cases r)
    case (Inl e)
    then show ?thesis using d m by (simp add: vk_then_def)
  next
    case (Inr a)
    then have "vk_live t = B + Q a" using d by simp
    moreover have "vk_then m k s = k a t" using Inr m by (simp add: vk_then_def)
    ultimately show ?thesis using assms(2) [of a] d(1) by (simp add: owns_def)
  qed
qed

lemma owns_catch:
  fixes m :: "('c, 'i, 'e, 'a) vk"
  assumes "owns P m Q E'" and "\<And>e L. E' L \<Longrightarrow> owns L (h e) Q E"
  shows "owns P (vk_catch m h) Q E"
proof (rule ownsI)
  fix B and s :: "('c, 'i) Vk" assume s: "vk_live s = B + P"
  obtain r t where m: "m s = (r, t)" by fastforce
  note d = ownsD [OF assms(1) s m]
  show "vk_misuse (snd (vk_catch m h s)) = vk_misuse s \<and>
     outcome Q E B (fst (vk_catch m h s)) (vk_live (snd (vk_catch m h s)))"
  proof (cases r)
    case (Inl e)
    then obtain L where L: "E' L" "vk_live t = B + L" using d(2) by auto
    have "vk_catch m h s = h e t" using Inl m by (simp add: vk_catch_def)
    then show ?thesis using assms(2) [OF L(1), of e] L(2) d(1) by (simp add: owns_def)
  next
    case (Inr a)
    then show ?thesis using d m by (simp add: vk_catch_def)
  qed
qed

lemma owns_frame:
  fixes m :: "('c, 'i, 'e, 'a) vk"
  assumes "owns P m Q E" and "\<And>L. E L \<Longrightarrow> E' (L + F)"
  shows "owns (P + F) m (\<lambda>a. Q a + F) E'"
proof (rule ownsI)
  fix B and s :: "('c, 'i) Vk" assume "vk_live s = B + (P + F)"
  then have s: "vk_live s = (B + F) + P" by (simp add: ac_simps)
  obtain r t where m: "m s = (r, t)" by fastforce
  note d = ownsD [OF assms(1) s m]
  show "vk_misuse (snd (m s)) = vk_misuse s \<and>
     outcome (\<lambda>a. Q a + F) E' B (fst (m s)) (vk_live (snd (m s)))"
  proof (cases r)
    case (Inl e)
    then obtain L where L: "E L" "vk_live t = B + F + L" using d(2) by auto
    have "B + F + L = B + (L + F)" by (simp add: union_ac)
    then have "\<exists>L. E' L \<and> vk_live t = B + L" using assms(2) [OF L(1)] L(2) by metis
    then show ?thesis using Inl m d(1) by simp
  next
    case (Inr a)
    then show ?thesis using d m by (simp add: ac_simps)
  qed
qed

lemma owns_weaken:
  fixes m :: "('c, 'i, 'e, 'a) vk"
  assumes "owns P m Q E" and "\<And>L. E L \<Longrightarrow> E' L"
  shows "owns P m Q E'"
proof (rule ownsI)
  fix B and s :: "('c, 'i) Vk" assume s: "vk_live s = B + P"
  obtain r t where m: "m s = (r, t)" by fastforce
  note d = ownsD [OF assms(1) s m]
  show "vk_misuse (snd (m s)) = vk_misuse s \<and>
     outcome Q E' B (fst (m s)) (vk_live (snd (m s)))"
    using d m assms(2) by (cases r) auto
qed

lemma owns_call: "owns P (vk_call D err) (\<lambda>_. P) (\<lambda>L. L = P)"
  by (rule ownsI) (simp add: vk_call_def split: option.split)

lemma owns_create: "owns P (vk_create D err k i) (\<lambda>h. add_mset (k, h) P) (\<lambda>L. L = P)"
  by (rule ownsI) (simp add: vk_create_def vk_then_def vk_call_def split: option.split)

lemma owns_destroy: "owns (add_mset (k, h) P) (vk_destroy k h) (\<lambda>_. P) E"
  by (rule ownsI) (simp add: vk_destroy_def)

lemma owns_begin: "owns P (vk_begin D err) (\<lambda>_. P) (\<lambda>L. L = P)"
  by (rule ownsI) (simp add: vk_begin_def vk_then_def vk_call_def split: option.split)

lemma owns_record: "owns P (vk_record cs) (\<lambda>_. P) E"
  by (rule ownsI) (simp add: vk_record_def)

lemma owns_note: "owns P (vk_note i) (\<lambda>_. P) E"
  by (rule ownsI) (simp add: vk_note_def)

lemma owns_submit: "owns P (vk_submit D err) (\<lambda>_. P) (\<lambda>L. L = P)"
  by (rule ownsI) (simp add: vk_submit_def vk_then_def vk_call_def split: option.split)

lemma owns_write: "owns P (vk_write D err h data) (\<lambda>_. P) (\<lambda>L. L = P)"
  by (rule ownsI) (simp add: vk_write_def vk_then_def vk_call_def split: option.split)

lemma owns_read: "owns P (vk_read D err h n) (\<lambda>_. P) (\<lambda>L. L = P)"
  by (rule ownsI) (simp add: vk_read_def vk_then_def vk_call_def split: option.split)

lemma owns_lift: "owns P (vk_lift r) (\<lambda>_. P) (\<lambda>L. L = P)"
  by (rule ownsI) (cases r, simp_all add: vk_lift_def)

lemma owns_each:
  assumes "\<And>x F. x \<in> set xs \<Longrightarrow> owns (P + F) (f x) (\<lambda>a. q a + P + F) (\<lambda>L. \<exists>M. L = M + P + F)"
  shows "owns P (vk_each f xs) (\<lambda>as. sum_list (map q as) + P) (\<lambda>L. \<exists>M. L = M + P)"
  using assms
proof (induction xs arbitrary: P)
  case Nil
  have "owns (sum_list (map q []) + P) (vk_return []) (\<lambda>as. sum_list (map q as) + P) (\<lambda>L. \<exists>M. L = M + P)" by (rule owns_return)
  then show ?case by simp
next
  case (Cons x xs)
  show ?case unfolding vk_each.simps
  proof (rule owns_then)
    show "owns P (f x) (\<lambda>a. q a + P) (\<lambda>L. \<exists>M. L = M + P)" using Cons.prems [of x "{#}"] by simp
    fix a
    show "owns (q a + P) (vk_then (vk_each f xs) (\<lambda>as. vk_return (a # as))) (\<lambda>as. sum_list (map q as) + P) (\<lambda>L. \<exists>M. L = M + P)"
    proof (rule owns_then)
      have "owns (q a + P) (vk_each f xs) (\<lambda>as. sum_list (map q as) + (q a + P)) (\<lambda>L. \<exists>M. L = M + (q a + P))"
      proof (rule Cons.IH)
        fix y F assume "y \<in> set xs"
        then show "owns (q a + P + F) (f y) (\<lambda>b. q b + (q a + P) + F) (\<lambda>L. \<exists>M. L = M + (q a + P) + F)"
          using Cons.prems [of y "q a + F"] by (simp add: ac_simps)
      qed
      then have "owns (q a + P) (vk_each f xs) (\<lambda>as. sum_list (map q (a # as)) + P) (\<lambda>L. \<exists>M. L = M + (q a + P))"
        by (simp add: ac_simps)
      then show "owns (q a + P) (vk_each f xs) (\<lambda>as. sum_list (map q (a # as)) + P) (\<lambda>L. \<exists>M. L = M + P)"
        by (rule owns_weaken) (metis union_assoc)
      fix as
      show "owns (sum_list (map q (a # as)) + P) (vk_return (a # as)) (\<lambda>as. sum_list (map q as) + P) (\<lambda>L. \<exists>M. L = M + P)"
        by (rule owns_return)
    qed
  qed
qed

lemma owns_keep: "owns F (vk_return a) (\<lambda>_. F) E"
  by (rule ownsI) (simp add: vk_return_def)

text \<open>Programs that clean up after themselves, run where more is alive.\<close>

lemma owns_kept: "owns P m Q (\<lambda>L. L = P) \<Longrightarrow> S \<subseteq># P \<Longrightarrow> owns P m Q (\<lambda>L. S \<subseteq># L)"
  by (erule owns_weaken) simp

lemma owns_more:
  assumes "owns {#} m Q (\<lambda>L. L = {#})" and "S \<subseteq># P"
  shows "owns P m (\<lambda>a. Q a + P) (\<lambda>L. S \<subseteq># L)"
  using owns_frame [OF assms(1), where F = P and E' = "\<lambda>L. S \<subseteq># L"] assms(2) by simp

lemma owns_then_pair:
  assumes "owns P m (\<lambda>(x, y). Q x y) E" and "\<And>x y. owns (Q x y) (k x y) R E"
  shows "owns P (vk_then m (\<lambda>(x, y). k x y)) R E"
  by (rule owns_then [OF assms(1)]) (auto simp: assms(2))

lemma owns_more_pair:
  assumes "owns {#} m (\<lambda>(x, y). Q x y) (\<lambda>L. L = {#})" and "S \<subseteq># P"
  shows "owns P m (\<lambda>(x, y). Q x y + P) (\<lambda>L. S \<subseteq># L)"
  using owns_more [OF assms] by (simp add: case_prod_beta')

lemma subset_add: "S \<subseteq># P \<Longrightarrow> S \<subseteq># Q + (P :: 'a multiset)"
  by (metis mset_subset_eq_add_right subset_mset.order_trans)

text \<open>Destroying a list of objects, and doing so before failing.\<close>

definition destroy_all :: "(obj_kind \<times> handle) list \<Rightarrow> ('c, 'i, 'e, unit list) vk" where
  "destroy_all = vk_each (\<lambda>(k, h). vk_destroy k h)"

definition undo :: "(obj_kind \<times> handle) list \<Rightarrow> 'e \<Rightarrow> ('c, 'i, 'e, 'a) vk" where
  "undo objs e = vk_then (destroy_all objs) (\<lambda>_. vk_fail e)"

lemma owns_destroys: "owns (mset objs + F) (destroy_all objs) (\<lambda>_. F) E"
  unfolding destroy_all_def
proof (induction objs)
  case Nil
  have "owns F (vk_return []) (\<lambda>_. F) E" by (rule owns_keep)
  then show ?case by simp
next
  case (Cons o' objs)
  obtain k h where o': "o' = (k, h)" by (cases o')
  have m: "mset (o' # objs) + F = add_mset (k, h) (mset objs + F)" by (simp add: o')
  show ?case unfolding vk_each.simps m unfolding o' prod.case
    by (rule owns_then [OF owns_destroy], rule owns_then [OF Cons.IH], rule owns_keep)
qed

lemma owns_destroys_eq: "P = mset objs \<Longrightarrow> owns P (destroy_all objs) (\<lambda>_. {#}) E"
  using owns_destroys [of objs "{#}" E] by simp

lemma owns_undo: "owns (mset objs + F) (undo objs e) Q (\<lambda>L. L = F)"
  unfolding undo_def by (rule owns_then [OF owns_destroys]) (rule owns_fail, simp)

lemma owns_undo1: "owns {#o1#} (undo [o1] e) Q (\<lambda>L. L = {#})"
  using owns_undo [of "[o1]" "{#}"] by simp

lemma owns_undo2: "owns {#o1, o2#} (undo [o1, o2] e) Q (\<lambda>L. L = {#})"
  using owns_undo [of "[o1, o2]" "{#}"] by simp

lemma undo_ok [vk_ok]: "undo objs e s = (Inr b, s') \<longleftrightarrow> False"
  by (simp add: undo_def vk_ok)

text \<open>The first step of a program that owns at least \<open>S\<close>: what fails leaves \<open>S\<close> alive.\<close>

lemma subset_add_mset: "S \<subseteq># P \<Longrightarrow> S \<subseteq># add_mset x P"
  using subset_add [of S P "{#x#}"] by simp

lemmas subset_steps = subset_mset.order_refl subset_add subset_add_mset

lemma first_steps:
  "S \<subseteq># P \<Longrightarrow> owns P (k ()) R (\<lambda>L. S \<subseteq># L) \<Longrightarrow> owns P (vk_then (vk_call D err) k) R (\<lambda>L. S \<subseteq># L)"
  "S \<subseteq># P \<Longrightarrow> owns P (k ()) R (\<lambda>L. S \<subseteq># L) \<Longrightarrow> owns P (vk_then (vk_begin D err) k) R (\<lambda>L. S \<subseteq># L)"
  "S \<subseteq># P \<Longrightarrow> owns P (k ()) R (\<lambda>L. S \<subseteq># L) \<Longrightarrow> owns P (vk_then (vk_submit D err) k) R (\<lambda>L. S \<subseteq># L)"
  "S \<subseteq># P \<Longrightarrow> (\<And>bs. owns P (k2 bs) R (\<lambda>L. S \<subseteq># L)) \<Longrightarrow> owns P (vk_then (vk_read D err h n) k2) R (\<lambda>L. S \<subseteq># L)"
  "owns P (k ()) R E \<Longrightarrow> owns P (vk_then (vk_record cs) k) R E"
  "owns P (k ()) R E \<Longrightarrow> owns P (vk_then (vk_note i) k) R E"
  "S \<subseteq># P \<Longrightarrow> (\<And>h. owns (add_mset (kind, h) P) (k3 h) R (\<lambda>L. S \<subseteq># L))
   \<Longrightarrow> owns P (vk_then (vk_create D err kind info) k3) R (\<lambda>L. S \<subseteq># L)"
  by (rule owns_then, (rule owns_kept [OF owns_call] owns_kept [OF owns_begin] owns_kept [OF owns_submit]
        owns_kept [OF owns_read] owns_record owns_note owns_kept [OF owns_create], assumption?), simp add: old.unit.exhaust)+

lemma owns_each_kept:
  assumes S: "S \<subseteq># P" and f: "\<And>x P. x \<in> set xs \<Longrightarrow> owns P (f x) (\<lambda>a. mset (q a) + P) (\<lambda>L. P \<subseteq># L)"
  shows "owns P (vk_each f xs) (\<lambda>as. mset (concat (map q as)) + P) (\<lambda>L. S \<subseteq># L)"
proof -
  have "owns P (vk_each f xs) (\<lambda>as. sum_list (map (\<lambda>a. mset (q a)) as) + P) (\<lambda>L. \<exists>M. L = M + P)"
  proof (rule owns_each)
    fix x and F :: "(obj_kind \<times> nat) multiset"
    assume "x \<in> set xs"
    then have "owns (P + F) (f x) (\<lambda>a. mset (q a) + (P + F)) (\<lambda>L. \<exists>M. L = M + P + F)"
      by (intro owns_weaken [OF f]) (metis subset_mset.add_diff_inverse add.assoc add.commute)+
    then show "owns (P + F) (f x) (\<lambda>a. mset (q a) + P + F) (\<lambda>L. \<exists>M. L = M + P + F)" by (simp add: add.assoc)
  qed
  moreover have "sum_list (map (\<lambda>a. mset (q a)) as) = mset (concat (map q as))" for as
    by (induction as) simp_all
  ultimately have "owns P (vk_each f xs) (\<lambda>as. mset (concat (map q as)) + P) (\<lambda>L. \<exists>M. L = M + P)" by simp
  then show ?thesis by (rule owns_weaken) (use S in \<open>metis subset_add\<close>)
qed

lemma owns_return_eq: "P = Q a \<Longrightarrow> owns P (vk_return a) Q E"
  using owns_return by simp

text \<open>What a program submits: \<open>submits rs m B\<close> says that \<open>m\<close>, started with \<open>rs\<close> recorded, hands over the batches \<open>B\<close> when it
  succeeds and the first of them when it fails; \<open>quiet\<close> programs record and submit nothing.\<close>

definition quiet :: "('c, 'i, 'e, 'a) vk \<Rightarrow> bool" where
  "quiet m \<longleftrightarrow> (\<forall>s. vk_submitted (snd (m s)) = vk_submitted s \<and> vk_recorded (snd (m s)) = vk_recorded s)"

definition submits :: "'c list \<Rightarrow> ('c, 'i, 'e, 'a) vk \<Rightarrow> 'c list list \<Rightarrow> bool" where
  "submits rs m B \<longleftrightarrow> (\<forall>s. vk_recorded s = rs \<longrightarrow>
     (\<exists>n. vk_submitted (snd (m s)) = vk_submitted s @ take n B) \<and>
     (\<not> isl (fst (m s)) \<longrightarrow> vk_submitted (snd (m s)) = vk_submitted s @ B))"

named_theorems quiets \<open>programs that record and submit nothing\<close>

lemma quietD: "quiet m \<Longrightarrow> m s = (r, t) \<Longrightarrow> vk_submitted t = vk_submitted s \<and> vk_recorded t = vk_recorded s"
  by (metis quiet_def snd_conv)

lemma quiet_basic [quiets]:
  "quiet (vk_return a)" "quiet (vk_fail e)" "quiet (vk_lift r)" "quiet (vk_call D err)" "quiet (vk_create D err kind i)"
  "quiet (vk_destroy kind h)" "quiet (vk_note i)" "quiet (vk_write D err h data)" "quiet (vk_read D err h n)"
  by (simp_all add: quiet_def vk_eval vk_call_def vk_create_def vk_then_def split: option.split)

lemma quiet_then [quiets]: "quiet m \<Longrightarrow> (\<And>a. quiet (k a)) \<Longrightarrow> quiet (vk_then m k)"
  by (auto simp: quiet_def vk_then_def split: prod.split sum.split) (metis snd_conv)+

lemma quiet_catch [quiets]: "quiet m \<Longrightarrow> (\<And>e. quiet (h e)) \<Longrightarrow> quiet (vk_catch m h)"
  by (auto simp: quiet_def vk_catch_def split: prod.split sum.split) (metis snd_conv)+

lemma quiet_each [quiets]: "(\<And>x. quiet (f x)) \<Longrightarrow> quiet (vk_each f xs)"
  by (induction xs) (simp_all add: quiets)

lemma quiet_destroys [quiets]: "quiet (destroy_all objs)" "quiet (undo objs e)"
  by (auto simp: destroy_all_def undo_def intro!: quiets split: prod.split)

lemma submitsD:
  assumes "submits rs m B" and "vk_recorded s = rs"
  shows "\<exists>n. vk_submitted (snd (m s)) = vk_submitted s @ take n B"
    and "\<not> isl (fst (m s)) \<Longrightarrow> vk_submitted (snd (m s)) = vk_submitted s @ B"
  using assms by (auto simp: submits_def)

lemma submits_quiet: "quiet m \<Longrightarrow> submits rs m []"
  by (simp add: submits_def quiet_def)

lemma submits_after:
  assumes "quiet m" and "\<And>a. submits rs (k a) B"
  shows "submits rs (vk_then m k) B"
  unfolding submits_def
proof (intro allI impI)
  fix s :: "('a, 'b) Vk" assume s: "vk_recorded s = rs"
  obtain r t where m: "m s = (r, t)" by fastforce
  note q = quietD [OF assms(1) m]
  show "(\<exists>n. vk_submitted (snd (vk_then m k s)) = vk_submitted s @ take n B) \<and>
     (\<not> isl (fst (vk_then m k s)) \<longrightarrow> vk_submitted (snd (vk_then m k s)) = vk_submitted s @ B)"
  proof (cases r)
    case (Inl e)
    then show ?thesis using q by (simp add: vk_then_def m exI [of _ 0])
  next
    case (Inr a)
    then have "vk_then m k s = k a t" by (simp add: vk_then_def m)
    then show ?thesis using submitsD [OF assms(2), of t a] q s by simp
  qed
qed

lemma submits_before:
  assumes "submits rs m B" and "\<And>a. quiet (k a)"
  shows "submits rs (vk_then m k) B"
  unfolding submits_def
proof (intro allI impI)
  fix s :: "('a, 'b) Vk" assume s: "vk_recorded s = rs"
  obtain r t where m: "m s = (r, t)" by fastforce
  have t: "\<exists>n. vk_submitted t = vk_submitted s @ take n B" "\<not> isl r \<Longrightarrow> vk_submitted t = vk_submitted s @ B"
    using assms(1) s m by (metis submits_def fst_conv snd_conv)+
  show "(\<exists>n. vk_submitted (snd (vk_then m k s)) = vk_submitted s @ take n B) \<and>
     (\<not> isl (fst (vk_then m k s)) \<longrightarrow> vk_submitted (snd (vk_then m k s)) = vk_submitted s @ B)"
  proof (cases r)
    case (Inl e)
    then show ?thesis using t by (simp add: vk_then_def m)
  next
    case (Inr a)
    then have "vk_submitted (snd (k a t)) = vk_submitted s @ B" using t assms(2) [of a] by (simp add: quiet_def)
    then show ?thesis using Inr by (auto simp: vk_then_def m intro!: exI [of _ "length B"])
  qed
qed

lemma submits_begin:
  assumes "submits [] (k ()) B"
  shows "submits rs (vk_then (vk_begin D err) k) B"
  unfolding submits_def
proof (intro allI impI)
  fix s :: "('a, 'b) Vk"
  let ?t = "s\<lparr>vk_calls := vk_calls s + 1, vk_recorded := []\<rparr>"
  show "(\<exists>n. vk_submitted (snd (vk_then (vk_begin D err) k s)) = vk_submitted s @ take n B) \<and>
     (\<not> isl (fst (vk_then (vk_begin D err) k s)) \<longrightarrow> vk_submitted (snd (vk_then (vk_begin D err) k s)) = vk_submitted s @ B)"
  proof (cases "drv_result D (vk_calls s)")
    case None
    then have "vk_then (vk_begin D err) k s = k () ?t" by (simp add: vk_run)
    then show ?thesis using submitsD [OF assms, of ?t] by simp
  next
    case (Some code)
    then show ?thesis by (simp add: vk_run exI [of _ 0])
  qed
qed

lemma submits_record:
  assumes "submits (rs @ cs) (k ()) B"
  shows "submits rs (vk_then (vk_record cs) k) B"
  unfolding submits_def
proof (intro allI impI)
  fix s :: "('a, 'b) Vk" assume s: "vk_recorded s = rs"
  show "(\<exists>n. vk_submitted (snd (vk_then (vk_record cs) k s)) = vk_submitted s @ take n B) \<and>
     (\<not> isl (fst (vk_then (vk_record cs) k s)) \<longrightarrow> vk_submitted (snd (vk_then (vk_record cs) k s)) = vk_submitted s @ B)"
    using submitsD [OF assms, of "s\<lparr>vk_recorded := rs @ cs\<rparr>"] s by (simp add: vk_run)
qed

lemma submits_submit: "submits rs (vk_submit D err) [rs]"
  by (auto simp: submits_def vk_submit_def vk_then_def vk_call_def split: option.splits intro: exI [of _ 0] exI [of _ 1])

lemma submits_catch:
  assumes "submits rs m B" and "\<And>e s. quiet (h e) \<and> isl (fst (h e s))"
  shows "submits rs (vk_catch m h) B"
  unfolding submits_def
proof (intro allI impI)
  fix s :: "('a, 'b) Vk" assume s: "vk_recorded s = rs"
  obtain r t where m: "m s = (r, t)" by fastforce
  have t: "\<exists>n. vk_submitted t = vk_submitted s @ take n B" "\<not> isl r \<Longrightarrow> vk_submitted t = vk_submitted s @ B"
    using assms(1) s m by (metis submits_def fst_conv snd_conv)+
  show "(\<exists>n. vk_submitted (snd (vk_catch m h s)) = vk_submitted s @ take n B) \<and>
     (\<not> isl (fst (vk_catch m h s)) \<longrightarrow> vk_submitted (snd (vk_catch m h s)) = vk_submitted s @ B)"
    using t assms(2) by (cases r) (auto simp: vk_catch_def m quiet_def)
qed

lemma undo_isl [simp]: "isl (fst (undo objs e s))"
  by (simp add: undo_def vk_then_def vk_fail_def split: prod.split sum.split)

text \<open>\<open>writes U m\<close>: whatever \<open>m\<close> puts into mapped memory is in \<open>U\<close>; \<open>uploaded\<close> is what a memory was last given.\<close>

definition writes :: "(handle \<times> bytes) set \<Rightarrow> ('c, 'i, 'e, 'a) vk \<Rightarrow> bool" where
  "writes U m \<longleftrightarrow> (\<forall>s. \<exists>us. vk_uploads (snd (m s)) = vk_uploads s @ us \<and> set us \<subseteq> U)"

definition uploaded :: "('c, 'i) Vk \<Rightarrow> handle \<Rightarrow> bytes option" where
  "uploaded s h = map_of (rev (vk_uploads s)) h"

named_theorems writing \<open>what programs put into memory\<close>

lemma writes_basic [writing]:
  "writes U (vk_return a)" "writes U (vk_fail e)" "writes U (vk_lift r)" "writes U (vk_call D err)" "writes U (vk_create D err kind i)"
  "writes U (vk_destroy kind h)" "writes U (vk_note i)" "writes U (vk_read D err h n)" "writes U (vk_begin D err)"
  "writes U (vk_record cs)" "writes U (vk_submit D err)"
  by (simp_all add: writes_def vk_eval vk_call_def vk_create_def vk_then_def split: option.split)

lemma writes_write [writing]: "(h, data) \<in> U \<Longrightarrow> writes U (vk_write D err h data)"
  by (auto simp: writes_def vk_eval vk_call_def vk_then_def split: option.split)

lemma writesD: "writes U m \<Longrightarrow> m s = (r, t) \<Longrightarrow> \<exists>us. vk_uploads t = vk_uploads s @ us \<and> set us \<subseteq> U"
  by (metis writes_def snd_conv)

lemma writes_then [writing]:
  assumes "writes U m" and "\<And>a. writes U (k a)"
  shows "writes U (vk_then m k)"
  unfolding writes_def
proof
  fix s
  obtain r t where m: "m s = (r, t)" by fastforce
  obtain us where us: "vk_uploads t = vk_uploads s @ us" "set us \<subseteq> U" using writesD [OF assms(1) m] by blast
  show "\<exists>us. vk_uploads (snd (vk_then m k s)) = vk_uploads s @ us \<and> set us \<subseteq> U"
  proof (cases r)
    case (Inl e)
    then show ?thesis using us by (auto simp: vk_then_def m)
  next
    case (Inr a)
    obtain r2 t2 where k: "k a t = (r2, t2)" by fastforce
    obtain us2 where "vk_uploads t2 = vk_uploads t @ us2" "set us2 \<subseteq> U" using writesD [OF assms(2) k] by blast
    then show ?thesis using us Inr k by (auto simp: vk_then_def m intro!: exI [of _ "us @ us2"])
  qed
qed

lemma writes_catch [writing]:
  assumes "writes U m" and "\<And>e. writes U (h e)"
  shows "writes U (vk_catch m h)"
  unfolding writes_def
proof
  fix s
  obtain r t where m: "m s = (r, t)" by fastforce
  obtain us where us: "vk_uploads t = vk_uploads s @ us" "set us \<subseteq> U" using writesD [OF assms(1) m] by blast
  show "\<exists>us. vk_uploads (snd (vk_catch m h s)) = vk_uploads s @ us \<and> set us \<subseteq> U"
  proof (cases r)
    case (Inr a)
    then show ?thesis using us by (auto simp: vk_catch_def m)
  next
    case (Inl e)
    obtain r2 t2 where k: "h e t = (r2, t2)" by fastforce
    obtain us2 where "vk_uploads t2 = vk_uploads t @ us2" "set us2 \<subseteq> U" using writesD [OF assms(2) k] by blast
    then show ?thesis using us Inl k by (auto simp: vk_catch_def m intro!: exI [of _ "us @ us2"])
  qed
qed

lemma writes_each [writing]: "(\<And>x. writes U (f x)) \<Longrightarrow> writes U (vk_each f xs)"
  by (induction xs) (simp_all add: writing)

lemma writes_destroys [writing]: "writes U (destroy_all objs)" "writes U (undo objs e)"
  by (auto simp: destroy_all_def undo_def intro!: writing split: prod.split)

lemma uploaded_kept:
  assumes "vk_uploads t = vk_uploads s @ us" and "h \<notin> fst ` set us"
  shows "uploaded t h = uploaded s h"
proof -
  have "map_of (rev us) h = None" using assms(2) by (simp add: map_of_eq_None_iff)
  then show ?thesis by (simp add: uploaded_def assms(1) map_add_def)
qed

lemma owns_then_triple:
  assumes "owns P m (\<lambda>(x, y, z). Q x y z) E" and "\<And>x y z. owns (Q x y z) (k x y z) R E"
  shows "owns P (vk_then m (\<lambda>(x, y, z). k x y z)) R E"
  by (rule owns_then [OF assms(1)]) (auto simp: assms(2))

lemma owns_more_triple:
  assumes "owns {#} m (\<lambda>(x, y, z). Q x y z) (\<lambda>L. L = {#})" and "S \<subseteq># P"
  shows "owns P m (\<lambda>(x, y, z). Q x y z + P) (\<lambda>L. S \<subseteq># L)"
  using owns_more [OF assms] by (simp add: case_prod_beta')

lemma owns_same: "owns {#} m (\<lambda>_. {#}) (\<lambda>L. L = {#}) \<Longrightarrow> owns P m (\<lambda>_. P) (\<lambda>L. L = P)"
  using owns_frame [where F = P and E' = "\<lambda>L. L = P" and E = "\<lambda>L. L = {#}" and P = "{#}" and Q = "\<lambda>_. {#}"] by simp

end
