(* ===== verification/GpuCommands.thy ===== *)
theory GpuCommands
  imports Vk
begin

text \<open>
  What the programs of \<^verbatim>\<open>crates/remoteway-vulkan\<close> and of the GPU backends of \<^verbatim>\<open>crates/remoteway-interpolate\<close> record into
  command buffers and create objects with, and what a list of commands does to the images and to the compute state: an
  image is in a layout and has contents that may be undefined, and a command that finds an image in another layout than it
  names, or reads undefined contents, has no result. The FidelityFX structures are those of \<^verbatim>\<open>backends/ffx_fg.rs\<close>. A
  floating point number is its bit pattern.
\<close>

type_synonym f32 = u32

section \<open>FidelityFX structures\<close>

type_synonym FfxSurfaceFormat = u32
type_synonym FfxResourceState = u32
type_synonym FfxDimensions2D = "u32 \<times> u32"
type_synonym FfxFloatCoords2D = "f32 \<times> f32"

definition FFX_RESOURCE_TYPE_TEXTURE2D :: u32 where
  "FFX_RESOURCE_TYPE_TEXTURE2D = 2"

definition FFX_SURFACE_FORMAT_R8G8B8A8_UNORM :: FfxSurfaceFormat where
  "FFX_SURFACE_FORMAT_R8G8B8A8_UNORM = 10"

definition FFX_SURFACE_FORMAT_R16G16B16A16_FLOAT :: FfxSurfaceFormat where
  "FFX_SURFACE_FORMAT_R16G16B16A16_FLOAT = 4"

definition FFX_SURFACE_FORMAT_R32_FLOAT :: FfxSurfaceFormat where
  "FFX_SURFACE_FORMAT_R32_FLOAT = 28"

definition FFX_SURFACE_FORMAT_R16G16_FLOAT :: FfxSurfaceFormat where
  "FFX_SURFACE_FORMAT_R16G16_FLOAT = 18"

definition FFX_SURFACE_FORMAT_R8_UNORM :: FfxSurfaceFormat where
  "FFX_SURFACE_FORMAT_R8_UNORM = 25"

definition FFX_RESOURCE_FLAGS_NONE :: u32 where
  "FFX_RESOURCE_FLAGS_NONE = 0"

definition FFX_RESOURCE_USAGE_READ_ONLY :: u32 where
  "FFX_RESOURCE_USAGE_READ_ONLY = 0"

definition FFX_RESOURCE_STATE_UNORDERED_ACCESS :: FfxResourceState where
  "FFX_RESOURCE_STATE_UNORDERED_ACCESS = 2"

definition FFX_RESOURCE_STATE_COMPUTE_READ :: FfxResourceState where
  "FFX_RESOURCE_STATE_COMPUTE_READ = 4"

definition FFX_BACKBUFFER_TRANSFER_FUNCTION_SRGB :: u32 where
  "FFX_BACKBUFFER_TRANSFER_FUNCTION_SRGB = 0"

definition FFX_FRAMEINTERPOLATION_ENABLE_DEPTH_INVERTED :: u32 where
  "FFX_FRAMEINTERPOLATION_ENABLE_DEPTH_INVERTED = push_bit 0 1"

definition FFX_FRAMEINTERPOLATION_ENABLE_DEPTH_INFINITE :: u32 where
  "FFX_FRAMEINTERPOLATION_ENABLE_DEPTH_INFINITE = push_bit 1 1"

definition FFX_FRAMEINTERPOLATION_ENABLE_HDR_COLOR_INPUT :: u32 where
  "FFX_FRAMEINTERPOLATION_ENABLE_HDR_COLOR_INPUT = push_bit 2 1"

definition FFX_FRAMEINTERPOLATION_ENABLE_JITTER_MOTION_VECTORS :: u32 where
  "FFX_FRAMEINTERPOLATION_ENABLE_JITTER_MOTION_VECTORS = push_bit 3 1"

definition FFX_FRAMEINTERPOLATION_DISPATCH_DRAW_DEBUG_TEAR_LINES :: u32 where
  "FFX_FRAMEINTERPOLATION_DISPATCH_DRAW_DEBUG_TEAR_LINES = push_bit 0 1"

record FfxResourceDescription =
  fd_type :: u32
  fd_format :: FfxSurfaceFormat
  fd_width :: u32
  fd_height :: u32
  fd_depth :: u32
  fd_mip_count :: u32
  fd_flags :: u32
  fd_usage :: u32

definition FfxResourceDescription_default :: FfxResourceDescription where
  "FfxResourceDescription_default = \<lparr>fd_type = FFX_RESOURCE_TYPE_TEXTURE2D, fd_format = 0, fd_width = 0, fd_height = 0,
     fd_depth = 1, fd_mip_count = 1, fd_flags = FFX_RESOURCE_FLAGS_NONE, fd_usage = FFX_RESOURCE_USAGE_READ_ONLY\<rparr>"

text \<open>The resource pointer is the handle of an image or a buffer, \<open>None\<close> where it is null.\<close>

record FfxResource =
  fx_resource :: "handle option"
  fx_description :: FfxResourceDescription
  fx_state :: FfxResourceState

definition FfxResource_default :: FfxResource where
  "FfxResource_default = \<lparr>fx_resource = None, fx_description = FfxResourceDescription_default,
     fx_state = FFX_RESOURCE_STATE_COMPUTE_READ\<rparr>"

record FfxContextDescription =
  xc_flags :: u32
  xc_max_render_size :: FfxDimensions2D
  xc_display_size :: FfxDimensions2D
  xc_back_buffer_format :: FfxSurfaceFormat
  xc_previous_source_format :: FfxSurfaceFormat

record FfxSharedDescriptions =
  xs_dilated_depth :: FfxResourceDescription
  xs_dilated_motion_vectors :: FfxResourceDescription
  xs_reconstructed_prev_nearest_depth :: FfxResourceDescription

record FfxPrepareDescription =
  xp_flags :: u32
  xp_render_size :: FfxDimensions2D
  xp_jitter_offset :: FfxFloatCoords2D
  xp_motion_vector_scale :: FfxFloatCoords2D
  xp_frame_time_delta :: f32
  xp_camera_near :: f32
  xp_camera_far :: f32
  xp_camera_fov :: f32
  xp_view_space_to_meters :: f32
  xp_depth :: FfxResource
  xp_motion_vectors :: FfxResource
  xp_frame_id :: u64
  xp_dilated_depth :: FfxResource
  xp_dilated_motion_vectors :: FfxResource
  xp_reconstructed_prev_depth :: FfxResource

record FfxDispatchDescription =
  xd_flags :: u32
  xd_display_size :: FfxDimensions2D
  xd_render_size :: FfxDimensions2D
  xd_current_back_buffer :: FfxResource
  xd_current_back_buffer_hudless :: FfxResource
  xd_output :: FfxResource
  xd_interpolation_rect :: "int \<times> int \<times> int \<times> int"
  xd_optical_flow_vector :: FfxResource
  xd_scene_change_detection :: FfxResource
  xd_optical_flow_scale :: FfxFloatCoords2D
  xd_optical_flow_block_size :: u32
  xd_camera_near :: f32
  xd_camera_far :: f32
  xd_camera_fov :: f32
  xd_view_space_to_meters :: f32
  xd_frame_time_delta :: f32
  xd_reset :: bool
  xd_transfer_function :: u32
  xd_min_max_luminance :: FfxFloatCoords2D
  xd_frame_id :: u64
  xd_dilated_depth :: FfxResource
  xd_dilated_motion_vectors :: FfxResource
  xd_reconstructed_prev_depth :: FfxResource
  xd_distortion_field :: FfxResource

text \<open>A texture as the \<^verbatim>\<open>fsr\<close> crate is given it, and its dispatch.\<close>

datatype vk_format = R8_UNORM | R8G8B8A8_UNORM | R32_SFLOAT | R16G16_SFLOAT | R16G16B16A16_SFLOAT

record FsrTexture =
  tx_image :: handle
  tx_view :: handle
  tx_format :: vk_format
  tx_size :: "u32 \<times> u32"
  tx_name :: string

record FsrDispatchDescription =
  fs_color :: FsrTexture
  fs_depth :: FsrTexture
  fs_motion_vectors :: FsrTexture
  fs_output :: FsrTexture
  fs_frame_time_delta :: f32
  fs_render_size :: "u32 \<times> u32"
  fs_jitter_offset :: "f32 \<times> f32"
  fs_reset :: bool
  fs_sharpness :: f32

section \<open>Objects and commands\<close>

datatype buffer_usage = BUF_TRANSFER_SRC | BUF_TRANSFER_DST | BUF_STORAGE
datatype image_usage = IMG_TRANSFER_SRC | IMG_TRANSFER_DST | IMG_STORAGE | IMG_SAMPLED

datatype shader = MOTION_EST | WARP_BLEND | EASU_UPSCALE | RCAS

text \<open>A descriptor set is the number of the call that allocated it and its place among the sets of that call.\<close>

type_synonym set_handle = "handle \<times> nat"

text \<open>The bindings of a set layout are storage buffers; a pipeline layout has one set layout and the bytes of its push
  constants; a write names the set, the binding, the buffer and the bytes it covers.\<close>

datatype GfxInfo = InstanceInfo "string list" | DeviceInfo "nat list" "string list" bool | CommandPoolInfo nat
  | BufferInfo u64 "buffer_usage set" | ImageInfo u32 u32 "image_usage set" | MemoryInfo u64 nat | FenceInfo
  | TextureInfo vk_format u32 u32 "image_usage set" | TextureViewInfo handle vk_format
  | ShaderInfo shader | SetLayoutInfo "u32 list" | PipelineLayoutInfo handle nat | PipelineInfo handle handle
  | DescriptorPoolInfo nat nat | DescriptorWrite set_handle u32 handle u64
  | FsrContextInfo "u32 \<times> u32" "u32 \<times> u32" | FrameGenInfo FfxContextDescription

datatype image_layout = UNDEFINED | GENERAL | SHADER_READ_ONLY_OPTIMAL | TRANSFER_DST_OPTIMAL | TRANSFER_SRC_OPTIMAL

datatype pass = TransferPass | ComputePass

text \<open>Commands: a barrier names the image and its two layouts; copies and blits name the layouts they expect and the
  extents they cover. A memory barrier makes the writes of one kind of pass visible to the reads of another. Push
  constants are the words pushed.\<close>

datatype GfxCmd = ImageBarrier handle image_layout image_layout
  | CopyBufferToImage handle handle image_layout u32 u32
  | BlitImage handle image_layout "int \<times> int" handle image_layout "int \<times> int"
  | CopyImageToBuffer handle image_layout handle u32 u32
  | CopyBuffer handle handle u64
  | MemoryBarrier pass pass
  | BindPipeline handle
  | BindDescriptorSets handle set_handle
  | CmdPushConstants handle "u32 list"
  | CmdDispatch u32 u32 u32
  | FsrDispatch FsrDispatchDescription
  | FfxPrepare FfxPrepareDescription
  | FfxDispatch FfxDispatchDescription

section \<open>What commands do to images\<close>

text \<open>The contents of an image: nothing that may be read, what was copied from a buffer over an extent, or what the GPU
  computed. A barrier from \<open>UNDEFINED\<close> forgets them.\<close>

datatype contents = Undefined | FromBuffer handle u32 u32 | Computed

type_synonym images = "handle \<Rightarrow> image_layout \<times> contents"

definition readable :: "images \<Rightarrow> image_layout \<Rightarrow> handle \<Rightarrow> bool" where
  "readable m k i \<longleftrightarrow> fst (m i) = k \<and> snd (m i) \<noteq> Undefined"

definition readable_resource :: "images \<Rightarrow> FfxResource \<Rightarrow> bool" where
  "readable_resource m r = (case fx_resource r of None \<Rightarrow> False | Some i \<Rightarrow> readable m GENERAL i)"

text \<open>What the SDKs are relied on for: FSR reads its three inputs as sampled images and writes the whole output as a
  storage image; the frame generation reads depth and motion vectors when it prepares and the back buffer when it
  dispatches, and then has written the output.\<close>

fun exec_images :: "GfxCmd \<Rightarrow> images \<Rightarrow> images option" where
  "exec_images (ImageBarrier i old new) m =
     (if old = UNDEFINED then Some (m(i := (new, Undefined)))
      else if fst (m i) = old then Some (m(i := (new, snd (m i)))) else None)"
| "exec_images (CopyBufferToImage b i k w h) m =
     (if fst (m i) = k \<and> k = TRANSFER_DST_OPTIMAL then Some (m(i := (k, FromBuffer b w h))) else None)"
| "exec_images (BlitImage i k x j k' y) m =
     (if readable m k i \<and> k = TRANSFER_SRC_OPTIMAL \<and> fst (m j) = k' \<and> k' = TRANSFER_DST_OPTIMAL
      then Some (m(j := (k', Computed))) else None)"
| "exec_images (CopyImageToBuffer i k b w h) m = (if readable m k i \<and> k = TRANSFER_SRC_OPTIMAL then Some m else None)"
| "exec_images (FsrDispatch d) m =
     (if readable m SHADER_READ_ONLY_OPTIMAL (tx_image (fs_color d)) \<and> readable m SHADER_READ_ONLY_OPTIMAL (tx_image (fs_depth d)) \<and>
         readable m SHADER_READ_ONLY_OPTIMAL (tx_image (fs_motion_vectors d)) \<and> fst (m (tx_image (fs_output d))) = GENERAL
      then Some (m(tx_image (fs_output d) := (GENERAL, Computed))) else None)"
| "exec_images (FfxPrepare d) m =
     (if readable_resource m (xp_depth d) \<and> readable_resource m (xp_motion_vectors d) then Some m else None)"
| "exec_images (FfxDispatch d) m =
     (if readable_resource m (xd_current_back_buffer d)
      then (case fx_resource (xd_output d) of None \<Rightarrow> None | Some j \<Rightarrow> Some (m(j := (GENERAL, Computed)))) else None)"
| "exec_images (CopyBuffer _ _ _) m = Some m"
| "exec_images (MemoryBarrier _ _) m = Some m"
| "exec_images (BindPipeline _) m = Some m"
| "exec_images (BindDescriptorSets _ _) m = Some m"
| "exec_images (CmdPushConstants _ _) m = Some m"
| "exec_images (CmdDispatch _ _ _) m = Some m"

fun run_images :: "GfxCmd list \<Rightarrow> images \<Rightarrow> images option" where
  "run_images [] m = Some m"
| "run_images (c # cs) m = (case exec_images c m of None \<Rightarrow> None | Some m' \<Rightarrow> run_images cs m')"

lemma run_images_append [simp]:
  "run_images (cs @ ds) m = (case run_images cs m of None \<Rightarrow> None | Some m' \<Rightarrow> run_images ds m')"
  by (induction cs arbitrary: m) (auto split: option.splits)

section \<open>What commands do to buffers\<close>

text \<open>The compute state of a command buffer: what is bound, what was pushed, and which writes no later read may see yet.
  \<open>lay\<close> is the layout a pipeline was made with. A dispatch needs its pipeline, its set and its constants bound for the
  same layout and every earlier write made visible to it; a copy must not read what a shader wrote and no barrier
  ordered.\<close>

record Compute =
  cp_pipeline :: "handle option"
  cp_set :: "(handle \<times> set_handle) option"
  cp_pushed :: "(handle \<times> u32 list) option"
  cp_hidden :: "(pass \<times> pass) set"

definition Compute_empty :: Compute where
  "Compute_empty = \<lparr>cp_pipeline = None, cp_set = None, cp_pushed = None, cp_hidden = {}\<rparr>"

definition written_by :: "pass \<Rightarrow> Compute \<Rightarrow> Compute" where
  "written_by p c = c\<lparr>cp_hidden := cp_hidden c \<union> {(p, TransferPass), (p, ComputePass)}\<rparr>"

definition sees_all :: "pass \<Rightarrow> Compute \<Rightarrow> bool" where
  "sees_all p c \<longleftrightarrow> (\<forall>q \<in> {TransferPass, ComputePass}. (q, p) \<notin> cp_hidden c)"

fun exec_compute :: "(handle \<Rightarrow> handle option) \<Rightarrow> GfxCmd \<Rightarrow> Compute \<Rightarrow> Compute option" where
  "exec_compute lay (BindPipeline p) c = Some (c\<lparr>cp_pipeline := Some p\<rparr>)"
| "exec_compute lay (BindDescriptorSets l d) c = Some (c\<lparr>cp_set := Some (l, d)\<rparr>)"
| "exec_compute lay (CmdPushConstants l ws) c = Some (c\<lparr>cp_pushed := Some (l, ws)\<rparr>)"
| "exec_compute lay (MemoryBarrier p q) c = Some (c\<lparr>cp_hidden := cp_hidden c - {(p, q)}\<rparr>)"
| "exec_compute lay (CopyBuffer a b n) c =
     (if (ComputePass, TransferPass) \<notin> cp_hidden c then Some (written_by TransferPass c) else None)"
| "exec_compute lay (CmdDispatch x y z) c =
     (case (cp_pipeline c, cp_set c, cp_pushed c) of
        (Some p, Some (l, _), Some (l', _)) \<Rightarrow>
          if lay p = Some l \<and> l' = l \<and> sees_all ComputePass c then Some (written_by ComputePass c) else None
      | _ \<Rightarrow> None)"
| "exec_compute lay (ImageBarrier _ _ _) c = Some c"
| "exec_compute lay (CopyBufferToImage _ _ _ _ _) c = Some c"
| "exec_compute lay (BlitImage _ _ _ _ _ _) c = Some c"
| "exec_compute lay (CopyImageToBuffer _ _ _ _ _) c = Some c"
| "exec_compute lay (FsrDispatch _) c = Some c"
| "exec_compute lay (FfxPrepare _) c = Some c"
| "exec_compute lay (FfxDispatch _) c = Some c"

fun run_compute :: "(handle \<Rightarrow> handle option) \<Rightarrow> GfxCmd list \<Rightarrow> Compute \<Rightarrow> Compute option" where
  "run_compute lay [] c = Some c"
| "run_compute lay (x # xs) c = (case exec_compute lay x c of None \<Rightarrow> None | Some c' \<Rightarrow> run_compute lay xs c')"

end
