(* ===== verification/VulkanContext.thy ===== *)
theory VulkanContext
  imports GpuCommands
begin

text \<open>
  \<^verbatim>\<open>crates/remoteway-vulkan\<close>: codecs and capabilities (\<^verbatim>\<open>video.rs\<close>), errors (\<^verbatim>\<open>error.rs\<close>) and the shared context
  (\<^verbatim>\<open>context.rs\<close>): choosing a device and its queue families, buffers and images with their memory, and the blit that
  scales a picture up. Queue and memory flags are sets of flags; structure types, pointer chains and the texts a result
  code is printed with are left out.
\<close>

section \<open>video.rs, error.rs\<close>

datatype VideoCodec = CodecH264 | CodecH265 | CodecAv1

datatype codec_operation = ENCODE_H264 | ENCODE_H265 | ENCODE_AV1

definition encode_extension :: "VideoCodec \<Rightarrow> string" where
  "encode_extension c = (case c of CodecH264 \<Rightarrow> ''VK_KHR_video_encode_h264'' | CodecH265 \<Rightarrow> ''VK_KHR_video_encode_h265''
     | CodecAv1 \<Rightarrow> ''VK_KHR_video_encode_av1'')"

definition codec_operation_of :: "VideoCodec \<Rightarrow> codec_operation" where
  "codec_operation_of c = (case c of CodecH264 \<Rightarrow> ENCODE_H264 | CodecH265 \<Rightarrow> ENCODE_H265 | CodecAv1 \<Rightarrow> ENCODE_AV1)"

datatype rc_mode = RC_DISABLED | RC_CBR | RC_VBR

record VideoEncodeCapabilities =
  caps_codec :: VideoCodec
  max_coded_extent :: "u32 \<times> u32"
  min_coded_extent :: "u32 \<times> u32"
  picture_access_granularity :: "u32 \<times> u32"
  max_dpb_slots :: u32
  max_active_reference_pictures :: u32
  rate_control_modes :: "rc_mode set"
  supports_intra_refresh :: bool
  supports_quantization_map :: bool

datatype VulkanError = LoaderFailed message | InitFailed message | NoDevice | NoSuitableQueue message | MissingExtension string
  | VkCallFailed string VkResult | Allocation message

section \<open>context.rs: requests\<close>

datatype queue_cap = COMPUTE | TRANSFER | VIDEO_ENCODE

datatype queue_flag = QUEUE_GRAPHICS | QUEUE_COMPUTE | QUEUE_TRANSFER | QUEUE_VIDEO_DECODE | QUEUE_VIDEO_ENCODE

definition to_vk_queue_flags :: "queue_cap set \<Rightarrow> queue_flag set" where
  "to_vk_queue_flags caps =
     (if COMPUTE \<in> caps then {QUEUE_COMPUTE} else {}) \<union> (if TRANSFER \<in> caps then {QUEUE_TRANSFER} else {}) \<union>
     (if VIDEO_ENCODE \<in> caps then {QUEUE_VIDEO_ENCODE} else {})"

record QueueRequest =
  rq_queues :: "queue_cap set list"
  video_codecs :: "VideoCodec list"

definition compute_only :: QueueRequest where
  "compute_only = \<lparr>rq_queues = [{COMPUTE, TRANSFER}], video_codecs = []\<rparr>"

definition compute_and_encode :: "VideoCodec \<Rightarrow> QueueRequest" where
  "compute_and_encode codec = \<lparr>rq_queues = [{COMPUTE, TRANSFER}, {VIDEO_ENCODE}], video_codecs = [codec]\<rparr>"

text \<open>What the loader and the driver answer: a physical device with its queue families, and \<open>None\<close> where the query of
  its extensions fails; the raw capabilities of a codec.\<close>

datatype std_profile = H264_MAIN | H264_HIGH | H265_MAIN | AV1_MAIN

record VideoProfile =
  vp_operation :: codec_operation
  vp_std :: std_profile
  vp_chroma_420 :: bool
  vp_luma_bits :: nat
  vp_chroma_bits :: nat

datatype chained_caps = CodecCaps codec_operation | EncodeCaps "rc_mode set"

record RawCaps =
  raw_max_extent :: "u32 \<times> u32"
  raw_min_extent :: "u32 \<times> u32"
  raw_granularity :: "u32 \<times> u32"
  raw_dpb_slots :: u32
  raw_references :: u32
  raw_rate_control :: "rc_mode set"

record PhysicalDevice =
  pd_discrete :: bool
  pd_name :: string
  pd_vendor :: u32
  pd_api :: u32
  pd_families :: "queue_flag set list"
  pd_extensions :: "string list option"

record Host =
  host_loader :: bool
  host_validation :: "string option"
  host_devices :: "PhysicalDevice list"
  host_driver :: Driver
  host_caps :: "VideoProfile \<Rightarrow> RawCaps"

section \<open>context.rs: construction\<close>

type_synonym 'a gfx = "(GfxCmd, GfxInfo, VulkanError, 'a) vk"

record VulkanContext =
  cx_instance :: handle
  physical_device :: PhysicalDevice
  cx_device :: handle
  compute_queue :: "nat \<times> nat"
  queue_family :: nat
  command_pool :: handle
  video_encode_queue :: "(nat \<times> nat) option"
  video_encode_queue_family :: "nat option"
  vendor_id :: u32
  device_name :: string
  api_version :: u32

definition layer_names :: "Host \<Rightarrow> string list" where
  "layer_names H = (if host_validation H = Some ''1'' then [''VK_LAYER_KHRONOS_validation''] else [])"

text \<open>A discrete GPU if there is one, otherwise the first device.\<close>

definition choose_device :: "PhysicalDevice list \<Rightarrow> PhysicalDevice" where
  "choose_device ds = (case find pd_discrete ds of Some d \<Rightarrow> d | None \<Rightarrow> hd ds)"

definition find_family :: "queue_flag set list \<Rightarrow> queue_cap set \<Rightarrow> nat option" where
  "find_family families caps = find (\<lambda>i. to_vk_queue_flags caps \<subseteq> families ! i) [0..<length families]"

fun select_families :: "queue_flag set list \<Rightarrow> queue_cap set list \<Rightarrow> VulkanError + (queue_cap set \<times> nat) list" where
  "select_families families [] = Inr []"
| "select_families families (caps # rest) = (case find_family families caps of
     None \<Rightarrow> Inl (NoSuitableQueue ([], None))
   | Some i \<Rightarrow> (case select_families families rest of Inl e \<Rightarrow> Inl e | Inr sel \<Rightarrow> Inr ((caps, i) # sel)))"

definition needed_extensions :: "QueueRequest \<Rightarrow> string list \<Rightarrow> string list" where
  "needed_extensions request extensions = extensions @
     (if \<exists>c \<in> set (rq_queues request). VIDEO_ENCODE \<in> c
      then [''VK_KHR_video_queue'', ''VK_KHR_video_encode_queue''] @ map encode_extension (video_codecs request) else [])"

definition available_extensions :: "PhysicalDevice \<Rightarrow> string list" where
  "available_extensions pd = (case pd_extensions pd of None \<Rightarrow> [] | Some es \<Rightarrow> es)"

definition enabled_extensions :: "PhysicalDevice \<Rightarrow> QueueRequest \<Rightarrow> string list \<Rightarrow> string list" where
  "enabled_extensions pd request extensions =
     filter (\<lambda>e. e \<in> set (available_extensions pd)) (needed_extensions request extensions)"

definition compute_family :: "(queue_cap set \<times> nat) list \<Rightarrow> VulkanError + nat" where
  "compute_family sel = (case find (\<lambda>(c, _). COMPUTE \<in> c) sel of
     Some (_, i) \<Rightarrow> Inr i | None \<Rightarrow> Inl (NoSuitableQueue (''no COMPUTE queue requested'', None)))"

definition encode_family :: "(queue_cap set \<times> nat) list \<Rightarrow> nat option" where
  "encode_family sel = map_option snd (find (\<lambda>(c, _). VIDEO_ENCODE \<in> c) sel)"

definition with_request :: "Host \<Rightarrow> QueueRequest \<Rightarrow> string list \<Rightarrow> VulkanContext gfx" where
  "with_request H request extensions =
     (let D = host_driver H in
      if rq_queues request = [] then vk_fail (NoSuitableQueue (''QueueRequest must include at least one queue'', None))
      else if \<not> host_loader H then vk_fail (LoaderFailed ([], None))
      else
        vk_then (vk_create D (\<lambda>e. InitFailed (''Vulkan instance: '', Some e)) KInstance (InstanceInfo (layer_names H))) (\<lambda>inst.
        vk_then (vk_call D (\<lambda>e. InitFailed (''enumerate devices: '', Some e))) (\<lambda>_.
        if host_devices H = [] then vk_then (vk_destroy KInstance inst) (\<lambda>_. vk_fail NoDevice)
        else
          let pd = choose_device (host_devices H) in
          vk_then (vk_lift (select_families (pd_families pd) (rq_queues request))) (\<lambda>selected.
          let families = remdups_adj (sort (map snd selected)) in
          vk_then (vk_catch
             (vk_create D (\<lambda>e. InitFailed (''Vulkan device: '', Some e)) KDevice
                (DeviceInfo families (enabled_extensions pd request extensions) (CodecAv1 \<in> set (video_codecs request))))
             (\<lambda>e. vk_then (vk_destroy KInstance inst) (\<lambda>_. vk_fail e))) (\<lambda>dev.
          vk_then (vk_lift (compute_family selected)) (\<lambda>family.
          vk_then (vk_catch
             (vk_create D (\<lambda>e. InitFailed (''command pool: '', Some e)) KCommandPool (CommandPoolInfo family))
             (\<lambda>e. vk_then (vk_destroy KDevice dev) (\<lambda>_. vk_then (vk_destroy KInstance inst) (\<lambda>_. vk_fail e)))) (\<lambda>pool.
          vk_return \<lparr>cx_instance = inst, physical_device = pd, cx_device = dev, compute_queue = (family, 0),
             queue_family = family, command_pool = pool,
             video_encode_queue = map_option (\<lambda>f. (f, 0)) (encode_family selected),
             video_encode_queue_family = encode_family selected, vendor_id = pd_vendor pd, device_name = pd_name pd,
             api_version = pd_api pd\<rparr>)))))))"

definition VulkanContext_new :: "Host \<Rightarrow> string list \<Rightarrow> VulkanContext gfx" where
  "VulkanContext_new H extensions = with_request H compute_only extensions"

definition VulkanContext_drop :: "VulkanContext \<Rightarrow> unit gfx" where
  "VulkanContext_drop ctx = vk_then (vk_destroy KCommandPool (command_pool ctx)) (\<lambda>_.
     vk_then (vk_destroy KDevice (cx_device ctx)) (\<lambda>_. vk_destroy KInstance (cx_instance ctx)))"

section \<open>context.rs: probes\<close>

text \<open>A probe makes a context and drops it at the end of its scope.\<close>

definition with_context :: "Host \<Rightarrow> (VulkanContext \<Rightarrow> bool) \<Rightarrow> bool gfx" where
  "with_context H f = vk_catch
     (vk_then (VulkanContext_new H []) (\<lambda>ctx. vk_then (VulkanContext_drop ctx) (\<lambda>_. vk_return (f ctx))))
     (\<lambda>_. vk_return False)"

definition is_vulkan_available :: "Host \<Rightarrow> bool gfx" where
  "is_vulkan_available H = with_context H (\<lambda>_. True)"

definition probe_nvidia_optical_flow :: "Host \<Rightarrow> bool gfx" where
  "probe_nvidia_optical_flow H = with_context H (\<lambda>ctx.
     vendor_id ctx = 0x10DE \<and> ''VK_NV_optical_flow'' \<in> set (available_extensions (physical_device ctx)))"

definition is_rdna3_name :: "string \<Rightarrow> bool" where
  "is_rdna3_name s = (let name = lowercase s in
     contains_str ''rx 7'' name \<or> contains_str ''rx 9'' name \<or> contains_str ''rdna 3'' name \<or> contains_str ''rdna 4'' name \<or>
     contains_str ''radeon 7'' name \<or> contains_str ''radeon 9'' name)"

definition probe_rdna3_plus :: "Host \<Rightarrow> bool gfx" where
  "probe_rdna3_plus H = with_context H (\<lambda>ctx. vendor_id ctx = 0x1002 \<and> is_rdna3_name (device_name ctx))"

section \<open>context.rs: video capabilities\<close>

text \<open>The driver fills the structures of the chain: the encode capabilities get the rate control modes. The chain is
  walked to the first structure with the right tag.\<close>

fun extract_encode_caps :: "chained_caps list \<Rightarrow> rc_mode set" where
  "extract_encode_caps [] = {}"
| "extract_encode_caps (EncodeCaps modes # _) = modes"
| "extract_encode_caps (CodecCaps _ # rest) = extract_encode_caps rest"

definition fetch_caps :: "Host \<Rightarrow> VulkanContext \<Rightarrow> VideoCodec \<Rightarrow> VideoProfile \<Rightarrow> VideoEncodeCapabilities gfx" where
  "fetch_caps H ctx codec profile =
     vk_then (vk_call (host_driver H) (\<lambda>e. VkCallFailed ''get_physical_device_video_capabilities'' e)) (\<lambda>_.
     let caps = host_caps H profile;
         chain = [CodecCaps (vp_operation profile), EncodeCaps (raw_rate_control caps)];
         exts = available_extensions (physical_device ctx) in
     vk_return \<lparr>caps_codec = codec, max_coded_extent = raw_max_extent caps, min_coded_extent = raw_min_extent caps,
        picture_access_granularity = raw_granularity caps, max_dpb_slots = raw_dpb_slots caps,
        max_active_reference_pictures = raw_references caps, rate_control_modes = extract_encode_caps chain,
        supports_intra_refresh = ''VK_KHR_video_encode_intra_refresh'' \<in> set exts,
        supports_quantization_map = ''VK_KHR_video_encode_quantization_map'' \<in> set exts\<rparr>)"

definition probe_h264 :: "Host \<Rightarrow> VulkanContext \<Rightarrow> VideoEncodeCapabilities gfx" where
  "probe_h264 H ctx = fetch_caps H ctx CodecH264 \<lparr>vp_operation = codec_operation_of CodecH264, vp_std = H264_MAIN,
     vp_chroma_420 = True, vp_luma_bits = 8, vp_chroma_bits = 8\<rparr>"

definition probe_h265 :: "Host \<Rightarrow> VulkanContext \<Rightarrow> VideoEncodeCapabilities gfx" where
  "probe_h265 H ctx = fetch_caps H ctx CodecH265 \<lparr>vp_operation = codec_operation_of CodecH265, vp_std = H265_MAIN,
     vp_chroma_420 = True, vp_luma_bits = 8, vp_chroma_bits = 8\<rparr>"

definition probe_av1 :: "Host \<Rightarrow> VulkanContext \<Rightarrow> VideoEncodeCapabilities gfx" where
  "probe_av1 H ctx = fetch_caps H ctx CodecAv1 \<lparr>vp_operation = codec_operation_of CodecAv1, vp_std = AV1_MAIN,
     vp_chroma_420 = True, vp_luma_bits = 8, vp_chroma_bits = 8\<rparr>"

definition probe_video_encode_capabilities :: "Host \<Rightarrow> VulkanContext \<Rightarrow> VideoCodec \<Rightarrow> VideoEncodeCapabilities gfx" where
  "probe_video_encode_capabilities H ctx codec = (case codec of
     CodecH264 \<Rightarrow> probe_h264 H ctx | CodecH265 \<Rightarrow> probe_h265 H ctx | CodecAv1 \<Rightarrow> probe_av1 H ctx)"

section \<open>context.rs: buffers and images\<close>

definition create_buffer :: "Driver \<Rightarrow> u64 \<Rightarrow> buffer_usage set \<Rightarrow> mem_flag set \<Rightarrow> (handle \<times> handle) gfx" where
  "create_buffer D n usage memory_flags =
     vk_then (vk_create D (\<lambda>e. Allocation (''create buffer: '', Some e)) KBuffer (BufferInfo n usage)) (\<lambda>buffer.
     let req = drv_buffer_req D buffer in
     case find_memory_type D (req_bits req) memory_flags of
       None \<Rightarrow> undo [(KBuffer, buffer)] (Allocation (''no suitable memory type'', None))
     | Some mem_type \<Rightarrow>
         vk_then (vk_catch
            (vk_create D (\<lambda>e. Allocation (''allocate memory: '', Some e)) KMemory (MemoryInfo (req_size req) mem_type))
            (undo [(KBuffer, buffer)])) (\<lambda>memory.
         vk_then (vk_catch (vk_call D (\<lambda>e. Allocation (''bind memory: '', Some e)))
            (undo [(KMemory, memory), (KBuffer, buffer)])) (\<lambda>_.
         vk_return (buffer, memory))))"

definition create_host_buffer :: "Driver \<Rightarrow> u64 \<Rightarrow> buffer_usage set \<Rightarrow> (handle \<times> handle) gfx" where
  "create_host_buffer D n usage =
     vk_catch (create_buffer D n usage {HOST_VISIBLE, HOST_COHERENT, HOST_CACHED})
       (\<lambda>_. create_buffer D n usage {HOST_VISIBLE, HOST_COHERENT})"

definition upload_to_buffer :: "Driver \<Rightarrow> handle \<Rightarrow> bytes \<Rightarrow> unit gfx" where
  "upload_to_buffer D memory data = vk_write D (\<lambda>e. Allocation (''map memory: '', Some e)) memory data"

definition read_from_buffer :: "Driver \<Rightarrow> handle \<Rightarrow> usize \<Rightarrow> bytes gfx" where
  "read_from_buffer D memory n = vk_read D (\<lambda>e. Allocation (''map memory: '', Some e)) memory n"

text \<open>The fence is destroyed whatever the submission and the wait returned.\<close>

definition submit_and_wait :: "Driver \<Rightarrow> unit gfx" where
  "submit_and_wait D =
     vk_then (vk_create D (\<lambda>e. VkCallFailed ''create_fence'' e) KFence FenceInfo) (\<lambda>fence.
     vk_then (vk_catch
        (vk_then (vk_submit D (\<lambda>e. VkCallFailed ''queue_submit'' e)) (\<lambda>_. vk_call D (\<lambda>e. VkCallFailed ''wait_for_fences'' e)))
        (undo [(KFence, fence)])) (\<lambda>_.
     vk_destroy KFence fence))"

text \<open>Command buffers are not counted: they belong to their pool.\<close>

definition allocate_command_buffer :: "Driver \<Rightarrow> unit gfx" where
  "allocate_command_buffer D = vk_call D (\<lambda>e. VkCallFailed ''allocate_command_buffers'' e)"

definition create_image :: "Driver \<Rightarrow> u32 \<Rightarrow> u32 \<Rightarrow> image_usage set \<Rightarrow> (handle \<times> handle) gfx" where
  "create_image D width height usage =
     vk_then (vk_create D (\<lambda>e. Allocation (''create image: '', Some e)) KImage (ImageInfo width height usage)) (\<lambda>img.
     let req = drv_image_req D img in
     case find_memory_type D (req_bits req) {DEVICE_LOCAL} of
       None \<Rightarrow> undo [(KImage, img)] (Allocation (''no device-local memory for image'', None))
     | Some mem_type \<Rightarrow>
         vk_then (vk_catch
            (vk_create D (\<lambda>e. Allocation (''alloc image mem: '', Some e)) KMemory (MemoryInfo (req_size req) mem_type))
            (undo [(KImage, img)])) (\<lambda>mem.
         vk_then (vk_catch (vk_call D (\<lambda>e. Allocation (''bind image mem: '', Some e)))
            (undo [(KMemory, mem), (KImage, img)])) (\<lambda>_.
         vk_return (img, mem))))"

definition cmd_image_barrier :: "handle \<Rightarrow> image_layout \<Rightarrow> image_layout \<Rightarrow> GfxCmd" where
  "cmd_image_barrier img old_layout new_layout = ImageBarrier img old_layout new_layout"

text \<open>The commands of the blit, in the order they are recorded.\<close>

definition blit_commands :: "handle \<Rightarrow> handle \<Rightarrow> handle \<Rightarrow> handle \<Rightarrow> u32 \<Rightarrow> u32 \<Rightarrow> u32 \<Rightarrow> u32 \<Rightarrow> GfxCmd list" where
  "blit_commands staging src_image dst_image readback src_w src_h dst_w dst_h =
     [cmd_image_barrier src_image UNDEFINED TRANSFER_DST_OPTIMAL,
      CopyBufferToImage staging src_image TRANSFER_DST_OPTIMAL src_w src_h,
      cmd_image_barrier src_image TRANSFER_DST_OPTIMAL TRANSFER_SRC_OPTIMAL,
      cmd_image_barrier dst_image UNDEFINED TRANSFER_DST_OPTIMAL,
      BlitImage src_image TRANSFER_SRC_OPTIMAL (sint src_w, sint src_h) dst_image TRANSFER_DST_OPTIMAL (sint dst_w, sint dst_h),
      cmd_image_barrier dst_image TRANSFER_DST_OPTIMAL TRANSFER_SRC_OPTIMAL,
      CopyImageToBuffer dst_image TRANSFER_SRC_OPTIMAL readback dst_w dst_h]"

definition blit_byte_size :: "u32 \<Rightarrow> u32 \<Rightarrow> u64" where
  "blit_byte_size w h = ucast w * ucast h * 4"

text \<open>What happens once the staging buffer exists, and the whole.\<close>

definition upscale_staged :: "Driver \<Rightarrow> handle \<Rightarrow> handle \<Rightarrow> bytes \<Rightarrow> u32 \<Rightarrow> u32 \<Rightarrow> u32 \<Rightarrow> u32 \<Rightarrow> bytes gfx" where
  "upscale_staged D staging_buf staging_mem src src_w src_h dst_w dst_h =
     vk_then (upload_to_buffer D staging_mem src) (\<lambda>_.
     vk_then (create_image D src_w src_h {IMG_TRANSFER_SRC, IMG_TRANSFER_DST}) (\<lambda>(src_image, src_image_mem).
     vk_then (create_image D dst_w dst_h {IMG_TRANSFER_SRC, IMG_TRANSFER_DST}) (\<lambda>(dst_image, dst_image_mem).
     vk_then (create_buffer D (blit_byte_size dst_w dst_h) {BUF_TRANSFER_DST} {HOST_VISIBLE, HOST_COHERENT}) (\<lambda>(readback_buf, readback_mem).
     vk_then (allocate_command_buffer D) (\<lambda>_.
     vk_then (vk_begin D (\<lambda>e. VkCallFailed ''begin_command_buffer'' e)) (\<lambda>_.
     vk_then (vk_record (blit_commands staging_buf src_image dst_image readback_buf src_w src_h dst_w dst_h)) (\<lambda>_.
     vk_then (vk_call D (\<lambda>e. VkCallFailed ''end_command_buffer'' e)) (\<lambda>_.
     vk_then (submit_and_wait D) (\<lambda>_.
     vk_then (read_from_buffer D readback_mem (unat (blit_byte_size dst_w dst_h))) (\<lambda>result.
     vk_then (destroy_all
        [(KBuffer, staging_buf), (KMemory, staging_mem), (KImage, src_image), (KMemory, src_image_mem),
         (KImage, dst_image), (KMemory, dst_image_mem), (KBuffer, readback_buf), (KMemory, readback_mem)]) (\<lambda>_.
     vk_return result)))))))))))"

definition upscale_blit :: "Driver \<Rightarrow> bytes \<Rightarrow> u32 \<Rightarrow> u32 \<Rightarrow> u32 \<Rightarrow> u32 \<Rightarrow> bytes gfx" where
  "upscale_blit D src src_w src_h dst_w dst_h =
     vk_then (create_buffer D (blit_byte_size src_w src_h) {BUF_TRANSFER_SRC} {HOST_VISIBLE, HOST_COHERENT})
       (\<lambda>(staging_buf, staging_mem). upscale_staged D staging_buf staging_mem src src_w src_h dst_w dst_h)"

section \<open>Nothing leaks\<close>

lemma create_buffer_owns:
  "owns {#} (create_buffer D n usage flags) (\<lambda>(b, m). {#(KBuffer, b), (KMemory, m)#}) (\<lambda>L. L = {#})"
  unfolding create_buffer_def Let_def
proof (rule owns_then [OF owns_create])
  fix b
  show "owns {#(KBuffer, b)#} (case find_memory_type D (req_bits (drv_buffer_req D b)) flags of
       None \<Rightarrow> undo [(KBuffer, b)] (Allocation (''no suitable memory type'', None))
     | Some mem_type \<Rightarrow>
         vk_then (vk_catch
            (vk_create D (\<lambda>e. Allocation (''allocate memory: '', Some e)) KMemory (MemoryInfo (req_size (drv_buffer_req D b)) mem_type))
            (undo [(KBuffer, b)])) (\<lambda>memory.
         vk_then (vk_catch (vk_call D (\<lambda>e. Allocation (''bind memory: '', Some e)))
            (undo [(KMemory, memory), (KBuffer, b)])) (\<lambda>_.
         vk_return (b, memory)))) (\<lambda>(b, m). {#(KBuffer, b), (KMemory, m)#}) (\<lambda>L. L = {#})"
  proof (cases "find_memory_type D (req_bits (drv_buffer_req D b)) flags")
    case None
    then show ?thesis by (simp add: owns_undo1)
  next
    case (Some i)
    show ?thesis unfolding Some option.case
    proof (rule owns_then)
      show "owns {#(KBuffer, b)#} (vk_catch (vk_create D (\<lambda>e. Allocation (''allocate memory: '', Some e)) KMemory
           (MemoryInfo (req_size (drv_buffer_req D b)) i)) (undo [(KBuffer, b)])) (\<lambda>m. {#(KMemory, m), (KBuffer, b)#}) (\<lambda>L. L = {#})"
        by (rule owns_catch [OF owns_create]) (simp add: owns_undo1)
      show "owns {#(KMemory, m), (KBuffer, b)#} (vk_then (vk_catch (vk_call D (\<lambda>e. Allocation (''bind memory: '', Some e)))
            (undo [(KMemory, m), (KBuffer, b)])) (\<lambda>_. vk_return (b, m))) (\<lambda>(b, m). {#(KBuffer, b), (KMemory, m)#}) (\<lambda>L. L = {#})" for m
        by (rule owns_then, rule owns_catch [OF owns_call], simp add: owns_undo2,
            rule ownsI, simp add: vk_return_def add_mset_commute)
    qed
  qed
qed


lemma create_image_owns:
  "owns {#} (create_image D w h usage) (\<lambda>(i, m). {#(KImage, i), (KMemory, m)#}) (\<lambda>L. L = {#})"
  unfolding create_image_def Let_def
proof (rule owns_then [OF owns_create])
  fix i
  show "owns {#(KImage, i)#} (case find_memory_type D (req_bits (drv_image_req D i)) {DEVICE_LOCAL} of
       None \<Rightarrow> undo [(KImage, i)] (Allocation (''no device-local memory for image'', None))
     | Some mem_type \<Rightarrow>
         vk_then (vk_catch
            (vk_create D (\<lambda>e. Allocation (''alloc image mem: '', Some e)) KMemory (MemoryInfo (req_size (drv_image_req D i)) mem_type))
            (undo [(KImage, i)])) (\<lambda>mem.
         vk_then (vk_catch (vk_call D (\<lambda>e. Allocation (''bind image mem: '', Some e)))
            (undo [(KMemory, mem), (KImage, i)])) (\<lambda>_.
         vk_return (i, mem)))) (\<lambda>(i, m). {#(KImage, i), (KMemory, m)#}) (\<lambda>L. L = {#})"
  proof (cases "find_memory_type D (req_bits (drv_image_req D i)) {DEVICE_LOCAL}")
    case None
    then show ?thesis by (simp add: owns_undo1)
  next
    case (Some j)
    show ?thesis unfolding Some option.case
    proof (rule owns_then)
      show "owns {#(KImage, i)#} (vk_catch (vk_create D (\<lambda>e. Allocation (''alloc image mem: '', Some e)) KMemory
           (MemoryInfo (req_size (drv_image_req D i)) j)) (undo [(KImage, i)])) (\<lambda>m. {#(KMemory, m), (KImage, i)#}) (\<lambda>L. L = {#})"
        by (rule owns_catch [OF owns_create]) (simp add: owns_undo1)
      show "owns {#(KMemory, m), (KImage, i)#} (vk_then (vk_catch (vk_call D (\<lambda>e. Allocation (''bind image mem: '', Some e)))
            (undo [(KMemory, m), (KImage, i)])) (\<lambda>_. vk_return (i, m))) (\<lambda>(i, m). {#(KImage, i), (KMemory, m)#}) (\<lambda>L. L = {#})" for m
        by (rule owns_then, rule owns_catch [OF owns_call], simp add: owns_undo2,
            rule ownsI, simp add: vk_return_def add_mset_commute)
    qed
  qed
qed

lemma create_host_buffer_owns:
  "owns {#} (create_host_buffer D n usage) (\<lambda>(b, m). {#(KBuffer, b), (KMemory, m)#}) (\<lambda>L. L = {#})"
  unfolding create_host_buffer_def
  by (rule owns_catch [OF create_buffer_owns]) (simp add: create_buffer_owns)

lemma submit_and_wait_owns: "owns {#} (submit_and_wait D) (\<lambda>_. {#}) (\<lambda>L. L = {#})"
  unfolding submit_and_wait_def
proof (rule owns_then [OF owns_create])
  fix fence
  show "owns {#(KFence, fence)#} (vk_then (vk_catch
        (vk_then (vk_submit D (\<lambda>e. VkCallFailed ''queue_submit'' e)) (\<lambda>_. vk_call D (\<lambda>e. VkCallFailed ''wait_for_fences'' e)))
        (undo [(KFence, fence)])) (\<lambda>_. vk_destroy KFence fence)) (\<lambda>_. {#}) (\<lambda>L. L = {#})"
  proof (rule owns_then)
    show "owns {#(KFence, fence)#} (vk_catch
        (vk_then (vk_submit D (\<lambda>e. VkCallFailed ''queue_submit'' e)) (\<lambda>_. vk_call D (\<lambda>e. VkCallFailed ''wait_for_fences'' e)))
        (undo [(KFence, fence)])) (\<lambda>_. {#(KFence, fence)#}) (\<lambda>L. L = {#})"
      by (rule owns_catch, rule owns_then [OF owns_submit], rule owns_call) (simp add: owns_undo1)
  qed (rule owns_destroy)
qed

text \<open>The blit destroys its objects at the end and on no other path: once the staging buffer is there, every failure
  leaves it.\<close>

lemma upscale_staged_owns:
  fixes S :: "(obj_kind \<times> handle) multiset"
  assumes S: "S = {#(KBuffer, b), (KMemory, m)#}"
  shows "owns S (upscale_staged D b m src src_w src_h dst_w dst_h) (\<lambda>_. {#}) (\<lambda>L. S \<subseteq># L)"
  unfolding upscale_staged_def upload_to_buffer_def read_from_buffer_def allocate_command_buffer_def
  by (rule owns_then [OF owns_kept [OF owns_write]], rule subset_mset.order_refl,
      rule owns_then_pair [OF owns_more_pair [OF create_image_owns]], rule subset_mset.order_refl,
      rule owns_then_pair [OF owns_more_pair [OF create_image_owns]], intro subset_add subset_mset.order_refl,
      rule owns_then_pair [OF owns_more_pair [OF create_buffer_owns]], intro subset_add subset_mset.order_refl,
      rule owns_then [OF owns_kept [OF owns_call]], intro subset_add subset_mset.order_refl,
      rule owns_then [OF owns_kept [OF owns_begin]], intro subset_add subset_mset.order_refl,
      rule owns_then [OF owns_record],
      rule owns_then [OF owns_kept [OF owns_call]], intro subset_add subset_mset.order_refl,
      rule owns_then [OF owns_more [OF submit_and_wait_owns]], intro subset_add subset_mset.order_refl,
      rule owns_then [OF owns_kept [OF owns_read]], intro subset_add subset_mset.order_refl,
      rule owns_then [OF owns_destroys_eq], simp add: S add_mset_commute, rule owns_keep)

lemma upscale_blit_owns: "owns {#} (upscale_blit D src src_w src_h dst_w dst_h) (\<lambda>_. {#}) (\<lambda>L. True)"
  unfolding upscale_blit_def
  by (rule owns_then_pair [OF owns_weaken [OF create_buffer_owns]], simp, rule owns_weaken [OF upscale_staged_owns], simp_all)

section \<open>Properties\<close>

text \<open>The objects a context owns.\<close>

definition context_objects :: "VulkanContext \<Rightarrow> (obj_kind \<times> handle) multiset" where
  "context_objects ctx = {#(KCommandPool, command_pool ctx), (KDevice, cx_device ctx), (KInstance, cx_instance ctx)#}"

lemma find_family_Some:
  "find_family families caps = Some i \<Longrightarrow>
     i < length families \<and> to_vk_queue_flags caps \<subseteq> families ! i \<and> (\<forall>j < i. \<not> to_vk_queue_flags caps \<subseteq> families ! j)"
  by (auto simp: find_family_def find_Some_iff)

lemma select_families_Inr:
  "select_families families qs = Inr sel \<Longrightarrow>
     map fst sel = qs \<and> (\<forall>(c, i) \<in> set sel. find_family families c = Some i)"
  by (induction qs arbitrary: sel) (auto split: option.splits sum.splits)

lemma compute_family_Inr:
  "compute_family sel = Inr i \<Longrightarrow> \<exists>c. (c, i) \<in> set sel \<and> COMPUTE \<in> c"
  by (auto simp: compute_family_def find_Some_iff split: option.splits) (metis nth_mem)

lemma encode_family_Some:
  "encode_family sel = Some i \<Longrightarrow> \<exists>c. (c, i) \<in> set sel \<and> VIDEO_ENCODE \<in> c"
  by (auto simp: encode_family_def find_Some_iff) (metis nth_mem)

lemma encode_family_None:
  "encode_family sel = None \<longleftrightarrow> \<not> (\<exists>c \<in> fst ` set sel. VIDEO_ENCODE \<in> c)"
  by (force simp: encode_family_def find_None_iff)

lemma with_request_ok:
  assumes "with_request H request extensions s = (Inr ctx, s')"
  shows "\<exists>sel. select_families (pd_families (physical_device ctx)) (rq_queues request) = Inr sel \<and>
     compute_family sel = Inr (queue_family ctx) \<and> video_encode_queue_family ctx = encode_family sel \<and>
     compute_queue ctx = (queue_family ctx, 0) \<and>
     vk_live s' = vk_live s + context_objects ctx \<and> vk_misuse s' = vk_misuse s"
  using assms
  by (auto simp: with_request_def Let_def vk_ok context_objects_def split: if_splits)

lemma context_drop_live:
  assumes "vk_live s' = B + context_objects ctx"
  shows "vk_live (snd (VulkanContext_drop ctx s')) = B \<and> vk_misuse (snd (VulkanContext_drop ctx s')) = vk_misuse s'"
  using assms by (simp add: VulkanContext_drop_def vk_then_def vk_destroy_def context_objects_def)

text \<open>C31. A context offers what was requested, and returns what it took: when \<open>with_request\<close> succeeds, the compute queue
  is of a family that can compute, there is a video encode queue exactly if one was requested, of a family that can
  encode, and dropping the context destroys exactly the objects that making it created.\<close>

theorem context_for_request:
  assumes "with_request H request extensions s = (Inr ctx, s')"
  shows "queue_family ctx < length (pd_families (physical_device ctx)) \<and>
     QUEUE_COMPUTE \<in> pd_families (physical_device ctx) ! queue_family ctx \<and>
     (case video_encode_queue_family ctx of
        None \<Rightarrow> (\<forall>c \<in> set (rq_queues request). VIDEO_ENCODE \<notin> c)
      | Some f \<Rightarrow> f < length (pd_families (physical_device ctx)) \<and> QUEUE_VIDEO_ENCODE \<in> pd_families (physical_device ctx) ! f \<and>
          (\<exists>c \<in> set (rq_queues request). VIDEO_ENCODE \<in> c)) \<and>
     vk_live (snd (VulkanContext_drop ctx s')) = vk_live s \<and> vk_misuse (snd (VulkanContext_drop ctx s')) = vk_misuse s"
proof -
  obtain sel where sel: "select_families (pd_families (physical_device ctx)) (rq_queues request) = Inr sel"
      "compute_family sel = Inr (queue_family ctx)" "video_encode_queue_family ctx = encode_family sel"
      "vk_live s' = vk_live s + context_objects ctx" "vk_misuse s' = vk_misuse s"
    using with_request_ok [OF assms] by blast
  note all = select_families_Inr [OF sel(1)]
  have qs: "fst ` set sel = set (rq_queues request)" using all by (metis list.set_map)
  obtain c where c: "(c, queue_family ctx) \<in> set sel" "COMPUTE \<in> c" using compute_family_Inr [OF sel(2)] by blast
  then have "find_family (pd_families (physical_device ctx)) c = Some (queue_family ctx)" using all by blast
  note f = find_family_Some [OF this]
  have 1: "queue_family ctx < length (pd_families (physical_device ctx))"
      "QUEUE_COMPUTE \<in> pd_families (physical_device ctx) ! queue_family ctx"
    using f c(2) by (auto simp: to_vk_queue_flags_def)
  have 2: "case video_encode_queue_family ctx of
        None \<Rightarrow> (\<forall>c \<in> set (rq_queues request). VIDEO_ENCODE \<notin> c)
      | Some f \<Rightarrow> f < length (pd_families (physical_device ctx)) \<and> QUEUE_VIDEO_ENCODE \<in> pd_families (physical_device ctx) ! f \<and>
          (\<exists>c \<in> set (rq_queues request). VIDEO_ENCODE \<in> c)"
  proof (cases "encode_family sel")
    case None
    then show ?thesis using sel(3) encode_family_None [of sel] qs by simp
  next
    case (Some i)
    then obtain d where d: "(d, i) \<in> set sel" "VIDEO_ENCODE \<in> d" using encode_family_Some by blast
    then have "find_family (pd_families (physical_device ctx)) d = Some i" using all by blast
    note g = find_family_Some [OF this]
    have "d \<in> set (rq_queues request)" using d(1) qs by force
    then show ?thesis using g d(2) Some sel(3) by (auto simp: to_vk_queue_flags_def)
  qed
  show ?thesis using 1 2 context_drop_live [OF sel(4)] sel(5) by simp
qed

text \<open>A machine with one device whose first family renders and computes and whose second encodes.\<close>

definition demo_driver :: Driver where
  "demo_driver = \<lparr>drv_result = \<lambda>_. None, drv_memory_types = [{DEVICE_LOCAL}, {HOST_VISIBLE, HOST_COHERENT}],
     drv_buffer_req = \<lambda>_. \<lparr>req_size = 64, req_bits = 2\<rparr>, drv_image_req = \<lambda>_. \<lparr>req_size = 64, req_bits = 1\<rparr>,
     drv_byte = \<lambda>_ _ _. 0\<rparr>"

definition demo_device :: PhysicalDevice where
  "demo_device = \<lparr>pd_discrete = False, pd_name = ''AMD Radeon 780M'', pd_vendor = 0x1002, pd_api = 0,
     pd_families = [{QUEUE_GRAPHICS, QUEUE_COMPUTE, QUEUE_TRANSFER}, {QUEUE_VIDEO_ENCODE}], pd_extensions = Some []\<rparr>"

definition demo_host :: "Driver \<Rightarrow> Host" where
  "demo_host D = \<lparr>host_loader = True, host_validation = None, host_devices = [demo_device], host_driver = D,
     host_caps = \<lambda>_. \<lparr>raw_max_extent = (4096, 4096), raw_min_extent = (128, 128), raw_granularity = (16, 16), raw_dpb_slots = 8,
        raw_references = 1, raw_rate_control = {RC_DISABLED}\<rparr>\<rparr>"

definition result_value :: "('e + 'a) \<times> 's \<Rightarrow> 'a" where
  "result_value r = projr (fst r)"

lemma demo_request:
  "\<exists>ctx s'. with_request (demo_host demo_driver) (compute_and_encode CodecAv1) [] Vk_empty = (Inr ctx, s') \<and>
     video_encode_queue_family ctx = Some 1"
  by (simp add: Let_def with_request_def demo_host_def demo_driver_def demo_device_def compute_and_encode_def Vk_empty_def vk_run
      find_family_def to_vk_queue_flags_def compute_family_def
      encode_family_def choose_device_def upt_rec)

theorem context_for_request_witness:
  "\<exists>ctx s'. with_request (demo_host demo_driver) (compute_and_encode CodecAv1) [] Vk_empty = (Inr ctx, s') \<and>
     video_encode_queue_family ctx = Some 1 \<and> vk_live (snd (VulkanContext_drop ctx s')) = {#}"
proof -
  obtain ctx s' where r: "with_request (demo_host demo_driver) (compute_and_encode CodecAv1) [] Vk_empty = (Inr ctx, s')"
      "video_encode_queue_family ctx = Some 1" using demo_request by blast
  have "vk_live (Vk_empty :: (GfxCmd, GfxInfo) Vk) = {#}" by (simp add: Vk_empty_def)
  then have "vk_live (snd (VulkanContext_drop ctx s')) = {#}" using context_for_request [OF r(1)] by simp
  with r show ?thesis by blast
qed

text \<open>A request that cannot be met leaks: when no family of the chosen device has what an entry asks for, the error is
  returned and the instance stays alive; when every entry is met but none asks for \<open>COMPUTE\<close>, the device stays alive too.\<close>

theorem failed_request_leaks:
  assumes "rq_queues request \<noteq> []" and "host_loader H" and "host_devices H \<noteq> []"
    and "drv_result (host_driver H) (vk_calls s) = None" and "drv_result (host_driver H) (vk_calls s + 1) = None"
  shows "(case select_families (pd_families (choose_device (host_devices H))) (rq_queues request) of
       Inl e \<Rightarrow> fst (with_request H request extensions s) = Inl e \<and>
         vk_live (snd (with_request H request extensions s)) = add_mset (KInstance, vk_calls s) (vk_live s)
     | Inr sel \<Rightarrow> (drv_result (host_driver H) (vk_calls s + 2) = None \<longrightarrow> (\<forall>c \<in> set (rq_queues request). COMPUTE \<notin> c) \<longrightarrow>
         fst (with_request H request extensions s) = Inl (NoSuitableQueue (''no COMPUTE queue requested'', None)) \<and>
         vk_live (snd (with_request H request extensions s)) =
           vk_live s + {#(KInstance, vk_calls s), (KDevice, vk_calls s + 2)#}))"
proof (cases "select_families (pd_families (choose_device (host_devices H))) (rq_queues request)")
  case (Inl e)
  show ?thesis unfolding Inl sum.case using assms Inl by (simp add: with_request_def Let_def vk_run)
next
  case (Inr sel)
  have none: "compute_family sel = Inl (NoSuitableQueue (''no COMPUTE queue requested'', None))"
    if "\<forall>c \<in> set (rq_queues request). COMPUTE \<notin> c"
  proof -
    have "fst ` set sel = set (rq_queues request)" using select_families_Inr [OF Inr] by (metis list.set_map)
    then have "find (\<lambda>(c, _). COMPUTE \<in> c) sel = None"
      using that unfolding find_None_iff by (metis (mono_tags, lifting) case_prod_beta' imageI)
    then show ?thesis by (simp add: compute_family_def)
  qed
  show ?thesis unfolding Inr sum.case
  proof (intro impI)
    assume "drv_result (host_driver H) (vk_calls s + 2) = None" and "\<forall>c \<in> set (rq_queues request). COMPUTE \<notin> c"
    then show "fst (with_request H request extensions s) = Inl (NoSuitableQueue (''no COMPUTE queue requested'', None)) \<and>
         vk_live (snd (with_request H request extensions s)) = vk_live s + {#(KInstance, vk_calls s), (KDevice, vk_calls s + 2)#}"
      using assms Inr none by (simp add: with_request_def Let_def vk_run)
  qed
qed

theorem failed_request_leaks_witness:
  "\<exists>e. fst (with_request (demo_host demo_driver) \<lparr>rq_queues = [{COMPUTE, VIDEO_ENCODE}], video_codecs = []\<rparr> [] Vk_empty) = Inl e \<and>
     vk_live (snd (with_request (demo_host demo_driver) \<lparr>rq_queues = [{COMPUTE, VIDEO_ENCODE}], video_codecs = []\<rparr> [] Vk_empty)) =
       {#(KInstance, 0)#}"
proof -
  have "select_families (pd_families (choose_device (host_devices (demo_host demo_driver)))) [{COMPUTE, VIDEO_ENCODE}] =
      Inl (NoSuitableQueue ([], None))"
    by (simp add: demo_host_def demo_device_def choose_device_def find_family_def to_vk_queue_flags_def upt_rec)
  then show ?thesis
    using failed_request_leaks [of "\<lparr>rq_queues = [{COMPUTE, VIDEO_ENCODE}], video_codecs = []\<rparr>" "demo_host demo_driver" Vk_empty "[]"]
    by (simp add: demo_host_def demo_driver_def Vk_empty_def)
qed

text \<open>Memory helpers clean up: whatever fails inside them, \<open>create_buffer\<close>, \<open>create_host_buffer\<close> and \<open>create_image\<close>
  leave nothing behind and destroy nothing else, and when they succeed they have made one object and its memory; a
  submission leaves nothing behind at all.\<close>

theorem memory_helpers_exact:
  "(case fst (create_buffer D n usage flags s) of
      Inl e \<Rightarrow> vk_live (snd (create_buffer D n usage flags s)) = vk_live s
    | Inr (b, m) \<Rightarrow> vk_live (snd (create_buffer D n usage flags s)) = vk_live s + {#(KBuffer, b), (KMemory, m)#}) \<and>
   (case fst (create_host_buffer D n usage s) of
      Inl e \<Rightarrow> vk_live (snd (create_host_buffer D n usage s)) = vk_live s
    | Inr (b, m) \<Rightarrow> vk_live (snd (create_host_buffer D n usage s)) = vk_live s + {#(KBuffer, b), (KMemory, m)#}) \<and>
   (case fst (create_image D w h iusage s) of
      Inl e \<Rightarrow> vk_live (snd (create_image D w h iusage s)) = vk_live s
    | Inr (i, m) \<Rightarrow> vk_live (snd (create_image D w h iusage s)) = vk_live s + {#(KImage, i), (KMemory, m)#}) \<and>
   vk_live (snd (submit_and_wait D s)) = vk_live s \<and>
   vk_misuse (snd (create_buffer D n usage flags s)) = vk_misuse s \<and> vk_misuse (snd (create_host_buffer D n usage s)) = vk_misuse s \<and>
   vk_misuse (snd (create_image D w h iusage s)) = vk_misuse s \<and> vk_misuse (snd (submit_and_wait D s)) = vk_misuse s"
  using owns_apply [OF create_buffer_owns, of D n usage flags s] owns_apply [OF create_host_buffer_owns, of D n usage s]
    owns_apply [OF create_image_owns, of D w h iusage s] owns_apply [OF submit_and_wait_owns, of D s]
  by (auto simp: outcome_def split: sum.splits prod.splits)

lemma create_buffer_frame:
  "create_buffer D n usage flags s = (Inr (b, m), t) \<Longrightarrow> vk_submitted t = vk_submitted s \<and> vk_uploads t = vk_uploads s"
  by (auto simp: create_buffer_def Let_def vk_ok split: option.splits)

lemma create_image_frame:
  "create_image D w h usage s = (Inr (i, m), t) \<Longrightarrow>
     vk_submitted t = vk_submitted s \<and> vk_uploads t = vk_uploads s \<and> i = vk_calls s \<and> vk_calls s < vk_calls t"
  by (auto simp: create_image_def Let_def vk_ok split: option.splits)

lemma submit_and_wait_frame:
  "submit_and_wait D s = (Inr u, t) \<Longrightarrow> vk_submitted t = vk_submitted s @ [vk_recorded s] \<and> vk_uploads t = vk_uploads s"
  by (auto simp: submit_and_wait_def vk_ok)

lemma destroy_all_frame:
  "destroy_all objs s = (Inr u, t) \<Longrightarrow> vk_submitted t = vk_submitted s \<and> vk_uploads t = vk_uploads s"
  unfolding destroy_all_def by (induction objs arbitrary: s u) (fastforce simp: vk_ok)+

lemma upscale_ok:
  assumes "upscale_blit D src src_w src_h dst_w dst_h s = (Inr out, s')"
  shows "\<exists>staging si di readback m. si \<noteq> di \<and>
     vk_submitted s' = vk_submitted s @ [blit_commands staging si di readback src_w src_h dst_w dst_h] \<and>
     length out = unat (blit_byte_size dst_w dst_h) \<and> vk_uploads s' = vk_uploads s @ [(m, src)]"
  using assms
  apply (clarsimp simp: upscale_blit_def upscale_staged_def Let_def vk_ok upload_to_buffer_def allocate_command_buffer_def read_from_buffer_def)
  apply (drule create_buffer_frame create_image_frame submit_and_wait_frame destroy_all_frame)+
  apply clarsimp
  apply (rule exI, rule exI, rule exI, rule conjI [rotated], rule exI, rule refl)
  apply simp
  done

text \<open>The blit does what it says: when \<open>upscale_blit\<close> succeeds it has uploaded the source once, submitted one batch of
  commands in which every copy and blit finds its images in the layout it names and reads only contents that were written
  in that batch, whatever the images held before, the
  source covering the whole source image and the result the whole destination image, returned as many bytes as the
  destination has, and left nothing alive.\<close>

theorem upscale_blit_batch:
  assumes "upscale_blit D src src_w src_h dst_w dst_h s = (Inr out, s')"
  shows "\<exists>staging si di readback m cmds. vk_submitted s' = vk_submitted s @ [cmds] \<and> run_images cmds l \<noteq> None \<and>
     CopyBufferToImage staging si TRANSFER_DST_OPTIMAL src_w src_h \<in> set cmds \<and>
     BlitImage si TRANSFER_SRC_OPTIMAL (sint src_w, sint src_h) di TRANSFER_DST_OPTIMAL (sint dst_w, sint dst_h) \<in> set cmds \<and>
     CopyImageToBuffer di TRANSFER_SRC_OPTIMAL readback dst_w dst_h \<in> set cmds \<and>
     vk_uploads s' = vk_uploads s @ [(m, src)] \<and> length out = unat (blit_byte_size dst_w dst_h) \<and>
     vk_live s' = vk_live s \<and> vk_misuse s' = vk_misuse s"
proof -
  obtain staging si di readback m where d: "si \<noteq> di"
      "vk_submitted s' = vk_submitted s @ [blit_commands staging si di readback src_w src_h dst_w dst_h]"
      "length out = unat (blit_byte_size dst_w dst_h)" "vk_uploads s' = vk_uploads s @ [(m, src)]"
    using upscale_ok [OF assms] by blast
  have "vk_live s' = vk_live s \<and> vk_misuse s' = vk_misuse s"
    using owns_apply [OF upscale_blit_owns, of D src src_w src_h dst_w dst_h s] assms by simp
  then show ?thesis using d
    by (intro exI [of _ staging] exI [of _ si] exI [of _ di] exI [of _ readback] exI [of _ m]
        exI [of _ "blit_commands staging si di readback src_w src_h dst_w dst_h"])
      (simp add: blit_commands_def cmd_image_barrier_def readable_def)
qed

lemma demo_types: "find_memory_type demo_driver 2 {HOST_VISIBLE, HOST_COHERENT} = Some 1" "find_memory_type demo_driver 1 {DEVICE_LOCAL} = Some 0"
  by (auto simp: find_memory_type_def demo_driver_def upt_rec bit_iff_odd)

lemma demo_driver_simps [simp]:
  "drv_result demo_driver n = None" "req_bits (drv_buffer_req demo_driver h) = 2" "req_bits (drv_image_req demo_driver h) = 1"
  by (simp_all add: demo_driver_def)

lemma demo_blit: "\<exists>out s'. upscale_blit demo_driver [1, 2, 3, 4] 1 1 2 2 Vk_empty = (Inr out, s')"
  by (simp add: upscale_blit_def upscale_staged_def create_buffer_def create_image_def upload_to_buffer_def read_from_buffer_def
      allocate_command_buffer_def submit_and_wait_def destroy_all_def demo_types Let_def vk_run)

theorem upscale_blit_batch_witness:
  "\<exists>out s' cmds. upscale_blit demo_driver [1, 2, 3, 4] 1 1 2 2 Vk_empty = (Inr out, s') \<and> vk_submitted s' = [cmds] \<and>
     run_images cmds (\<lambda>_. (UNDEFINED, Undefined)) \<noteq> None \<and> length out = 16 \<and> vk_live s' = {#}"
proof -
  obtain out s' where r: "upscale_blit demo_driver [1, 2, 3, 4] 1 1 2 2 Vk_empty = (Inr out, s')" using demo_blit by blast
  have e: "vk_submitted (Vk_empty :: (GfxCmd, GfxInfo) Vk) = []" "vk_live (Vk_empty :: (GfxCmd, GfxInfo) Vk) = {#}"
    by (simp_all add: Vk_empty_def)
  have n: "unat (blit_byte_size 2 2) = 16" by (simp add: blit_byte_size_def)
  from upscale_blit_batch [OF r, of "\<lambda>_. (UNDEFINED, Undefined)"] show ?thesis using r by (auto simp: e n)
qed

text \<open>The blit leaks when it fails: whatever fails after the staging buffer was made, that buffer and its memory stay
  alive.\<close>

theorem upscale_failure_leaks:
  assumes "upscale_blit D src src_w src_h dst_w dst_h s = (Inl e, s')"
    and "fst (create_buffer D (blit_byte_size src_w src_h) {BUF_TRANSFER_SRC} {HOST_VISIBLE, HOST_COHERENT} s) = Inr (b, m)"
  shows "\<exists>M. vk_live s' = vk_live s + {#(KBuffer, b), (KMemory, m)#} + M"
proof -
  obtain t where t: "create_buffer D (blit_byte_size src_w src_h) {BUF_TRANSFER_SRC} {HOST_VISIBLE, HOST_COHERENT} s = (Inr (b, m), t)"
    using assms(2) by (cases "create_buffer D (blit_byte_size src_w src_h) {BUF_TRANSFER_SRC} {HOST_VISIBLE, HOST_COHERENT} s") auto
  have live: "vk_live t = vk_live s + {#(KBuffer, b), (KMemory, m)#}"
    using owns_apply [OF create_buffer_owns, of D "blit_byte_size src_w src_h" "{BUF_TRANSFER_SRC}" "{HOST_VISIBLE, HOST_COHERENT}" s] t by simp
  obtain L where "{#(KBuffer, b), (KMemory, m)#} \<subseteq># L" "vk_live s' = vk_live s + L"
    using ownsD(2) [OF upscale_staged_owns [OF refl] live, of D src src_w src_h dst_w dst_h "Inl e" s'] assms(1)
    by (auto simp: upscale_blit_def vk_then_def t)
  then show ?thesis by (metis add.assoc subset_mset.add_diff_inverse)
qed

text \<open>A driver that fails one call.\<close>

definition failing_driver :: "nat \<Rightarrow> Driver" where
  "failing_driver k = demo_driver\<lparr>drv_result := \<lambda>n. if n = k then Some (- 1) else None\<rparr>"


lemma failing_driver_simps [simp]:
  "drv_result (failing_driver k) n = (if n = k then Some (- 1) else None)" "drv_buffer_req (failing_driver k) = drv_buffer_req demo_driver"
  "find_memory_type (failing_driver k) = find_memory_type demo_driver"
  by (simp_all add: failing_driver_def find_memory_type_def fun_eq_iff)

theorem upscale_failure_leaks_witness:
  "\<exists>e s' M. upscale_blit (failing_driver 3) [1, 2, 3, 4] 1 1 2 2 Vk_empty = (Inl e, s') \<and>
     vk_live s' = {#(KBuffer, 0), (KMemory, 1)#} + M"
proof -
  have e: "vk_live (Vk_empty :: (GfxCmd, GfxInfo) Vk) = {#}" "vk_calls (Vk_empty :: (GfxCmd, GfxInfo) Vk) = 0"
    by (simp_all add: Vk_empty_def)
  have c: "fst (create_buffer (failing_driver 3) (blit_byte_size 1 1) {BUF_TRANSFER_SRC} {HOST_VISIBLE, HOST_COHERENT} Vk_empty) = Inr (0, 1)"
    by (simp add: create_buffer_def demo_types Let_def vk_run e)
  have "\<exists>e s'. upscale_blit (failing_driver 3) [1, 2, 3, 4] 1 1 2 2 Vk_empty = (Inl e, s')"
    by (simp add: upscale_blit_def upscale_staged_def create_buffer_def upload_to_buffer_def demo_types Let_def vk_run e)
  then obtain err s' where "upscale_blit (failing_driver 3) [1, 2, 3, 4] 1 1 2 2 Vk_empty = (Inl err, s')" by blast
  with upscale_failure_leaks [OF this c] show ?thesis by (auto simp: e)
qed

end
