(* ===== verification/GpuBackend.thy ===== *)
theory GpuBackend
  imports VulkanContext Interpolate
begin

text \<open>
  What the GPU backends of \<^verbatim>\<open>crates/remoteway-interpolate/src/backends\<close> share: the machine they run on, their errors (the
  conversion of \<^verbatim>\<open>error.rs\<close>), and the interface \<open>gpu_session\<close> of a backend that is used again and again: its law says
  what a step and the final drop do to the objects of the device, and its lemma follows a whole session.
\<close>

section \<open>The machine\<close>

text \<open>How result codes, the codes of the SDKs and a factor are printed; what the SDK answers;
  why an embedded shader cannot be read, if it cannot; the half-precision number of
  a channel (\<^verbatim>\<open>half::f16::from_f32(f32::from(v) / 255.0)\<close>) and its way back
  (\<^verbatim>\<open>(h.to_f32() * 255.0).round().clamp(0.0, 255.0) as u8\<close>).\<close>

record Gpu =
  gp_host :: Host
  gp_shown :: "VkResult \<Rightarrow> string"
  gp_debug :: "VkResult \<Rightarrow> string"
  gp_sdk :: "VkResult \<Rightarrow> string"
  gp_factor :: string
  gp_shared :: FfxSharedDescriptions
  gp_spv :: "shader \<Rightarrow> string option"
  gp_to_half :: "u8 \<Rightarrow> u16"
  gp_of_half :: "u16 \<Rightarrow> u8"

definition gp_driver :: "Gpu \<Rightarrow> Driver" where
  "gp_driver G = host_driver (gp_host G)"

type_synonym 'a gpu = "(GfxCmd, GfxInfo, InterpolateError, 'a) vk"
type_synonym gpu_state = "(GfxCmd, GfxInfo) Vk"

section \<open>error.rs\<close>

definition message_text :: "Gpu \<Rightarrow> message \<Rightarrow> string" where
  "message_text G m = fst m @ (case snd m of None \<Rightarrow> [] | Some code \<Rightarrow> gp_shown G code)"

definition interpolate_error :: "Gpu \<Rightarrow> VulkanError \<Rightarrow> InterpolateError" where
  "interpolate_error G e = (case e of
     LoaderFailed m \<Rightarrow> InterpolateError.InitFailed (message_text G m)
   | VulkanError.InitFailed m \<Rightarrow> InterpolateError.InitFailed (message_text G m)
   | NoSuitableQueue m \<Rightarrow> InterpolateError.InitFailed (message_text G m)
   | NoDevice \<Rightarrow> InterpolateError.InitFailed ''no Vulkan device''
   | MissingExtension x \<Rightarrow> InterpolateError.InitFailed (''missing extension: '' @ x)
   | Allocation m \<Rightarrow> InterpolateFailed (message_text G m)
   | VkCallFailed what code \<Rightarrow> InterpolateFailed (what @ '': '' @ gp_debug G code))"

definition VulkanError_text :: "Gpu \<Rightarrow> VulkanError \<Rightarrow> string" where
  "VulkanError_text G e = (case e of
     LoaderFailed m \<Rightarrow> ''Vulkan loader: '' @ message_text G m
   | VulkanError.InitFailed m \<Rightarrow> ''Vulkan init: '' @ message_text G m
   | NoDevice \<Rightarrow> ''no Vulkan-capable physical device''
   | NoSuitableQueue m \<Rightarrow> ''no queue family satisfying request: '' @ message_text G m
   | MissingExtension x \<Rightarrow> ''required extension missing: '' @ x
   | VkCallFailed what code \<Rightarrow> ''Vulkan call failed: '' @ what @ '' ('' @ gp_debug G code @ '')''
   | Allocation m \<Rightarrow> ''memory allocation failed: '' @ message_text G m)"

definition InterpolateError_text :: "Gpu \<Rightarrow> InterpolateError \<Rightarrow> string" where
  "InterpolateError_text G e = (case e of
     InterpNoBackend \<Rightarrow> ''no interpolation backend available''
   | DeviceLost \<Rightarrow> ''GPU device lost''
   | DimensionMismatch a b c d \<Rightarrow> ''frame dimensions mismatch: '' @ decimal (unat a) @ ''x'' @ decimal (unat b) @ '' vs '' @
       decimal (unat c) @ ''x'' @ decimal (unat d)
   | InvalidFactor \<Rightarrow> ''invalid interpolation factor: '' @ gp_factor G @ '' (must be 0.0..=1.0)''
   | InterpolateError.InitFailed m \<Rightarrow> ''backend initialization failed: '' @ m
   | InterpolateFailed m \<Rightarrow> ''interpolation failed: '' @ m)"

text \<open>An error with the printed code of a Vulkan call, and the two ways a context's error becomes the backend's.\<close>

definition failed :: "Gpu \<Rightarrow> string \<Rightarrow> VkResult \<Rightarrow> InterpolateError" where
  "failed G text code = InterpolateFailed (text @ gp_shown G code)"

definition init_failed :: "Gpu \<Rightarrow> string \<Rightarrow> VkResult \<Rightarrow> InterpolateError" where
  "init_failed G text code = InterpolateError.InitFailed (text @ gp_shown G code)"

definition sdk_failed :: "Gpu \<Rightarrow> string \<Rightarrow> VkResult \<Rightarrow> InterpolateError" where
  "sdk_failed G text code = InterpolateFailed (text @ gp_sdk G code)"

definition vk_map_err :: "('e \<Rightarrow> 'f) \<Rightarrow> ('c, 'i, 'e, 'a) vk \<Rightarrow> ('c, 'i, 'f, 'a) vk" where
  "vk_map_err f m = vk_catch m (\<lambda>e. vk_fail (f e))"

definition from_vulkan :: "Gpu \<Rightarrow> 'a gfx \<Rightarrow> 'a gpu" where
  "from_vulkan G m = vk_map_err (interpolate_error G) m"

lemma map_err_ok [vk_ok]: "vk_map_err f m s = (Inr a, t) \<longleftrightarrow> m s = (Inr a, t)"
  by (simp add: vk_map_err_def vk_ok)

lemma from_vulkan_ok [vk_ok]: "from_vulkan G m s = (Inr a, t) \<longleftrightarrow> m s = (Inr a, t)"
  by (simp add: from_vulkan_def vk_ok)

lemma map_err_run [vk_run]:
  "m s = (Inr a, t) \<Longrightarrow> vk_map_err f m s = (Inr a, t)"
  "m s = (Inl e, t) \<Longrightarrow> vk_map_err f m s = (Inl (f e), t)"
  by (simp_all add: vk_map_err_def vk_run)

lemma from_vulkan_run [vk_run]:
  "m s = (Inr a, t) \<Longrightarrow> from_vulkan G m s = (Inr a, t)"
  "m s = (Inl e, t) \<Longrightarrow> from_vulkan G m s = (Inl (interpolate_error G e), t)"
  by (simp_all add: from_vulkan_def vk_run)

lemma map_err_owns: "owns P m Q E \<Longrightarrow> owns P (vk_map_err f m) Q E"
  unfolding vk_map_err_def by (erule owns_catch) (rule owns_fail)

lemma from_vulkan_owns: "owns P m Q E \<Longrightarrow> owns P (from_vulkan G m) Q E"
  unfolding from_vulkan_def by (rule map_err_owns)

lemma quiet_map_err [quiets]: "quiet m \<Longrightarrow> quiet (vk_map_err f m)"
  unfolding vk_map_err_def by (intro quiets)

lemma quiet_from_vulkan [quiets]: "quiet m \<Longrightarrow> quiet (from_vulkan G m)"
  unfolding from_vulkan_def by (rule quiet_map_err)

lemma quiet_memory [quiets]:
  "quiet (create_buffer D n usage flags)" "quiet (create_host_buffer D n usage)" "quiet (upload_to_buffer D m data)"
  "quiet (read_from_buffer D m k)" "quiet (allocate_command_buffer D)"
  by (auto simp: create_buffer_def create_host_buffer_def upload_to_buffer_def read_from_buffer_def allocate_command_buffer_def
      Let_def intro!: quiets split: option.split)

lemma submit_submits: "submits rs (submit_and_wait D) [rs]"
  unfolding submit_and_wait_def
  by (intro submits_after submits_before submits_catch submits_submit quiets conjI) (simp_all add: quiets)

lemma map_err_submits: "submits rs m B \<Longrightarrow> submits rs (vk_map_err f m) B"
  unfolding vk_map_err_def by (rule submits_catch) (simp_all add: quiets vk_fail_def)

lemma from_vulkan_submits: "submits rs m B \<Longrightarrow> submits rs (from_vulkan G m) B"
  unfolding from_vulkan_def by (rule map_err_submits)

lemma writes_map_err [writing]: "writes U m \<Longrightarrow> writes U (vk_map_err f m)"
  unfolding vk_map_err_def by (intro writing)

lemma writes_from_vulkan [writing]: "writes U m \<Longrightarrow> writes U (from_vulkan G m)"
  unfolding from_vulkan_def by (rule writes_map_err)

lemma writes_memory [writing]:
  "writes U (create_buffer D n usage flags)" "writes U (create_host_buffer D n usage)"
  "writes U (read_from_buffer D m k)" "writes U (allocate_command_buffer D)" "writes U (submit_and_wait D)"
  by (auto simp: create_buffer_def create_host_buffer_def read_from_buffer_def allocate_command_buffer_def submit_and_wait_def
      Let_def intro!: writing split: option.split)

lemma writes_upload [writing]: "(m, data) \<in> U \<Longrightarrow> writes U (upload_to_buffer D m data)"
  unfolding upload_to_buffer_def by (rule writing)

text \<open>Where the handles of new objects come from.\<close>

lemma create_buffer_fresh: "create_buffer D n usage flags s = (Inr (b, m), t) \<Longrightarrow> b = vk_calls s \<and> b < m \<and> m < vk_calls t"
  by (auto simp: create_buffer_def Let_def vk_ok split: option.splits)

lemma create_buffer_calls: "vk_calls s \<le> vk_calls (snd (create_buffer D n usage flags s))"
  by (auto simp: create_buffer_def Let_def vk_then_def vk_catch_def vk_create_def vk_call_def undo_def destroy_all_def vk_eval
      split: option.splits sum.splits prod.splits)

lemma create_host_buffer_fresh:
  assumes "create_host_buffer D n usage s = (Inr (b, m), t)"
  shows "vk_calls s \<le> b \<and> b < m \<and> m < vk_calls t"
proof -
  from assms consider "create_buffer D n usage {HOST_VISIBLE, HOST_COHERENT, HOST_CACHED} s = (Inr (b, m), t)"
    | e u where "create_buffer D n usage {HOST_VISIBLE, HOST_COHERENT, HOST_CACHED} s = (Inl e, u)"
        "create_buffer D n usage {HOST_VISIBLE, HOST_COHERENT} u = (Inr (b, m), t)"
    unfolding create_host_buffer_def vk_ok by blast
  then show ?thesis
  proof cases
    case 1
    then show ?thesis using create_buffer_fresh [OF 1] by simp
  next
    case 2
    have "vk_calls s \<le> vk_calls u" using create_buffer_calls [of s D n usage "{HOST_VISIBLE, HOST_COHERENT, HOST_CACHED}"] 2(1) by simp
    then show ?thesis using create_buffer_fresh [OF 2(2)] by simp
  qed
qed

section \<open>Sessions\<close>

text \<open>A backend in use: \<open>step\<close> serves a request, \<open>failing\<close> are the results that are no frame, \<open>objs\<close> are the objects the backend holds, \<open>finish\<close> drops it and \<open>left\<close> is
  what that does not destroy. A step may abandon objects only when it fails.\<close>

primrec serve :: "('q \<Rightarrow> 'c \<Rightarrow> 's \<Rightarrow> 'r \<times> 'c \<times> 's) \<Rightarrow> 'q list \<Rightarrow> 'c \<Rightarrow> 's \<Rightarrow> 'r list \<times> 'c \<times> 's" where
  "serve step [] c s = ([], c, s)"
| "serve step (q # qs) c s = (case step q c s of (r, c', s') \<Rightarrow> case serve step qs c' s' of (rs, x) \<Rightarrow> (r # rs, x))"

locale gpu_session =
  fixes step :: "'q \<Rightarrow> 'c \<Rightarrow> gpu_state \<Rightarrow> 'r \<times> 'c \<times> gpu_state"
    and failing :: "'r \<Rightarrow> bool"
    and objs :: "'c \<Rightarrow> (obj_kind \<times> handle) multiset"
    and finish :: "'c \<Rightarrow> gpu_state \<Rightarrow> gpu_state"
    and left :: "'c \<Rightarrow> (obj_kind \<times> handle) multiset"
  assumes step_objs: "step q c s = (r, c', s') \<Longrightarrow> vk_live s = B + objs c \<Longrightarrow>
      vk_misuse s' = vk_misuse s \<and> (\<exists>L. vk_live s' = B + L + objs c' \<and> (\<not> failing r \<longrightarrow> L = {#}))"
    and step_left: "step q c s = (r, c', s') \<Longrightarrow> left c' = left c"
    and finish_objs: "vk_live s = B + objs c \<Longrightarrow> vk_live (finish c s) = B + left c \<and> vk_misuse (finish c s) = vk_misuse s"
begin

lemma serve_objs:
  assumes "serve step qs c s = (rs, c', s')" and "vk_live s = B + objs c"
  shows "vk_misuse s' = vk_misuse s \<and> left c' = left c \<and>
     (\<exists>L. vk_live s' = B + L + objs c' \<and> (list_all (\<lambda>r. \<not> failing r) rs \<longrightarrow> L = {#}))"
  using assms
proof (induction qs arbitrary: c s rs B)
  case (Cons q qs)
  obtain r c1 s1 where st: "step q c s = (r, c1, s1)" by (metis prod_cases3)
  obtain rs1 where go: "serve step qs c1 s1 = (rs1, c', s')" and rs: "rs = r # rs1"
    using Cons.prems(1) st by (auto split: prod.splits)
  obtain L where L: "vk_misuse s1 = vk_misuse s" "vk_live s1 = (B + L) + objs c1" "\<not> failing r \<longrightarrow> L = {#}"
    using step_objs [OF st Cons.prems(2)] by auto
  obtain L' where L': "vk_misuse s' = vk_misuse s1" "left c' = left c1" "vk_live s' = (B + L) + L' + objs c'"
      "list_all (\<lambda>r. \<not> failing r) rs1 \<longrightarrow> L' = {#}"
    using Cons.IH [OF go L(2)] by auto
  show ?case using L L' step_left [OF st] by (auto simp: rs intro!: exI [of _ "L + L'"])
qed auto

theorem session_objs:
  assumes "serve step qs c s = (rs, c', s')" and "vk_live s = B + objs c"
  shows "vk_misuse (finish c' s') = vk_misuse s \<and>
     (\<exists>L. vk_live (finish c' s') = B + L + left c \<and> (list_all (\<lambda>r. \<not> failing r) rs \<longrightarrow> L = {#}))"
proof -
  obtain L where L: "vk_misuse s' = vk_misuse s" "left c' = left c" "vk_live s' = B + L + objs c'"
      "list_all (\<lambda>r. \<not> failing r) rs \<longrightarrow> L = {#}"
    using serve_objs [OF assms] by blast
  then show ?thesis using finish_objs [OF L(3)] by auto
qed

end

section \<open>A machine for the examples\<close>

text \<open>A machine whose calls all succeed, and one frame of one pixel.\<close>

definition demo_gpu :: "Driver \<Rightarrow> Gpu" where
  "demo_gpu D = \<lparr>gp_host = demo_host D, gp_shown = \<lambda>_. [], gp_debug = \<lambda>_. [], gp_sdk = \<lambda>_. [], gp_factor = [],
     gp_shared = \<lparr>xs_dilated_depth = FfxResourceDescription_default, xs_dilated_motion_vectors = FfxResourceDescription_default,
       xs_reconstructed_prev_nearest_depth = FfxResourceDescription_default\<rparr>, gp_spv = \<lambda>_. None, gp_to_half = ucast, gp_of_half = ucast\<rparr>"

definition demo_frame :: GpuFrame where
  "demo_frame = \<lparr>gf_data = [1, 2, 3, 4], gf_width = 1, gf_height = 1, gf_stride = 4, gf_timestamp_ns = 5\<rparr>"

lemma demo_gpu_driver [simp]: "gp_driver (demo_gpu D) = D"
  by (simp add: gp_driver_def demo_gpu_def demo_host_def)

lemma demo_cached: "find_memory_type demo_driver 2 {HOST_VISIBLE, HOST_COHERENT, HOST_CACHED} = None"
  by (auto simp: find_memory_type_def demo_driver_def upt_rec bit_iff_odd)

lemma demo_host_buffer:
  "create_host_buffer demo_driver n usage s = create_buffer demo_driver n usage {HOST_VISIBLE, HOST_COHERENT}
     (snd (create_buffer demo_driver n usage {HOST_VISIBLE, HOST_COHERENT, HOST_CACHED} s))"
  by (simp add: create_host_buffer_def create_buffer_def demo_cached Let_def undo_def destroy_all_def vk_run)

text \<open>Programs that succeed from every state, on a machine that never fails.\<close>

definition always :: "('c, 'i, 'e, 'a) vk \<Rightarrow> bool" where
  "always m \<longleftrightarrow> (\<forall>s. \<exists>a t. m s = (Inr a, t))"

definition willing :: "Driver \<Rightarrow> bool" where
  "willing D \<longleftrightarrow> (\<forall>n. drv_result D n = None)"

named_theorems succeeding \<open>programs that always succeed\<close>

lemma always_then [succeeding]: "always m \<Longrightarrow> (\<And>a. always (k a)) \<Longrightarrow> always (vk_then m k)"
  unfolding always_def vk_then_ok by metis

lemma always_catch [succeeding]: "always m \<Longrightarrow> always (vk_catch m h)"
  unfolding always_def vk_catch_ok by metis

lemma always_basic [succeeding]:
  "always (vk_return a)" "always (vk_destroy kind h)" "always (vk_note i)" "always (vk_record cs)"
  by (simp_all add: always_def vk_eval)

lemma always_calls [succeeding]:
  assumes "willing D"
  shows "always (vk_call D err)" "always (vk_create D err kind i)" "always (vk_begin D err)" "always (vk_submit D err)"
    "always (vk_write D err h data)" "always (vk_read D err h n)"
  using assms by (simp_all add: always_def willing_def vk_run)

lemma always_each [succeeding]: "(\<And>x. always (f x)) \<Longrightarrow> always (vk_each f xs)"
  by (induction xs) (simp_all add: succeeding)

lemma always_destroys [succeeding]: "always (destroy_all objs)"
  by (auto simp: destroy_all_def intro!: succeeding split: prod.split)

lemma always_map_err [succeeding]: "always m \<Longrightarrow> always (vk_map_err f m)"
  unfolding vk_map_err_def by (rule succeeding)

lemma always_from_vulkan [succeeding]: "always m \<Longrightarrow> always (from_vulkan G m)"
  unfolding from_vulkan_def by (rule succeeding)

lemma always_memory [succeeding]:
  assumes "willing D"
  shows "always (upload_to_buffer D m data)" "always (read_from_buffer D m n)" "always (allocate_command_buffer D)"
    "always (submit_and_wait D)"
  using assms by (auto simp: upload_to_buffer_def read_from_buffer_def allocate_command_buffer_def submit_and_wait_def intro!: succeeding)

lemma always_buffer:
  assumes "willing D" and "\<And>b. find_memory_type D (req_bits (drv_buffer_req D b)) flags \<noteq> None"
  shows "always (create_buffer D n usage flags)"
  unfolding create_buffer_def Let_def
proof (rule succeeding)
  fix b
  obtain i where "find_memory_type D (req_bits (drv_buffer_req D b)) flags = Some i" using assms(2) [of b] by auto
  then show "always (case find_memory_type D (req_bits (drv_buffer_req D b)) flags of
       None \<Rightarrow> undo [(KBuffer, b)] (Allocation (''no suitable memory type'', None))
     | Some mem_type \<Rightarrow>
         vk_then (vk_catch
            (vk_create D (\<lambda>e. Allocation (''allocate memory: '', Some e)) KMemory (MemoryInfo (req_size (drv_buffer_req D b)) mem_type))
            (undo [(KBuffer, b)])) (\<lambda>memory.
         vk_then (vk_catch (vk_call D (\<lambda>e. Allocation (''bind memory: '', Some e)))
            (undo [(KMemory, memory), (KBuffer, b)])) (\<lambda>_.
         vk_return (b, memory))))"
    using assms(1) by (auto intro!: succeeding)
qed (rule succeeding, rule assms(1))

end
