(* ===== verification/FsrNative.thy ===== *)
theory FsrNative
  imports GpuBackend
begin

text \<open>
  \<^verbatim>\<open>backends/fsr2_native.rs\<close>: upscaling by the FSR 2 of the \<^verbatim>\<open>fsr\<close> crate. The images, buffers and the FSR context of the
  last pair of sizes are cached. The crate is not part of the repository: its calls may fail, its context is an object of
  the device, and its dispatch is a command. Locks, timing and the access and stage masks of barriers are left out.
\<close>

section \<open>Resources\<close>

record CachedResources =
  cr_src_w :: u32
  cr_src_h :: u32
  cr_dst_w :: u32
  cr_dst_h :: u32
  fsr_ctx :: handle
  color_image :: handle
  color_mem :: handle
  color_view :: handle
  depth_image :: handle
  depth_mem :: handle
  depth_view :: handle
  mv_image :: handle
  mv_mem :: handle
  mv_view :: handle
  output_image :: handle
  output_mem :: handle
  output_view :: handle
  staging_color_buf :: handle
  staging_color_mem :: handle
  staging_depth_buf :: handle
  staging_depth_mem :: handle
  staging_mv_buf :: handle
  staging_mv_mem :: handle
  cr_readback_buf :: handle
  cr_readback_mem :: handle
  cr_readback_size :: u64

record Fsr2NativeInterpolator =
  nt_ctx :: VulkanContext
  nt_cached :: "CachedResources option"

text \<open>A fresh upscaler: the interface is probed and thrown away.\<close>

definition native_with_context :: "Gpu \<Rightarrow> VulkanContext \<Rightarrow> Fsr2NativeInterpolator gpu" where
  "native_with_context G ctx =
     vk_then (vk_call (gp_driver G) (\<lambda>e. InterpolateError.InitFailed (''FSR interface: '' @ gp_sdk G e))) (\<lambda>_.
     vk_return \<lparr>nt_ctx = ctx, nt_cached = None\<rparr>)"

definition native_new :: "Gpu \<Rightarrow> Fsr2NativeInterpolator gpu" where
  "native_new G =
     vk_then (from_vulkan G (VulkanContext_new (gp_host G) [])) (\<lambda>ctx.
     vk_catch (native_with_context G ctx) (\<lambda>e. vk_then (from_vulkan G (VulkanContext_drop ctx)) (\<lambda>_. vk_fail e)))"

definition build_fsr_context :: "Gpu \<Rightarrow> u32 \<Rightarrow> u32 \<Rightarrow> u32 \<Rightarrow> u32 \<Rightarrow> handle gpu" where
  "build_fsr_context G src_w src_h dst_w dst_h =
     vk_then (vk_call (gp_driver G) (sdk_failed G ''FSR interface: '')) (\<lambda>_.
     vk_create (gp_driver G) (sdk_failed G ''FSR context: '') KFsrContext (FsrContextInfo (src_w, src_h) (dst_w, dst_h)))"

definition create_fsr_image_format ::
  "Gpu \<Rightarrow> u32 \<Rightarrow> u32 \<Rightarrow> image_usage set \<Rightarrow> vk_format \<Rightarrow> (handle \<times> handle \<times> handle) gpu" where
  "create_fsr_image_format G width height usage format =
     (let D = gp_driver G in
      vk_then (vk_create D (failed G ''create fsr image: '') KImage (TextureInfo format width height usage)) (\<lambda>img.
      let req = drv_image_req D img in
      case find_memory_type D (req_bits req) {DEVICE_LOCAL} of
        None \<Rightarrow> undo [(KImage, img)] (InterpolateFailed ''no device-local memory for FSR image'')
      | Some i \<Rightarrow>
          vk_then (vk_catch (vk_create D (failed G ''alloc FSR image mem: '') KMemory (MemoryInfo (req_size req) i))
             (undo [(KImage, img)])) (\<lambda>mem.
          vk_then (vk_catch (vk_call D (failed G ''bind FSR image mem: '')) (undo [(KMemory, mem), (KImage, img)])) (\<lambda>_.
          vk_then (vk_catch (vk_create D (failed G ''create FSR image view: '') KImageView (TextureViewInfo img format))
             (undo [(KMemory, mem), (KImage, img)])) (\<lambda>view.
          vk_return (img, mem, view))))))"

definition create_fsr_image :: "Gpu \<Rightarrow> u32 \<Rightarrow> u32 \<Rightarrow> image_usage set \<Rightarrow> (handle \<times> handle \<times> handle) gpu" where
  "create_fsr_image G width height usage = create_fsr_image_format G width height usage R8G8B8A8_UNORM"

definition cmd_image_barrier_simple :: "handle \<Rightarrow> image_layout \<Rightarrow> image_layout \<Rightarrow> GfxCmd" where
  "cmd_image_barrier_simple img old_layout new_layout = ImageBarrier img old_layout new_layout"

definition copy_buf_to_image :: "handle \<Rightarrow> handle \<Rightarrow> u32 \<Rightarrow> u32 \<Rightarrow> GfxCmd" where
  "copy_buf_to_image src_buf dst_image width height = CopyBufferToImage src_buf dst_image TRANSFER_DST_OPTIMAL width height"

section \<open>Rebuilding the resources\<close>

definition native_objects :: "CachedResources \<Rightarrow> (obj_kind \<times> handle) list" where
  "native_objects r =
     [(KFsrContext, fsr_ctx r), (KImageView, color_view r), (KImage, color_image r), (KMemory, color_mem r),
      (KImageView, depth_view r), (KImage, depth_image r), (KMemory, depth_mem r),
      (KImageView, mv_view r), (KImage, mv_image r), (KMemory, mv_mem r),
      (KImageView, output_view r), (KImage, output_image r), (KMemory, output_mem r),
      (KBuffer, staging_color_buf r), (KMemory, staging_color_mem r), (KBuffer, staging_depth_buf r), (KMemory, staging_depth_mem r),
      (KBuffer, staging_mv_buf r), (KMemory, staging_mv_mem r), (KBuffer, cr_readback_buf r), (KMemory, cr_readback_mem r)]"

definition native_destroy :: "CachedResources \<Rightarrow> unit list gpu" where
  "native_destroy r = destroy_all (native_objects r)"

definition needs_recreate :: "u32 \<Rightarrow> u32 \<Rightarrow> u32 \<Rightarrow> u32 \<Rightarrow> CachedResources option \<Rightarrow> bool" where
  "needs_recreate src_w src_h dst_w dst_h cache = (case cache of None \<Rightarrow> True
     | Some c \<Rightarrow> cr_src_w c \<noteq> src_w \<or> cr_src_h c \<noteq> src_h \<or> cr_dst_w c \<noteq> dst_w \<or> cr_dst_h c \<noteq> dst_h)"

definition fsr_usage :: "image_usage set" where
  "fsr_usage = {IMG_SAMPLED, IMG_STORAGE, IMG_TRANSFER_SRC, IMG_TRANSFER_DST}"

text \<open>The size of a picture in bytes, multiplied in 32 bits and widened.\<close>

definition rgba_size :: "u32 \<Rightarrow> u32 \<Rightarrow> u64" where
  "rgba_size w h = ucast (w * h * 4)"

definition native_create :: "Gpu \<Rightarrow> u32 \<Rightarrow> u32 \<Rightarrow> u32 \<Rightarrow> u32 \<Rightarrow> CachedResources gpu" where
  "native_create G src_w src_h dst_w dst_h =
     (let D = gp_driver G in
      vk_then (build_fsr_context G src_w src_h dst_w dst_h) (\<lambda>fsr.
      vk_then (create_fsr_image G src_w src_h fsr_usage) (\<lambda>(ci, cm, cv).
      vk_then (create_fsr_image_format G src_w src_h fsr_usage R32_SFLOAT) (\<lambda>(di, dm, dv).
      vk_then (create_fsr_image_format G src_w src_h fsr_usage R16G16_SFLOAT) (\<lambda>(mi, mm, mv).
      vk_then (create_fsr_image G dst_w dst_h fsr_usage) (\<lambda>(oi, om, ov).
      vk_then (from_vulkan G (create_host_buffer D (rgba_size src_w src_h) {BUF_TRANSFER_SRC})) (\<lambda>(scb, scm).
      vk_then (from_vulkan G (create_host_buffer D (rgba_size src_w src_h) {BUF_TRANSFER_SRC})) (\<lambda>(sdb, sdm).
      vk_then (from_vulkan G (create_host_buffer D (rgba_size src_w src_h) {BUF_TRANSFER_SRC})) (\<lambda>(smb, smm).
      vk_then (from_vulkan G (create_host_buffer D (rgba_size dst_w dst_h) {BUF_TRANSFER_DST})) (\<lambda>(rb, rm).
      vk_then (from_vulkan G (allocate_command_buffer D)) (\<lambda>_.
      vk_return \<lparr>cr_src_w = src_w, cr_src_h = src_h, cr_dst_w = dst_w, cr_dst_h = dst_h, fsr_ctx = fsr,
        color_image = ci, color_mem = cm, color_view = cv, depth_image = di, depth_mem = dm, depth_view = dv,
        mv_image = mi, mv_mem = mm, mv_view = mv, output_image = oi, output_mem = om, output_view = ov,
        staging_color_buf = scb, staging_color_mem = scm, staging_depth_buf = sdb, staging_depth_mem = sdm,
        staging_mv_buf = smb, staging_mv_mem = smm, cr_readback_buf = rb, cr_readback_mem = rm,
        cr_readback_size = rgba_size dst_w dst_h\<rparr>)))))))))))"

text \<open>The constant depth (\<open>1.0f32\<close> for every pixel) and motion vectors, uploaded once.\<close>

definition f32_one :: f32 where
  "f32_one = 0x3F800000"

definition depth_far :: "nat \<Rightarrow> bytes" where
  "depth_far pixels = concat (replicate pixels (to_le 4 f32_one))"

definition init_commands :: "CachedResources \<Rightarrow> GfxCmd list" where
  "init_commands r =
     [cmd_image_barrier_simple (depth_image r) UNDEFINED TRANSFER_DST_OPTIMAL,
      copy_buf_to_image (staging_depth_buf r) (depth_image r) (cr_src_w r) (cr_src_h r),
      cmd_image_barrier_simple (depth_image r) TRANSFER_DST_OPTIMAL SHADER_READ_ONLY_OPTIMAL,
      cmd_image_barrier_simple (mv_image r) UNDEFINED TRANSFER_DST_OPTIMAL,
      copy_buf_to_image (staging_mv_buf r) (mv_image r) (cr_src_w r) (cr_src_h r),
      cmd_image_barrier_simple (mv_image r) TRANSFER_DST_OPTIMAL SHADER_READ_ONLY_OPTIMAL]"

definition native_init :: "Gpu \<Rightarrow> CachedResources \<Rightarrow> unit gpu" where
  "native_init G r =
     (let D = gp_driver G in
      vk_then (from_vulkan G (upload_to_buffer D (staging_depth_mem r) (depth_far (unat (cr_src_w r * cr_src_h r))))) (\<lambda>_.
      vk_then (from_vulkan G (upload_to_buffer D (staging_mv_mem r)
         (replicate (unat (rgba_size (cr_src_w r) (cr_src_h r))) 0))) (\<lambda>_.
      vk_then (from_vulkan G (allocate_command_buffer D)) (\<lambda>_.
      vk_then (vk_begin D (failed G ''begin init cmd: '')) (\<lambda>_.
      vk_then (vk_record (init_commands r)) (\<lambda>_.
      vk_then (vk_call D (failed G ''end init cmd: '')) (\<lambda>_.
      from_vulkan G (submit_and_wait D))))))))"

definition native_rebuild :: "Gpu \<Rightarrow> u32 \<Rightarrow> u32 \<Rightarrow> u32 \<Rightarrow> u32 \<Rightarrow> CachedResources gpu" where
  "native_rebuild G src_w src_h dst_w dst_h =
     vk_then (native_create G src_w src_h dst_w dst_h) (\<lambda>r. vk_then (native_init G r) (\<lambda>_. vk_return r))"

section \<open>A frame\<close>

definition color_commands :: "CachedResources \<Rightarrow> u32 \<Rightarrow> u32 \<Rightarrow> GfxCmd list" where
  "color_commands r src_w src_h =
     [cmd_image_barrier_simple (color_image r) UNDEFINED TRANSFER_DST_OPTIMAL,
      copy_buf_to_image (staging_color_buf r) (color_image r) src_w src_h,
      cmd_image_barrier_simple (color_image r) TRANSFER_DST_OPTIMAL SHADER_READ_ONLY_OPTIMAL,
      cmd_image_barrier_simple (output_image r) UNDEFINED GENERAL,
      MemoryBarrier TransferPass ComputePass]"

text \<open>All four textures are given as being in the state \<open>COMPUTE_READ\<close>. The numbers are \<open>1/60\<close>, \<open>0\<close> and \<open>0.85\<close>.\<close>

definition native_dispatch :: "CachedResources \<Rightarrow> u32 \<Rightarrow> u32 \<Rightarrow> u32 \<Rightarrow> u32 \<Rightarrow> FsrDispatchDescription" where
  "native_dispatch r src_w src_h dst_w dst_h =
     \<lparr>fs_color = \<lparr>tx_image = color_image r, tx_view = color_view r, tx_format = R8G8B8A8_UNORM, tx_size = (src_w, src_h), tx_name = ''color''\<rparr>,
      fs_depth = \<lparr>tx_image = depth_image r, tx_view = depth_view r, tx_format = R32_SFLOAT, tx_size = (src_w, src_h), tx_name = ''depth''\<rparr>,
      fs_motion_vectors = \<lparr>tx_image = mv_image r, tx_view = mv_view r, tx_format = R16G16_SFLOAT, tx_size = (src_w, src_h),
        tx_name = ''motion_vectors''\<rparr>,
      fs_output = \<lparr>tx_image = output_image r, tx_view = output_view r, tx_format = R8G8B8A8_UNORM, tx_size = (dst_w, dst_h), tx_name = ''output''\<rparr>,
      fs_frame_time_delta = 0x3C888889, fs_render_size = (src_w, src_h), fs_jitter_offset = (0, 0), fs_reset = True,
      fs_sharpness = 0x3F59999A\<rparr>"

definition output_commands :: "CachedResources \<Rightarrow> u32 \<Rightarrow> u32 \<Rightarrow> GfxCmd list" where
  "output_commands r dst_w dst_h =
     [ImageBarrier (output_image r) GENERAL TRANSFER_SRC_OPTIMAL,
      CopyImageToBuffer (output_image r) TRANSFER_SRC_OPTIMAL (cr_readback_buf r) dst_w dst_h]"

definition native_draw :: "Gpu \<Rightarrow> GpuFrame \<Rightarrow> u32 \<Rightarrow> u32 \<Rightarrow> CachedResources \<Rightarrow> GpuFrame gpu" where
  "native_draw G src dst_w dst_h r =
     (let D = gp_driver G; src_w = gf_width src; src_h = gf_height src in
      vk_then (from_vulkan G (upload_to_buffer D (staging_color_mem r) (gf_data src))) (\<lambda>_.
      vk_then (vk_call D (failed G ''reset cmd: '')) (\<lambda>_.
      vk_then (vk_begin D (failed G ''begin cmd: '')) (\<lambda>_.
      vk_then (vk_record (color_commands r src_w src_h)) (\<lambda>_.
      vk_then (vk_call D (sdk_failed G ''FSR dispatch: '')) (\<lambda>_.
      vk_then (vk_record [FsrDispatch (native_dispatch r src_w src_h dst_w dst_h)]) (\<lambda>_.
      vk_then (vk_record (output_commands r dst_w dst_h)) (\<lambda>_.
      vk_then (vk_call D (failed G ''end dr cmd: '')) (\<lambda>_.
      vk_then (from_vulkan G (submit_and_wait D)) (\<lambda>_.
      vk_then (from_vulkan G (read_from_buffer D (cr_readback_mem r) (unat (cr_readback_size r)))) (\<lambda>data.
      vk_return \<lparr>gf_data = data, gf_width = dst_w, gf_height = dst_h, gf_stride = dst_w * 4,
        gf_timestamp_ns = gf_timestamp_ns src\<rparr>)))))))))))"

definition native_interpolate :: "GpuFrame \<Rightarrow> GpuFrame \<Rightarrow> InterpolateError + GpuFrame" where
  "native_interpolate a b =
     Inl (InterpolateFailed ''Fsr2NativeInterpolator does not support temporal interpolation; use upscale() instead'')"

text \<open>\<^verbatim>\<open>upscale\<close>: resources of other sizes are destroyed and rebuilt, and a failure to rebuild leaves the cache empty.\<close>

definition native_upscale ::
  "Gpu \<Rightarrow> GpuFrame \<times> u32 \<times> u32 \<Rightarrow> CachedResources option \<Rightarrow> gpu_state
   \<Rightarrow> (InterpolateError + GpuFrame) \<times> CachedResources option \<times> gpu_state" where
  "native_upscale G q cache s = (case q of (src, dst_w, dst_h) \<Rightarrow>
     if needs_recreate (gf_width src) (gf_height src) dst_w dst_h cache then
       (let s1 = (case cache of None \<Rightarrow> s | Some old \<Rightarrow> snd (native_destroy old s)) in
        case native_rebuild G (gf_width src) (gf_height src) dst_w dst_h s1 of
          (Inl e, s2) \<Rightarrow> (Inl e, None, s2)
        | (Inr r, s2) \<Rightarrow> (case native_draw G src dst_w dst_h r s2 of (res, s3) \<Rightarrow> (res, Some r, s3)))
     else (case native_draw G src dst_w dst_h (the cache) s of (res, s1) \<Rightarrow> (res, cache, s1)))"

text \<open>\<^verbatim>\<open>Drop\<close>: the cached resources are destroyed; the context goes when its last owner does.\<close>

definition native_drop :: "CachedResources option \<Rightarrow> gpu_state \<Rightarrow> gpu_state" where
  "native_drop cache s = (case cache of None \<Rightarrow> s | Some r \<Rightarrow> snd (native_destroy r s))"

section \<open>Objects\<close>

lemma fsr_image_owns:
  "owns {#} (create_fsr_image_format G w h usage format)
     (\<lambda>(i, m, v). {#(KImageView, v), (KImage, i), (KMemory, m)#}) (\<lambda>L. L = {#})"
proof -
  let ?D = "gp_driver G"
  have rest: "owns {#(KImage, i)#} (vk_then (vk_catch (vk_create ?D (failed G ''alloc FSR image mem: '') KMemory (MemoryInfo n t))
             (undo [(KImage, i)])) (\<lambda>mem.
          vk_then (vk_catch (vk_call ?D (failed G ''bind FSR image mem: '')) (undo [(KMemory, mem), (KImage, i)])) (\<lambda>_.
          vk_then (vk_catch (vk_create ?D (failed G ''create FSR image view: '') KImageView (TextureViewInfo i format))
             (undo [(KMemory, mem), (KImage, i)])) (\<lambda>view.
          vk_return (i, mem, view)))))
      (\<lambda>(i, m, v). {#(KImageView, v), (KImage, i), (KMemory, m)#}) (\<lambda>L. L = {#})" for i n t
  proof (rule owns_then)
    show "owns {#(KImage, i)#} (vk_catch (vk_create ?D (failed G ''alloc FSR image mem: '') KMemory (MemoryInfo n t))
        (undo [(KImage, i)])) (\<lambda>m. {#(KMemory, m), (KImage, i)#}) (\<lambda>L. L = {#})"
      by (rule owns_catch [OF owns_create]) (simp add: owns_undo1)
    fix m
    show "owns {#(KMemory, m), (KImage, i)#}
       (vk_then (vk_catch (vk_call ?D (failed G ''bind FSR image mem: '')) (undo [(KMemory, m), (KImage, i)])) (\<lambda>_.
          vk_then (vk_catch (vk_create ?D (failed G ''create FSR image view: '') KImageView (TextureViewInfo i format))
             (undo [(KMemory, m), (KImage, i)])) (\<lambda>view. vk_return (i, m, view))))
      (\<lambda>(i, m, v). {#(KImageView, v), (KImage, i), (KMemory, m)#}) (\<lambda>L. L = {#})"
      by (rule owns_then, rule owns_catch [OF owns_call], simp add: owns_undo2, rule owns_then,
          rule owns_catch [OF owns_create], simp add: owns_undo2, rule owns_return_eq, simp only: prod.case add_mset_commute)
  qed
  show ?thesis unfolding create_fsr_image_format_def Let_def
  proof (rule owns_then [OF owns_create])
    fix i
    show "owns {#(KImage, i)#} (case find_memory_type ?D (req_bits (drv_image_req ?D i)) {DEVICE_LOCAL} of
        None \<Rightarrow> undo [(KImage, i)] (InterpolateFailed ''no device-local memory for FSR image'')
      | Some t \<Rightarrow>
          vk_then (vk_catch (vk_create ?D (failed G ''alloc FSR image mem: '') KMemory (MemoryInfo (req_size (drv_image_req ?D i)) t))
             (undo [(KImage, i)])) (\<lambda>mem.
          vk_then (vk_catch (vk_call ?D (failed G ''bind FSR image mem: '')) (undo [(KMemory, mem), (KImage, i)])) (\<lambda>_.
          vk_then (vk_catch (vk_create ?D (failed G ''create FSR image view: '') KImageView (TextureViewInfo i format))
             (undo [(KMemory, mem), (KImage, i)])) (\<lambda>view.
          vk_return (i, mem, view)))))
      (\<lambda>(i, m, v). {#(KImageView, v), (KImage, i), (KMemory, m)#}) (\<lambda>L. L = {#})"
    proof (cases "find_memory_type ?D (req_bits (drv_image_req ?D i)) {DEVICE_LOCAL}")
      case None
      show ?thesis unfolding None option.case by (rule owns_undo1)
    next
      case (Some t)
      show ?thesis unfolding Some option.case by (rule rest)
    qed
  qed
qed

lemmas buffer_step = owns_then_pair [OF owns_more_pair [OF from_vulkan_owns [OF create_host_buffer_owns]]]

lemma build_fsr_owns: "owns {#} (build_fsr_context G a b c d) (\<lambda>h. {#(KFsrContext, h)#}) (\<lambda>L. {#} \<subseteq># L)"
  unfolding build_fsr_context_def by (intro first_steps owns_kept [OF owns_create] subset_steps)

lemma native_create_owns:
  "owns {#} (native_create G src_w src_h dst_w dst_h) (\<lambda>r. mset (native_objects r)) (\<lambda>L. {#} \<subseteq># L)"
  unfolding native_create_def Let_def create_fsr_image_def allocate_command_buffer_def
  by (rule owns_then [OF build_fsr_owns],
      rule owns_then_triple [OF owns_more_triple [OF fsr_image_owns]], rule subset_mset.zero_le,
      rule owns_then_triple [OF owns_more_triple [OF fsr_image_owns]], rule subset_mset.zero_le,
      rule owns_then_triple [OF owns_more_triple [OF fsr_image_owns]], rule subset_mset.zero_le,
      rule owns_then_triple [OF owns_more_triple [OF fsr_image_owns]], rule subset_mset.zero_le,
      rule buffer_step, rule subset_mset.zero_le, rule buffer_step, rule subset_mset.zero_le,
      rule buffer_step, rule subset_mset.zero_le, rule buffer_step, rule subset_mset.zero_le,
      rule owns_then [OF from_vulkan_owns [OF owns_kept [OF owns_call]]], rule subset_mset.zero_le,
      rule owns_return_eq,
      simp only: native_objects_def CachedResources.simps mset.simps union_mset_add_mset_left add_0_left add_mset_commute)

lemma submit_same: "owns P (from_vulkan G (submit_and_wait D)) (\<lambda>_. P) (\<lambda>L. L = P)"
  by (rule from_vulkan_owns, rule owns_same, rule submit_and_wait_owns)

lemma native_init_owns: "owns P (native_init G r) (\<lambda>_. P) (\<lambda>L. L = P)"
  unfolding native_init_def Let_def upload_to_buffer_def allocate_command_buffer_def
  by (rule owns_then [OF from_vulkan_owns [OF owns_write]] owns_then [OF from_vulkan_owns [OF owns_call]]
      owns_then [OF owns_begin] owns_then [OF owns_record] owns_then [OF owns_call] submit_same)+

lemma native_rebuild_owns:
  "owns {#} (native_rebuild G src_w src_h dst_w dst_h) (\<lambda>r. mset (native_objects r)) (\<lambda>L. {#} \<subseteq># L)"
  unfolding native_rebuild_def
  by (rule owns_then [OF native_create_owns], rule owns_then [OF owns_kept [OF native_init_owns]], rule subset_mset.zero_le,
      rule owns_return)

lemma native_draw_owns: "owns P (native_draw G src dst_w dst_h r) (\<lambda>_. P) (\<lambda>L. L = P)"
  unfolding native_draw_def Let_def upload_to_buffer_def read_from_buffer_def
  by (rule owns_then [OF from_vulkan_owns [OF owns_write]] owns_then [OF from_vulkan_owns [OF owns_read]]
      owns_then [OF owns_begin] owns_then [OF owns_record] owns_then [OF owns_call] owns_then [OF submit_same] owns_keep)+

section \<open>Images\<close>

lemma quiet_native_create: "quiet (native_create G src_w src_h dst_w dst_h)"
  unfolding native_create_def Let_def create_fsr_image_def create_fsr_image_format_def build_fsr_context_def
  by (auto intro!: quiets split: option.split prod.split)

lemma writes_native_create: "writes {} (native_create G src_w src_h dst_w dst_h)"
  unfolding native_create_def Let_def create_fsr_image_def create_fsr_image_format_def build_fsr_context_def
  by (auto intro!: writing split: option.split prod.split)

lemma fsr_image_fresh: "create_fsr_image_format G w h usage f s = (Inr (i, m, v), t) \<Longrightarrow> i = vk_calls s \<and> i < vk_calls t"
  by (auto simp: create_fsr_image_format_def Let_def vk_ok split: option.splits)

definition native_sound :: "CachedResources \<Rightarrow> bool" where
  "native_sound r \<longleftrightarrow> distinct [color_image r, depth_image r, mv_image r, output_image r] \<and>
     distinct [staging_color_mem r, staging_depth_mem r, staging_mv_mem r] \<and>
     cr_readback_size r = rgba_size (cr_dst_w r) (cr_dst_h r)"

lemma native_create_ok:
  assumes "native_create G src_w src_h dst_w dst_h s = (Inr r, t)"
  shows "native_sound r \<and> cr_src_w r = src_w \<and> cr_src_h r = src_h \<and> cr_dst_w r = dst_w \<and> cr_dst_h r = dst_h"
  using assms
  apply (clarsimp simp: native_create_def Let_def create_fsr_image_def vk_ok)
  apply (drule fsr_image_fresh create_host_buffer_fresh)+
  apply (clarsimp simp: native_sound_def allocate_command_buffer_def vk_ok)
  done

text \<open>The batch that fills depth and motion vectors, and the batch of a frame.\<close>

definition frame_commands :: "CachedResources \<Rightarrow> u32 \<Rightarrow> u32 \<Rightarrow> u32 \<Rightarrow> u32 \<Rightarrow> GfxCmd list" where
  "frame_commands r src_w src_h dst_w dst_h =
     color_commands r src_w src_h @ [FsrDispatch (native_dispatch r src_w src_h dst_w dst_h)] @ output_commands r dst_w dst_h"

lemma init_submits: "submits rs (native_init G r) [init_commands r]"
  unfolding native_init_def Let_def
  by (rule submits_after, intro quiets, rule submits_after, intro quiets, rule submits_after, intro quiets,
      rule submits_begin, rule submits_record, rule submits_after, intro quiets, simp, rule from_vulkan_submits, rule submit_submits)

lemma draw_submits:
  "submits rs (native_draw G src dst_w dst_h r) [frame_commands r (gf_width src) (gf_height src) dst_w dst_h]"
  unfolding native_draw_def Let_def frame_commands_def
  by (rule submits_after, intro quiets, rule submits_after, intro quiets, rule submits_begin, rule submits_record,
      rule submits_after, intro quiets, rule submits_record, rule submits_record, rule submits_after, intro quiets,
      simp, rule submits_before, rule from_vulkan_submits, rule submit_submits, intro quiets)

lemma init_writes:
  "writes {(staging_depth_mem r, depth_far (unat (cr_src_w r * cr_src_h r))),
     (staging_mv_mem r, replicate (unat (rgba_size (cr_src_w r) (cr_src_h r))) 0)} (native_init G r)"
  unfolding native_init_def Let_def by (intro writing) simp_all

lemma draw_writes: "writes {(staging_color_mem r, gf_data src)} (native_draw G src dst_w dst_h r)"
  unfolding native_draw_def Let_def by (intro writing) simp_all

lemma init_ok:
  "native_init G r s = (Inr u, t) \<Longrightarrow> vk_submitted t = vk_submitted s @ [init_commands r] \<and>
     vk_uploads t = vk_uploads s @ [(staging_depth_mem r, depth_far (unat (cr_src_w r * cr_src_h r))),
       (staging_mv_mem r, replicate (unat (rgba_size (cr_src_w r) (cr_src_h r))) 0)]"
  unfolding native_init_def Let_def upload_to_buffer_def allocate_command_buffer_def vk_ok
  by (auto simp: vk_ok dest!: submit_and_wait_frame)

lemma draw_ok:
  "native_draw G src dst_w dst_h r s = (Inr f, t) \<Longrightarrow>
     vk_submitted t = vk_submitted s @ [frame_commands r (gf_width src) (gf_height src) dst_w dst_h] \<and>
     vk_uploads t = vk_uploads s @ [(staging_color_mem r, gf_data src)] \<and>
     gf_width f = dst_w \<and> gf_height f = dst_h \<and> gf_stride f = dst_w * 4 \<and> gf_timestamp_ns f = gf_timestamp_ns src \<and>
     length (gf_data f) = unat (cr_readback_size r)"
  unfolding native_draw_def Let_def upload_to_buffer_def read_from_buffer_def frame_commands_def
  by (auto simp: vk_ok dest!: submit_and_wait_frame)

text \<open>What the upscaler keeps across frames: everything submitted so far ran, and depth and motion vectors are in place.\<close>

definition constants_ready :: "images \<Rightarrow> CachedResources \<Rightarrow> bool" where
  "constants_ready m r \<longleftrightarrow>
     m (depth_image r) = (SHADER_READ_ONLY_OPTIMAL, FromBuffer (staging_depth_buf r) (cr_src_w r) (cr_src_h r)) \<and>
     m (mv_image r) = (SHADER_READ_ONLY_OPTIMAL, FromBuffer (staging_mv_buf r) (cr_src_w r) (cr_src_h r))"

definition native_ready :: "images \<Rightarrow> CachedResources option \<Rightarrow> gpu_state \<Rightarrow> bool" where
  "native_ready m0 c s \<longleftrightarrow> (\<exists>m. run_images (concat (vk_submitted s)) m0 = Some m \<and>
     (\<forall>r. c = Some r \<longrightarrow> native_sound r \<and> constants_ready m r \<and>
        uploaded s (staging_depth_mem r) = Some (depth_far (unat (cr_src_w r * cr_src_h r))) \<and>
        uploaded s (staging_mv_mem r) = Some (replicate (unat (rgba_size (cr_src_w r) (cr_src_h r))) 0)))"

lemma init_images:
  assumes "native_sound r"
  shows "\<exists>m'. run_images (init_commands r) m = Some m' \<and> constants_ready m' r"
  using assms by (simp add: native_sound_def constants_ready_def init_commands_def cmd_image_barrier_simple_def copy_buf_to_image_def)

lemma color_images:
  assumes "native_sound r" and "constants_ready m r"
  shows "\<exists>m'. run_images (color_commands r w h) m = Some m' \<and> constants_ready m' r \<and>
     m' (color_image r) = (SHADER_READ_ONLY_OPTIMAL, FromBuffer (staging_color_buf r) w h) \<and> fst (m' (output_image r)) = GENERAL"
  using assms
  by (auto simp: native_sound_def constants_ready_def color_commands_def cmd_image_barrier_simple_def copy_buf_to_image_def)

lemma frame_images:
  assumes "native_sound r" and "constants_ready m r"
  shows "\<exists>m'. run_images (frame_commands r w h dw dh) m = Some m' \<and> constants_ready m' r"
proof -
  obtain m' where m': "run_images (color_commands r w h) m = Some m'" "constants_ready m' r"
      "m' (color_image r) = (SHADER_READ_ONLY_OPTIMAL, FromBuffer (staging_color_buf r) w h)" "fst (m' (output_image r)) = GENERAL"
    using color_images [OF assms] by blast
  then show ?thesis using assms(1)
    by (auto simp: frame_commands_def native_dispatch_def output_commands_def native_sound_def constants_ready_def readable_def)
qed

lemma destroy_ready: "native_ready m0 c s \<Longrightarrow> native_ready m0 None (snd (native_destroy r s))"
proof -
  have "vk_submitted (snd (native_destroy r s)) = vk_submitted s"
    using quiet_destroys(1) unfolding quiet_def native_destroy_def by blast
  then show "native_ready m0 c s \<Longrightarrow> native_ready m0 None (snd (native_destroy r s))" by (auto simp: native_ready_def)
qed

lemma draw_ready:
  assumes "native_ready m0 (Some r) s" and "native_draw G src dw dh r s = (res, t)"
  shows "native_ready m0 (Some r) t"
proof -
  let ?b = "frame_commands r (gf_width src) (gf_height src) dw dh"
  obtain m where m: "run_images (concat (vk_submitted s)) m0 = Some m" "native_sound r" "constants_ready m r"
      "uploaded s (staging_depth_mem r) = Some (depth_far (unat (cr_src_w r * cr_src_h r)))"
      "uploaded s (staging_mv_mem r) = Some (replicate (unat (rgba_size (cr_src_w r) (cr_src_h r))) 0)"
    using assms(1) by (auto simp: native_ready_def)
  obtain n where n: "vk_submitted t = vk_submitted s @ take n [?b]"
    using submitsD(1) [OF draw_submits [of "vk_recorded s" G src dw dh r] refl] assms(2) by auto
  obtain us where us: "vk_uploads t = vk_uploads s @ us" "set us \<subseteq> {(staging_color_mem r, gf_data src)}"
    using writesD [OF draw_writes assms(2)] by blast
  have "uploaded t (staging_depth_mem r) = uploaded s (staging_depth_mem r)" "uploaded t (staging_mv_mem r) = uploaded s (staging_mv_mem r)"
    using us(2) m(2) by (auto intro!: uploaded_kept [OF us(1)] simp: native_sound_def)
  moreover have "\<exists>m'. run_images (concat (vk_submitted t)) m0 = Some m' \<and> constants_ready m' r"
    using frame_images [OF m(2,3), of "gf_width src" "gf_height src" dw dh] m(1,3) by (cases n) (auto simp: n)
  ultimately show ?thesis using m(2,4,5) by (auto simp: native_ready_def)
qed

lemma rebuild_ready:
  assumes "native_ready m0 None s" and "native_rebuild G w h dw dh s = (res, t)"
  shows "native_ready m0 (case res of Inl e \<Rightarrow> None | Inr r \<Rightarrow> Some r) t \<and>
     (\<forall>r. res = Inr r \<longrightarrow> cr_src_w r = w \<and> cr_src_h r = h \<and> cr_dst_w r = dw \<and> cr_dst_h r = dh)"
proof -
  obtain m where m: "run_images (concat (vk_submitted s)) m0 = Some m" using assms(1) by (auto simp: native_ready_def)
  obtain c s1 where c: "native_create G w h dw dh s = (c, s1)" by fastforce
  have s1: "vk_submitted s1 = vk_submitted s" using quietD [OF quiet_native_create c] by simp
  show ?thesis
  proof (cases c)
    case (Inl e)
    then show ?thesis using assms(2) c m s1 by (auto simp: native_rebuild_def vk_then_def native_ready_def)
  next
    case (Inr r)
    have r: "native_sound r" "cr_src_w r = w" "cr_src_h r = h" "cr_dst_w r = dw" "cr_dst_h r = dh"
      using native_create_ok [of G w h dw dh s r s1] c Inr by auto
    obtain i s2 where i: "native_init G r s1 = (i, s2)" by fastforce
    have res: "res = (case i of Inl e \<Rightarrow> Inl e | Inr u \<Rightarrow> Inr r)" "t = s2"
      using assms(2) by (auto simp: native_rebuild_def vk_then_def c Inr i vk_return_def split: sum.splits)
    obtain n where n: "vk_submitted s2 = vk_submitted s1 @ take n [init_commands r]"
      using submitsD(1) [OF init_submits [of "vk_recorded s1" G r] refl] i by auto
    obtain m' where m': "run_images (init_commands r) m = Some m'" "constants_ready m' r" using init_images [OF r(1)] by blast
    show ?thesis
    proof (cases i)
      case (Inl e)
      then show ?thesis using m m' s1 n res by (cases n) (auto simp: native_ready_def)
    next
      case (Inr u)
      note ok = init_ok [OF i [unfolded Inr]]
      have "uploaded s2 (staging_depth_mem r) = Some (depth_far (unat (w * h))) \<and>
          uploaded s2 (staging_mv_mem r) = Some (replicate (unat (rgba_size w h)) 0)"
        using ok r by (simp add: uploaded_def native_sound_def)
      then show ?thesis using m m' s1 ok res r Inr by (simp add: native_ready_def)
    qed
  qed
qed

lemma not_needed:
  "\<not> needs_recreate w h dw dh c \<Longrightarrow> \<exists>r. c = Some r \<and> cr_src_w r = w \<and> cr_src_h r = h \<and> cr_dst_w r = dw \<and> cr_dst_h r = dh"
  by (auto simp: needs_recreate_def split: option.splits)

text \<open>An upscale either draws with the resources it has, or destroys them, rebuilds and draws.\<close>

lemma upscale_cases:
  assumes "native_upscale G (src, dw, dh) c s = (res, c', t)"
  obtains (hit) r where "\<not> needs_recreate (gf_width src) (gf_height src) dw dh c" "c = Some r" "c' = Some r"
      "native_draw G src dw dh r s = (res, t)"
  | (broken) e s1 where "needs_recreate (gf_width src) (gf_height src) dw dh c"
      "s1 = (case c of None \<Rightarrow> s | Some old \<Rightarrow> snd (native_destroy old s))"
      "native_rebuild G (gf_width src) (gf_height src) dw dh s1 = (Inl e, t)" "res = Inl e" "c' = None"
  | (rebuilt) r s1 s2 where "needs_recreate (gf_width src) (gf_height src) dw dh c"
      "s1 = (case c of None \<Rightarrow> s | Some old \<Rightarrow> snd (native_destroy old s))"
      "native_rebuild G (gf_width src) (gf_height src) dw dh s1 = (Inr r, s2)" "native_draw G src dw dh r s2 = (res, t)" "c' = Some r"
proof (cases "needs_recreate (gf_width src) (gf_height src) dw dh c")
  case False
  then obtain r where "c = Some r" using not_needed by blast
  then show thesis using False assms by (intro hit) (auto simp: native_upscale_def split: prod.splits)
next
  case True
  let ?s1 = "case c of None \<Rightarrow> s | Some old \<Rightarrow> snd (native_destroy old s)"
  obtain x s2 where x: "native_rebuild G (gf_width src) (gf_height src) dw dh ?s1 = (x, s2)" by fastforce
  show thesis
  proof (cases x)
    case (Inl e)
    then show thesis using True x assms by (intro broken [OF True refl, of e]) (auto simp: native_upscale_def)
  next
    case (Inr r)
    then show thesis using True x assms by (intro rebuilt [OF True refl, of r s2]) (auto simp: native_upscale_def split: prod.splits)
  qed
qed

lemma cleared_ready: "native_ready m0 c s \<Longrightarrow> native_ready m0 None (case c of None \<Rightarrow> s | Some old \<Rightarrow> snd (native_destroy old s))"
  by (cases c) (auto intro: destroy_ready)

lemma upscale_ready:
  assumes "native_upscale G (src, dw, dh) c s = (res, c', t)" and "native_ready m0 c s"
  shows "native_ready m0 c' t"
  using assms(1)
proof (cases rule: upscale_cases)
  case (hit r)
  then show ?thesis using draw_ready assms(2) by metis
next
  case (broken e s1)
  then show ?thesis using rebuild_ready [OF cleared_ready [OF assms(2)]] by fastforce
next
  case (rebuilt r s1 s2)
  have "native_ready m0 (Some r) s2" using rebuild_ready [OF cleared_ready [OF assms(2)]] rebuilt by fastforce
  then show ?thesis using draw_ready rebuilt by metis
qed

lemma serve_ready:
  "serve (native_upscale G) qs c s = (rs, c', t) \<Longrightarrow> native_ready m0 c s \<Longrightarrow> native_ready m0 c' t"
proof (induction qs arbitrary: c s rs)
  case (Cons q qs)
  obtain r c1 s1 where st: "native_upscale G q c s = (r, c1, s1)" by (metis prod_cases3)
  obtain rs1 where go: "serve (native_upscale G) qs c1 s1 = (rs1, c', t)" using Cons.prems(1) st by (auto split: prod.splits)
  obtain src dw dh where "q = (src, dw, dh)" by (metis prod_cases3)
  then show ?case using Cons.IH [OF go] upscale_ready st Cons.prems(2) by metis
qed auto

section \<open>Properties\<close>

definition native_objs :: "CachedResources option \<Rightarrow> (obj_kind \<times> handle) multiset" where
  "native_objs c = (case c of None \<Rightarrow> {#} | Some r \<Rightarrow> mset (native_objects r))"

lemma native_destroy_live:
  assumes "vk_live s = B + mset (native_objects r)"
  shows "vk_live (snd (native_destroy r s)) = B \<and> vk_misuse (snd (native_destroy r s)) = vk_misuse s"
proof -
  obtain x t where x: "native_destroy r s = (x, t)" by fastforce
  have ow: "owns (mset (native_objects r)) (native_destroy r) (\<lambda>_. {#}) (\<lambda>L. L = {#})"
    unfolding native_destroy_def by (rule owns_destroys_eq [OF refl])
  show ?thesis using ownsD [OF ow assms x] x by (cases x) auto
qed

lemma cleared_live:
  assumes "vk_live s = B + native_objs c" and "s1 = (case c of None \<Rightarrow> s | Some old \<Rightarrow> snd (native_destroy old s))"
  shows "vk_live s1 = B \<and> vk_misuse s1 = vk_misuse s"
  using assms native_destroy_live by (cases c) (auto simp: native_objs_def)

lemma draw_live:
  assumes "native_draw G src dw dh r s = (res, t)"
  shows "vk_live t = vk_live s \<and> vk_misuse t = vk_misuse s"
  using ownsD [OF native_draw_owns [of "vk_live s" G src dw dh r], of s "{#}", OF _ assms] by (cases res) auto

lemma rebuild_live:
  assumes "native_rebuild G w h dw dh s = (res, t)"
  shows "vk_misuse t = vk_misuse s \<and> (case res of Inl e \<Rightarrow> \<exists>L. vk_live t = vk_live s + L
     | Inr r \<Rightarrow> vk_live t = vk_live s + mset (native_objects r))"
  using ownsD [OF native_rebuild_owns, of s "vk_live s", OF _ assms] by (cases res) auto

interpretation native: gpu_session "native_upscale G" isl native_objs native_drop "\<lambda>_. {#}"
proof
  fix q c s r c' s' B
  assume up: "native_upscale G q c s = (r, c', s')" and live: "vk_live s = B + native_objs c"
  obtain src dw dh where q: "q = (src, dw, dh)" by (metis prod_cases3)
  show "vk_misuse s' = vk_misuse s \<and> (\<exists>L. vk_live s' = B + L + native_objs c' \<and> (\<not> isl r \<longrightarrow> L = {#}))"
    using up [unfolded q]
  proof (cases rule: upscale_cases)
    case (hit x)
    then show ?thesis using draw_live live by fastforce
  next
    case (broken e s1)
    note s1 = cleared_live [OF live broken(2)]
    show ?thesis using rebuild_live [OF broken(3)] s1 broken(4,5) by (auto simp: native_objs_def)
  next
    case (rebuilt x s1 s2)
    note s1 = cleared_live [OF live rebuilt(2)]
    show ?thesis using rebuild_live [OF rebuilt(3)] draw_live [OF rebuilt(4)] s1 rebuilt(5) by (auto simp: native_objs_def)
  qed
next
  fix s :: gpu_state and B c assume "vk_live s = B + native_objs c"
  then show "vk_live (native_drop c s) = B + {#} \<and> vk_misuse (native_drop c s) = vk_misuse s"
    using native_destroy_live by (cases c) (auto simp: native_objs_def native_drop_def)
qed auto



lemma demo_native: "\<exists>f c t. native_upscale (demo_gpu demo_driver) (demo_frame, 2, 2) None Vk_empty = (Inr f, c, t)"
  by (simp add: native_upscale_def needs_recreate_def native_rebuild_def native_create_def native_init_def native_draw_def
      build_fsr_context_def create_fsr_image_def create_fsr_image_format_def demo_host_buffer create_buffer_def demo_cached demo_types
      upload_to_buffer_def read_from_buffer_def allocate_command_buffer_def submit_and_wait_def undo_def destroy_all_def
      Let_def vk_run)



end
