(* ===== verification/FsrCompute.thy ===== *)
theory FsrCompute
  imports FsrNative
begin

text \<open>
  \<^verbatim>\<open>backends/fsr2.rs\<close>: the FSR 2 backend with its own compute shaders. It owns four compute pipelines, a descriptor pool, the
  cached buffers of the motion-compensated interpolation (which the trait's \<^verbatim>\<open>interpolate\<close> no longer calls) and, where the
  SDK is usable, the upscaler of \<open>FsrNative\<close>; the EASU and RCAS shaders are the fallback. The shaders themselves are not
  modelled. Command buffers and descriptor sets belong to their pools and are not counted.
\<close>

section \<open>Construction\<close>

text \<open>A pipeline with its layout and the layout of its descriptor set.\<close>

record ComputePipe =
  pipe :: handle
  pipe_layout :: handle
  pipe_set_layout :: handle

record Fsr2Resources =
  f2_width :: u32
  f2_height :: u32
  frame_a_buf :: handle
  frame_a_mem :: handle
  frame_b_buf :: handle
  frame_b_mem :: handle
  motion_buf :: handle
  motion_mem :: handle
  output_buf :: handle
  f2_output_mem :: handle
  staging_a_buf :: handle
  staging_a_mem :: handle
  staging_b_buf :: handle
  staging_b_mem :: handle
  f2_readback_buf :: handle
  f2_readback_mem :: handle
  motion_desc_set :: set_handle
  warp_desc_set :: set_handle

record Fsr2Interpolator =
  f2_ctx :: VulkanContext
  motion_pipeline :: ComputePipe
  warp_pipeline :: ComputePipe
  easu_pipeline :: ComputePipe
  rcas_pipeline :: ComputePipe
  desc_pool :: handle
  f2_cached :: "Fsr2Resources option"
  f2_block_size :: u32
  search_radius :: u32
  native_upscaler :: "Fsr2NativeInterpolator option"

definition read_spv :: "Gpu \<Rightarrow> string \<Rightarrow> shader \<Rightarrow> unit gpu" where
  "read_spv G text sh = (case gp_spv G sh of None \<Rightarrow> vk_return () | Some e \<Rightarrow> vk_fail (InterpolateError.InitFailed (text @ e)))"

text \<open>\<^verbatim>\<open>size_of::<PushConstants>()\<close>.\<close>

definition PushConstants_size :: nat where
  "PushConstants_size = 20"

text \<open>Motion estimation and warping: two shaders, four layouts, two pipelines made by one call (two steps here, either of which
  may fail), and the descriptor pool; then the shader modules go.\<close>

definition motion_warp_pipelines :: "Gpu \<Rightarrow> (ComputePipe \<times> ComputePipe \<times> handle) gpu" where
  "motion_warp_pipelines G =
     (let D = gp_driver G in
      vk_then (read_spv G ''motion SPIR-V: '' MOTION_EST) (\<lambda>_.
      vk_then (read_spv G ''warp SPIR-V: '' WARP_BLEND) (\<lambda>_.
      vk_then (vk_create D (init_failed G ''motion shader: '') KShaderModule (ShaderInfo MOTION_EST)) (\<lambda>motion_module.
      vk_then (vk_create D (init_failed G ''warp shader: '') KShaderModule (ShaderInfo WARP_BLEND)) (\<lambda>warp_module.
      vk_then (vk_create D (init_failed G ''desc layout: '') KDescriptorSetLayout (SetLayoutInfo [0, 1, 2])) (\<lambda>motion_set.
      vk_then (vk_create D (init_failed G ''desc layout: '') KDescriptorSetLayout (SetLayoutInfo [0, 1, 2, 3])) (\<lambda>warp_set.
      vk_then (vk_create D (init_failed G ''pipeline layout: '') KPipelineLayout (PipelineLayoutInfo motion_set PushConstants_size)) (\<lambda>motion_layout.
      vk_then (vk_create D (init_failed G ''pipeline layout: '') KPipelineLayout (PipelineLayoutInfo warp_set PushConstants_size)) (\<lambda>warp_layout.
      vk_then (vk_create D (init_failed G ''pipelines: '') KPipeline (PipelineInfo motion_module motion_layout)) (\<lambda>motion.
      vk_then (vk_create D (init_failed G ''pipelines: '') KPipeline (PipelineInfo warp_module warp_layout)) (\<lambda>warp.
      vk_then (vk_create D (init_failed G ''desc pool: '') KDescriptorPool (DescriptorPoolInfo 4 16)) (\<lambda>pool.
      vk_then (vk_destroy KShaderModule motion_module) (\<lambda>_.
      vk_then (vk_destroy KShaderModule warp_module) (\<lambda>_.
      vk_return (\<lparr>pipe = motion, pipe_layout = motion_layout, pipe_set_layout = motion_set\<rparr>,
        \<lparr>pipe = warp, pipe_layout = warp_layout, pipe_set_layout = warp_set\<rparr>, pool)))))))))))))))"

text \<open>One of the two upscaling pipelines, with the name its errors start with.\<close>

definition spatial_pipeline :: "Gpu \<Rightarrow> string \<Rightarrow> shader \<Rightarrow> u32 list \<Rightarrow> nat \<Rightarrow> ComputePipe gpu" where
  "spatial_pipeline G name sh bindings push =
     (let D = gp_driver G in
      vk_then (read_spv G (name @ '' SPIR-V: '') sh) (\<lambda>_.
      vk_then (vk_create D (init_failed G (name @ '' shader: '')) KShaderModule (ShaderInfo sh)) (\<lambda>module.
      vk_then (vk_create D (init_failed G (name @ '' desc layout: '')) KDescriptorSetLayout (SetLayoutInfo bindings)) (\<lambda>set_layout.
      vk_then (vk_create D (init_failed G (name @ '' pipeline layout: '')) KPipelineLayout (PipelineLayoutInfo set_layout push)) (\<lambda>layout.
      vk_then (vk_create D (init_failed G (name @ '' pipeline: '')) KPipeline (PipelineInfo module layout)) (\<lambda>p.
      vk_then (vk_destroy KShaderModule module) (\<lambda>_.
      vk_return \<lparr>pipe = p, pipe_layout = layout, pipe_set_layout = set_layout\<rparr>)))))))"

definition easu_new :: "Gpu \<Rightarrow> ComputePipe gpu" where
  "easu_new G = spatial_pipeline G ''EASU'' EASU_UPSCALE [0, 1] 16"

definition rcas_new :: "Gpu \<Rightarrow> ComputePipe gpu" where
  "rcas_new G = spatial_pipeline G ''RCAS'' RCAS [0] 12"

text \<open>When construction fails the context is dropped; the objects made from it are not.\<close>

definition fsr2_with_params :: "Gpu \<Rightarrow> u32 \<Rightarrow> u32 \<Rightarrow> Fsr2Interpolator gpu" where
  "fsr2_with_params G block_size radius =
     vk_then (from_vulkan G (VulkanContext_new (gp_host G) [])) (\<lambda>ctx.
     vk_catch
       (vk_then (motion_warp_pipelines G) (\<lambda>(motion, warp, pool).
        vk_then (easu_new G) (\<lambda>easu.
        vk_then (rcas_new G) (\<lambda>rcas.
        vk_then (vk_catch (vk_then (native_with_context G ctx) (\<lambda>n. vk_return (Some n))) (\<lambda>_. vk_return None)) (\<lambda>native.
        vk_return \<lparr>f2_ctx = ctx, motion_pipeline = motion, warp_pipeline = warp, easu_pipeline = easu, rcas_pipeline = rcas,
          desc_pool = pool, f2_cached = None, f2_block_size = block_size, search_radius = radius, native_upscaler = native\<rparr>)))))
       (\<lambda>e. vk_then (from_vulkan G (VulkanContext_drop ctx)) (\<lambda>_. vk_fail e)))"

definition fsr2_new :: "Gpu \<Rightarrow> Fsr2Interpolator gpu" where
  "fsr2_new G = fsr2_with_params G 8 8"

section \<open>Cached buffers\<close>

definition resource_objects :: "Fsr2Resources \<Rightarrow> (obj_kind \<times> handle) list" where
  "resource_objects r =
     [(KBuffer, frame_a_buf r), (KMemory, frame_a_mem r), (KBuffer, frame_b_buf r), (KMemory, frame_b_mem r),
      (KBuffer, motion_buf r), (KMemory, motion_mem r), (KBuffer, output_buf r), (KMemory, f2_output_mem r),
      (KBuffer, staging_a_buf r), (KMemory, staging_a_mem r), (KBuffer, staging_b_buf r), (KMemory, staging_b_mem r),
      (KBuffer, f2_readback_buf r), (KMemory, f2_readback_mem r)]"

definition destroy_resources :: "Fsr2Resources \<Rightarrow> unit list gpu" where
  "destroy_resources r = destroy_all (resource_objects r)"

text \<open>\<^verbatim>\<open>div_ceil\<close>, which panics on a divisor of zero.\<close>

definition div_ceil :: "u32 \<Rightarrow> u32 \<Rightarrow> u32" where
  "div_ceil a b = (if a mod b = 0 then a div b else a div b + 1)"

definition motion_size :: "u32 \<Rightarrow> u32 \<Rightarrow> u32 \<Rightarrow> u64" where
  "motion_size w h block = ucast (div_ceil w block * div_ceil h block * 8)"

text \<open>Device-local memory if there is some, host-visible memory otherwise.\<close>

definition try_create :: "Gpu \<Rightarrow> u64 \<Rightarrow> buffer_usage set \<Rightarrow> (handle \<times> handle) gpu" where
  "try_create G n usage = from_vulkan G (vk_catch (create_buffer (gp_driver G) n usage {DEVICE_LOCAL})
     (\<lambda>_. create_buffer (gp_driver G) n usage {HOST_VISIBLE, HOST_COHERENT}))"

definition host_buffer :: "Gpu \<Rightarrow> u64 \<Rightarrow> buffer_usage set \<Rightarrow> (handle \<times> handle) gpu" where
  "host_buffer G n usage = from_vulkan G (create_buffer (gp_driver G) n usage {HOST_VISIBLE, HOST_COHERENT})"

text \<open>The sets of one allocation are numbered from zero.\<close>

definition allocate_sets :: "Gpu \<Rightarrow> string \<Rightarrow> handle gpu" where
  "allocate_sets G text s = vk_then (vk_call (gp_driver G) (failed G text)) (\<lambda>_ t. (Inr (vk_calls s), t)) s"

definition write_sets :: "(set_handle \<times> u32 \<times> handle \<times> u64) list \<Rightarrow> unit list gpu" where
  "write_sets ws = vk_each (\<lambda>(d, b, h, n). vk_note (DescriptorWrite d b h n)) ws"

definition create_resources :: "Gpu \<Rightarrow> Fsr2Interpolator \<Rightarrow> u32 \<Rightarrow> u32 \<Rightarrow> Fsr2Resources gpu" where
  "create_resources G i width height =
     (let frame_size = rgba_size width height; motion_size = motion_size width height (f2_block_size i);
          storage = {BUF_STORAGE, BUF_TRANSFER_DST}; staging = {BUF_TRANSFER_SRC, BUF_TRANSFER_DST} in
      vk_then (try_create G frame_size storage) (\<lambda>(ab, am).
      vk_then (try_create G frame_size storage) (\<lambda>(bb, bm).
      vk_then (try_create G motion_size {BUF_STORAGE}) (\<lambda>(mb, mm).
      vk_then (try_create G frame_size {BUF_STORAGE, BUF_TRANSFER_SRC}) (\<lambda>(ob, om).
      vk_then (host_buffer G frame_size staging) (\<lambda>(sab, sam).
      vk_then (host_buffer G frame_size staging) (\<lambda>(sbb, sbm).
      vk_then (host_buffer G frame_size staging) (\<lambda>(rb, rm).
      vk_then (allocate_sets G ''alloc desc: '') (\<lambda>sets.
      vk_then (write_sets
        [((sets, 0), 0, ab, frame_size), ((sets, 0), 1, bb, frame_size), ((sets, 0), 2, mb, motion_size),
         ((sets, 1), 0, ab, frame_size), ((sets, 1), 1, bb, frame_size), ((sets, 1), 2, mb, motion_size),
         ((sets, 1), 3, ob, frame_size)]) (\<lambda>_.
      vk_then (from_vulkan G (allocate_command_buffer (gp_driver G))) (\<lambda>_.
      vk_return \<lparr>f2_width = width, f2_height = height, frame_a_buf = ab, frame_a_mem = am, frame_b_buf = bb, frame_b_mem = bm,
        motion_buf = mb, motion_mem = mm, output_buf = ob, f2_output_mem = om, staging_a_buf = sab, staging_a_mem = sam,
        staging_b_buf = sbb, staging_b_mem = sbm, f2_readback_buf = rb, f2_readback_mem = rm,
        motion_desc_set = (sets, 0), warp_desc_set = (sets, 1)\<rparr>)))))))))))"

text \<open>Resources of another size are destroyed and the pool is reset; when either step or the creation fails the cache is empty.\<close>

definition clear_resources :: "Gpu \<Rightarrow> Fsr2Resources \<Rightarrow> unit gpu" where
  "clear_resources G r =
     vk_then (destroy_resources r) (\<lambda>_.
     vk_call (gp_driver G) (\<lambda>e. InterpolateFailed (''reset descriptor pool: '' @ gp_debug G e)))"

definition ensure_resources ::
  "Gpu \<Rightarrow> u32 \<times> u32 \<Rightarrow> Fsr2Interpolator \<Rightarrow> gpu_state \<Rightarrow> (InterpolateError + unit) \<times> Fsr2Interpolator \<times> gpu_state" where
  "ensure_resources G q i s = (case q of (width, height) \<Rightarrow>
     if (case f2_cached i of None \<Rightarrow> False | Some r \<Rightarrow> f2_width r = width \<and> f2_height r = height) then (Inr (), i, s)
     else case vk_then (case f2_cached i of None \<Rightarrow> vk_return () | Some r \<Rightarrow> clear_resources G r)
            (\<lambda>_. create_resources G i width height) s of
         (Inl e, t) \<Rightarrow> (Inl e, i\<lparr>f2_cached := None\<rparr>, t)
       | (Inr r, t) \<Rightarrow> (Inr (), i\<lparr>f2_cached := Some r\<rparr>, t))"

section \<open>Interpolation\<close>

text \<open>The two passes in one batch: both frames go to the device, the motion of blocks is estimated, the frames are warped and
  blended, and the result is copied back. The factor is the bit pattern \<open>t\<close>.\<close>

definition run_commands :: "Fsr2Interpolator \<Rightarrow> Fsr2Resources \<Rightarrow> u32 \<Rightarrow> u32 \<Rightarrow> f32 \<Rightarrow> GfxCmd list" where
  "run_commands i r w h t =
     (let frame_size = rgba_size w h; pc = [w, h, t, f2_block_size i, search_radius i];
          blocks_x = div_ceil w (f2_block_size i); blocks_y = div_ceil h (f2_block_size i) in
      [CopyBuffer (staging_a_buf r) (frame_a_buf r) frame_size,
       CopyBuffer (staging_b_buf r) (frame_b_buf r) frame_size,
       MemoryBarrier TransferPass ComputePass,
       BindPipeline (pipe (motion_pipeline i)),
       BindDescriptorSets (pipe_layout (motion_pipeline i)) (motion_desc_set r),
       CmdPushConstants (pipe_layout (motion_pipeline i)) pc,
       CmdDispatch (div_ceil blocks_x 16) (div_ceil blocks_y 16) 1,
       MemoryBarrier ComputePass ComputePass,
       BindPipeline (pipe (warp_pipeline i)),
       BindDescriptorSets (pipe_layout (warp_pipeline i)) (warp_desc_set r),
       CmdPushConstants (pipe_layout (warp_pipeline i)) pc,
       CmdDispatch (div_ceil w 16) (div_ceil h 16) 1,
       MemoryBarrier ComputePass TransferPass,
       CopyBuffer (output_buf r) (f2_readback_buf r) frame_size])"

definition run_recorded :: "Gpu \<Rightarrow> Fsr2Interpolator \<Rightarrow> Fsr2Resources \<Rightarrow> GpuFrame \<Rightarrow> GpuFrame \<Rightarrow> f32 \<Rightarrow> bytes gpu" where
  "run_recorded G i r a b t =
     (let D = gp_driver G; w = gf_width a; h = gf_height a in
      vk_then (from_vulkan G (upload_to_buffer D (staging_a_mem r) (gf_data a))) (\<lambda>_.
      vk_then (from_vulkan G (upload_to_buffer D (staging_b_mem r) (gf_data b))) (\<lambda>_.
      vk_then (vk_call D (failed G ''reset cmd: '')) (\<lambda>_.
      vk_then (vk_begin D (failed G ''begin cmd: '')) (\<lambda>_.
      vk_then (vk_record (run_commands i r w h t)) (\<lambda>_.
      vk_then (vk_call D (failed G ''end cmd: '')) (\<lambda>_.
      vk_then (from_vulkan G (submit_and_wait D)) (\<lambda>_.
      from_vulkan G (read_from_buffer D (f2_readback_mem r) (unat (rgba_size w h)))))))))))"

definition fsr2_run ::
  "Gpu \<Rightarrow> GpuFrame \<times> GpuFrame \<times> f32 \<Rightarrow> Fsr2Interpolator \<Rightarrow> gpu_state
   \<Rightarrow> (InterpolateError + bytes) \<times> Fsr2Interpolator \<times> gpu_state" where
  "fsr2_run G q i s = (case q of (a, b, t) \<Rightarrow>
     case ensure_resources G (gf_width a, gf_height a) i s of
       (Inl e, i', s') \<Rightarrow> (Inl e, i', s')
     | (Inr _, i', s') \<Rightarrow> (case f2_cached i' of
          None \<Rightarrow> (Inl (InterpolateFailed ''cached resources unexpectedly None''), i', s')
        | Some r \<Rightarrow> (case run_recorded G i' r a b t s' of (res, s'') \<Rightarrow> (res, i', s''))))"

definition fsr2_interpolate :: "GpuFrame \<Rightarrow> GpuFrame \<Rightarrow> InterpolateError + GpuFrame" where
  "fsr2_interpolate a b = Inl (InterpolateFailed
     ''Fsr2Interpolator uses FSR2 native upscale for temporal quality; separate interpolation not needed'')"

section \<open>Upscaling\<close>

definition easu_commands :: "Fsr2Interpolator \<Rightarrow> set_handle \<Rightarrow> u32 \<Rightarrow> u32 \<Rightarrow> u32 \<Rightarrow> u32 \<Rightarrow> GfxCmd list" where
  "easu_commands i d src_w src_h dst_w dst_h =
     [BindPipeline (pipe (easu_pipeline i)), BindDescriptorSets (pipe_layout (easu_pipeline i)) d,
      CmdPushConstants (pipe_layout (easu_pipeline i)) [src_w, src_h, dst_w, dst_h],
      CmdDispatch (div_ceil dst_w 16) (div_ceil dst_h 16) 1]"

text \<open>The sharpness is \<open>0.5f32\<close>.\<close>

definition rcas_commands :: "Fsr2Interpolator \<Rightarrow> set_handle \<Rightarrow> u32 \<Rightarrow> u32 \<Rightarrow> GfxCmd list" where
  "rcas_commands i d dst_w dst_h =
     [MemoryBarrier ComputePass ComputePass,
      BindPipeline (pipe (rcas_pipeline i)), BindDescriptorSets (pipe_layout (rcas_pipeline i)) d,
      CmdPushConstants (pipe_layout (rcas_pipeline i)) [dst_w, dst_h, 0x3F000000],
      CmdDispatch (div_ceil dst_w 16) (div_ceil dst_h 16) 1]"

text \<open>The fallback: the buffers are destroyed at the end and on no other path.\<close>

definition fallback_upscale :: "Gpu \<Rightarrow> Fsr2Interpolator \<Rightarrow> GpuFrame \<Rightarrow> u32 \<Rightarrow> u32 \<Rightarrow> GpuFrame gpu" where
  "fallback_upscale G i src dst_w dst_h =
     (let D = gp_driver G; src_size = rgba_size (gf_width src) (gf_height src); dst_size = rgba_size dst_w dst_h in
      vk_then (host_buffer G src_size {BUF_STORAGE}) (\<lambda>(src_buf, src_mem).
      vk_then (from_vulkan G (upload_to_buffer D src_mem (gf_data src))) (\<lambda>_.
      vk_then (host_buffer G dst_size {BUF_STORAGE}) (\<lambda>(dst_buf, dst_mem).
      vk_then (allocate_sets G ''EASU desc set: '') (\<lambda>easu.
      vk_then (write_sets [((easu, 0), 0, src_buf, src_size), ((easu, 0), 1, dst_buf, dst_size)]) (\<lambda>_.
      vk_then (from_vulkan G (allocate_command_buffer D)) (\<lambda>_.
      vk_then (vk_begin D (failed G ''begin cmd: '')) (\<lambda>_.
      vk_then (vk_record (easu_commands i (easu, 0) (gf_width src) (gf_height src) dst_w dst_h)) (\<lambda>_.
      vk_then (allocate_sets G ''RCAS desc set: '') (\<lambda>rcas.
      vk_then (write_sets [((rcas, 0), 0, dst_buf, dst_size)]) (\<lambda>_.
      vk_then (vk_record (rcas_commands i (rcas, 0) dst_w dst_h)) (\<lambda>_.
      vk_then (vk_call D (failed G ''end cmd: '')) (\<lambda>_.
      vk_then (from_vulkan G (submit_and_wait D)) (\<lambda>_.
      vk_then (from_vulkan G (read_from_buffer D dst_mem (unat dst_size))) (\<lambda>data.
      vk_then (destroy_all [(KBuffer, src_buf), (KMemory, src_mem), (KBuffer, dst_buf), (KMemory, dst_mem)]) (\<lambda>_.
      vk_return \<lparr>gf_data = data, gf_width = dst_w, gf_height = dst_h, gf_stride = dst_w * 4,
        gf_timestamp_ns = gf_timestamp_ns src\<rparr>))))))))))))))))"

definition fsr2_upscale ::
  "Gpu \<Rightarrow> GpuFrame \<times> u32 \<times> u32 \<Rightarrow> Fsr2Interpolator \<Rightarrow> gpu_state
   \<Rightarrow> (InterpolateError + GpuFrame) \<times> Fsr2Interpolator \<times> gpu_state" where
  "fsr2_upscale G q i s = (case native_upscaler i of
     Some n \<Rightarrow> (case native_upscale G q (nt_cached n) s of
        (res, c, s') \<Rightarrow> (res, i\<lparr>native_upscaler := Some (n\<lparr>nt_cached := c\<rparr>)\<rparr>, s'))
   | None \<Rightarrow> (case q of (src, dst_w, dst_h) \<Rightarrow>
        case fallback_upscale G i src dst_w dst_h s of (res, s') \<Rightarrow> (res, i, s')))"

section \<open>Drop\<close>

definition pipeline_objects :: "Fsr2Interpolator \<Rightarrow> (obj_kind \<times> handle) list" where
  "pipeline_objects i =
     (let ps = [motion_pipeline i, warp_pipeline i, easu_pipeline i, rcas_pipeline i] in
      (KDescriptorPool, desc_pool i) # map (\<lambda>p. (KPipeline, pipe p)) ps @ map (\<lambda>p. (KPipelineLayout, pipe_layout p)) ps @
      map (\<lambda>p. (KDescriptorSetLayout, pipe_set_layout p)) ps)"

text \<open>Its own objects go first, then the upscaler's and at last the context, whose last owner it is.\<close>

definition fsr2_drop :: "Fsr2Interpolator \<Rightarrow> gpu_state \<Rightarrow> gpu_state" where
  "fsr2_drop i s =
     (let s1 = (case f2_cached i of None \<Rightarrow> s | Some r \<Rightarrow> snd (destroy_resources r s));
          s2 = snd ((destroy_all (pipeline_objects i) :: unit list gpu) s1);
          s3 = (case native_upscaler i of None \<Rightarrow> s2 | Some n \<Rightarrow> native_drop (nt_cached n) s2) in
      snd (VulkanContext_drop (f2_ctx i) s3))"

section \<open>Objects\<close>

definition fsr2_objs :: "Fsr2Interpolator \<Rightarrow> (obj_kind \<times> handle) multiset" where
  "fsr2_objs i = context_objects (f2_ctx i) + mset (pipeline_objects i) +
     (case native_upscaler i of None \<Rightarrow> {#} | Some n \<Rightarrow> native_objs (nt_cached n)) +
     (case f2_cached i of None \<Rightarrow> {#} | Some r \<Rightarrow> mset (resource_objects r))"

lemma read_spv_ok [vk_ok]: "read_spv G text sh s = (Inr u, t) \<longleftrightarrow> gp_spv G sh = None \<and> t = s"
  by (auto simp: read_spv_def vk_ok split: option.splits)

lemma native_with_context_ok [vk_ok]:
  "native_with_context G ctx s = (Inr n, t) \<longleftrightarrow> drv_result (gp_driver G) (vk_calls s) = None \<and>
     n = \<lparr>nt_ctx = ctx, nt_cached = None\<rparr> \<and> t = s\<lparr>vk_calls := vk_calls s + 1\<rparr>"
  by (auto simp: native_with_context_def vk_ok)

lemma native_with_context_failed:
  "native_with_context G ctx s = (Inl e, t) \<Longrightarrow> t = s\<lparr>vk_calls := vk_calls s + 1\<rparr>"
  by (auto simp: native_with_context_def vk_then_def vk_call_def vk_return_def split: option.splits)

lemma pipelines_live:
  assumes "motion_warp_pipelines G s = (Inr (m, w, p), t)"
  shows "vk_live t = vk_live s + {#(KDescriptorPool, p), (KPipeline, pipe m), (KPipelineLayout, pipe_layout m),
       (KDescriptorSetLayout, pipe_set_layout m), (KPipeline, pipe w), (KPipelineLayout, pipe_layout w),
       (KDescriptorSetLayout, pipe_set_layout w)#} \<and>
     vk_misuse t = vk_misuse s \<and> pipe m \<noteq> pipe w \<and> pipe m < vk_calls t \<and> pipe w < vk_calls t"
  using assms by (clarsimp simp: motion_warp_pipelines_def Let_def vk_ok) blast

lemma spatial_live:
  assumes "spatial_pipeline G name sh bs n s = (Inr x, t)"
  shows "vk_live t = vk_live s + {#(KPipeline, pipe x), (KPipelineLayout, pipe_layout x), (KDescriptorSetLayout, pipe_set_layout x)#} \<and>
     vk_misuse t = vk_misuse s \<and> vk_calls s \<le> pipe x \<and> pipe x < vk_calls t"
  using assms by (clarsimp simp: spatial_pipeline_def Let_def vk_ok)

lemma fsr2_new_ok:
  assumes "fsr2_new G s = (Inr i, t)"
  shows "vk_live t = vk_live s + fsr2_objs i \<and> vk_misuse t = vk_misuse s \<and> f2_cached i = None \<and>
     distinct [pipe (motion_pipeline i), pipe (warp_pipeline i), pipe (easu_pipeline i), pipe (rcas_pipeline i)]"
proof -
  let ?native = "\<lambda>ctx. vk_catch (vk_then (native_with_context G ctx) (\<lambda>n. vk_return (Some n))) (\<lambda>_. vk_return None)"
  obtain ctx s1 m w p s2 ea s3 rc s4 n s5 where r: "VulkanContext_new (gp_host G) [] s = (Inr ctx, s1)"
      "motion_warp_pipelines G s1 = (Inr (m, w, p), s2)" "spatial_pipeline G ''EASU'' EASU_UPSCALE [0, 1] 16 s2 = (Inr ea, s3)"
      "spatial_pipeline G ''RCAS'' RCAS [0] 12 s3 = (Inr rc, s4)" "?native ctx s4 = (Inr n, s5)" "t = s5"
      "i = \<lparr>f2_ctx = ctx, motion_pipeline = m, warp_pipeline = w, easu_pipeline = ea, rcas_pipeline = rc,
          desc_pool = p, f2_cached = None, f2_block_size = 8, search_radius = 8, native_upscaler = n\<rparr>"
    using assms unfolding fsr2_new_def fsr2_with_params_def easu_new_def rcas_new_def
    by (auto simp: vk_then_ok vk_catch_ok from_vulkan_ok vk_fail_ok vk_return_ok)
  have n: "s5 = s4\<lparr>vk_calls := vk_calls s4 + 1\<rparr>" "\<And>x. n = Some x \<Longrightarrow> nt_cached x = None"
    using r(5) by (auto simp: vk_ok vk_then_def vk_return_def dest: native_with_context_failed split: prod.splits sum.splits)
  have c: "vk_live s1 = vk_live s + context_objects ctx" "vk_misuse s1 = vk_misuse s"
    using with_request_ok r(1) unfolding VulkanContext_new_def by blast+
  note l = pipelines_live [OF r(2)] spatial_live [OF r(3)] spatial_live [OF r(4)]
  have nat: "(case n of None \<Rightarrow> {#} | Some n \<Rightarrow> native_objs (nt_cached n)) = {#}"
    using n(2) by (cases n) (simp_all add: native_objs_def)
  have "vk_live t = vk_live s + fsr2_objs i"
    using c l n(1) r(6) nat by (simp add: r(7) fsr2_objs_def pipeline_objects_def Let_def)
  moreover have "vk_misuse t = vk_misuse s" using c l n(1) r(6) by simp
  ultimately show ?thesis using l by (auto simp: r(7))
qed

lemma try_create_owns: "owns {#} (try_create G n usage) (\<lambda>(b, m). {#(KBuffer, b), (KMemory, m)#}) (\<lambda>L. L = {#})"
  unfolding try_create_def by (rule from_vulkan_owns, rule owns_catch [OF create_buffer_owns]) (simp add: create_buffer_owns)

lemma host_buffer_owns: "owns {#} (host_buffer G n usage) (\<lambda>(b, m). {#(KBuffer, b), (KMemory, m)#}) (\<lambda>L. L = {#})"
  unfolding host_buffer_def by (rule from_vulkan_owns, rule create_buffer_owns)

lemma allocate_sets_owns: "owns P (allocate_sets G text) (\<lambda>_. P) (\<lambda>L. L = P)"
  by (rule ownsI) (simp add: allocate_sets_def vk_then_def vk_call_def split: option.split)

lemma write_sets_owns: "owns P (write_sets ws) (\<lambda>_. P) E"
  unfolding write_sets_def
proof (induction ws)
  case Nil
  show ?case by (simp add: owns_keep)
next
  case (Cons w ws)
  show ?case unfolding vk_each.simps
    by (rule owns_then [where Q = "\<lambda>_. P"], cases w, simp add: owns_note, rule owns_then [OF Cons.IH], rule owns_keep)
qed

lemmas try_step = owns_then_pair [OF owns_more_pair [OF try_create_owns]]
lemmas host_step = owns_then_pair [OF owns_more_pair [OF host_buffer_owns]]

lemma create_resources_owns:
  "owns {#} (create_resources G i w h) (\<lambda>r. mset (resource_objects r)) (\<lambda>L. {#} \<subseteq># L)"
  unfolding create_resources_def Let_def allocate_command_buffer_def
  by (rule try_step, rule subset_mset.zero_le, rule try_step, rule subset_mset.zero_le, rule try_step, rule subset_mset.zero_le,
      rule try_step, rule subset_mset.zero_le, rule host_step, rule subset_mset.zero_le, rule host_step, rule subset_mset.zero_le,
      rule host_step, rule subset_mset.zero_le, rule owns_then [OF owns_kept [OF allocate_sets_owns]], rule subset_mset.zero_le,
      rule owns_then [OF write_sets_owns], rule owns_then [OF from_vulkan_owns [OF owns_kept [OF owns_call]]], rule subset_mset.zero_le,
      rule owns_return_eq,
      simp only: resource_objects_def Fsr2Resources.simps mset.simps union_mset_add_mset_left add_0_left add_mset_commute)

lemma run_recorded_owns: "owns P (run_recorded G i r a b t) (\<lambda>_. P) (\<lambda>L. L = P)"
  unfolding run_recorded_def Let_def upload_to_buffer_def read_from_buffer_def
  by (rule owns_then [OF from_vulkan_owns [OF owns_write]] from_vulkan_owns [OF owns_read]
      owns_then [OF owns_begin] owns_then [OF owns_record] owns_then [OF owns_call] owns_then [OF submit_same])+

text \<open>Once the source buffer exists, every failure of the fallback leaves it.\<close>

lemma fallback_owns: "owns {#} (fallback_upscale G i src dw dh) (\<lambda>_. {#}) (\<lambda>L. {#} \<subseteq># L)"
  unfolding fallback_upscale_def Let_def upload_to_buffer_def read_from_buffer_def allocate_command_buffer_def
  by (rule host_step, rule subset_mset.zero_le, rule owns_then [OF from_vulkan_owns [OF owns_kept [OF owns_write]]], rule subset_mset.zero_le,
      rule host_step, rule subset_mset.zero_le, rule owns_then [OF owns_kept [OF allocate_sets_owns]], rule subset_mset.zero_le,
      rule owns_then [OF write_sets_owns], rule owns_then [OF from_vulkan_owns [OF owns_kept [OF owns_call]]], rule subset_mset.zero_le,
      rule owns_then [OF owns_kept [OF owns_begin]], rule subset_mset.zero_le, rule owns_then [OF owns_record],
      rule owns_then [OF owns_kept [OF allocate_sets_owns]], rule subset_mset.zero_le, rule owns_then [OF write_sets_owns],
      rule owns_then [OF owns_record], rule owns_then [OF owns_kept [OF owns_call]], rule subset_mset.zero_le,
      rule owns_then [OF owns_weaken [OF submit_same]], simp,
      rule owns_then [OF from_vulkan_owns [OF owns_kept [OF owns_read]]], rule subset_mset.zero_le,
      rule owns_then [OF owns_destroys_eq], simp add: add_mset_commute, rule owns_keep)

lemma fallback_live:
  assumes "fallback_upscale G i src dw dh s = (res, t)"
  shows "vk_misuse t = vk_misuse s \<and> (\<exists>L. vk_live t = vk_live s + L \<and> (\<not> isl res \<longrightarrow> L = {#}))"
  using ownsD [OF fallback_owns, of s "vk_live s", OF _ assms] by (cases res) auto

lemma destroy_resources_live:
  assumes "vk_live s = B + mset (resource_objects r)"
  shows "vk_live (snd (destroy_resources r s)) = B \<and> vk_misuse (snd (destroy_resources r s)) = vk_misuse s"
proof -
  obtain x t where x: "destroy_resources r s = (x, t)" by fastforce
  have ow: "owns (mset (resource_objects r)) (destroy_resources r) (\<lambda>_. {#}) (\<lambda>L. L = {#})"
    unfolding destroy_resources_def by (rule owns_destroys_eq [OF refl])
  show ?thesis using ownsD [OF ow assms x] x by (cases x) auto
qed

lemma destroy_pipelines_live:
  assumes "vk_live s = B + mset (pipeline_objects i)"
  shows "vk_live (snd ((destroy_all (pipeline_objects i) :: unit list gpu) s)) = B \<and>
     vk_misuse (snd ((destroy_all (pipeline_objects i) :: unit list gpu) s)) = vk_misuse s"
proof -
  obtain x t where x: "(destroy_all (pipeline_objects i) :: unit list gpu) s = (x, t)" by fastforce
  have ow: "owns (mset (pipeline_objects i)) (destroy_all (pipeline_objects i) :: unit list gpu) (\<lambda>_. {#}) (\<lambda>L. L = {#})"
    by (rule owns_destroys_eq [OF refl])
  show ?thesis using ownsD [OF ow assms x] x by (cases x) auto
qed

lemma fsr2_drop_live:
  assumes "vk_live s = B + fsr2_objs i"
  shows "vk_live (fsr2_drop i s) = B \<and> vk_misuse (fsr2_drop i s) = vk_misuse s"
proof -
  let ?n = "case native_upscaler i of None \<Rightarrow> {#} | Some n \<Rightarrow> native_objs (nt_cached n)"
  define s1 where "s1 = (case f2_cached i of None \<Rightarrow> s | Some r \<Rightarrow> snd (destroy_resources r s))"
  define s2 where "s2 = snd ((destroy_all (pipeline_objects i) :: unit list gpu) s1)"
  define s3 where "s3 = (case native_upscaler i of None \<Rightarrow> s2 | Some n \<Rightarrow> native_drop (nt_cached n) s2)"
  have "vk_live s1 = B + context_objects (f2_ctx i) + mset (pipeline_objects i) + ?n \<and> vk_misuse s1 = vk_misuse s"
    using assms destroy_resources_live by (cases "f2_cached i") (auto simp: s1_def fsr2_objs_def add.assoc)
  then have s1: "vk_live s1 = (B + context_objects (f2_ctx i) + ?n) + mset (pipeline_objects i)" "vk_misuse s1 = vk_misuse s"
    by (simp_all add: ac_simps)
  have s2: "vk_live s2 = B + context_objects (f2_ctx i) + ?n" "vk_misuse s2 = vk_misuse s"
    using destroy_pipelines_live [OF s1(1)] s1(2) by (simp_all add: s2_def)
  have s3: "vk_live s3 = B + context_objects (f2_ctx i)" "vk_misuse s3 = vk_misuse s"
    using s2 native.finish_objs [of s2 "B + context_objects (f2_ctx i)"] by (auto simp: s3_def split: option.splits)
  have "fsr2_drop i s = snd (VulkanContext_drop (f2_ctx i) s3)" unfolding fsr2_drop_def Let_def s3_def s2_def s1_def by (rule refl)
  then show ?thesis using context_drop_live [OF s3(1)] s3(2) by simp
qed

text \<open>Both uses of the backend are sessions.\<close>

interpretation fsr2: gpu_session "fsr2_upscale G" isl fsr2_objs fsr2_drop "\<lambda>_. {#}"
proof
  fix q i s r i' s' B
  assume up: "fsr2_upscale G q i s = (r, i', s')" and live: "vk_live s = B + fsr2_objs i"
  obtain src dw dh where q: "q = (src, dw, dh)" by (metis prod_cases3)
  show "vk_misuse s' = vk_misuse s \<and> (\<exists>L. vk_live s' = B + L + fsr2_objs i' \<and> (\<not> isl r \<longrightarrow> L = {#}))"
  proof (cases "native_upscaler i")
    case None
    then have "fallback_upscale G i src dw dh s = (r, s')" "i' = i" using up by (auto simp: fsr2_upscale_def q split: prod.splits)
    then show ?thesis using fallback_live [of G i src dw dh s r s'] live by (auto simp: ac_simps)
  next
    case (Some n)
    then obtain c where c: "native_upscale G q (nt_cached n) s = (r, c, s')" "i' = i\<lparr>native_upscaler := Some (n\<lparr>nt_cached := c\<rparr>)\<rparr>"
      using up by (auto simp: fsr2_upscale_def split: prod.splits)
    let ?B = "B + (context_objects (f2_ctx i) + mset (pipeline_objects i) + (case f2_cached i of None \<Rightarrow> {#} | Some r \<Rightarrow> mset (resource_objects r)))"
    have "vk_live s = ?B + native_objs (nt_cached n)" using live by (simp add: fsr2_objs_def Some ac_simps)
    from native.step_objs [OF c(1) this] show ?thesis
      by (auto simp: fsr2_objs_def c(2) pipeline_objects_def ac_simps)
  qed
next
  fix s :: gpu_state and B i assume "vk_live s = B + fsr2_objs i"
  then show "vk_live (fsr2_drop i s) = B + {#} \<and> vk_misuse (fsr2_drop i s) = vk_misuse s" using fsr2_drop_live by simp
qed auto

lemma ensure_live:
  assumes "ensure_resources G q i s = (r, i', s')" and live: "vk_live s = B + fsr2_objs i"
  shows "vk_misuse s' = vk_misuse s \<and> (\<exists>L. vk_live s' = B + L + fsr2_objs i' \<and> (\<not> isl r \<longrightarrow> L = {#})) \<and>
     (\<not> isl r \<longrightarrow> (\<exists>x. f2_cached i' = Some x))"
proof -
  obtain w h where q: "q = (w, h)" by (cases q)
  show ?thesis
  proof (cases "case f2_cached i of None \<Rightarrow> False | Some r \<Rightarrow> f2_width r = w \<and> f2_height r = h")
    case True
    then show ?thesis using assms by (auto simp: ensure_resources_def q split: option.splits)
  next
    case False
    let ?old = "case f2_cached i of None \<Rightarrow> {#} | Some r \<Rightarrow> mset (resource_objects r)"
    let ?clear = "case f2_cached i of None \<Rightarrow> vk_return () | Some r \<Rightarrow> clear_resources G r"
    let ?m = "vk_then ?clear (\<lambda>_. create_resources G i w h)"
    let ?B = "B + context_objects (f2_ctx i) + mset (pipeline_objects i) +
       (case native_upscaler i of None \<Rightarrow> {#} | Some n \<Rightarrow> native_objs (nt_cached n))"
    have cl: "owns ?old ?clear (\<lambda>_. {#}) (\<lambda>L. {#} \<subseteq># L)"
    proof (cases "f2_cached i")
      case None
      then show ?thesis by (simp add: owns_keep)
    next
      case (Some x)
      show ?thesis unfolding Some option.case clear_resources_def destroy_resources_def
        by (rule owns_then [OF owns_destroys_eq [OF refl]], rule owns_kept [OF owns_call], rule subset_mset.zero_le)
    qed
    have ow: "owns ?old ?m (\<lambda>r. mset (resource_objects r)) (\<lambda>L. {#} \<subseteq># L)" by (rule owns_then [OF cl], rule create_resources_owns)
    obtain x t where x: "?m s = (x, t)" by fastforce
    have "vk_live s = ?B + ?old" using live by (simp add: fsr2_objs_def ac_simps)
    note d = ownsD [OF ow this x]
    show ?thesis
    proof (cases x)
      case (Inl e)
      then have "r = Inl e" "i' = i\<lparr>f2_cached := None\<rparr>" "s' = t"
        using assms(1) False x by (auto simp: ensure_resources_def q)
      then show ?thesis using d Inl by (auto simp: fsr2_objs_def pipeline_objects_def ac_simps)
    next
      case (Inr y)
      then have "r = Inr ()" "i' = i\<lparr>f2_cached := Some y\<rparr>" "s' = t"
        using assms(1) False x by (auto simp: ensure_resources_def q)
      then show ?thesis using d Inr by (auto simp: fsr2_objs_def pipeline_objects_def ac_simps)
    qed
  qed
qed

interpretation fsr2_run: gpu_session "fsr2_run G" isl fsr2_objs fsr2_drop "\<lambda>_. {#}"
proof
  fix q i s r i' s' B
  assume up: "fsr2_run G q i s = (r, i', s')" and live: "vk_live s = B + fsr2_objs i"
  obtain a b f where q: "q = (a, b, f)" by (metis prod_cases3)
  obtain x i1 s1 where e: "ensure_resources G (gf_width a, gf_height a) i s = (x, i1, s1)" by (metis prod_cases3)
  note l = ensure_live [OF e live]
  show "vk_misuse s' = vk_misuse s \<and> (\<exists>L. vk_live s' = B + L + fsr2_objs i' \<and> (\<not> isl r \<longrightarrow> L = {#}))"
  proof (cases x)
    case (Inl err)
    then show ?thesis using up l by (auto simp: fsr2_run_def q e)
  next
    case (Inr u)
    then obtain y where y: "f2_cached i1 = Some y" using l by auto
    obtain z t where z: "run_recorded G i1 y a b f s1 = (z, t)" by fastforce
    have "vk_live t = vk_live s1 \<and> vk_misuse t = vk_misuse s1"
      using ownsD [OF run_recorded_owns [of "vk_live s1" G i1 y a b f], of s1 "{#}", OF _ z] by (cases z) auto
    then show ?thesis using up l y Inr by (auto simp: fsr2_run_def q e z)
  qed
next
  fix s :: gpu_state and B i assume "vk_live s = B + fsr2_objs i"
  then show "vk_live (fsr2_drop i s) = B + {#} \<and> vk_misuse (fsr2_drop i s) = vk_misuse s" using fsr2_drop_live by simp
qed auto

section \<open>Properties\<close>

definition pipe_layouts :: "Fsr2Interpolator \<Rightarrow> handle \<Rightarrow> handle option" where
  "pipe_layouts i = map_of (map (\<lambda>p. (pipe p, pipe_layout p)) [motion_pipeline i, warp_pipeline i, easu_pipeline i, rcas_pipeline i])"

lemma pipe_layouts_at:
  assumes "distinct [pipe (motion_pipeline i), pipe (warp_pipeline i), pipe (easu_pipeline i), pipe (rcas_pipeline i)]"
  shows "pipe_layouts i (pipe (motion_pipeline i)) = Some (pipe_layout (motion_pipeline i))"
    and "pipe_layouts i (pipe (warp_pipeline i)) = Some (pipe_layout (warp_pipeline i))"
    and "pipe_layouts i (pipe (easu_pipeline i)) = Some (pipe_layout (easu_pipeline i))"
    and "pipe_layouts i (pipe (rcas_pipeline i)) = Some (pipe_layout (rcas_pipeline i))"
  using assms by (auto simp: pipe_layouts_def)

lemma run_commands_ordered:
  assumes "distinct [pipe (motion_pipeline i), pipe (warp_pipeline i), pipe (easu_pipeline i), pipe (rcas_pipeline i)]"
  shows "run_compute (pipe_layouts i) (run_commands i r w h t) Compute_empty \<noteq> None"
  by (simp add: run_commands_def Let_def Compute_empty_def pipe_layouts_at [OF assms] sees_all_def written_by_def)

lemma fallback_commands_ordered:
  assumes "distinct [pipe (motion_pipeline i), pipe (warp_pipeline i), pipe (easu_pipeline i), pipe (rcas_pipeline i)]"
  shows "run_compute (pipe_layouts i) (easu_commands i d w h dw dh @ rcas_commands i d' dw dh) Compute_empty \<noteq> None"
  by (simp add: easu_commands_def rcas_commands_def Compute_empty_def pipe_layouts_at [OF assms] sees_all_def written_by_def)

lemma grid_covers: "unat w \<le> 16 * unat (div_ceil w 16)"
proof -
  have m: "unat (w mod 16) = unat w mod 16" and d: "unat (w div 16) = unat w div 16" by (simp_all add: unat_mod unat_div)
  have z: "w mod 16 = 0 \<longleftrightarrow> unat w mod 16 = 0" using m unat_eq_zero by metis
  have "unat (w div 16 + 1) = unat w div 16 + 1" using unat_lt_u32 [of w] d by (subst unat_add_lem [THEN iffD1]) auto
  then have "unat (div_ceil w 16) = (if unat w mod 16 = 0 then unat w div 16 else unat w div 16 + 1)"
    unfolding div_ceil_def z using d by simp
  then show ?thesis by (cases "unat w mod 16 = 0") (simp_all, presburger+)
qed

lemma allocate_sets_ok: "allocate_sets G text s = (Inr h, t) \<Longrightarrow> vk_submitted t = vk_submitted s \<and> vk_uploads t = vk_uploads s \<and> vk_recorded t = vk_recorded s"
  by (auto simp: allocate_sets_def vk_then_def vk_call_def split: option.splits)

lemma write_sets_ok: "write_sets ws s = (Inr h, t) \<Longrightarrow> vk_submitted t = vk_submitted s \<and> vk_uploads t = vk_uploads s \<and> vk_recorded t = vk_recorded s"
  unfolding write_sets_def by (induction ws arbitrary: s h) (fastforce simp: vk_ok)+

lemma host_buffer_ok: "host_buffer G n usage s = (Inr (b, m), t) \<Longrightarrow> vk_submitted t = vk_submitted s \<and> vk_uploads t = vk_uploads s"
  unfolding host_buffer_def vk_ok by (rule create_buffer_frame)

lemma fallback_ok:
  assumes "fallback_upscale G i src dw dh s = (Inr f, t)"
  shows "\<exists>mem easu rcas. vk_submitted t = vk_submitted s @ [easu_commands i (easu, 0) (gf_width src) (gf_height src) dw dh @ rcas_commands i (rcas, 0) dw dh] \<and>
     vk_uploads t = vk_uploads s @ [(mem, gf_data src)] \<and> gf_width f = dw \<and> gf_height f = dh \<and> gf_stride f = dw * 4 \<and>
     gf_timestamp_ns f = gf_timestamp_ns src \<and> length (gf_data f) = unat (rgba_size dw dh)"
  using assms
  apply (clarsimp simp: fallback_upscale_def Let_def vk_ok upload_to_buffer_def allocate_command_buffer_def read_from_buffer_def)
  apply (drule host_buffer_ok submit_and_wait_frame destroy_all_frame allocate_sets_ok write_sets_ok)+
  apply clarsimp
  apply blast
  done

text \<open>The FSR 2 backend gives back what it took: whatever it is asked to upscale, with the SDK or without, dropping it
  destroys its pipelines, its resources and its context and nothing else, and objects stay behind only where a request
  failed.\<close>

theorem fsr2_session:
  assumes "fsr2_new G s0 = (Inr i, s)" and "serve (fsr2_upscale G) qs i s = (rs, i', t)"
  shows "vk_misuse (fsr2_drop i' t) = vk_misuse s0 \<and>
     (\<exists>L. vk_live (fsr2_drop i' t) = vk_live s0 + L \<and> (list_all (\<lambda>r. \<not> isl r) rs \<longrightarrow> L = {#}))"
  using fsr2.session_objs [OF assms(2), of "vk_live s0"] fsr2_new_ok [OF assms(1)] by simp


text \<open>A machine on which the probe of the SDK fails.\<close>

lemma demo_context: "\<exists>ctx t. VulkanContext_new (gp_host (demo_gpu (failing_driver 21))) [] Vk_empty = (Inr ctx, t) \<and> vk_calls t = 4"
  by (simp add: VulkanContext_new_def with_request_def demo_gpu_def demo_host_def demo_device_def compute_only_def Let_def vk_run
      find_family_def to_vk_queue_flags_def compute_family_def encode_family_def choose_device_def upt_rec Vk_empty_def)

lemma demo_spv [simp]: "read_spv (demo_gpu D) text sh s = (Inr (), s)"
  by (simp add: read_spv_def demo_gpu_def vk_run)

lemma demo_motion:
  "vk_calls s = 4 \<Longrightarrow> \<exists>m w p t. motion_warp_pipelines (demo_gpu (failing_driver 21)) s = (Inr (m, w, p), t) \<and> vk_calls t = 13"
  by (simp add: motion_warp_pipelines_def Let_def vk_run)

lemma demo_spatial:
  "vk_calls s < 18 \<Longrightarrow> \<exists>x t. spatial_pipeline (demo_gpu (failing_driver 21)) name sh bs n s = (Inr x, t) \<and> vk_calls t = vk_calls s + 4"
  by (simp add: spatial_pipeline_def Let_def vk_run)

lemma demo_new: "\<exists>i s. fsr2_new (demo_gpu (failing_driver 21)) Vk_empty = (Inr i, s) \<and> native_upscaler i = None \<and> vk_calls s = 22"
proof -
  let ?G = "demo_gpu (failing_driver 21)"
  obtain ctx s1 where c: "VulkanContext_new (gp_host ?G) [] Vk_empty = (Inr ctx, s1)" "vk_calls s1 = 4" using demo_context by blast
  obtain m w p s2 where m: "motion_warp_pipelines ?G s1 = (Inr (m, w, p), s2)" "vk_calls s2 = 13" using demo_motion [OF c(2)] by blast
  obtain e s3 where e: "easu_new ?G s2 = (Inr e, s3)" "vk_calls s3 = 17" unfolding easu_new_def
    using demo_spatial [of s2 "''EASU''" EASU_UPSCALE "[0, 1]" 16] m(2) by auto
  obtain r s4 where r: "rcas_new ?G s3 = (Inr r, s4)" "vk_calls s4 = 21" unfolding rcas_new_def
    using demo_spatial [of s3 "''RCAS''" RCAS "[0]" 12] e(2) by auto
  have "\<exists>err. native_with_context ?G ctx s4 = (Inl err, s4\<lparr>vk_calls := 22\<rparr>)" using r(2) by (simp add: native_with_context_def vk_run)
  then obtain err where "native_with_context ?G ctx s4 = (Inl err, s4\<lparr>vk_calls := 22\<rparr>)" by blast
  moreover have "from_vulkan ?G (VulkanContext_new (gp_host ?G) []) Vk_empty = (Inr ctx, s1)" using c(1) by (simp add: vk_ok)
  ultimately show ?thesis using m(1) e(1) r(1)
    by (simp add: fsr2_new_def fsr2_with_params_def vk_then_run vk_catch_run vk_return_def)
qed

lemma demo_fallback: "vk_calls s = 22 \<Longrightarrow> \<exists>f t. fallback_upscale (demo_gpu (failing_driver 21)) i demo_frame 2 2 s = (Inr f, t)"
  by (simp add: fallback_upscale_def host_buffer_def create_buffer_def demo_types upload_to_buffer_def read_from_buffer_def
      allocate_sets_def write_sets_def allocate_command_buffer_def submit_and_wait_def destroy_all_def Let_def vk_run)

theorem fsr2_session_witness:
  "\<exists>i s rs i' t. fsr2_new (demo_gpu (failing_driver 21)) Vk_empty = (Inr i, s) \<and>
     serve (fsr2_upscale (demo_gpu (failing_driver 21))) [(demo_frame, 2, 2)] i s = (rs, i', t) \<and> vk_live (fsr2_drop i' t) = {#}"
proof -
  obtain i s where n: "fsr2_new (demo_gpu (failing_driver 21)) Vk_empty = (Inr i, s)" "native_upscaler i = None" "vk_calls s = 22"
    using demo_new by blast
  obtain f t where f: "fallback_upscale (demo_gpu (failing_driver 21)) i demo_frame 2 2 s = (Inr f, t)" using demo_fallback [OF n(3)] by blast
  have u: "serve (fsr2_upscale (demo_gpu (failing_driver 21))) [(demo_frame, 2, 2)] i s = ([Inr f], i, t)"
    using n(2) f by (simp add: fsr2_upscale_def)
  have e: "vk_live (Vk_empty :: gpu_state) = {#}" by (simp add: Vk_empty_def)
  show ?thesis using n(1) u fsr2_session [OF n(1) u] by (auto simp: e)
qed


end
