(* ===== verification/FrameGen.thy ===== *)
theory FrameGen
  imports GpuBackend
begin

text \<open>
  \<^verbatim>\<open>backends/fsr3_frame_gen.rs\<close>: frame generation with the FidelityFX SDK. The SDK is not part of the repository: its calls
  may fail, its context is an object of the device, what it records are the commands \<open>FfxPrepare\<close> and \<open>FfxDispatch\<close>, and
  the sizes of the shared resources are a parameter. Half-precision numbers are a parameter too. A panic (a frame
  with less data than its size and stride say) is \<open>None\<close>.
\<close>

section \<open>Construction\<close>

record GpuImage =
  gi_image :: handle
  gi_memory :: handle
  gi_view :: handle
  gi_format :: vk_format
  gi_width :: u32
  gi_height :: u32

definition compute_usage :: "image_usage set" where
  "compute_usage = {IMG_STORAGE, IMG_SAMPLED, IMG_TRANSFER_SRC, IMG_TRANSFER_DST}"

text \<open>What fails leaves what was made before it.\<close>

definition create_compute_image :: "Gpu \<Rightarrow> vk_format \<Rightarrow> u32 \<Rightarrow> u32 \<Rightarrow> GpuImage gpu" where
  "create_compute_image G format width height =
     (let D = gp_driver G in
      vk_then (vk_create D (failed G []) KImage (TextureInfo format width height compute_usage)) (\<lambda>img.
      let req = drv_image_req D img in
      case find_memory_type D (req_bits req) {DEVICE_LOCAL} of
        None \<Rightarrow> vk_fail (InterpolateFailed ''no DEVICE_LOCAL memory type'')
      | Some i \<Rightarrow>
          vk_then (vk_create D (failed G []) KMemory (MemoryInfo (req_size req) i)) (\<lambda>mem.
          vk_then (vk_call D (failed G [])) (\<lambda>_.
          vk_then (vk_create D (failed G []) KImageView (TextureViewInfo img format)) (\<lambda>view.
          vk_return \<lparr>gi_image = img, gi_memory = mem, gi_view = view, gi_format = format, gi_width = width, gi_height = height\<rparr>)))))"

record Fsr3FrameGen =
  fg_vk :: VulkanContext
  fg_ctx :: handle
  input_color :: GpuImage
  input_depth :: GpuImage
  input_mv :: GpuImage
  output_color :: GpuImage
  dilated_depth :: GpuImage
  dilated_mv :: GpuImage
  reconstructed_prev_depth :: handle
  reconstructed_prev_depth_mem :: handle
  optical_flow_vector :: GpuImage
  optical_flow_scd :: GpuImage
  fg_staging_buffer :: handle
  fg_staging_mem :: handle
  fg_staging_size :: u64
  depth_scratch :: bytes
  mv_scratch :: bytes
  frame_id :: u64
  render_w :: u32
  render_h :: u32
  display_w :: u32
  display_h :: u32

definition fg_context_desc :: "u32 \<Rightarrow> u32 \<Rightarrow> u32 \<Rightarrow> u32 \<Rightarrow> FfxContextDescription" where
  "fg_context_desc rw rh dw dh =
     \<lparr>xc_flags = FFX_FRAMEINTERPOLATION_ENABLE_DEPTH_INVERTED OR FFX_FRAMEINTERPOLATION_ENABLE_DEPTH_INFINITE OR
        FFX_FRAMEINTERPOLATION_ENABLE_HDR_COLOR_INPUT OR FFX_FRAMEINTERPOLATION_ENABLE_JITTER_MOTION_VECTORS,
      xc_max_render_size = (rw, rh), xc_display_size = (dw, dh),
      xc_back_buffer_format = FFX_SURFACE_FORMAT_R16G16B16A16_FLOAT,
      xc_previous_source_format = FFX_SURFACE_FORMAT_R16G16B16A16_FLOAT\<rparr>"

definition fg_sdk_init_failed :: "Gpu \<Rightarrow> string \<Rightarrow> VkResult \<Rightarrow> InterpolateError" where
  "fg_sdk_init_failed G text e = InterpolateError.InitFailed (text @ gp_sdk G e)"

text \<open>The SDK's context: destroyed again when the sizes of its shared resources cannot be had.\<close>

definition fg_open :: "Gpu \<Rightarrow> u32 \<Rightarrow> u32 \<Rightarrow> u32 \<Rightarrow> u32 \<Rightarrow> handle gpu" where
  "fg_open G rw rh dw dh =
     (let D = gp_driver G in
      vk_then (vk_call D (fg_sdk_init_failed G ''ffxGetInterfaceVK failed: '')) (\<lambda>_.
      vk_then (vk_create D (fg_sdk_init_failed G ''ffxFrameInterpolationContextCreate failed: '') KFrameGenContext
         (FrameGenInfo (fg_context_desc rw rh dw dh))) (\<lambda>fg.
      vk_then (vk_catch (vk_call D (fg_sdk_init_failed G ''ffxFrameInterpolationGetSharedResourceDescriptions failed: ''))
         (undo [(KFrameGenContext, fg)])) (\<lambda>_.
      vk_return fg))))"

definition fg_image :: "Gpu \<Rightarrow> string \<Rightarrow> vk_format \<Rightarrow> u32 \<Rightarrow> u32 \<Rightarrow> GpuImage gpu" where
  "fg_image G text format w h =
     vk_map_err (\<lambda>e. InterpolateError.InitFailed (text @ InterpolateError_text G e)) (create_compute_image G format w h)"

definition fg_buffer :: "Gpu \<Rightarrow> string \<Rightarrow> u64 \<Rightarrow> buffer_usage set \<Rightarrow> mem_flag set \<Rightarrow> (handle \<times> handle) gpu" where
  "fg_buffer G text n usage flags =
     vk_map_err (\<lambda>e. InterpolateError.InitFailed (text @ VulkanError_text G e)) (create_buffer (gp_driver G) n usage flags)"

definition f32_bytes_one :: bytes where
  "f32_bytes_one = to_le 4 (0x3F800000 :: f32)"

text \<open>The images and buffers in the order they are made, and the constant pictures.\<close>

definition fg_resources :: "Gpu \<Rightarrow> u32 \<Rightarrow> u32 \<Rightarrow> u32 \<Rightarrow> u32 \<Rightarrow> VulkanContext \<Rightarrow> handle \<Rightarrow> Fsr3FrameGen gpu" where
  "fg_resources G rw rh dw dh ctx fg =
     (let dd = xs_dilated_depth (gp_shared G); dm = xs_dilated_motion_vectors (gp_shared G);
          rd = xs_reconstructed_prev_nearest_depth (gp_shared G); pixels = unat rw * unat rh in
      vk_then (fg_image G ''dilated_depth image: '' R32_SFLOAT (fd_width dd) (fd_height dd)) (\<lambda>dil_depth.
      vk_then (fg_image G ''dilated_mv image: '' R16G16_SFLOAT (fd_width dm) (fd_height dm)) (\<lambda>dil_mv.
      vk_then (fg_buffer G ''reconstructed_prev_depth buffer: '' (ucast (fd_width rd) * ucast (fd_height rd) * 4)
         {BUF_STORAGE, BUF_TRANSFER_DST} {DEVICE_LOCAL}) (\<lambda>(rec_buf, rec_mem).
      vk_then (fg_image G ''input_color: '' R16G16B16A16_SFLOAT rw rh) (\<lambda>color.
      vk_then (fg_image G ''input_depth: '' R32_SFLOAT rw rh) (\<lambda>depth.
      vk_then (fg_image G ''input_mv: '' R16G16_SFLOAT rw rh) (\<lambda>mv.
      vk_then (fg_image G ''output_color: '' R16G16B16A16_SFLOAT dw dh) (\<lambda>out.
      vk_then (fg_image G ''optical_flow_vector: '' R16G16_SFLOAT rw rh) (\<lambda>flow.
      vk_then (fg_image G ''optical_flow_scd: '' R8_UNORM rw rh) (\<lambda>scd.
      vk_then (fg_buffer G ''staging buffer: '' (ucast dw * ucast dh * 8) {BUF_TRANSFER_DST} {HOST_VISIBLE, HOST_COHERENT, HOST_CACHED}) (\<lambda>(sb, sm).
      vk_return \<lparr>fg_vk = ctx, fg_ctx = fg, input_color = color, input_depth = depth, input_mv = mv, output_color = out,
        dilated_depth = dil_depth, dilated_mv = dil_mv, reconstructed_prev_depth = rec_buf, reconstructed_prev_depth_mem = rec_mem,
        optical_flow_vector = flow, optical_flow_scd = scd, fg_staging_buffer = sb, fg_staging_mem = sm,
        fg_staging_size = ucast dw * ucast dh * 8, depth_scratch = concat (replicate pixels f32_bytes_one),
        mv_scratch = replicate (pixels * 4) 0, frame_id = 0, render_w = rw, render_h = rh, display_w = dw, display_h = dh\<rparr>)))))))))))"

text \<open>When construction fails the Vulkan context is dropped, and nothing else.\<close>

definition fg_new :: "Gpu \<Rightarrow> u32 \<Rightarrow> u32 \<Rightarrow> u32 \<Rightarrow> u32 \<Rightarrow> Fsr3FrameGen gpu" where
  "fg_new G rw rh dw dh =
     vk_then (from_vulkan G (VulkanContext_new (gp_host G) [])) (\<lambda>ctx.
     vk_catch (vk_then (fg_open G rw rh dw dh) (\<lambda>fg. fg_resources G rw rh dw dh ctx fg))
       (\<lambda>e. vk_then (from_vulkan G (VulkanContext_drop ctx)) (\<lambda>_. vk_fail e)))"

section \<open>Pixels\<close>

text \<open>A pixel becomes four half-precision numbers, and back.\<close>

definition put_half :: "Gpu \<Rightarrow> bytes \<Rightarrow> usize \<Rightarrow> usize \<Rightarrow> bytes \<Rightarrow> bytes option" where
  "put_half G data src dst out = (case vslice data src (src + 4) of
     None \<Rightarrow> None
   | Some px \<Rightarrow> write_slice out dst (concat (map (\<lambda>v. to_le 2 (gp_to_half G v)) px)))"

definition rgba8_to_rgba16f :: "Gpu \<Rightarrow> bytes \<Rightarrow> usize \<Rightarrow> usize \<Rightarrow> usize \<Rightarrow> bytes option" where
  "rgba8_to_rgba16f G data width height stride =
     (let row_bytes = width * 8 in
      fold_option (\<lambda>(y, x). put_half G data (y * stride + x * 4) (y * row_bytes + x * 8))
        (List.product [0..<height] [0..<width]) (replicate (row_bytes * height) 0))"

definition take_half :: "Gpu \<Rightarrow> bytes \<Rightarrow> usize \<Rightarrow> usize \<Rightarrow> bytes \<Rightarrow> bytes option" where
  "take_half G halves src dst out = (case vslice halves src (src + 8) of
     None \<Rightarrow> None
   | Some hs \<Rightarrow> write_slice out dst (map (\<lambda>c. gp_of_half G (of_le [hs ! (c * 2), hs ! (c * 2 + 1)])) [0..<4]))"

definition rgba16f_to_rgba8 :: "Gpu \<Rightarrow> bytes \<Rightarrow> usize \<Rightarrow> usize \<Rightarrow> bytes option" where
  "rgba16f_to_rgba8 G halves width height =
     (let row_bytes = width * 8; out_row = width * 4 in
      fold_option (\<lambda>(y, x). take_half G halves (y * row_bytes + x * 8) (y * out_row + x * 4))
        (List.product [0..<height] [0..<width]) (replicate (out_row * height) 0))"

section \<open>Uploads\<close>

definition fill_commands :: "handle \<Rightarrow> GpuImage \<Rightarrow> u32 \<Rightarrow> u32 \<Rightarrow> GfxCmd list" where
  "fill_commands staging dst w h =
     [ImageBarrier (gi_image dst) UNDEFINED TRANSFER_DST_OPTIMAL,
      CopyBufferToImage staging (gi_image dst) TRANSFER_DST_OPTIMAL w h]"

text \<open>The staging buffer is destroyed at the end and on no other path.\<close>

definition fill_image :: "Gpu \<Rightarrow> u64 \<Rightarrow> bytes \<Rightarrow> GpuImage \<Rightarrow> u32 \<Rightarrow> u32 \<Rightarrow> unit gpu" where
  "fill_image G n data dst w h =
     (let D = gp_driver G in
      vk_then (from_vulkan G (create_buffer D n {BUF_TRANSFER_SRC} {HOST_VISIBLE, HOST_COHERENT})) (\<lambda>(staging, staging_mem).
      vk_then (from_vulkan G (upload_to_buffer D staging_mem data)) (\<lambda>_.
      vk_then (from_vulkan G (allocate_command_buffer D)) (\<lambda>_.
      vk_then (vk_begin D (failed G [])) (\<lambda>_.
      vk_then (vk_record (fill_commands staging dst w h)) (\<lambda>_.
      vk_then (vk_call D (failed G [])) (\<lambda>_.
      vk_then (from_vulkan G (submit_and_wait D)) (\<lambda>_.
      vk_then (destroy_all [(KBuffer, staging), (KMemory, staging_mem)]) (\<lambda>_.
      vk_return ())))))))))"

definition upload_rgba16f :: "Gpu \<Rightarrow> bytes \<Rightarrow> u32 \<Rightarrow> u32 \<Rightarrow> GpuImage \<Rightarrow> unit gpu" where
  "upload_rgba16f G halves width height dst = fill_image G (word_of_nat (unat width * 8 * unat height)) halves dst width height"

definition fill_depth_far :: "Gpu \<Rightarrow> GpuImage \<Rightarrow> bytes \<Rightarrow> unit gpu" where
  "fill_depth_far G dst data = fill_image G (ucast (gi_width dst) * ucast (gi_height dst) * 4) data dst (gi_width dst) (gi_height dst)"

definition fill_mv_zero :: "Gpu \<Rightarrow> GpuImage \<Rightarrow> bytes \<Rightarrow> unit gpu" where
  "fill_mv_zero G dst data = fill_image G (ucast (gi_width dst) * ucast (gi_height dst) * 4) data dst (gi_width dst) (gi_height dst)"

section \<open>A frame\<close>

definition ffx_resource :: "handle \<Rightarrow> FfxSurfaceFormat \<Rightarrow> u32 \<Rightarrow> u32 \<Rightarrow> FfxResourceState \<Rightarrow> FfxResource" where
  "ffx_resource img format w h state =
     \<lparr>fx_resource = Some img,
      fx_description = \<lparr>fd_type = FFX_RESOURCE_TYPE_TEXTURE2D, fd_format = format, fd_width = w, fd_height = h, fd_depth = 1,
        fd_mip_count = 1, fd_flags = FFX_RESOURCE_FLAGS_NONE, fd_usage = 2\<rparr>,
      fx_state = state\<rparr>"

definition fg_barriers :: "Fsr3FrameGen \<Rightarrow> GfxCmd list" where
  "fg_barriers fg = map (\<lambda>i. ImageBarrier (gi_image i) UNDEFINED GENERAL)
     [input_color fg, input_depth fg, input_mv fg, dilated_depth fg, dilated_mv fg, optical_flow_vector fg, optical_flow_scd fg,
      output_color fg]"

definition fx_dilated_depth :: "Fsr3FrameGen \<Rightarrow> FfxResource" where
  "fx_dilated_depth fg = ffx_resource (gi_image (dilated_depth fg)) FFX_SURFACE_FORMAT_R32_FLOAT (render_w fg) (render_h fg)
     FFX_RESOURCE_STATE_UNORDERED_ACCESS"

definition fx_dilated_mv :: "Fsr3FrameGen \<Rightarrow> FfxResource" where
  "fx_dilated_mv fg = ffx_resource (gi_image (dilated_mv fg)) FFX_SURFACE_FORMAT_R16G16_FLOAT (render_w fg) (render_h fg)
     FFX_RESOURCE_STATE_UNORDERED_ACCESS"

definition fx_rec_prev_depth :: "Fsr3FrameGen \<Rightarrow> FfxResource" where
  "fx_rec_prev_depth fg =
     \<lparr>fx_resource = Some (reconstructed_prev_depth fg),
      fx_description = \<lparr>fd_type = 0, fd_format = 0, fd_width = render_w fg * render_h fg, fd_height = 1, fd_depth = 1, fd_mip_count = 1,
        fd_flags = FFX_RESOURCE_FLAGS_NONE, fd_usage = 2\<rparr>,
      fx_state = FFX_RESOURCE_STATE_UNORDERED_ACCESS\<rparr>"

text \<open>The numbers are \<open>1.0\<close>, \<open>16.67\<close>, \<open>0.01\<close>, \<open>1000.0\<close> and \<open>0.0001\<close>.\<close>

definition prepare_desc :: "Fsr3FrameGen \<Rightarrow> u64 \<Rightarrow> FfxPrepareDescription" where
  "prepare_desc fg fid =
     \<lparr>xp_flags = 0, xp_render_size = (render_w fg, render_h fg), xp_jitter_offset = (0, 0), xp_motion_vector_scale = (0x3F800000, 0x3F800000),
      xp_frame_time_delta = 0x41855C29, xp_camera_near = 0x3C23D70A, xp_camera_far = 0x447A0000, xp_camera_fov = 0x3F800000,
      xp_view_space_to_meters = 0x3F800000,
      xp_depth = ffx_resource (gi_image (input_depth fg)) FFX_SURFACE_FORMAT_R32_FLOAT (render_w fg) (render_h fg) FFX_RESOURCE_STATE_COMPUTE_READ,
      xp_motion_vectors = ffx_resource (gi_image (input_mv fg)) FFX_SURFACE_FORMAT_R16G16_FLOAT (render_w fg) (render_h fg)
        FFX_RESOURCE_STATE_COMPUTE_READ,
      xp_frame_id = fid, xp_dilated_depth = fx_dilated_depth fg, xp_dilated_motion_vectors = fx_dilated_mv fg,
      xp_reconstructed_prev_depth = fx_rec_prev_depth fg\<rparr>"

definition dispatch_desc :: "Fsr3FrameGen \<Rightarrow> u64 \<Rightarrow> FfxDispatchDescription" where
  "dispatch_desc fg fid =
     \<lparr>xd_flags = FFX_FRAMEINTERPOLATION_DISPATCH_DRAW_DEBUG_TEAR_LINES, xd_display_size = (display_w fg, display_h fg),
      xd_render_size = (render_w fg, render_h fg),
      xd_current_back_buffer = ffx_resource (gi_image (input_color fg)) FFX_SURFACE_FORMAT_R16G16B16A16_FLOAT (render_w fg) (render_h fg)
        FFX_RESOURCE_STATE_COMPUTE_READ,
      xd_current_back_buffer_hudless = FfxResource_default,
      xd_output = ffx_resource (gi_image (output_color fg)) FFX_SURFACE_FORMAT_R16G16B16A16_FLOAT (display_w fg) (display_h fg)
        FFX_RESOURCE_STATE_UNORDERED_ACCESS,
      xd_interpolation_rect = (0, 0, sint (display_w fg), sint (display_h fg)),
      xd_optical_flow_vector = ffx_resource (gi_image (optical_flow_vector fg)) FFX_SURFACE_FORMAT_R16G16_FLOAT (render_w fg) (render_h fg)
        FFX_RESOURCE_STATE_UNORDERED_ACCESS,
      xd_scene_change_detection = ffx_resource (gi_image (optical_flow_scd fg)) FFX_SURFACE_FORMAT_R8G8B8A8_UNORM (render_w fg) (render_h fg)
        FFX_RESOURCE_STATE_UNORDERED_ACCESS,
      xd_optical_flow_scale = (0x3F800000, 0x3F800000), xd_optical_flow_block_size = 8, xd_camera_near = 0x3C23D70A,
      xd_camera_far = 0x447A0000, xd_camera_fov = 0x3F800000, xd_view_space_to_meters = 0x3F800000, xd_frame_time_delta = 0x41855C29,
      xd_reset = False, xd_transfer_function = FFX_BACKBUFFER_TRANSFER_FUNCTION_SRGB, xd_min_max_luminance = (0x38D1B717, 0x447A0000),
      xd_frame_id = fid, xd_dilated_depth = fx_dilated_depth fg, xd_dilated_motion_vectors = fx_dilated_mv fg,
      xd_reconstructed_prev_depth = fx_rec_prev_depth fg, xd_distortion_field = FfxResource_default\<rparr>"

definition fg_readback_commands :: "Fsr3FrameGen \<Rightarrow> GfxCmd list" where
  "fg_readback_commands fg =
     [ImageBarrier (gi_image (output_color fg)) GENERAL TRANSFER_SRC_OPTIMAL,
      CopyImageToBuffer (gi_image (output_color fg)) TRANSFER_SRC_OPTIMAL (fg_staging_buffer fg) (display_w fg) (display_h fg)]"

text \<open>Up to the preparation: the inputs are filled and all images move to their working layout.\<close>

definition fg_begin :: "Gpu \<Rightarrow> Fsr3FrameGen \<Rightarrow> bytes \<Rightarrow> u32 \<Rightarrow> u32 \<Rightarrow> unit gpu" where
  "fg_begin G fg halves w h =
     (let D = gp_driver G in
      vk_then (upload_rgba16f G halves w h (input_color fg)) (\<lambda>_.
      vk_then (fill_depth_far G (input_depth fg) (depth_scratch fg)) (\<lambda>_.
      vk_then (fill_mv_zero G (input_mv fg) (mv_scratch fg)) (\<lambda>_.
      vk_then (vk_map_err (\<lambda>e. InterpolateFailed (''alloc cmd: '' @ VulkanError_text G e)) (allocate_command_buffer D)) (\<lambda>_.
      vk_then (vk_begin D (failed G ''begin cmd: '')) (\<lambda>_.
      vk_record (fg_barriers fg)))))))"

text \<open>A failing call of the SDK ends the command buffer, whatever that returns, and frees it.\<close>

definition fg_sdk_call :: "Gpu \<Rightarrow> string \<Rightarrow> unit gpu" where
  "fg_sdk_call G text =
     (let D = gp_driver G in
      vk_catch (vk_call D (sdk_failed G text))
        (\<lambda>e. vk_then (vk_catch (vk_call D (\<lambda>_. ())) (\<lambda>_. vk_return ())) (\<lambda>_. vk_fail e)))"

definition fg_finish :: "Gpu \<Rightarrow> Fsr3FrameGen \<Rightarrow> u64 \<Rightarrow> bytes gpu" where
  "fg_finish G fg fid =
     (let D = gp_driver G in
      vk_then (fg_sdk_call G ''ffxFrameInterpolationPrepare failed: '') (\<lambda>_.
      vk_then (vk_record [FfxPrepare (prepare_desc fg fid)]) (\<lambda>_.
      vk_then (fg_sdk_call G ''ffxFrameInterpolationDispatch failed: '') (\<lambda>_.
      vk_then (vk_record [FfxDispatch (dispatch_desc fg fid)]) (\<lambda>_.
      vk_then (vk_record (fg_readback_commands fg)) (\<lambda>_.
      vk_then (vk_call D (failed G ''end cmd: '')) (\<lambda>_.
      vk_then (vk_map_err (\<lambda>e. InterpolateFailed (''submit: '' @ VulkanError_text G e)) (submit_and_wait D)) (\<lambda>_.
      vk_read D (failed G ''map memory: '') (fg_staging_mem fg) (unat (fg_staging_size fg))))))))))"

definition midpoint_ns :: "GpuFrame \<Rightarrow> GpuFrame \<Rightarrow> u64" where
  "midpoint_ns a b = (if gf_timestamp_ns a \<le> gf_timestamp_ns b
     then gf_timestamp_ns a + (gf_timestamp_ns b - gf_timestamp_ns a) div 2 else gf_timestamp_ns a)"

definition generate_frame ::
  "Gpu \<Rightarrow> GpuFrame \<times> GpuFrame \<Rightarrow> Fsr3FrameGen \<Rightarrow> gpu_state
   \<Rightarrow> (InterpolateError + GpuFrame) option \<times> Fsr3FrameGen \<times> gpu_state" where
  "generate_frame G q fg s = (case q of (a, b) \<Rightarrow>
     if \<not> same_dimensions a b
     then (Some (Inl (DimensionMismatch (gf_width a) (gf_height a) (gf_width b) (gf_height b))), fg, s)
     else case rgba8_to_rgba16f G (gf_data b) (unat (gf_width b)) (unat (gf_height b)) (unat (gf_stride b)) of
       None \<Rightarrow> (None, fg, s)
     | Some halves \<Rightarrow> (case fg_begin G fg halves (gf_width b) (gf_height b) s of
         (Inl e, s1) \<Rightarrow> (Some (Inl e), fg, s1)
       | (Inr _, s1) \<Rightarrow> (case fg_finish G fg (frame_id fg) s1 of
           (Inl e, s2) \<Rightarrow> (Some (Inl e), fg\<lparr>frame_id := frame_id fg + 1\<rparr>, s2)
         | (Inr bytes, s2) \<Rightarrow> (map_option (\<lambda>data. Inr \<lparr>gf_data = data, gf_width = display_w fg, gf_height = display_h fg,
                gf_stride = display_w fg * 4, gf_timestamp_ns = midpoint_ns a b\<rparr>)
               (rgba16f_to_rgba8 G bytes (unat (display_w fg)) (unat (display_h fg))),
             fg\<lparr>frame_id := frame_id fg + 1\<rparr>, s2))))"

text \<open>\<^verbatim>\<open>Drop\<close> destroys the SDK's context; then the Vulkan context goes.\<close>

definition fg_drop :: "Fsr3FrameGen \<Rightarrow> gpu_state \<Rightarrow> gpu_state" where
  "fg_drop fg s = snd (VulkanContext_drop (fg_vk fg) (snd ((vk_destroy KFrameGenContext (fg_ctx fg) :: unit gpu) s)))"

section \<open>Pixels there and back\<close>

lemma product_blocks: "List.product [0..<h] [0..<w] = map (\<lambda>k. (k div w, k mod w)) [0..<w * h]"
proof (rule nth_equalityI)
  fix k assume k: "k < length (List.product [0..<h] [0..<w])"
  then have "k < h * w" "0 < w" by (simp_all, metis mult_0_right not_gr_zero not_less_zero)
  then have "k div w < h" "k mod w < w" by (simp_all add: less_mult_imp_div_less)
  then show "List.product [0..<h] [0..<w] ! k = map (\<lambda>k. (k div w, k mod w)) [0..<w * h] ! k"
    using k by (simp add: product_nth mult.commute)
qed (simp add: mult.commute)

lemma fold_option_map: "fold_option f (map g xs) b = fold_option (\<lambda>x. f (g x)) xs b"
  by (induction xs arbitrary: b) (auto split: option.splits)

lemma fold_option_cong: "(\<And>x b. x \<in> set xs \<Longrightarrow> f x b = g x b) \<Longrightarrow> fold_option f xs b = fold_option g xs b"
  by (induction xs arbitrary: b) (auto split: option.splits)

lemma fold_option_all: "fold_option f xs b = Some r \<Longrightarrow> x \<in> set xs \<Longrightarrow> \<exists>b b'. f x b = Some b'"
  by (induction xs arbitrary: b) (auto split: option.splits)

text \<open>The pixels of a picture whose rows are \<open>stride\<close> bytes apart, without the padding.\<close>

definition pixel_at :: "bytes \<Rightarrow> nat \<Rightarrow> nat \<times> nat \<Rightarrow> bytes" where
  "pixel_at data stride p = take 4 (drop (fst p * stride + snd p * 4) data)"

definition visible_pixels :: "bytes \<Rightarrow> nat \<Rightarrow> nat \<Rightarrow> nat \<Rightarrow> bytes" where
  "visible_pixels data w h stride = concat (map (pixel_at data stride) (List.product [0..<h] [0..<w]))"

definition covers :: "bytes \<Rightarrow> nat \<Rightarrow> nat \<Rightarrow> nat \<Rightarrow> bool" where
  "covers data w h stride \<longleftrightarrow> (\<forall>y < h. \<forall>x < w. y * stride + x * 4 + 4 \<le> length data)"

definition half_pixel :: "Gpu \<Rightarrow> bytes \<Rightarrow> bytes" where
  "half_pixel G px = concat (map (\<lambda>v. to_le 2 (gp_to_half G v)) px)"

lemma length_half_pixel [simp]: "length (half_pixel G px) = 2 * length px"
  by (induction px) (simp_all add: half_pixel_def)

lemma position: "k div w * (w * 8) + k mod w * 8 = 8 * (k :: nat)" "k div w * (w * 4) + k mod w * 4 = 4 * (k :: nat)"
  by (metis (no_types, lifting) add_mult_distrib div_mult_mod_eq mult.assoc mult.commute)+

lemma in_grid: "k < w * h \<Longrightarrow> k div w < h \<and> k mod w < (w :: nat)"
  by (metis less_mult_imp_div_less mod_less_divisor mult.commute mult_0_right not_gr_zero not_less_zero)

lemma to_half_covered:
  assumes "covers data w h stride"
  shows "rgba8_to_rgba16f G data w h stride =
     Some (concat (map (half_pixel G) (map (pixel_at data stride) (List.product [0..<h] [0..<w]))))"
proof -
  let ?px = "\<lambda>k. pixel_at data stride (k div w, k mod w)"
  have enough: "k div w * stride + k mod w * 4 + 4 \<le> length data" if "k < w * h" for k
    using assms in_grid [OF that] by (simp add: covers_def)
  have put: "put_half G data (k div w * stride + k mod w * 4) (k div w * (w * 8) + k mod w * 8) b = write_slice b (8 * k) (half_pixel G (?px k))"
    if "k < w * h" for k b
    using enough [OF that] by (simp add: put_half_def vslice_def position half_pixel_def pixel_at_def)
  have len: "length (half_pixel G (?px k)) = 8" if "k < w * h" for k
    using enough [OF that] by (simp add: pixel_at_def)
  have "rgba8_to_rgba16f G data w h stride =
      fold_option (\<lambda>k. put_half G data (k div w * stride + k mod w * 4) (k div w * (w * 8) + k mod w * 8)) [0..<w * h] (replicate (8 * (w * h)) 0)"
    unfolding rgba8_to_rgba16f_def Let_def product_blocks fold_option_map by (simp add: mult.assoc mult.left_commute [of w])
  also have "\<dots> = Some (concat (map (\<lambda>k. half_pixel G (?px k)) [0..<w * h]))"
    using fold_blocks [of "w * h" 8 "w * h" "\<lambda>k. put_half G data (k div w * stride + k mod w * 4) (k div w * (w * 8) + k mod w * 8)"
        "\<lambda>k. half_pixel G (?px k)" 0] put len by simp
  finally show ?thesis by (simp add: product_blocks comp_def)
qed

lemma to_half_short:
  assumes "\<not> covers data w h stride"
  shows "rgba8_to_rgba16f G data w h stride = None"
proof (rule ccontr)
  obtain y x where yx: "y < h" "x < w" "\<not> y * stride + x * 4 + 4 \<le> length data" using assms by (auto simp: covers_def)
  assume "rgba8_to_rgba16f G data w h stride \<noteq> None"
  then obtain r where "rgba8_to_rgba16f G data w h stride = Some r" by blast
  from fold_option_all [OF this [unfolded rgba8_to_rgba16f_def Let_def], of "(y, x)"] yx
  show False by (auto simp: put_half_def vslice_def)
qed

lemma le_pair: "length bs = 2 \<Longrightarrow> [bs ! 0, bs ! Suc 0] = bs"
  by (cases bs; cases "tl bs") auto

lemma of_half_pixel:
  assumes "\<And>v. gp_of_half G (gp_to_half G v) = v" and "length px = 4"
  shows "map (\<lambda>c. gp_of_half G (of_le [half_pixel G px ! (c * 2), half_pixel G px ! (c * 2 + 1)])) [0..<4] = px"
proof -
  obtain a b c d where px: "px = [a, b, c, d]" using assms(2) by (auto simp: eval_nat_numeral length_Suc_conv)
  have pair: "[to_le 2 (gp_to_half G v) ! 0, to_le 2 (gp_to_half G v) ! Suc 0] = to_le 2 (gp_to_half G v)" for v by (rule le_pair) simp
  have bk: "gp_of_half G (of_le (to_le 2 (gp_to_half G v))) = v" for v
    using assms(1) [of v] of_le_to_le [of 2 "gp_to_half G v"] by simp
  show ?thesis using pair bk
    by (simp add: px half_pixel_def upt_rec nth_append)
qed


text \<open>The conversions as the formats define them: the nearest half of \<open>v / 255\<close>, and the nearest integer to \<open>255\<close> times a half.\<close>

definition half_of :: "int \<Rightarrow> int" where
  "half_of n = (let e = length (takeWhile (\<lambda>k. n * 2 ^ k < 255) [0..<8]) in
     if n = 0 then 0 else (15 - int e) * 1024 + ((2 * n * 2 ^ (10 + e) + 255) div 510 - 1024))"

definition channel_of :: "int \<Rightarrow> int" where
  "channel_of h = (let d = 2 ^ nat (25 - h div 1024) in
     if h = 0 then 0 else min 255 ((2 * 255 * (1024 + h mod 1024) + d) div (2 * d)))"

definition channel_half :: "u8 \<Rightarrow> u16" where
  "channel_half v = word_of_int (half_of (uint v))"

definition half_channel :: "u16 \<Rightarrow> u8" where
  "half_channel h = word_of_int (channel_of (uint h))"

lemma channels_return: "list_all (\<lambda>n. 0 \<le> half_of n \<and> half_of n < 65536 \<and> channel_of (half_of n) = n) [0..255]"
  by code_simp

lemma channel_return: "half_channel (channel_half v) = v"
proof -
  have "uint v \<in> set [0..255]" using uint_bounded [of v] by simp
  then have h: "0 \<le> half_of (uint v)" "half_of (uint v) < 65536" "channel_of (half_of (uint v)) = uint v"
    using channels_return unfolding list_all_iff by blast+
  then have "uint (channel_half v) = half_of (uint v)"
    by (simp add: channel_half_def unsigned_of_int take_bit_int_eq_self)
  then show ?thesis using h by (simp add: half_channel_def)
qed


section \<open>Objects\<close>

definition image_objects :: "GpuImage \<Rightarrow> (obj_kind \<times> handle) multiset" where
  "image_objects i = {#(KImageView, gi_view i), (KImage, gi_image i), (KMemory, gi_memory i)#}"

text \<open>What no destructor destroys, and everything the backend holds.\<close>

definition fg_left :: "Fsr3FrameGen \<Rightarrow> (obj_kind \<times> handle) multiset" where
  "fg_left fg =
     image_objects (input_color fg) + image_objects (input_depth fg) + image_objects (input_mv fg) + image_objects (output_color fg) +
     image_objects (dilated_depth fg) + image_objects (dilated_mv fg) + image_objects (optical_flow_vector fg) +
     image_objects (optical_flow_scd fg) +
     {#(KBuffer, reconstructed_prev_depth fg), (KMemory, reconstructed_prev_depth_mem fg),
       (KBuffer, fg_staging_buffer fg), (KMemory, fg_staging_mem fg)#}"

definition fg_objs :: "Fsr3FrameGen \<Rightarrow> (obj_kind \<times> handle) multiset" where
  "fg_objs fg = add_mset (KFrameGenContext, fg_ctx fg) (context_objects (fg_vk fg) + fg_left fg)"

lemma compute_image_ok:
  assumes "create_compute_image G f w h s = (Inr i, t)"
  shows "vk_live t = vk_live s + image_objects i \<and> vk_misuse t = vk_misuse s \<and> gi_image i = vk_calls s \<and> vk_calls s < vk_calls t \<and>
     gi_format i = f \<and> gi_width i = w \<and> gi_height i = h"
  using assms by (auto simp: create_compute_image_def Let_def vk_ok image_objects_def add_mset_commute split: option.splits)

lemma fg_image_ok:
  "fg_image G text f w h s = (Inr i, t) \<Longrightarrow>
     vk_live t = vk_live s + image_objects i \<and> vk_misuse t = vk_misuse s \<and> gi_image i = vk_calls s \<and> vk_calls s < vk_calls t \<and>
     gi_format i = f \<and> gi_width i = w \<and> gi_height i = h"
  unfolding fg_image_def vk_ok by (rule compute_image_ok)

lemma fg_buffer_ok:
  assumes "fg_buffer G text n usage flags s = (Inr (b, m), t)"
  shows "vk_live t = vk_live s + {#(KBuffer, b), (KMemory, m)#} \<and> vk_misuse t = vk_misuse s \<and> vk_calls s < vk_calls t"
  using assms owns_apply [OF create_buffer_owns, of "gp_driver G" n usage flags s] create_buffer_fresh [of "gp_driver G" n usage flags s b m t]
  by (simp add: fg_buffer_def vk_ok)

lemma fg_open_ok:
  "fg_open G rw rh dw dh s = (Inr fg, t) \<Longrightarrow> vk_live t = add_mset (KFrameGenContext, fg) (vk_live s) \<and> vk_misuse t = vk_misuse s"
  by (auto simp: fg_open_def Let_def vk_ok)

lemma fg_resources_ok:
  assumes "fg_resources G rw rh dw dh ctx h s = (Inr fg, t)"
  shows "vk_live t = vk_live s + fg_left fg \<and> vk_misuse t = vk_misuse s \<and> fg_vk fg = ctx \<and> fg_ctx fg = h \<and>
     distinct [gi_image (input_color fg), gi_image (input_depth fg), gi_image (input_mv fg)] \<and>
     gi_width (input_color fg) = rw \<and> gi_height (input_color fg) = rh \<and>
     gi_width (input_depth fg) = rw \<and> gi_height (input_depth fg) = rh \<and> gi_width (input_mv fg) = rw \<and> gi_height (input_mv fg) = rh \<and>
     depth_scratch fg = concat (replicate (unat rw * unat rh) f32_bytes_one) \<and> mv_scratch fg = replicate (unat rw * unat rh * 4) 0 \<and>
     display_w fg = dw \<and> display_h fg = dh \<and> fg_staging_size fg = ucast dw * ucast dh * 8"
  using assms
  apply (clarsimp simp: fg_resources_def Let_def vk_ok)
  apply (drule fg_image_ok fg_buffer_ok)+
  apply (clarsimp simp: fg_left_def)
  done

lemma fg_new_ok:
  assumes "fg_new G rw rh dw dh s = (Inr fg, t)"
  shows "vk_live t = vk_live s + fg_objs fg \<and> vk_misuse t = vk_misuse s \<and>
     distinct [gi_image (input_color fg), gi_image (input_depth fg), gi_image (input_mv fg)] \<and>
     gi_width (input_color fg) = rw \<and> gi_height (input_color fg) = rh \<and>
     gi_width (input_depth fg) = rw \<and> gi_height (input_depth fg) = rh \<and> gi_width (input_mv fg) = rw \<and> gi_height (input_mv fg) = rh \<and>
     depth_scratch fg = concat (replicate (unat rw * unat rh) f32_bytes_one) \<and> mv_scratch fg = replicate (unat rw * unat rh * 4) 0 \<and>
     display_w fg = dw \<and> display_h fg = dh \<and> fg_staging_size fg = ucast dw * ucast dh * 8"
proof -
  obtain ctx s1 h s2 where r: "VulkanContext_new (gp_host G) [] s = (Inr ctx, s1)" "fg_open G rw rh dw dh s1 = (Inr h, s2)"
      "fg_resources G rw rh dw dh ctx h s2 = (Inr fg, t)"
    using assms unfolding fg_new_def by (auto simp: vk_then_ok vk_catch_ok from_vulkan_ok vk_fail_ok)
  have "vk_live s1 = vk_live s + context_objects ctx" "vk_misuse s1 = vk_misuse s"
    using with_request_ok r(1) unfolding VulkanContext_new_def by blast+
  then show ?thesis using fg_open_ok [OF r(2)] fg_resources_ok [OF r(3)] by (simp add: fg_objs_def union_ac)
qed

lemma fill_owns: "owns {#} (fill_image G n data dst w h) (\<lambda>_. {#}) (\<lambda>L. {#} \<subseteq># L)"
  unfolding fill_image_def Let_def upload_to_buffer_def allocate_command_buffer_def
  by (rule owns_then_pair [OF owns_more_pair [OF from_vulkan_owns [OF create_buffer_owns]]], rule subset_mset.zero_le,
      rule owns_then [OF from_vulkan_owns [OF owns_kept [OF owns_write]]], rule subset_mset.zero_le,
      rule owns_then [OF from_vulkan_owns [OF owns_kept [OF owns_call]]], rule subset_mset.zero_le,
      rule owns_then [OF owns_kept [OF owns_begin]], rule subset_mset.zero_le, rule owns_then [OF owns_record],
      rule owns_then [OF owns_kept [OF owns_call]], rule subset_mset.zero_le,
      rule owns_then [OF owns_weaken [OF owns_same [OF from_vulkan_owns [OF submit_and_wait_owns]]]], simp,
      rule owns_then [OF owns_destroys_eq], simp add: add_mset_commute, rule owns_keep)

lemma fg_begin_owns: "owns {#} (fg_begin G fg halves w h) (\<lambda>_. {#}) (\<lambda>L. {#} \<subseteq># L)"
  unfolding fg_begin_def Let_def upload_rgba16f_def fill_depth_far_def fill_mv_zero_def allocate_command_buffer_def
  by (rule owns_then [OF fill_owns], rule owns_then [OF fill_owns], rule owns_then [OF fill_owns],
      rule owns_then [OF map_err_owns [OF owns_kept [OF owns_call]]], rule subset_mset.zero_le,
      rule owns_then [OF owns_kept [OF owns_begin]], rule subset_mset.zero_le, rule owns_record)

lemma fg_sdk_call_owns: "owns P (fg_sdk_call G text) (\<lambda>_. P) (\<lambda>L. L = P)"
proof -
  have h: "owns L (vk_then (vk_catch (vk_call (gp_driver G) (\<lambda>_. ())) (\<lambda>_. vk_return ())) (\<lambda>_. vk_fail e)) (\<lambda>_. P) (\<lambda>L. L = P)"
    if "L = P" for e :: InterpolateError and L
    unfolding that by (rule owns_then [OF owns_catch [OF owns_call]]) (auto intro: owns_keep owns_fail)
  show ?thesis unfolding fg_sdk_call_def Let_def by (rule owns_catch [OF owns_call]) (rule h)
qed

lemma fg_finish_owns: "owns P (fg_finish G fg fid) (\<lambda>_. P) (\<lambda>L. L = P)"
  unfolding fg_finish_def Let_def
  by (rule owns_then [OF fg_sdk_call_owns] owns_then [OF owns_record] owns_then [OF owns_call]
      owns_then [OF map_err_owns [OF owns_same [OF submit_and_wait_owns]]] owns_read)+

lemma generate_live:
  assumes "generate_frame G q fg s = (r, fg', s')"
  shows "vk_misuse s' = vk_misuse s \<and> (\<exists>n. fg' = fg\<lparr>frame_id := n\<rparr>) \<and>
     (\<exists>L. vk_live s' = vk_live s + L \<and> ((\<exists>f. r = Some (Inr f)) \<longrightarrow> L = {#}))"
proof -
  obtain a b where q: "q = (a, b)" by (cases q)
  have "fg = fg\<lparr>frame_id := frame_id fg\<rparr>" by simp
  then have id: "\<exists>n. fg = fg\<lparr>frame_id := n\<rparr>" ..
  show ?thesis
  proof (cases "same_dimensions a b")
    case False
    then show ?thesis using assms id by (auto simp: generate_frame_def q)
  next
    case same: True
    show ?thesis
    proof (cases "rgba8_to_rgba16f G (gf_data b) (unat (gf_width b)) (unat (gf_height b)) (unat (gf_stride b))")
      case None
      then show ?thesis using assms same id by (auto simp: generate_frame_def q)
    next
      case (Some hs)
      obtain x s1 where x: "fg_begin G fg hs (gf_width b) (gf_height b) s = (x, s1)" by fastforce
      note dx = ownsD [OF fg_begin_owns, of s "vk_live s", OF _ x]
      show ?thesis
      proof (cases x)
        case (Inl e)
        then show ?thesis using assms same Some dx id by (auto simp: generate_frame_def q x)
      next
        case (Inr u)
        obtain y s2 where y: "fg_finish G fg (frame_id fg) s1 = (y, s2)" by fastforce
        have dy: "vk_live s2 = vk_live s1 \<and> vk_misuse s2 = vk_misuse s1"
          using ownsD [OF fg_finish_owns [of "vk_live s1" G fg "frame_id fg"], of s1 "{#}", OF _ y] by (cases y) auto
        show ?thesis using assms same Some dx dy Inr by (cases y) (auto simp: generate_frame_def q x y)
      qed
    qed
  qed
qed

lemma fg_drop_live:
  assumes "vk_live s = B + fg_objs fg"
  shows "vk_live (fg_drop fg s) = B + fg_left fg \<and> vk_misuse (fg_drop fg s) = vk_misuse s"
proof -
  let ?t = "snd ((vk_destroy KFrameGenContext (fg_ctx fg) :: unit gpu) s)"
  have "vk_live ?t = (B + fg_left fg) + context_objects (fg_vk fg)" "vk_misuse ?t = vk_misuse s"
    using assms by (simp_all add: vk_destroy_def fg_objs_def union_ac)
  then show ?thesis using context_drop_live [of ?t "B + fg_left fg" "fg_vk fg"] by (simp add: fg_drop_def)
qed

interpretation framegen: gpu_session "generate_frame G" "\<lambda>r. \<not> (\<exists>f. r = Some (Inr f))" fg_objs fg_drop fg_left
proof
  fix q fg s r fg' s' B
  assume g: "generate_frame G q fg s = (r, fg', s')" and live: "vk_live s = B + fg_objs fg"
  have "fg_objs fg' = fg_objs fg" using generate_live [OF g] by (auto simp: fg_objs_def fg_left_def)
  then show "vk_misuse s' = vk_misuse s \<and> (\<exists>L. vk_live s' = B + L + fg_objs fg' \<and> (\<not> \<not> (\<exists>f. r = Some (Inr f)) \<longrightarrow> L = {#}))"
    using generate_live [OF g] live by (auto simp: union_ac)
next
  fix q fg s r fg' s' assume "generate_frame G q fg s = (r, fg', s')"
  then show "fg_left fg' = fg_left fg" using generate_live by (fastforce simp: fg_left_def)
next
  fix s :: gpu_state and B fg assume "vk_live s = B + fg_objs fg"
  then show "vk_live (fg_drop fg s) = B + fg_left fg \<and> vk_misuse (fg_drop fg s) = vk_misuse s" by (rule fg_drop_live)
qed

section \<open>Properties\<close>

lemma fill_ok:
  "fill_image G n data dst w h s = (Inr u, t) \<Longrightarrow>
     \<exists>sb. vk_submitted t = vk_submitted s @ [fill_commands sb dst w h]"
  apply (clarsimp simp: fill_image_def Let_def vk_ok upload_to_buffer_def allocate_command_buffer_def)
  apply (drule create_buffer_frame submit_and_wait_frame destroy_all_frame)+
  apply auto
  done

lemma fg_sdk_call_ok: "fg_sdk_call G text s = (Inr u, t) \<Longrightarrow> vk_submitted t = vk_submitted s \<and> vk_recorded t = vk_recorded s"
  by (auto simp: fg_sdk_call_def Let_def vk_ok)

lemma fg_begin_ok:
  assumes "fg_begin G fg halves w h s = (Inr u, t)"
  shows "\<exists>b1 b2 b3. vk_submitted t = vk_submitted s @
       [fill_commands b1 (input_color fg) w h, fill_commands b2 (input_depth fg) (gi_width (input_depth fg)) (gi_height (input_depth fg)),
        fill_commands b3 (input_mv fg) (gi_width (input_mv fg)) (gi_height (input_mv fg))] \<and> vk_recorded t = fg_barriers fg"
  using assms
  apply (clarsimp simp: fg_begin_def Let_def vk_ok upload_rgba16f_def fill_depth_far_def fill_mv_zero_def allocate_command_buffer_def)
  apply (drule fill_ok)+
  apply auto
  done

definition fg_commands :: "Fsr3FrameGen \<Rightarrow> GfxCmd list" where
  "fg_commands fg = fg_barriers fg @ FfxPrepare (prepare_desc fg (frame_id fg)) #
     FfxDispatch (dispatch_desc fg (frame_id fg)) # fg_readback_commands fg"

lemma fg_finish_ok:
  assumes "fg_finish G fg (frame_id fg) s = (Inr bytes, t)" and "vk_recorded s = fg_barriers fg"
  shows "vk_submitted t = vk_submitted s @ [fg_commands fg]"
  using assms
  apply (clarsimp simp: fg_finish_def Let_def vk_ok)
  apply (drule fg_sdk_call_ok submit_and_wait_frame)+
  apply (auto simp: fg_commands_def)
  done

lemma generate_ok:
  assumes "generate_frame G (a, b) fg s = (Some (Inr f), fg', t)"
  shows "\<exists>b1 b2 b3. vk_submitted t = vk_submitted s @
       [fill_commands b1 (input_color fg) (gf_width b) (gf_height b),
        fill_commands b2 (input_depth fg) (gi_width (input_depth fg)) (gi_height (input_depth fg)),
        fill_commands b3 (input_mv fg) (gi_width (input_mv fg)) (gi_height (input_mv fg)), fg_commands fg] \<and>
     gf_width f = display_w fg \<and> gf_height f = display_h fg \<and> gf_timestamp_ns f = midpoint_ns a b"
proof -
  obtain halves s1 bytes data where r: "fg_begin G fg halves (gf_width b) (gf_height b) s = (Inr (), s1)"
      "fg_finish G fg (frame_id fg) s1 = (Inr bytes, t)"
      "f = \<lparr>gf_data = data, gf_width = display_w fg, gf_height = display_h fg, gf_stride = display_w fg * 4, gf_timestamp_ns = midpoint_ns a b\<rparr>"
    using assms by (auto simp: generate_frame_def split: if_splits option.splits prod.splits sum.splits)
  then show ?thesis using fg_begin_ok [OF r(1)] fg_finish_ok [OF r(2)] by (auto simp: r(3))
qed

text \<open>Barriers from \<open>UNDEFINED\<close> leave nothing to read in any image they name.\<close>

lemma barriers_forget:
  "\<exists>m'. run_images (map (\<lambda>i. ImageBarrier (gi_image i) UNDEFINED GENERAL) is) m = Some m' \<and>
     (\<forall>h. (h \<in> gi_image ` set is \<longrightarrow> m' h = (GENERAL, Undefined)) \<and> (h \<notin> gi_image ` set is \<longrightarrow> m' h = m h))"
  by (induction "is" arbitrary: m) (force, simp, metis (no_types, lifting) fun_upd_apply)

lemma fills_define:
  assumes "distinct [gi_image c, gi_image d, gi_image v]"
  shows "\<exists>m'. run_images (fill_commands b1 c w h @ fill_commands b2 d w2 h2 @ fill_commands b3 v w3 h3) m = Some m' \<and>
     snd (m' (gi_image c)) = FromBuffer b1 w h \<and> snd (m' (gi_image d)) = FromBuffer b2 w2 h2 \<and> snd (m' (gi_image v)) = FromBuffer b3 w3 h3"
  using assms by (auto simp: fill_commands_def)

lemma fg_kept: "serve (generate_frame G) qs fg s = (rs, fg', t) \<Longrightarrow> \<exists>n. fg' = fg\<lparr>frame_id := n\<rparr>"
proof (induction qs arbitrary: fg s rs)
  case Nil
  then have "fg' = fg\<lparr>frame_id := frame_id fg\<rparr>" by simp
  then show ?case ..
next
  case (Cons q qs)
  obtain r fg1 s1 where st: "generate_frame G q fg s = (r, fg1, s1)" by (metis prod_cases3)
  obtain rs1 where go: "serve (generate_frame G) qs fg1 s1 = (rs1, fg', t)" using Cons.prems st by (auto split: prod.splits)
  obtain n where "fg1 = fg\<lparr>frame_id := n\<rparr>" using generate_live [OF st] by blast
  then show ?case using Cons.IH [OF go] by auto
qed

text \<open>C18. Frame generation throws its inputs away: every frame that is generated was preceded by batches that filled colour,
  depth and motion vectors, whatever was there before, but the batch that uses them first moves all three from
  \<open>UNDEFINED\<close>, so that the SDK prepares and dispatches on images without contents; and the frame is copied into the
  colour image over its own extent, not the image's.\<close>

theorem framegen_discards:
  assumes "fg_new G rw rh dw dh s0 = (Inr fg0, s1)" and "serve (generate_frame G) qs fg0 s1 = (rs, fg, s)"
    and "generate_frame G (a, b) fg s = (Some (Inr f), fg', t)"
  shows "\<exists>b1 b2 b3. vk_submitted t = vk_submitted s @
       [fill_commands b1 (input_color fg) (gf_width b) (gf_height b), fill_commands b2 (input_depth fg) rw rh,
        fill_commands b3 (input_mv fg) rw rh, fg_commands fg] \<and>
     gi_width (input_color fg) = rw \<and> gi_height (input_color fg) = rh \<and>
     (\<exists>m'. run_images (fill_commands b1 (input_color fg) (gf_width b) (gf_height b) @ fill_commands b2 (input_depth fg) rw rh @
         fill_commands b3 (input_mv fg) rw rh) m = Some m' \<and>
       snd (m' (gi_image (input_color fg))) = FromBuffer b1 (gf_width b) (gf_height b) \<and>
       snd (m' (gi_image (input_depth fg))) = FromBuffer b2 rw rh \<and> snd (m' (gi_image (input_mv fg))) = FromBuffer b3 rw rh) \<and>
     (\<exists>m'. run_images (fg_barriers fg) m = Some m' \<and> snd (m' (gi_image (input_color fg))) = Undefined \<and>
       snd (m' (gi_image (input_depth fg))) = Undefined \<and> snd (m' (gi_image (input_mv fg))) = Undefined) \<and>
     run_images (fg_commands fg) m = None"
proof -
  obtain n where fg: "fg = fg0\<lparr>frame_id := n\<rparr>" using fg_kept [OF assms(2)] by blast
  note new = fg_new_ok [OF assms(1)]
  have dims: "gi_width (input_color fg) = rw" "gi_height (input_color fg) = rh" "gi_width (input_depth fg) = rw"
      "gi_height (input_depth fg) = rh" "gi_width (input_mv fg) = rw" "gi_height (input_mv fg) = rh"
      "distinct [gi_image (input_color fg), gi_image (input_depth fg), gi_image (input_mv fg)]"
    using new by (simp_all add: fg)
  obtain b1 b2 b3 where bs: "vk_submitted t = vk_submitted s @
       [fill_commands b1 (input_color fg) (gf_width b) (gf_height b), fill_commands b2 (input_depth fg) rw rh,
        fill_commands b3 (input_mv fg) rw rh, fg_commands fg]"
    using generate_ok [OF assms(3)] unfolding dims by blast
  obtain m1 where m1: "run_images (fg_barriers fg) m = Some m1" "m1 (gi_image (input_color fg)) = (GENERAL, Undefined)"
      "m1 (gi_image (input_depth fg)) = (GENERAL, Undefined)" "m1 (gi_image (input_mv fg)) = (GENERAL, Undefined)"
    using barriers_forget [of "[input_color fg, input_depth fg, input_mv fg, dilated_depth fg, dilated_mv fg, optical_flow_vector fg,
        optical_flow_scd fg, output_color fg]" m] unfolding fg_barriers_def by (elim exE conjE) simp
  have none: "run_images (fg_commands fg) m = None"
    using m1 by (simp add: fg_commands_def prepare_desc_def readable_resource_def readable_def ffx_resource_def)
  have forget: "\<exists>m'. run_images (fg_barriers fg) m = Some m' \<and> snd (m' (gi_image (input_color fg))) = Undefined \<and>
       snd (m' (gi_image (input_depth fg))) = Undefined \<and> snd (m' (gi_image (input_mv fg))) = Undefined"
    using m1 by simp
  show ?thesis by (intro exI [of _ b1] exI [of _ b2] exI [of _ b3] conjI bs dims(1,2) fills_define [OF dims(7)] forget none)
qed

text \<open>Dropping the frame generation leaks: after any session its eight images with their memory and views and its two
  buffers are alive, twenty-eight objects, though the device they belong to is destroyed; nothing else stays unless a
  request failed.\<close>

theorem framegen_leaks:
  assumes "fg_new G rw rh dw dh s0 = (Inr fg, s1)" and "serve (generate_frame G) qs fg s1 = (rs, fg', t)"
  shows "size (fg_left fg) = 28 \<and> vk_misuse (fg_drop fg' t) = vk_misuse s0 \<and>
     (\<exists>L. vk_live (fg_drop fg' t) = vk_live s0 + fg_left fg + L \<and> (list_all (\<lambda>r. \<exists>f. r = Some (Inr f)) rs \<longrightarrow> L = {#}))"
proof -
  have live: "vk_live s1 = vk_live s0 + fg_objs fg" "vk_misuse s1 = vk_misuse s0" using fg_new_ok [OF assms(1)] by auto
  have "size (fg_left fg) = 28" by (simp add: fg_left_def image_objects_def)
  moreover obtain L where "vk_misuse (fg_drop fg' t) = vk_misuse s1" "vk_live (fg_drop fg' t) = vk_live s0 + L + fg_left fg"
      "list_all (\<lambda>r. \<exists>f. r = Some (Inr f)) rs \<longrightarrow> L = {#}"
    using framegen.session_objs [OF assms(2) live(1)] by auto
  ultimately show ?thesis using live(2) by (auto simp: union_ac)
qed

text \<open>The earlier frame's pixels are used nowhere.\<close>

lemma generate_ignores_earlier: "generate_frame G (a\<lparr>gf_data := d\<rparr>, b) fg s = generate_frame G (a, b) fg s"
proof -
  have same: "midpoint_ns (a\<lparr>gf_data := d\<rparr>) b = midpoint_ns a b" "same_dimensions (a\<lparr>gf_data := d\<rparr>) b = same_dimensions a b"
    by (simp_all add: midpoint_ns_def same_dimensions_def)
  show ?thesis unfolding generate_frame_def prod.case same by simp
qed

text \<open>A machine with cached host memory on which nothing fails, one-pixel frames and a display of one pixel.\<close>

definition fg_driver :: Driver where
  "fg_driver = demo_driver\<lparr>drv_memory_types := [{DEVICE_LOCAL}, {HOST_VISIBLE, HOST_COHERENT, HOST_CACHED}],
     drv_buffer_req := \<lambda>_. \<lparr>req_size = 64, req_bits = 3\<rparr>\<rparr>"

definition fg_gpu :: Gpu where
  "fg_gpu = demo_gpu fg_driver\<lparr>gp_to_half := channel_half, gp_of_half := half_channel\<rparr>"

lemma fg_gpu_driver [simp]: "gp_driver fg_gpu = fg_driver"
  by (simp add: fg_gpu_def gp_driver_def demo_gpu_def demo_host_def)

lemma fg_driver_willing: "willing fg_driver"
  by (simp add: willing_def fg_driver_def)

lemma fg_driver_types:
  "find_memory_type fg_driver (req_bits (drv_buffer_req fg_driver b)) {HOST_VISIBLE, HOST_COHERENT} = Some 1"
  "find_memory_type fg_driver (req_bits (drv_buffer_req fg_driver b)) {HOST_VISIBLE, HOST_COHERENT, HOST_CACHED} = Some 1"
  "find_memory_type fg_driver (req_bits (drv_buffer_req fg_driver b)) {DEVICE_LOCAL} = Some 0"
  "find_memory_type fg_driver (req_bits (drv_image_req fg_driver i)) {DEVICE_LOCAL} = Some 0"
  by (auto simp: find_memory_type_def fg_driver_def upt_rec bit_iff_odd demo_driver_def)

lemma demo_fg_buffer: "always (create_buffer fg_driver n usage flags)"
  if "flags \<in> {{HOST_VISIBLE, HOST_COHERENT}, {HOST_VISIBLE, HOST_COHERENT, HOST_CACHED}, {DEVICE_LOCAL}}"
  using that by (intro always_buffer fg_driver_willing) (auto simp: fg_driver_types)

lemma demo_fg_image: "always (fg_image fg_gpu text f w h)"
  unfolding fg_image_def create_compute_image_def Let_def fg_gpu_driver fg_driver_types option.case
  by (intro succeeding fg_driver_willing)

lemma demo_fg_new: "\<exists>fg t. fg_new fg_gpu 1 1 1 1 Vk_empty = (Inr fg, t)"
proof -
  let ?G = fg_gpu
  have "\<exists>ctx t. VulkanContext_new (gp_host ?G) [] Vk_empty = (Inr ctx, t)"
    by (simp add: VulkanContext_new_def with_request_def fg_gpu_def demo_gpu_def demo_host_def demo_device_def compute_only_def Let_def vk_run
        find_family_def to_vk_queue_flags_def compute_family_def encode_family_def choose_device_def upt_rec Vk_empty_def fg_driver_def)
  then obtain ctx t where c: "VulkanContext_new (gp_host ?G) [] Vk_empty = (Inr ctx, t)" by blast
  have "always (fg_open ?G 1 1 1 1)" unfolding fg_open_def Let_def fg_gpu_driver by (intro succeeding fg_driver_willing)
  moreover have "always (fg_resources ?G 1 1 1 1 ctx h)" for h
    unfolding fg_resources_def Let_def fg_buffer_def fg_gpu_driver
    by (auto intro!: succeeding demo_fg_image demo_fg_buffer split: prod.split)
  ultimately have "always (vk_then (fg_open ?G 1 1 1 1) (fg_resources ?G 1 1 1 1 ctx))" by (intro succeeding)
  then obtain fg u where "vk_then (fg_open ?G 1 1 1 1) (fg_resources ?G 1 1 1 1 ctx) t = (Inr fg, u)" unfolding always_def by blast
  then show ?thesis unfolding fg_new_def using c by (auto simp: vk_then_ok vk_catch_ok from_vulkan_ok)
qed

lemma demo_generate:
  "\<exists>f fg' t. generate_frame fg_gpu (demo_frame, demo_frame) fg s =
     (Some (Inr f), fg', t)"
  if "display_w fg = 1" and "display_h fg = 1" and "fg_staging_size fg = 8"
proof -
  let ?G = fg_gpu
  note d = fg_gpu_driver
  have fill: "always (fill_image ?G n data dst w h)" for n data dst w h
    unfolding fill_image_def Let_def d by (auto intro!: succeeding fg_driver_willing demo_fg_buffer split: prod.split)
  have b: "always (fg_begin ?G fg halves w h)" for halves w h
    unfolding fg_begin_def Let_def d upload_rgba16f_def fill_depth_far_def fill_mv_zero_def by (intro succeeding fg_driver_willing fill)
  have f: "always (fg_finish ?G fg fid)" for fid
    unfolding fg_finish_def fg_sdk_call_def Let_def d by (intro succeeding fg_driver_willing)
  have "covers (gf_data demo_frame) 1 1 4" by (simp add: covers_def demo_frame_def)
  then obtain hs where hs: "rgba8_to_rgba16f ?G (gf_data demo_frame) 1 1 4 = Some hs" using to_half_covered by blast
  obtain s1 where s1: "fg_begin ?G fg hs 1 1 s = (Inr (), s1)" using b unfolding always_def by (metis old.unit.exhaust)
  obtain bs s2 where s2: "fg_finish ?G fg (frame_id fg) s1 = (Inr bs, s2)" using f unfolding always_def by metis
  have "length bs = 8" using s2 that by (auto simp: fg_finish_def Let_def vk_ok)
  then have "\<exists>data. rgba16f_to_rgba8 ?G bs 1 1 = Some data"
    by (simp add: rgba16f_to_rgba8_def take_half_def vslice_def write_slice_def)
  then show ?thesis using hs s1 s2 that by (auto simp: generate_frame_def same_dimensions_def demo_frame_def)
qed

theorem framegen_discards_witness:
  "\<exists>fg f fg' t b1 b2 b3. generate_frame fg_gpu (demo_frame, demo_frame) fg (snd (fg_new fg_gpu 1 1 1 1 Vk_empty)) = (Some (Inr f), fg', t) \<and>
     vk_submitted t = vk_submitted (snd (fg_new fg_gpu 1 1 1 1 Vk_empty)) @
       [fill_commands b1 (input_color fg) 1 1, fill_commands b2 (input_depth fg) 1 1, fill_commands b3 (input_mv fg) 1 1, fg_commands fg] \<and>
     run_images (fg_commands fg) (\<lambda>_. (GENERAL, Computed)) = None"
proof -
  obtain fg s1 where n: "fg_new fg_gpu 1 1 1 1 Vk_empty = (Inr fg, s1)" using demo_fg_new by blast
  obtain f fg' t where g: "generate_frame fg_gpu (demo_frame, demo_frame) fg s1 = (Some (Inr f), fg', t)"
    using demo_generate [of fg s1] fg_new_ok [OF n] by auto
  have s: "serve (generate_frame fg_gpu) [] fg s1 = ([], fg, s1)" by simp
  have d: "gf_width demo_frame = 1" "gf_height demo_frame = 1" by (simp_all add: demo_frame_def)
  from framegen_discards [OF n s g, of "\<lambda>_. (GENERAL, Computed)", unfolded d] show ?thesis using g n by fastforce
qed

theorem framegen_leaks_witness:
  "\<exists>fg s1 rs fg' t. fg_new fg_gpu 1 1 1 1 Vk_empty = (Inr fg, s1) \<and>
     serve (generate_frame fg_gpu) [(demo_frame, demo_frame)] fg s1 = (rs, fg', t) \<and> vk_live (fg_drop fg' t) = fg_left fg \<and> size (fg_left fg) = 28"
proof -
  obtain fg s1 where n: "fg_new fg_gpu 1 1 1 1 Vk_empty = (Inr fg, s1)" using demo_fg_new by blast
  obtain f fg' t where g: "generate_frame fg_gpu (demo_frame, demo_frame) fg s1 = (Some (Inr f), fg', t)"
    using demo_generate [of fg s1] fg_new_ok [OF n] by auto
  have s: "serve (generate_frame fg_gpu) [(demo_frame, demo_frame)] fg s1 = ([Some (Inr f)], fg', t)" using g by simp
  have e: "vk_live (Vk_empty :: gpu_state) = {#}" by (simp add: Vk_empty_def)
  from framegen_leaks [OF n s] show ?thesis using n s by (auto simp: e)
qed

end
