(* ===== verification/Setup.thy ===== *)
theory Setup
  imports Server Client
begin

text \<open>
  How a session starts: the handshakes both ends exchange (\<^verbatim>\<open>main.rs\<close> of server and client), the server's choice
  of a capture backend (\<^verbatim>\<open>create_capture_backend\<close> and its child variant of \<^verbatim>\<open>pipeline.rs\<close>, the strategy of
  \<^verbatim>\<open>run\<close>), and the client's choice of an interpolation backend. What the constructors of the backends return is an
  argument, a \<open>CaptureEnv\<close> per instant.
\<close>

section \<open>Handshake\<close>

datatype setup_error = ExpectedHandshake u8 | ClosedBeforeHandshake | NoWaylandDisplay | LaunchFailed | BackendFailed "CaptureError option"
| RetryFailed retry_error | RetryUnreachable

definition await_handshake :: "IncomingMessage option \<Rightarrow> setup_error + unit" where
  "await_handshake msg = (case msg of
     None \<Rightarrow> Inl ClosedBeforeHandshake
   | Some m \<Rightarrow> (case header_msg_type (im_header m) of
        Inr HandshakeMsg \<Rightarrow> Inr ()
      | _ \<Rightarrow> Inl (ExpectedHandshake (hdr_msg_type (im_header m)))))"

section \<open>Capture backends\<close>

text \<open>\<open>env_portal\<close> is \<open>None\<close> in a build without the portal feature; the argument \<open>ArgPortal\<close> does not exist there.\<close>

record 'b CaptureEnv =
  env_ext_output :: "string option \<Rightarrow> CaptureError + 'b"
  env_ext_toplevel :: "string \<Rightarrow> CaptureError + 'b"
  env_ext_new :: "string list \<Rightarrow> CaptureError + 'b"
  env_portal :: "(CaptureError + 'b) option"
  env_needs_portal :: bool
  env_wlr :: "string option \<Rightarrow> CaptureError + 'b"

fun caused :: "CaptureError + 'b \<Rightarrow> CaptureError option + 'b" where
  "caused (Inl e) = Inl (Some e)"
| "caused (Inr b) = Inr b"

definition portal_backend :: "'b CaptureEnv \<Rightarrow> CaptureError option + 'b backend_kind" where
  "portal_backend env = (case env_portal env of
     None \<Rightarrow> Inl None | Some (Inl e) \<Rightarrow> Inl (Some e) | Some (Inr b) \<Rightarrow> Inr (PortalCapture b))"

definition create_capture_backend ::
  "'b CaptureEnv \<Rightarrow> CaptureBackendArg \<Rightarrow> string option \<Rightarrow> string option \<Rightarrow> CaptureError option + 'b backend_kind" where
  "create_capture_backend env capture_arg outp target_app = (case target_app of
     Some app \<Rightarrow> (case capture_arg of
        ArgWlrScreencopy \<Rightarrow> Inl None
      | ArgPortal \<Rightarrow> portal_backend env
      | ArgAuto \<Rightarrow> caused (detect_toplevel_backend (env_ext_toplevel env app))
      | ArgExtImageCapture \<Rightarrow> caused (detect_toplevel_backend (env_ext_toplevel env app)))
   | None \<Rightarrow> (case capture_arg of
        ArgAuto \<Rightarrow> caused (detect_backend (env_ext_output env outp) (env_needs_portal env) (env_portal env) (env_wlr env outp))
      | ArgWlrScreencopy \<Rightarrow> caused (map_sum (\<lambda>e. e) WlrScreencopy (env_wlr env outp))
      | ArgExtImageCapture \<Rightarrow> caused (map_sum (\<lambda>e. e) ExtImageCapture (env_ext_output env outp))
      | ArgPortal \<Rightarrow> portal_backend env))"

definition create_capture_backend_for_child ::
  "'b CaptureEnv \<Rightarrow> CaptureBackendArg \<Rightarrow> string list \<Rightarrow> CaptureError option + 'b backend_kind" where
  "create_capture_backend_for_child env capture_arg known = (case capture_arg of
     ArgWlrScreencopy \<Rightarrow> Inl None
   | ArgPortal \<Rightarrow> portal_backend env
   | ArgAuto \<Rightarrow> caused (detect_new_toplevel_backend (env_ext_new env known))
   | ArgExtImageCapture \<Rightarrow> caused (detect_new_toplevel_backend (env_ext_new env known)))"

section \<open>The server's start\<close>

record ServerCli =
  sv_capture :: CaptureBackendArg
  sv_output :: "string option"
  sv_app_id :: "string option"
  sv_command :: "string list"

fun retried :: "(retry_error + 'b) option \<times> nat \<Rightarrow> setup_error + 'b" where
  "retried (Some (Inr b), n) = Inr b"
| "retried (Some (Inl e), n) = Inl (RetryFailed e)"
| "retried (None, n) = Inl RetryUnreachable"

fun direct :: "CaptureError option + 'b \<Rightarrow> setup_error + 'b" where
  "direct (Inl e) = Inl (BackendFailed e)"
| "direct (Inr b) = Inr b"

text \<open>\<open>now i\<close> is the environment at the \<open>i\<close>-th attempt of the retry loop, \<open>later\<close> the one at a call outside it;
  \<open>known\<close> is the snapshot of the windows that exist before the launch, or its error.\<close>

definition server_backend ::
  "(nat \<Rightarrow> 'b CaptureEnv) \<Rightarrow> 'b CaptureEnv \<Rightarrow> CaptureError + string list \<Rightarrow> ServerCli \<Rightarrow> setup_error + 'b backend_kind" where
  "server_backend now later known cli =
     (case determine_capture_mode (sv_app_id cli) (sv_command cli) of (auto_detect_child, explicit_app_id_launch) \<Rightarrow>
        if auto_detect_child then
          (case known of
             Inr ids \<Rightarrow> (case retry_capture_backend (\<lambda>i. create_capture_backend_for_child (now i) (sv_capture cli) ids) of
                (Some (Inr b), _) \<Rightarrow> Inr b
              | (None, _) \<Rightarrow> Inl RetryUnreachable
              | (Some (Inl _), _) \<Rightarrow> direct (create_capture_backend later (sv_capture cli) (sv_output cli) None))
           | Inl _ \<Rightarrow> direct (create_capture_backend later (sv_capture cli) (sv_output cli) None))
        else if explicit_app_id_launch then
          retried (retry_capture_backend (\<lambda>i. create_capture_backend (now i) (sv_capture cli) None (sv_app_id cli)))
        else direct (create_capture_backend later (sv_capture cli) (sv_output cli) (sv_app_id cli)))"

text \<open>What \<open>run\<close> does up to the capture backend: the handshake it queues and the outcome, with whether a child was
  launched; \<open>launched\<close> is whether launching works.\<close>

definition server_start ::
  "'u Mpsc \<Rightarrow> (nat \<Rightarrow> 'b CaptureEnv) \<Rightarrow> 'b CaptureEnv \<Rightarrow> CaptureError + string list \<Rightarrow> CompressArg \<Rightarrow> ServerCli \<Rightarrow> bool \<Rightarrow> bool
   \<Rightarrow> IncomingMessage option \<Rightarrow> ('u, 'f) TransportSender \<Rightarrow> (setup_error + (bool \<times> 'b backend_kind)) \<times> ('u, 'f) TransportSender" where
  "server_start U now later known compress_arg cli wayland launched msg sender =
     (let (_, sender') = send_anchor U sender (server_handshake (sv_capture cli) compress_arg) in
      (case await_handshake msg of
         Inl e \<Rightarrow> Inl e
       | Inr _ \<Rightarrow>
           if \<not> wayland then Inl NoWaylandDisplay
           else let (auto_detect_child, explicit_app_id_launch) = determine_capture_mode (sv_app_id cli) (sv_command cli);
                    launches = auto_detect_child \<or> explicit_app_id_launch in
             if launches \<and> \<not> launched then Inl LaunchFailed
             else (case server_backend now later known cli of
                Inl e \<Rightarrow> Inl e
              | Inr b \<Rightarrow> Inr (launches \<or> (\<not> auto_detect_child \<and> \<not> explicit_app_id_launch \<and> sv_command cli \<noteq> []), b)),
       sender'))"

section \<open>The client's start\<close>

definition client_interpolation ::
  "(BackendKind \<Rightarrow> InterpolateError + 'k) \<Rightarrow> (InterpolateError + 'k) \<Rightarrow> bool \<Rightarrow> BackendKind option \<Rightarrow> 'k InterpolationManager option" where
  "client_interpolation create best no_interpolate kind =
     (if no_interpolate then None
      else (case (case kind of Some k \<Rightarrow> create k | None \<Rightarrow> best) of
         Inr b \<Rightarrow> Some (InterpolationManager_new b) | Inl _ \<Rightarrow> None))"

definition client_start ::
  "'u Mpsc \<Rightarrow> (BackendKind \<Rightarrow> InterpolateError + 'k) \<Rightarrow> (InterpolateError + 'k) \<Rightarrow> bool \<Rightarrow> BackendKind option
   \<Rightarrow> IncomingMessage option \<Rightarrow> ('u, 'f) TransportSender
   \<Rightarrow> (setup_error + 'k InterpolationManager option) \<times> ('u, 'f) TransportSender" where
  "client_start U create best no_interpolate kind msg sender =
     (let (_, sender') = send_anchor U sender client_handshake in
      (case await_handshake msg of
         Inl e \<Rightarrow> Inl e | Inr _ \<Rightarrow> Inr (client_interpolation create best no_interpolate kind),
       sender'))"

section \<open>Properties\<close>

definition settles :: "(nat \<Rightarrow> CaptureError option + 'b) \<Rightarrow> nat \<Rightarrow> bool" where
  "settles attempts i = (case attempts i of Inr _ \<Rightarrow> True | Inl (Some e) \<Rightarrow> \<not> is_retriable e | Inl None \<Rightarrow> False)"

definition verdict :: "(nat \<Rightarrow> CaptureError option + 'b) \<Rightarrow> nat \<Rightarrow> retry_error + 'b" where
  "verdict attempts i = (case attempts i of Inr b \<Rightarrow> Inr b | Inl e \<Rightarrow> Inl (if settles attempts i then Permanent e else NotFound e))"

lemma found_in_set: "find P xs = Some k \<Longrightarrow> k \<in> set xs"
  by (auto simp: find_Some_iff)

lemma retry_from_find:
  assumes "left \<le> n" and "0 < left"
  shows "retry_from attempts n left sleeps =
     (case find (settles attempts) [Suc n - left..<Suc n] of
        Some k \<Rightarrow> (Some (verdict attempts k), sleeps + (k - (Suc n - left)))
      | None \<Rightarrow> (Some (verdict attempts n), sleeps + (left - 1)))"
  using assms
proof (induction left arbitrary: sleeps)
  case (Suc left)
  have upt: "[Suc n - Suc left..<Suc n] = (n - left) # [Suc n - left..<Suc n]"
    using Suc.prems by (simp add: upt_conv_Cons Suc_diff_le) arith
  show ?case
  proof (cases "settles attempts (n - left)")
    case True
    then have found: "find (settles attempts) [Suc n - Suc left..<Suc n] = Some (n - left)" by (simp only: upt find.simps if_True)
    show ?thesis unfolding found option.case
      using True by (auto simp: settles_def verdict_def Let_def simp del: upt_Suc split: sum.splits option.splits)
  next
    case False
    then obtain e where e: "attempts (n - left) = Inl e" "\<not> (case e of Some ce \<Rightarrow> \<not> is_retriable ce | None \<Rightarrow> False)"
      by (auto simp: settles_def split: sum.splits option.splits)
    show ?thesis
    proof (cases "left = 0")
      case True
      with e False show ?thesis unfolding upt by (simp add: verdict_def)
    next
      case l: False
      have ne: "n - left \<noteq> n" using l Suc.prems by simp
      have "retry_from attempts n (Suc left) sleeps = retry_from attempts n left (Suc sleeps)"
        using e ne by (simp add: Let_def)
      also have "\<dots> = (case find (settles attempts) [Suc n - left..<Suc n] of
        Some k \<Rightarrow> (Some (verdict attempts k), Suc sleeps + (k - (Suc n - left)))
      | None \<Rightarrow> (Some (verdict attempts n), Suc sleeps + (left - 1)))"
        using Suc l by simp
      finally have run: "retry_from attempts n (Suc left) sleeps = \<dots>" .
      have skip: "find (settles attempts) [Suc n - Suc left..<Suc n] = find (settles attempts) [Suc n - left..<Suc n]"
        unfolding upt using False by simp
      show ?thesis
      proof (cases "find (settles attempts) [Suc n - left..<Suc n]")
        case None
        then show ?thesis unfolding run skip using l by simp
      next
        case (Some k)
        from found_in_set [OF this] have "Suc n - left \<le> k" by (simp del: upt_Suc)
        then have "Suc sleeps + (k - (Suc n - left)) = sleeps + (k - (Suc n - Suc left))" using Suc.prems by simp
        then show ?thesis unfolding run skip Some option.case by simp
      qed
    qed
  qed
qed simp

text \<open>C27. The retry loop ends, after at most 50 attempts, with a result: the verdict of the first attempt that
  succeeds or fails for good, having slept once after each attempt before it, or, when there is none, the error of
  the last attempt after 49 sleeps. The \<^verbatim>\<open>unreachable!()\<close> after the loop is unreachable.\<close>

theorem retry_outcome:
  "retry_capture_backend attempts =
     (case find (settles attempts) [1..<51] of
        Some k \<Rightarrow> (Some (verdict attempts k), k - 1)
      | None \<Rightarrow> (Some (verdict attempts 50), 49))"
  using retry_from_find [of 50 50 attempts 0]
  by (simp add: retry_capture_backend_def retry_capture_backend_with_params_def split: option.splits)

definition handshake_message :: "HandshakePayload \<Rightarrow> Outgoing" where
  "handshake_message p = \<lparr>out_sid = 0, out_type = HandshakeMsg, out_flags = 0, out_ts = 0, out_payload = HandshakePayload_bytes p\<rparr>"

lemma handshake_fed:
  assumes "HandshakePayload_wf p" and "w = FrameHeader_bytes (FrameHeader_new 0 HandshakeMsg LAST_CHUNK 8 0) @ HandshakePayload_bytes p"
    and "concat ds = w"
  shows "\<exists>m. feed StreamParser_new ds = (StreamParser_new, Inr [m]) \<and> await_handshake (Some m) = Inr () \<and>
     HandshakePayload_read (im_payload m) = Some p"
proof -
  have l: "length (HandshakePayload_bytes p) = 8" using assms(1) by (rule handshake_payload.put_length)
  then have ne: "HandshakePayload_bytes p \<noteq> []" by auto
  have "chunks_of 8 (HandshakePayload_bytes p) = [HandshakePayload_bytes p]"
    using l ne by (subst chunks_of.simps) simp
  then have "wire_of 8 (handshake_message p) = Some w"
    using l ne by (simp add: wire_of_def handshake_message_def split_into_chunks_frames assms(2))
  moreover have "sendable (handshake_message p)" by (simp add: sendable_def handshake_message_def l)
  ultimately have "push StreamParser_new (concat [w]) = (StreamParser_new, Inr (map (delivered 8) [handshake_message p]))"
    by (intro push_messages) simp_all
  then have "feed StreamParser_new ds = (StreamParser_new, Inr [delivered 8 (handshake_message p)])"
    using assms(3) by (simp add: feed_push_Inr)
  moreover have "await_handshake (Some (delivered 8 (handshake_message p))) = Inr ()"
    by (simp add: await_handshake_def delivered_def handshake_message_def Let_def)
  moreover have "HandshakePayload_read (im_payload (delivered 8 (handshake_message p))) = Some p"
    using assms(1) by (simp add: delivered_def handshake_message_def Let_def handshake_payload.get_put)
  ultimately show ?thesis by blast
qed

lemma handshake_new_wf: "HandshakePayload_wf (HandshakePayload_new a b)"
  by (simp add: HandshakePayload_wf_def HandshakePayload_new_def)



lemma late_launch_unreachable:
  "determine_capture_mode app command = (a, e) \<Longrightarrow> \<not> (\<not> a \<and> \<not> e \<and> command \<noteq> [])"
  by (auto simp: determine_capture_mode_def)

end
