(* ===== verification/Midpoint.thy ===== *)
theory Midpoint
  imports Mirror
begin

text \<open>
  Frame interpolation on the client: what the receive loop offers to the display thread when a midpoint frame was
  computed, and which of the two frames stays on the screen.
\<close>

definition linear_backend :: "'k Interpolator \<Rightarrow> bool" where
  "linear_backend K \<longleftrightarrow> (\<forall>k a b t. be_interpolate K k a b t = (linear_blend a b t, k))"

lemma linear_blend_earlier:
  assumes "linear_blend a b t = Inr g" and "gf_timestamp_ns a < gf_timestamp_ns b" and "\<forall>d. 0 < d \<longrightarrow> t_advance t d < d"
  shows "gf_timestamp_ns g < gf_timestamp_ns b"
proof -
  let ?a = "gf_timestamp_ns a" and ?b = "gf_timestamp_ns b"
  have g: "gf_timestamp_ns g = ?a + t_advance t (?b - ?a)"
    using assms(1,2) by (auto simp: linear_blend_def split: if_splits)
  have d: "unat (?b - ?a) = unat ?b - unat ?a" using assms(2) by (simp add: unat_sub order_less_imp_le)
  have "0 < ?b - ?a" using assms(2) by (simp add: word_less_nat_alt d)
  with assms(3) have "t_advance t (?b - ?a) < ?b - ?a" by blast
  then have "unat (t_advance t (?b - ?a)) < unat ?b - unat ?a" by (simp add: word_less_nat_alt d)
  moreover have "unat ?a < unat ?b" using assms(2) by (simp add: word_less_nat_alt)
  moreover have "unat ?b < 2 ^ 64" using unsigned_less [of ?b] by simp
  ultimately show ?thesis by (simp add: g word_less_nat_alt unat_word_ariths)
qed

lemma fed_midpoint:
  assumes "linear_backend (rc_backend cfg)" and "feed_manager cfg f im = (Some g, im')"
  shows "\<exists>m a. im = Some m \<and> \<not> force_reset m \<and> target m = Some a \<and> linear_blend a f (rc_half cfg) = Inr g"
  using assms
  by (cases im)
    (auto simp: feed_manager_def interpolate_def push_frame_def linear_backend_def split: sum.splits option.splits prod.splits if_splits)

lemma decode_keeps_target:
  assumes "decode_frame cfg anc pl s = (Some r, s1)" and "interpolation s1 = Some m1" and "\<not> force_reset m1"
  shows "interpolation s = Some m1"
  using assms
  by (auto simp: decode_frame_def Let_def reset_anchor_def split: option.splits sum.splits prod.splits if_splits)

lemma decode_not_shown: "decode_frame cfg anc pl s \<noteq> (Some (Inl (Displayed fs)), s')"
  by (auto simp: decode_frame_def Let_def split: option.splits sum.splits prod.splits)

lemma two_frames:
  assumes "linear_backend (rc_backend cfg)" and "recv_message cfg now m s = Some (Displayed [shown, mid], s')"
  shows "\<exists>im a b g. interpolation s = Some im \<and> target im = Some a \<and> linear_blend a b (rc_half cfg) = Inr g \<and>
     gf_timestamp_ns b = hdr_timestamp_ns (im_header m) \<and> df_timestamp_ns shown = gf_timestamp_ns b \<and>
     df_timestamp_ns mid = gf_timestamp_ns g"
proof -
  obtain anc where "recv_frame cfg now (im_header m) anc (im_payload m) s = Some (Displayed [shown, mid], s')"
    using assms(2) by (auto simp: recv_message_def split: sum.splits MsgType.splits)
  then obtain w h st rs outp s1 g im' up iup where
      dec: "decode_frame cfg anc (im_payload m) s = (Some (Inr (w, h, st, rs, outp)), s1)"
    and feed: "feed_manager cfg (GpuFrame_from_data outp w h st (hdr_timestamp_ns (im_header m))) (interpolation s1) = (Some g, im')"
    and fr: "shown = real_frame cfg (im_header m) (fps_ema (update_fps cfg now (s1\<lparr>interpolation := im', rl_previous_frame := outp,
          has_previous := True, rl_frame_count := rl_frame_count s1 + 1\<rparr>))) (GpuFrame_from_data outp w h st (hdr_timestamp_ns (im_header m))) rs up"
      "mid = interpolated_frame cfg (im_header m) (fps_ema (update_fps cfg now (s1\<lparr>interpolation := im', rl_previous_frame := outp,
          has_previous := True, rl_frame_count := rl_frame_count s1 + 1\<rparr>))) g iup"
    by (auto simp: recv_frame_def Let_def bind_eq_Some_conv decode_not_shown split: option.splits prod.splits sum.splits)
  from fed_midpoint [OF assms(1) feed] obtain im a where im: "interpolation s1 = Some im" "\<not> force_reset im" "target im = Some a"
      "linear_blend a (GpuFrame_from_data outp w h st (hdr_timestamp_ns (im_header m))) (rc_half cfg) = Inr g" by blast
  have "df_timestamp_ns shown = hdr_timestamp_ns (im_header m)" "df_timestamp_ns mid = gf_timestamp_ns g"
    unfolding fr by (simp_all add: real_frame_def interpolated_frame_def split: prod.splits)
  with decode_keeps_target [OF dec im(1,2)] im(3,4) show ?thesis
    by (metis GpuFrame.select_convs(5) GpuFrame_from_data_def)
qed

text \<open>C22. The midpoint comes last. When the receive loop has interpolated between the last frame and a newer one and
  the display queue took both frames, the display thread, which keeps only the newest of its queue, is left with
  the midpoint, although it is older than the frame received: the screen rests on the blend.\<close>

theorem midpoint_shown_last:
  assumes R: "spsc_ring R items cap" and "items (dt_ring display) = []" and K: "linear_backend (rc_backend cfg)"
    and adv: "\<forall>d. 0 < d \<longrightarrow> t_advance (rc_half cfg) d < d"
    and im: "interpolation s = Some im" "target im = Some a" "gf_timestamp_ns a < hdr_timestamp_ns (im_header m)"
    and run: "recv_decompress_turn cfg R now (Some m) (s, display) =
       Some (Some (Displayed [shown, mid], [True, True]), s', display')" and "2 \<le> fuel"
  shows "fst (drain_newest R fuel p (dt_ring display')) = Some mid \<and> df_timestamp_ns mid < df_timestamp_ns shown"
proof -
  have r: "recv_message cfg now m s = Some (Displayed [shown, mid], s')"
    and sent: "send_frames R [shown, mid] display = ([True, True], display')"
    using run by (auto simp: recv_decompress_turn_def split: option.splits recv_action.splits prod.splits)
  from sent obtain r1 where r1: "ring_push R (dt_ring display) shown = Some r1" "ring_push R r1 mid = Some (dt_ring display')"
    by (auto simp: send_frame_def split: option.splits prod.splits)
  have "items r1 = [shown]"
    using ring_push_room [OF R, of "dt_ring display" shown] ring_push_full [OF R, of "dt_ring display" shown] r1(1) assms(2)
    by (cases "length (items (dt_ring display)) < cap") auto
  then have "items (dt_ring display') = [shown, mid]"
    using ring_push_room [OF R, of r1 mid] ring_push_full [OF R, of r1 mid] r1(2) by (cases "length (items r1) < cap") auto
  then have "fst (drain_newest R fuel p (dt_ring display')) = Some mid"
    using drain_newest_spsc [OF R, of "dt_ring display'" fuel p] assms(9) by simp
  moreover from two_frames [OF K r] im obtain b g where
      "linear_blend a b (rc_half cfg) = Inr g" "gf_timestamp_ns b = hdr_timestamp_ns (im_header m)"
      "df_timestamp_ns shown = gf_timestamp_ns b" "df_timestamp_ns mid = gf_timestamp_ns g" by auto
  with linear_blend_earlier [of a b "rc_half cfg" g] adv im(3) have "df_timestamp_ns mid < df_timestamp_ns shown" by simp
  ultimately show ?thesis by blast
qed

definition demo_update :: IncomingMessage where
  "demo_update = \<lparr>im_header = FrameHeader_new 1 FrameUpdate LAST_CHUNK 20 9, im_payload = FrameMeta_bytes (FrameMeta_new 1 1 4 0)\<rparr>"

definition demo_fed :: "(unit, unit) RecvLoop" where
  "demo_fed = (RecvLoop_start (Some ((InterpolationManager_new ())\<lparr>target := Some (GpuFrame_from_data [1, 2, 3, 4] 1 1 4 5)\<rparr>)) ())
     \<lparr>rl_previous_frame := [5, 2, 3, 4], has_previous := True\<rparr>"

lemma demo_update_turn:
  "\<exists>shown mid s' display'. recv_decompress_turn demo_recv (list_ring 4) 0 (Some demo_update) (demo_fed, DisplayThread_spawn []) =
     Some (Some (Displayed [shown, mid], [True, True]), s', display')"
proof -
  have d: "deserialize_frame_payload (FrameMeta_bytes (FrameMeta_new 1 1 4 0)) =
      Some (Inr (1, 1, 4, [], \<lparr>cf_data = [], region_offsets = [], region_sizes = [], cf_stats = FrameStats_default\<rparr>))"
    using deserialize_wire [of _ 1 1 4 "[]" "[]"] by simp
  have "decode_frame demo_recv False (FrameMeta_bytes (FrameMeta_new 1 1 4 0)) demo_fed =
      (Some (Inr (1, 1, 4, [], [5, 2, 3, 4])), demo_fed)"
    by (simp add: decode_frame_def d demo_fed_def demo_recv_def decompress_frame_into_def frame_blobs_def delta_decode_def
        vec_resize_def)
  then show ?thesis
    by (simp add: recv_decompress_turn_def recv_message_def demo_update_def recv_frame_def demo_fed_def RecvLoop_start_def
        InterpolationManager_new_def feed_manager_def push_frame_def interpolate_def demo_recv_def demo_backend_def linear_blend_def
        half_factor_def same_dimensions_def GpuFrame_from_data_def spatial_upscale_def update_fps_def list_ring_def send_frame_def
        DisplayThread_spawn_def Let_def)
qed

theorem midpoint_shown_last_witness:
  "\<exists>shown mid s' display'.
     recv_decompress_turn demo_recv (list_ring 4) 0 (Some demo_update) (demo_fed, DisplayThread_spawn []) =
       Some (Some (Displayed [shown, mid], [True, True]), s', display') \<and>
     fst (drain_newest (list_ring 4) 4 None (dt_ring display')) = Some mid \<and> df_timestamp_ns mid < df_timestamp_ns shown"
proof -
  obtain shown mid s' display' where
    run: "recv_decompress_turn demo_recv (list_ring 4) 0 (Some demo_update) (demo_fed, DisplayThread_spawn []) =
       Some (Some (Displayed [shown, mid], [True, True]), s', display')" using demo_update_turn by blast
  have half: "0 < d \<longrightarrow> d div 2 < d" for d :: u64
    by (simp add: word_less_nat_alt unat_div)
  have "fst (drain_newest (list_ring 4) 4 None (dt_ring display')) = Some mid \<and> df_timestamp_ns mid < df_timestamp_ns shown"
    by (rule midpoint_shown_last [where a = "GpuFrame_from_data [1, 2, 3, 4] 1 1 4 5"
        and im = "(InterpolationManager_new ())\<lparr>target := Some (GpuFrame_from_data [1, 2, 3, 4] 1 1 4 5)\<rparr>", OF list_ring_spsc _ _ _ _ _ _ run])
      (simp_all add: DisplayThread_spawn_def linear_backend_def demo_recv_def demo_backend_def half_factor_def half demo_fed_def
        RecvLoop_start_def InterpolationManager_new_def GpuFrame_from_data_def demo_update_def FrameHeader_new_def)
  with run show ?thesis by blast
qed

end
