(* ===== verification/Backends.thy ===== *)
theory Backends
  imports FsrCompute FrameGen Setup Midpoint
begin

text \<open>
  The backends a client can ask for: RIFE (\<^verbatim>\<open>backends/rife.rs\<close>), FSR 3 (\<^verbatim>\<open>fsr3.rs\<close>), FSR 2 with RIFE (\<^verbatim>\<open>fsr2_rife.rs\<close>) and
  their construction by \<^verbatim>\<open>BackendDetector\<close>, and what a client that runs one of them shows.
\<close>

section \<open>rife.rs\<close>

text \<open>The file system: \<open>None\<close> where there is no such file, otherwise the error of reading its metadata or its length.\<close>

type_synonym Files = "string \<Rightarrow> (string + nat) option"

record RifeInterpolator =
  model_path :: string

definition default_model_paths :: "Environment \<Rightarrow> string list" where
  "default_model_paths env =
     (case env ''XDG_DATA_HOME'' of Some d \<Rightarrow> [path_join d ''remoteway/models/rife-v4.6.bin''] | None \<Rightarrow> []) @
     (case env ''HOME'' of Some h \<Rightarrow> [path_join h ''.local/share/remoteway/models/rife-v4.6.bin''] | None \<Rightarrow> []) @
     [''/usr/share/remoteway/models/rife-v4.6.bin'']"

definition rife_new :: "Files \<Rightarrow> string \<Rightarrow> InterpolateError + RifeInterpolator" where
  "rife_new fs path = (case fs path of
     None \<Rightarrow> Inl (InterpolateError.InitFailed (''RIFE model not found: '' @ path))
   | Some (Inl e) \<Rightarrow> Inl (InterpolateError.InitFailed (''cannot read RIFE model '' @ path @ '': '' @ e))
   | Some (Inr n) \<Rightarrow> if n = 0 then Inl (InterpolateError.InitFailed (''RIFE model is empty: '' @ path))
       else Inr \<lparr>model_path = path\<rparr>)"

fun join_names :: "string list \<Rightarrow> string" where
  "join_names [] = []"
| "join_names [p] = p"
| "join_names (p # q # ps) = p @ '', '' @ join_names (q # ps)"

definition rife_from_default_path :: "Files \<Rightarrow> Environment \<Rightarrow> InterpolateError + RifeInterpolator" where
  "rife_from_default_path fs env = (case find (\<lambda>p. fs p \<noteq> None) (default_model_paths env) of
     Some p \<Rightarrow> rife_new fs p
   | None \<Rightarrow> Inl (InterpolateError.InitFailed (''RIFE model not found in default locations: '' @ join_names (default_model_paths env))))"

definition rife_interpolate :: "RifeInterpolator \<Rightarrow> GpuFrame \<Rightarrow> GpuFrame \<Rightarrow> Factor \<Rightarrow> InterpolateError + GpuFrame" where
  "rife_interpolate r a b t =
     (if \<not> in_range t then Inl InvalidFactor
      else if \<not> same_dimensions a b then Inl (DimensionMismatch (gf_width a) (gf_height a) (gf_width b) (gf_height b))
      else Inl (InterpolateFailed (''RIFE inference runtime not linked (model: '' @ model_path r @
        ''). Add ncnn-rs or ort dependency to enable neural interpolation.'')))"

section \<open>fsr3.rs\<close>

record Fsr3Interpolator =
  frame_gen :: "Fsr3FrameGen option"
  f3_upscaler :: "Fsr2NativeInterpolator option"

definition fsr3_new :: "Gpu \<Rightarrow> u32 \<Rightarrow> u32 \<Rightarrow> u32 \<Rightarrow> u32 \<Rightarrow> Fsr3Interpolator gpu" where
  "fsr3_new G rw rh dw dh =
     vk_then (fg_new G rw rh dw dh) (\<lambda>fg.
     vk_then (vk_catch (vk_then (native_new G) (\<lambda>n. vk_return (Some n))) (\<lambda>_. vk_return None)) (\<lambda>up.
     vk_return \<lparr>frame_gen = Some fg, f3_upscaler = up\<rparr>))"

definition fsr3_interpolate ::
  "Gpu \<Rightarrow> GpuFrame \<times> GpuFrame \<Rightarrow> Fsr3Interpolator \<Rightarrow> gpu_state
   \<Rightarrow> (InterpolateError + GpuFrame) option \<times> Fsr3Interpolator \<times> gpu_state" where
  "fsr3_interpolate G q x s = (case frame_gen x of
     Some fg \<Rightarrow> (case generate_frame G q fg s of (r, fg', s') \<Rightarrow> (r, x\<lparr>frame_gen := Some fg'\<rparr>, s'))
   | None \<Rightarrow> (Some (Inl (InterpolateFailed (''FSR3 FrameGen unavailable '' @ map char_of [226, 128, 148 :: nat] @
       '' is libFidelityFX.so loaded?''))), x, s))"

text \<open>Without the upscaler the processor scales; that may panic.\<close>

definition fsr3_upscale ::
  "Gpu \<Rightarrow> 'f Kernel \<Rightarrow> GpuFrame \<times> u32 \<times> u32 \<Rightarrow> Fsr3Interpolator \<Rightarrow> gpu_state
   \<Rightarrow> (InterpolateError + GpuFrame) option \<times> Fsr3Interpolator \<times> gpu_state" where
  "fsr3_upscale G K q x s = (case f3_upscaler x of
     Some n \<Rightarrow> (case native_upscale G q (nt_cached n) s of
       (r, c, s') \<Rightarrow> (Some r, x\<lparr>f3_upscaler := Some (n\<lparr>nt_cached := c\<rparr>)\<rparr>, s'))
   | None \<Rightarrow> (case q of (src, dw, dh) \<Rightarrow>
       (map_option (\<lambda>(data, w, h, stride). Inr \<lparr>gf_data = data, gf_width = w, gf_height = h, gf_stride = stride,
            gf_timestamp_ns = gf_timestamp_ns src\<rparr>)
          (cpu_bicubic_upscale K (gf_data src) (gf_width src) (gf_height src) (gf_stride src) dw dh), x, s)))"

text \<open>Dropping: each half goes with the Vulkan context it made.\<close>

definition native_close :: "Fsr2NativeInterpolator \<Rightarrow> gpu_state \<Rightarrow> gpu_state" where
  "native_close n s = snd (VulkanContext_drop (nt_ctx n) (native_drop (nt_cached n) s))"

definition fsr3_drop :: "Fsr3Interpolator \<Rightarrow> gpu_state \<Rightarrow> gpu_state" where
  "fsr3_drop x s =
     (let s1 = (case frame_gen x of None \<Rightarrow> s | Some fg \<Rightarrow> fg_drop fg s) in
      case f3_upscaler x of None \<Rightarrow> s1 | Some n \<Rightarrow> native_close n s1)"

section \<open>fsr2_rife.rs\<close>

definition fsr2_rife_new :: "Gpu \<Rightarrow> Fsr2NativeInterpolator gpu" where
  "fsr2_rife_new G = native_new G"

definition fsr2_rife_interpolate ::
  "Gpu \<Rightarrow> Files \<Rightarrow> Environment \<Rightarrow> GpuFrame \<Rightarrow> GpuFrame \<Rightarrow> Factor \<Rightarrow> InterpolateError + GpuFrame" where
  "fsr2_rife_interpolate G fs env a b t = (case rife_from_default_path fs env of
     Inl e \<Rightarrow> Inl (InterpolateFailed (''rife: '' @ InterpolateError_text G e))
   | Inr r \<Rightarrow> rife_interpolate r a b t)"

definition fsr2_rife_upscale ::
  "Gpu \<Rightarrow> GpuFrame \<times> u32 \<times> u32 \<Rightarrow> Fsr2NativeInterpolator \<Rightarrow> gpu_state
   \<Rightarrow> (InterpolateError + GpuFrame) \<times> Fsr2NativeInterpolator \<times> gpu_state" where
  "fsr2_rife_upscale G q n s = (case native_upscale G q (nt_cached n) s of (r, c, s') \<Rightarrow> (r, n\<lparr>nt_cached := c\<rparr>, s'))"

section \<open>backend.rs: construction on the machine\<close>

datatype GpuInterpolator = LinearBackend | Fsr2Backend Fsr2Interpolator | Fsr3Backend Fsr3Interpolator
  | RifeBackend Fsr2NativeInterpolator

text \<open>The features compiled in, and the construction itself: FSR 3 at fixed sizes, and FSR 2 in its place if that fails.\<close>

record Features =
  ft_fsr2 :: bool
  ft_fsr3 :: bool
  ft_rife :: bool

definition construct_fsr2 :: "Gpu \<Rightarrow> GpuInterpolator gpu" where
  "construct_fsr2 G = vk_then (fsr2_new G) (\<lambda>i. vk_return (Fsr2Backend i))"

definition construct_fsr3 :: "Gpu \<Rightarrow> GpuInterpolator gpu" where
  "construct_fsr3 G = vk_then (fsr3_new G 1280 720 1920 1080) (\<lambda>i. vk_return (Fsr3Backend i))"

definition construct_rife :: "Gpu \<Rightarrow> GpuInterpolator gpu" where
  "construct_rife G = vk_then (fsr2_rife_new G) (\<lambda>i. vk_return (RifeBackend i))"

definition construct_backend :: "Gpu \<Rightarrow> Features \<Rightarrow> BackendKind \<Rightarrow> GpuInterpolator gpu" where
  "construct_backend G ft kind = (case kind of
     LinearBlend \<Rightarrow> vk_return LinearBackend
   | Fsr2 \<Rightarrow> if ft_fsr2 ft then construct_fsr2 G else vk_fail (InterpolateError.InitFailed ''fsr2 feature not enabled'')
   | Fsr3 \<Rightarrow> if ft_fsr3 ft then vk_catch (construct_fsr3 G) (\<lambda>e. if ft_fsr2 ft then construct_fsr2 G else vk_fail e)
       else vk_fail (InterpolateError.InitFailed ''fsr3 feature not enabled'')
   | Fsr2Rife \<Rightarrow> if ft_rife ft then construct_rife G else vk_fail (InterpolateError.InitFailed ''fsr2-rife feature not enabled''))"

definition check_vulkan :: "Gpu \<Rightarrow> bool \<Rightarrow> bool gpu" where
  "check_vulkan G feature = (if feature then from_vulkan G (is_vulkan_available (gp_host G)) else vk_return False)"

definition construct_best :: "Gpu \<Rightarrow> Features \<Rightarrow> GpuInterpolator gpu" where
  "construct_best G ft =
     vk_then (check_vulkan G (ft_fsr3 ft)) (\<lambda>has_fsr3.
     vk_then (check_vulkan G (ft_fsr2 ft)) (\<lambda>has_fsr2.
     construct_backend G ft (case detect_available has_fsr3 has_fsr2 of k # _ \<Rightarrow> k | [] \<Rightarrow> LinearBlend)))"

section \<open>Properties\<close>

text \<open>The construction is the choice of \<open>Interpolate.create_backend\<close> among the outcomes of the constructors.\<close>

lemma construct_chooses:
  "fst (construct_backend G ft kind s) = create_backend
     (if ft_fsr2 ft then Some (fst (construct_fsr2 G (case fst (construct_fsr3 G s) of
          Inl _ \<Rightarrow> if kind = Fsr3 then snd (construct_fsr3 G s) else s | Inr _ \<Rightarrow> s))) else None)
     (if ft_fsr3 ft then Some (fst (construct_fsr3 G s)) else None)
     (if ft_rife ft then Some (fst (construct_rife G s)) else None) LinearBackend kind"
  by (cases kind)
    (auto simp: construct_backend_def create_backend_def vk_return_def vk_fail_def vk_catch_def split: sum.split prod.split)

text \<open>What the method tables of the FSR 2 backends do when they are asked to interpolate.\<close>

definition fsr2_table :: "'k Interpolator \<Rightarrow> bool" where
  "fsr2_table K \<longleftrightarrow> (\<forall>k a b t. be_interpolate K k a b t = (fsr2_interpolate a b, k))"

definition fsr2_rife_table :: "Gpu \<Rightarrow> Files \<Rightarrow> Environment \<Rightarrow> 'k Interpolator \<Rightarrow> bool" where
  "fsr2_rife_table G fs env K \<longleftrightarrow> (\<forall>k a b t. be_interpolate K k a b t = (fsr2_rife_interpolate G fs env a b t, k))"

lemma tables_refuse:
  assumes "fsr2_table K \<or> fsr2_rife_table G fs env K"
  shows "\<exists>e. be_interpolate K k a b t = (Inl e, k)"
  using assms
  by (auto simp: fsr2_table_def fsr2_interpolate_def fsr2_rife_table_def fsr2_rife_interpolate_def rife_interpolate_def split: sum.split)

lemma refused_interpolate:
  assumes "\<And>k a b t. \<exists>e. be_interpolate K k a b t = (Inl e, k)"
  shows "interpolate K t m = (Inr None, m) \<or> (\<exists>e. interpolate K t m = (Inl e, m))"
proof (cases "anchor m")
  case (Some a)
  show ?thesis
  proof (cases "target m")
    case (Some b)
    obtain e where "be_interpolate K (im_backend m) a b t = (Inl e, im_backend m)" using assms by blast
    then show ?thesis by (simp add: interpolate_def \<open>anchor m = Some a\<close> Some)
  qed (simp add: interpolate_def \<open>anchor m = Some a\<close>)
qed (simp add: interpolate_def)

lemma refused_feed:
  assumes "\<And>k a b t. \<exists>e. be_interpolate (rc_backend cfg) k a b t = (Inl e, k)"
  shows "feed_manager cfg f im = (None, map_option (push_frame f) im)"
proof (cases im)
  case (Some m)
  show ?thesis
    using refused_interpolate [OF assms, of "rc_half cfg" "push_frame f m"] by (auto simp: feed_manager_def Some)
qed (simp add: feed_manager_def)

lemma counts_kept:
  "interpolated_count (push_frame f m) = interpolated_count m"
  "interpolated_count (reset_anchor m) = interpolated_count m"
  by (simp_all add: push_frame_def reset_anchor_def)

lemma counts_kept_option:
  "map_option interpolated_count (map_option (push_frame f) im) = map_option interpolated_count im"
  "map_option interpolated_count (map_option reset_anchor im) = map_option interpolated_count im"
  by (cases im; simp add: counts_kept)+

lemma decode_interpolation:
  assumes "decode_frame cfg is_anchor payload s = (Some (Inr x), s1)"
  shows "interpolation s1 = (if is_anchor \<or> \<not> has_previous s then map_option reset_anchor (interpolation s) else interpolation s)"
proof (cases "is_anchor \<or> \<not> has_previous s")
  case True
  then show ?thesis using assms unfolding decode_frame_def
    by (clarsimp simp: Let_def split: option.splits sum.splits prod.splits)
next
  case False
  then show ?thesis using assms unfolding decode_frame_def
    by (simp add: Let_def split: option.splits sum.splits prod.splits)
qed

lemma decode_counts:
  "decode_frame cfg is_anchor payload s = (Some (Inr x), s1) \<Longrightarrow>
     map_option interpolated_count (interpolation s1) = map_option interpolated_count (interpolation s)"
  by (drule decode_interpolation) (auto simp: counts_kept_option)

text \<open>C23. With an FSR 2 backend, alone or with RIFE, the client never shows a
  midpoint: each frame it receives leads to exactly one displayed frame, the frame itself, and no interpolation is ever
  counted, whether a RIFE model is installed or not. The upscaler may still fail or scale, as with any backend.\<close>

theorem fsr2_never_interpolates:
  assumes "fsr2_table (rc_backend cfg) \<or> fsr2_rife_table G fs env (rc_backend cfg)"
    and "recv_frame cfg now hdr is_anchor payload s = Some (Displayed shown, s')"
  shows "\<exists>width height stride regions outp up s1 fps. decode_frame cfg is_anchor payload s =
       (Some (Inr (width, height, stride, regions, outp)), s1) \<and>
     shown = [real_frame cfg hdr fps (GpuFrame_from_data outp width height stride (hdr_timestamp_ns hdr)) regions up] \<and>
     spatial_upscale cfg (interpolation s') (GpuFrame_from_data outp width height stride (hdr_timestamp_ns hdr)) = Some up \<and>
     map_option interpolated_count (interpolation s') = map_option interpolated_count (interpolation s)"
proof -
  obtain width height stride regions outp s1 where d: "decode_frame cfg is_anchor payload s =
      (Some (Inr (width, height, stride, regions, outp)), s1)"
    using assms(2) by (auto simp: recv_frame_def decode_not_shown split: prod.splits option.splits sum.splits)
  let ?f = "GpuFrame_from_data outp width height stride (hdr_timestamp_ns hdr)"
  note fed = refused_feed [OF tables_refuse [OF assms(1)]]
  define s2 where "s2 = update_fps cfg now (s1\<lparr>interpolation := map_option (push_frame ?f) (interpolation s1),
      rl_previous_frame := outp, has_previous := True, rl_frame_count := rl_frame_count s1 + 1\<rparr>)"
  have s2: "interpolation s2 = map_option (push_frame ?f) (interpolation s1)" by (simp add: s2_def update_fps_def)
  obtain up where up: "spatial_upscale cfg (interpolation s2) ?f = Some up" "shown = [real_frame cfg hdr (fps_ema s2) ?f regions up]"
      "s' = s2"
    using assms(2) unfolding s2 by (auto simp: recv_frame_def Let_def s2_def d fed bind_eq_Some_conv)
  have "map_option interpolated_count (interpolation s2) = map_option interpolated_count (interpolation s)"
    by (simp only: s2 counts_kept_option decode_counts [OF d])
  then show ?thesis using d up by blast
qed

text \<open>The client of \<open>Midpoint\<close>, which has a frame and receives another, on an FSR 2 backend.\<close>

definition fsr2_backend :: "unit Interpolator" where
  "fsr2_backend = \<lparr>be_interpolate = (\<lambda>k a b t. (fsr2_interpolate a b, k)), be_upscale = (\<lambda>_ _ _ _. Inl InterpNoBackend)\<rparr>"

lemma fsr2_backend_runs:
  "\<exists>shown s'. recv_frame (demo_recv\<lparr>rc_backend := fsr2_backend\<rparr>) 0 (im_header demo_update) False (im_payload demo_update) demo_fed =
     Some (Displayed shown, s') \<and> interpolation demo_fed \<noteq> None"
proof -
  have d: "decode_frame (demo_recv\<lparr>rc_backend := fsr2_backend\<rparr>) False (FrameMeta_bytes (FrameMeta_new 1 1 4 0)) demo_fed =
      (Some (Inr (1, 1, 4, [], [5, 2, 3, 4])), demo_fed)"
    using deserialize_wire [of _ 1 1 4 "[]" "[]"]
    by (simp add: decode_frame_def demo_fed_def demo_recv_def decompress_frame_into_def frame_blobs_def delta_decode_def
        vec_resize_def)
  have fed: "feed_manager (demo_recv\<lparr>rc_backend := fsr2_backend\<rparr>) f im = (None, map_option (push_frame f) im)" for f im
    by (rule refused_feed) (simp add: demo_recv_def fsr2_backend_def fsr2_interpolate_def)
  show ?thesis
    unfolding recv_frame_def demo_update_def IncomingMessage.select_convs d
    by (simp add: fed Let_def spatial_upscale_def) (simp add: demo_recv_def demo_fed_def RecvLoop_start_def)
qed

theorem fsr2_never_interpolates_witness:
  "\<exists>shown s' one. recv_frame (demo_recv\<lparr>rc_backend := fsr2_backend\<rparr>) 0 (im_header demo_update) False (im_payload demo_update)
       demo_fed = Some (Displayed shown, s') \<and> shown = [one] \<and>
     map_option interpolated_count (interpolation s') = Some 0"
proof -
  obtain shown s' where run: "recv_frame (demo_recv\<lparr>rc_backend := fsr2_backend\<rparr>) 0 (im_header demo_update) False
      (im_payload demo_update) demo_fed = Some (Displayed shown, s')" using fsr2_backend_runs by blast
  have "fsr2_table (rc_backend (demo_recv\<lparr>rc_backend := fsr2_backend\<rparr>))"
    by (simp add: fsr2_table_def fsr2_backend_def)
  from fsr2_never_interpolates [OF disjI1 [OF this] run] have "\<exists>one. shown = [one]"
    "map_option interpolated_count (interpolation s') = Some 0"
    by (auto simp: demo_fed_def RecvLoop_start_def InterpolationManager_new_def)
  with run show ?thesis by blast
qed

end
