(* ===== verification/CaptureIo.thy ===== *)
theory CaptureIo
  imports Capture
begin

text \<open>
  What the two Wayland capture backends share: the double-buffered shared memory (\<^verbatim>\<open>shm.rs\<close>), the bounded wait
  for events (\<^verbatim>\<open>wayland_io.rs\<close>) and the globals and outputs a registry announces. The compositor is a list of what it
  delivers; the contents of a mapped buffer are an argument of the operations that read it.
\<close>

section \<open>shm.rs\<close>

record ShmBufferPool =
  sb_active :: nat
  sb_width :: u32
  sb_height :: u32
  sb_stride :: u32
  sb_format :: u32

text \<open>One slot: \<open>os\<close> is the message of the system call that fails, if any.\<close>

definition ShmSlot_new :: "string option \<Rightarrow> CaptureError + unit" where
  "ShmSlot_new os = (case os of Some e \<Rightarrow> Inl (ShmPool e) | None \<Rightarrow> Inr ())"

definition ShmBufferPool_new ::
  "string option \<Rightarrow> string option \<Rightarrow> u32 \<Rightarrow> u32 \<Rightarrow> u32 \<Rightarrow> u32 \<Rightarrow> CaptureError + ShmBufferPool" where
  "ShmBufferPool_new os0 os1 width height stride fmt =
     (case checked_mul (unat width) 4 of
        None \<Rightarrow> Inl (ShmPool ''stride overflow: width * 4 exceeds usize'')
      | Some min_stride \<Rightarrow>
          if unat stride < min_stride then Inl (ShmPool ''stride < width * 4'')
          else (case checked_mul (unat stride) (unat height) of
             None \<Rightarrow> Inl (ShmPool ''buffer size overflow: stride * height exceeds usize'')
           | Some buf_size \<Rightarrow>
               if buf_size = 0 then Inl (ShmPool ''zero-size buffer'')
               else (case ShmSlot_new os0 of
                  Inl e \<Rightarrow> Inl e
                | Inr _ \<Rightarrow> (case ShmSlot_new os1 of
                     Inl e \<Rightarrow> Inl e
                   | Inr _ \<Rightarrow> Inr \<lparr>sb_active = 0, sb_width = width, sb_height = height, sb_stride = stride, sb_format = fmt\<rparr>))))"

definition shm_buffer_size :: "ShmBufferPool \<Rightarrow> usize" where
  "shm_buffer_size p = usize_mul (unat (sb_stride p)) (unat (sb_height p))"

text \<open>\<open>mem k\<close> is what slot \<open>k\<close> holds.\<close>

definition active_data :: "(nat \<Rightarrow> bytes) \<Rightarrow> ShmBufferPool \<Rightarrow> bytes" where
  "active_data mem p = take (shm_buffer_size p) (mem (sb_active p))"

definition shm_swap :: "ShmBufferPool \<Rightarrow> ShmBufferPool" where
  "shm_swap p = p\<lparr>sb_active := 1 - sb_active p\<rparr>"

lemma shm_buffer_size_eq [simp]: "shm_buffer_size p = unat (sb_stride p) * unat (sb_height p)"
proof -
  have "unat (sb_stride p) * unat (sb_height p) < 4294967296 * 4294967296"
    using unat_lt_u32 [of "sb_stride p"] unat_lt_u32 [of "sb_height p"] by (intro mult_strict_mono) auto
  then show ?thesis by (simp add: shm_buffer_size_def no_wrap)
qed

section \<open>wayland\_io.rs\<close>

datatype DispatchOutcome = Dispatched | TimedOut

datatype poll_result = PollReadable | PollTimeout | PollInterrupted | PollFailed string

text \<open>One turn of the loop: the queued events with whether dispatching succeeds, and, when there were none, whether the
  flush succeeds, whether the read guard is granted, whether the deadline has passed, the poll, and the read.\<close>

record 'e IoTurn =
  it_pending :: "'e list \<times> bool"
  it_flush :: bool
  it_guard :: bool
  it_expired :: bool
  it_poll :: poll_result
  it_read :: bool

fun handle_events :: "('e \<Rightarrow> 's \<Rightarrow> 's) \<Rightarrow> 'e list \<Rightarrow> 's \<Rightarrow> 's" where
  "handle_events h [] s = s"
| "handle_events h (e # es) s = handle_events h es (h e s)"

text \<open>\<open>None\<close> is a loop that is still waiting when the turns given are used up; the turns left are returned.\<close>

fun dispatch_with_deadline ::
  "('e \<Rightarrow> 's \<Rightarrow> 's) \<Rightarrow> 'e IoTurn list \<Rightarrow> 's \<Rightarrow> ((CaptureError + DispatchOutcome) \<times> 's \<times> 'e IoTurn list) option" where
  "dispatch_with_deadline h [] s = None"
| "dispatch_with_deadline h (t # ts) s =
     (let s' = handle_events h (fst (it_pending t)) s in
      if \<not> snd (it_pending t) then Some (Inl WaylandDispatch, s', ts)
      else if fst (it_pending t) \<noteq> [] then Some (Inr Dispatched, s', ts)
      else if \<not> it_flush t then Some (Inl (CaptureFailed ''wl flush''), s', ts)
      else if \<not> it_guard t then dispatch_with_deadline h ts s'
      else if it_expired t then Some (Inr TimedOut, s', ts)
      else (case it_poll t of
         PollInterrupted \<Rightarrow> dispatch_with_deadline h ts s'
       | PollFailed e \<Rightarrow> Some (Inl (CaptureFailed e), s', ts)
       | PollTimeout \<Rightarrow> Some (Inr TimedOut, s', ts)
       | PollReadable \<Rightarrow>
           if it_read t then dispatch_with_deadline h ts s' else Some (Inl (CaptureFailed ''wl read''), s', ts)))"

lemma dispatch_shrinks: "dispatch_with_deadline h ts s = Some (r, s', ts') \<Longrightarrow> length ts' < length ts"
  by (induction h ts s rule: dispatch_with_deadline.induct)
    (fastforce simp: Let_def split: if_splits poll_result.splits)+

text \<open>What a backend's event handler promises: a preorder between states that every event respects. A dispatch, however
  it ends, respects it too.\<close>

locale event_handler =
  fixes h :: "'e \<Rightarrow> 's \<Rightarrow> 's" and rel :: "'s \<Rightarrow> 's \<Rightarrow> bool"
  assumes rel_refl: "rel s s"
    and rel_trans: "rel s t \<Longrightarrow> rel t u \<Longrightarrow> rel s u"
    and rel_event: "rel s (h e s)"
begin

lemma rel_events: "rel s (handle_events h es s)"
proof (induction es arbitrary: s)
  case (Cons e es)
  then show ?case using rel_trans [OF rel_event Cons.IH] by simp
qed (simp add: rel_refl)

lemma rel_dispatch: "dispatch_with_deadline h ts s = Some (r, s', ts') \<Longrightarrow> rel s s'"
proof (induction ts arbitrary: s)
  case (Cons t ts)
  let ?s = "handle_events h (fst (it_pending t)) s"
  have "s' = ?s \<or> dispatch_with_deadline h ts ?s = Some (r, s', ts')"
    using Cons.prems by (auto simp: Let_def split: if_splits poll_result.splits)
  then show ?case using rel_events [of s] rel_trans Cons.IH by blast
qed simp

end

text \<open>The backends' loops around it: dispatch until \<open>goal\<close> holds. A timeout ends the wait or not.\<close>

datatype wait_result = Reached | Broke CaptureError | WaitTimeout

function wait_until ::
  "('s \<Rightarrow> bool) \<Rightarrow> ('e \<Rightarrow> 's \<Rightarrow> 's) \<Rightarrow> bool \<Rightarrow> 'e IoTurn list \<Rightarrow> 's \<Rightarrow> (wait_result \<times> 's \<times> 'e IoTurn list) option" where
  "wait_until goal h bounded ts s =
     (if goal s then Some (Reached, s, ts)
      else (case dispatch_with_deadline h ts s of
         None \<Rightarrow> None
       | Some (Inl e, s', ts') \<Rightarrow> Some (Broke e, s', ts')
       | Some (Inr Dispatched, s', ts') \<Rightarrow> wait_until goal h bounded ts' s'
       | Some (Inr TimedOut, s', ts') \<Rightarrow>
           if bounded then Some (WaitTimeout, s', ts') else wait_until goal h bounded ts' s'))"
  by pat_completeness auto

termination
  by (relation "measure (\<lambda>(goal, h, bounded, ts, s). length ts)") (auto dest: dispatch_shrinks)

declare wait_until.simps [simp del]

lemma wait_until_goal: "wait_until goal h bounded ts s = Some (Reached, s', ts') \<Longrightarrow> goal s'"
proof (induction goal h bounded ts s rule: wait_until.induct)
  case (1 goal h bounded ts s)
  then show ?case
    by (subst (asm) (3) wait_until.simps) (auto split: if_splits option.splits sum.splits prod.splits DispatchOutcome.splits)
qed

lemma unbounded_no_timeout: "wait_until goal h False ts s \<noteq> Some (WaitTimeout, s', ts')"
proof (induction ts arbitrary: s rule: length_induct)
  case (1 ts)
  then show ?case
    by (auto simp: wait_until.simps [of goal h False ts s] dest: dispatch_shrinks
        split: option.splits sum.splits DispatchOutcome.splits)
qed

context event_handler
begin

lemma rel_wait: "wait_until goal h bounded ts s = Some (r, s', ts') \<Longrightarrow> rel s s'"
proof (induction ts arbitrary: s rule: length_induct)
  case (1 ts)
  show ?case
  proof (cases "goal s")
    case True
    with "1.prems" show ?thesis by (simp add: wait_until.simps rel_refl)
  next
    case False
    with "1.prems" obtain d s1 ts1 where d: "dispatch_with_deadline h ts s = Some (d, s1, ts1)"
      by (auto simp: wait_until.simps [of goal h bounded ts s] split: option.splits prod.splits)
    have "s' = s1 \<or> wait_until goal h bounded ts1 s1 = Some (r, s', ts')"
      using False "1.prems" d
      by (auto simp: wait_until.simps [of goal h bounded ts s] split: option.splits sum.splits DispatchOutcome.splits if_splits)
    then show ?thesis
      using "1.IH" dispatch_shrinks [OF d] rel_dispatch [OF d] rel_trans by blast
  qed
qed

end

text \<open>A turn that delivers events, for concrete runs.\<close>

definition delivers :: "'e list \<Rightarrow> 'e IoTurn" where
  "delivers es = \<lparr>it_pending = (es, True), it_flush = True, it_guard = True, it_expired = False, it_poll = PollTimeout, it_read = True\<rparr>"

lemma wait_one:
  assumes "\<not> goal s" and "es \<noteq> []" and "goal (handle_events h es s)"
  shows "wait_until goal h bounded (delivers es # ts) s = Some (Reached, handle_events h es s, ts)"
  using assms by (subst wait_until.simps) (simp add: delivers_def wait_until.simps [of goal h bounded ts])

section \<open>Outputs and results\<close>

record DiscoveredOutput =
  do_name :: string
  do_global :: u32

fun update_first :: "('a \<Rightarrow> bool) \<Rightarrow> ('a \<Rightarrow> 'a) \<Rightarrow> 'a list \<Rightarrow> 'a list" where
  "update_first p f [] = []"
| "update_first p f (x # xs) = (if p x then f x # xs else x # update_first p f xs)"

definition name_output :: "u32 \<Rightarrow> string \<Rightarrow> DiscoveredOutput list \<Rightarrow> DiscoveredOutput list" where
  "name_output gname nm = update_first (\<lambda>o'. do_global o' = gname) (\<lambda>o'. o'\<lparr>do_name := nm\<rparr>)"

definition presentation_ns :: "u32 \<Rightarrow> u32 \<Rightarrow> u32 \<Rightarrow> u64" where
  "presentation_ns tv_sec_hi tv_sec_lo tv_nsec =
     (push_bit 32 (ucast tv_sec_hi) OR ucast tv_sec_lo) * 1000000000 + ucast tv_nsec"

text \<open>What a call of \<^verbatim>\<open>next_frame\<close> comes to: still waiting when the turns given are used up, a panic, or a result
  with the requests made, the state and the turns left.\<close>

datatype ('q, 's, 't) capture_step = StepWaiting | StepPanic | StepDone "CaptureError + CapturedFrame" "'q list" 's "'t list"

end
