(* ===== verification/ExtCapture.thy ===== *)
theory ExtCapture
  imports CaptureIo
begin

text \<open>
  \<^verbatim>\<open>crates/remoteway-capture/src/ext_capture.rs\<close>: the ext-image-capture backend. Its state is what the compositor has
  announced and the session built on it; \<open>ext_event\<close> is all its \<^verbatim>\<open>Dispatch\<close> implementations, \<open>ExtImageCaptureBackend_new\<close>
  builds the session, \<open>ext_next_frame\<close> captures one frame and turns it upright. Windows are named by the numbers of
  their handles, outputs by their global names; the requests made are part of the result.
\<close>

section \<open>State and events\<close>

datatype CaptureSource = OutputSource "string option" | ToplevelSource string | NewToplevelSource "string list"

record DiscoveredToplevel =
  tl_handle :: nat
  tl_app_id :: string
  tl_title :: string
  tl_identifier :: string

datatype ExtRequest =
  CreateOutputSource u32 | CreateToplevelSource nat | CreateSession | CreateFrame | AttachBuffer nat
| DamageBuffer u32 u32 u32 u32 | CaptureRequest | DestroyFrame

record ExtCaptureState =
  xc_shm :: bool
  output_source_manager :: bool
  toplevel_source_manager :: bool
  copy_capture_manager :: bool
  toplevel_list :: bool
  xc_outputs :: "DiscoveredOutput list"
  xc_toplevels :: "DiscoveredToplevel list"
  xc_session :: bool
  xc_pool :: "ShmBufferPool option"
  buffer_width :: u32
  buffer_height :: u32
  shm_format :: "u32 option"
  session_ready :: bool
  frame_ready :: bool
  frame_transform :: u32
  frame_failed :: bool
  xc_damage :: "DamageRect list"
  xc_timestamp_ns :: u64
  xc_stopped :: bool

definition ExtCaptureState_empty :: ExtCaptureState where
  "ExtCaptureState_empty = \<lparr>xc_shm = False, output_source_manager = False, toplevel_source_manager = False,
     copy_capture_manager = False, toplevel_list = False, xc_outputs = [], xc_toplevels = [], xc_session = False,
     xc_pool = None, buffer_width = 0, buffer_height = 0, shm_format = None, session_ready = False, frame_ready = False,
     frame_transform = 0, frame_failed = False, xc_damage = [], xc_timestamp_ns = 0, xc_stopped = False\<rparr>"

text \<open>A format the code does not know is \<open>None\<close>; the signed damage coordinates appear as the words they are cast to.\<close>

datatype ExtEvent =
  ExtGlobal u32 string | ExtOutputName u32 string | SessionBufferSize u32 u32 | SessionShmFormat "u32 option" | SessionDone
| SessionStopped | FrameDamage u32 u32 u32 u32 | FramePresentationTime u32 u32 u32 | FrameTransform u32 | FrameReady
| FrameFailed | HandleAppId nat string | HandleTitle nat string | HandleIdentifier nat string | HandleClosed nat | ExtOther

definition ext_global :: "u32 \<Rightarrow> string \<Rightarrow> ExtCaptureState \<Rightarrow> ExtCaptureState" where
  "ext_global name interface s =
     (if interface = ''wl_shm'' then s\<lparr>xc_shm := True\<rparr>
      else if interface = ''wl_output'' then s\<lparr>xc_outputs := xc_outputs s @ [\<lparr>do_name = [], do_global = name\<rparr>]\<rparr>
      else if interface = ''ext_output_image_capture_source_manager_v1'' then s\<lparr>output_source_manager := True\<rparr>
      else if interface = ''ext_foreign_toplevel_image_capture_source_manager_v1'' then s\<lparr>toplevel_source_manager := True\<rparr>
      else if interface = ''ext_image_copy_capture_manager_v1'' then s\<lparr>copy_capture_manager := True\<rparr>
      else if interface = ''ext_foreign_toplevel_list_v1'' then s\<lparr>toplevel_list := True\<rparr>
      else s)"

fun session_event :: "ExtEvent \<Rightarrow> ExtCaptureState \<Rightarrow> ExtCaptureState" where
  "session_event (SessionBufferSize width height) s = s\<lparr>buffer_width := width, buffer_height := height\<rparr>"
| "session_event (SessionShmFormat fmt) s =
     (case fmt of
        Some f \<Rightarrow> if shm_format s = None \<or> f = 1 then s\<lparr>shm_format := Some f\<rparr> else s
      | None \<Rightarrow> s)"
| "session_event SessionDone s = s\<lparr>session_ready := True\<rparr>"
| "session_event SessionStopped s = s\<lparr>xc_stopped := True\<rparr>"
| "session_event e s = s"

fun frame_event :: "ExtEvent \<Rightarrow> ExtCaptureState \<Rightarrow> ExtCaptureState" where
  "frame_event (FrameDamage x y width height) s = s\<lparr>xc_damage := xc_damage s @ [DamageRect_new x y width height]\<rparr>"
| "frame_event (FramePresentationTime hi lo nsec) s = s\<lparr>xc_timestamp_ns := presentation_ns hi lo nsec\<rparr>"
| "frame_event (FrameTransform t) s = s\<lparr>frame_transform := t\<rparr>"
| "frame_event FrameReady s = s\<lparr>frame_ready := True\<rparr>"
| "frame_event FrameFailed s = s\<lparr>frame_failed := True\<rparr>"
| "frame_event e s = s"

fun handle_event :: "ExtEvent \<Rightarrow> DiscoveredToplevel list \<Rightarrow> DiscoveredToplevel list" where
  "handle_event (HandleAppId h app) ts =
     (if \<exists>t \<in> set ts. tl_handle t = h then update_first (\<lambda>t. tl_handle t = h) (\<lambda>t. t\<lparr>tl_app_id := app\<rparr>) ts
      else ts @ [\<lparr>tl_handle = h, tl_app_id = app, tl_title = [], tl_identifier = []\<rparr>])"
| "handle_event (HandleTitle h title) ts = update_first (\<lambda>t. tl_handle t = h) (\<lambda>t. t\<lparr>tl_title := title\<rparr>) ts"
| "handle_event (HandleIdentifier h ident) ts = update_first (\<lambda>t. tl_handle t = h) (\<lambda>t. t\<lparr>tl_identifier := ident\<rparr>) ts"
| "handle_event (HandleClosed h) ts = filter (\<lambda>t. tl_handle t \<noteq> h) ts"
| "handle_event e ts = ts"

fun ext_event :: "ExtEvent \<Rightarrow> ExtCaptureState \<Rightarrow> ExtCaptureState" where
  "ext_event (ExtGlobal name interface) s = ext_global name interface s"
| "ext_event (ExtOutputName gname nm) s = s\<lparr>xc_outputs := name_output gname nm (xc_outputs s)\<rparr>"
| "ext_event (HandleAppId h app) s = s\<lparr>xc_toplevels := handle_event (HandleAppId h app) (xc_toplevels s)\<rparr>"
| "ext_event (HandleTitle h title) s = s\<lparr>xc_toplevels := handle_event (HandleTitle h title) (xc_toplevels s)\<rparr>"
| "ext_event (HandleIdentifier h ident) s = s\<lparr>xc_toplevels := handle_event (HandleIdentifier h ident) (xc_toplevels s)\<rparr>"
| "ext_event (HandleClosed h) s = s\<lparr>xc_toplevels := handle_event (HandleClosed h) (xc_toplevels s)\<rparr>"
| "ext_event e s = frame_event e (session_event e s)"

section \<open>Choosing what to capture\<close>

definition choose_output :: "string option \<Rightarrow> DiscoveredOutput list \<Rightarrow> CaptureError + DiscoveredOutput" where
  "choose_output nm os = (case nm of
     Some name \<Rightarrow> (case find (\<lambda>o'. do_name o' = name) os of Some o' \<Rightarrow> Inr o' | None \<Rightarrow> Inl (OutputNotFound name))
   | None \<Rightarrow> (case os of o' # _ \<Rightarrow> Inr o' | [] \<Rightarrow> Inl NoOutputs))"

definition choose_new_toplevel :: "string list \<Rightarrow> DiscoveredToplevel list \<Rightarrow> DiscoveredToplevel option" where
  "choose_new_toplevel known ts =
     (case find (\<lambda>t. tl_identifier t \<noteq> [] \<and> tl_identifier t \<notin> set known) ts of
        Some t \<Rightarrow> Some t
      | None \<Rightarrow> if known = [] then (case ts of t # _ \<Rightarrow> Some t | [] \<Rightarrow> None) else None)"

definition choose_source :: "CaptureSource \<Rightarrow> ExtCaptureState \<Rightarrow> CaptureError + ExtRequest" where
  "choose_source src s = (case src of
     OutputSource nm \<Rightarrow>
       if \<not> output_source_manager s then Inl NoBackend
       else (case choose_output nm (xc_outputs s) of Inl e \<Rightarrow> Inl e | Inr o' \<Rightarrow> Inr (CreateOutputSource (do_global o')))
   | ToplevelSource app \<Rightarrow>
       if \<not> toplevel_source_manager s then Inl NoBackend
       else (case find (\<lambda>t. tl_app_id t = app) (xc_toplevels s) of
          Some t \<Rightarrow> Inr (CreateToplevelSource (tl_handle t))
        | None \<Rightarrow> Inl (CaptureFailed ''toplevel not found''))
   | NewToplevelSource known \<Rightarrow>
       if \<not> toplevel_source_manager s then Inl NoBackend
       else (case choose_new_toplevel known (xc_toplevels s) of
          Some t \<Rightarrow> Inr (CreateToplevelSource (tl_handle t))
        | None \<Rightarrow> Inl (CaptureFailed ''no new toplevel found'')))"

section \<open>Building the session\<close>

text \<open>Each roundtrip delivers events and succeeds or not; \<open>os0\<close> and \<open>os1\<close> are the failures of the two buffers.\<close>

type_synonym roundtrip_events = "ExtEvent list \<times> bool"

definition ExtImageCaptureBackend_new ::
  "bool \<Rightarrow> roundtrip_events \<Rightarrow> roundtrip_events \<Rightarrow> roundtrip_events \<Rightarrow> string option \<Rightarrow> string option \<Rightarrow> CaptureSource
   \<Rightarrow> CaptureError + (ExtRequest list \<times> ExtCaptureState)" where
  "ExtImageCaptureBackend_new connected rt1 rt2 rt3 os0 os1 src =
     (if \<not> connected then Inl WaylandConnect
      else let s1 = handle_events ext_event (fst rt1) ExtCaptureState_empty in
      if \<not> snd rt1 then Inl WaylandDispatch
      else if \<not> copy_capture_manager s1 then Inl NoBackend
      else if \<not> xc_shm s1 then Inl (CaptureFailed ''wl_shm not available'')
      else let s2 = handle_events ext_event (fst rt2) s1 in
      if \<not> snd rt2 then Inl WaylandDispatch
      else (case choose_source src s2 of
         Inl e \<Rightarrow> Inl e
       | Inr rq \<Rightarrow>
           let s3 = handle_events ext_event (fst rt3) (s2\<lparr>xc_session := True\<rparr>) in
           if \<not> snd rt3 then Inl WaylandDispatch
           else if \<not> session_ready s3 then Inl (CaptureFailed ''session setup incomplete'')
           else (case shm_format s3 of
              None \<Rightarrow> Inl (CaptureFailed ''no supported SHM format'')
            | Some fmt \<Rightarrow>
                (case ShmBufferPool_new os0 os1 (buffer_width s3) (buffer_height s3) (buffer_width s3 * 4) fmt of
                   Inl e \<Rightarrow> Inl e
                 | Inr pool \<Rightarrow> Inr ([rq, CreateSession], s3\<lparr>xc_pool := Some pool\<rparr>)))))"

definition ext_is_available :: "roundtrip_events \<Rightarrow> bool" where
  "ext_is_available rt \<longleftrightarrow> snd rt \<and> (\<exists>e \<in> set (fst rt). case e of ExtGlobal _ i \<Rightarrow> i = ''ext_image_copy_capture_manager_v1'' | _ \<Rightarrow> False)"

record ToplevelInfo =
  ti_app_id :: string
  ti_title :: string
  ti_identifier :: string

definition enumerate_toplevels :: "bool \<Rightarrow> roundtrip_events \<Rightarrow> roundtrip_events \<Rightarrow> CaptureError + ToplevelInfo list" where
  "enumerate_toplevels connected rt1 rt2 =
     (if \<not> connected then Inl WaylandConnect
      else let s1 = handle_events ext_event (fst rt1) ExtCaptureState_empty in
      if \<not> snd rt1 then Inl WaylandDispatch
      else if \<not> toplevel_list s1 then Inl NoBackend
      else let s2 = handle_events ext_event (fst rt2) s1 in
      if \<not> snd rt2 then Inl WaylandDispatch
      else Inr (map (\<lambda>t. \<lparr>ti_app_id = tl_app_id t, ti_title = tl_title t, ti_identifier = tl_identifier t\<rparr>) (xc_toplevels s2)))"

section \<open>Turning a frame upright\<close>

text \<open>Swapping rows \<open>a < b\<close>; \<open>None\<close> is a panic.\<close>

definition swap_rows :: "usize \<Rightarrow> usize \<Rightarrow> usize \<Rightarrow> bytes \<Rightarrow> bytes option" where
  "swap_rows stride a b data = do {
     ra \<leftarrow> vslice data (a * stride) (a * stride + stride);
     rb \<leftarrow> vslice data (b * stride) (b * stride + stride);
     d \<leftarrow> write_slice data (a * stride) rb;
     write_slice d (b * stride) ra
   }"

function flip_loop :: "usize \<Rightarrow> usize \<Rightarrow> usize \<Rightarrow> bytes \<Rightarrow> bytes option" where
  "flip_loop stride t b data =
     (if t < b then do { d \<leftarrow> swap_rows stride t b data; flip_loop stride (t + 1) (b - 1) d }
      else Some data)"
  by pat_completeness auto

termination by (relation "measure (\<lambda>(stride, t, b, data). b - t)") auto

declare flip_loop.simps [simp del]

definition flip_rows :: "bytes \<Rightarrow> usize \<Rightarrow> bytes option" where
  "flip_rows data stride =
     (if stride = 0 then None else flip_loop stride 0 (saturating_sub (length data div stride) 1) data)"

definition swap_at :: "usize \<Rightarrow> usize \<Rightarrow> bytes \<Rightarrow> bytes option" where
  "swap_at a b row = do { x \<leftarrow> index row a; y \<leftarrow> index row b; Some (row[a := y, b := x]) }"

definition mirror_row :: "usize \<Rightarrow> bytes \<Rightarrow> bytes option" where
  "mirror_row pixels row =
     fold_opt (\<lambda>i. fold_opt (\<lambda>k. swap_at (i * 4 + k) ((pixels - 1 - i) * 4 + k)) [0..<4]) [0..<pixels div 2] row"

fun mirror_chunks :: "usize \<Rightarrow> bytes list \<Rightarrow> bytes option" where
  "mirror_chunks pixels [] = Some []"
| "mirror_chunks pixels (row # rows) = do { r \<leftarrow> mirror_row pixels row; rs \<leftarrow> mirror_chunks pixels rows; Some (r @ rs) }"

definition exact_rows :: "usize \<Rightarrow> bytes \<Rightarrow> bytes list" where
  "exact_rows stride data = map (\<lambda>y. take stride (drop (y * stride) data)) [0..<length data div stride]"

definition mirror_rows :: "bytes \<Rightarrow> usize \<Rightarrow> bytes option" where
  "mirror_rows data stride =
     (if stride = 0 then None
      else do { d \<leftarrow> mirror_chunks (stride div 4) (exact_rows stride data); Some (d @ drop (length data div stride * stride) data) })"

definition orient :: "u32 \<Rightarrow> usize \<Rightarrow> bytes \<Rightarrow> bytes option" where
  "orient t stride data =
     (if t = 2 then do { d \<leftarrow> flip_rows data stride; mirror_rows d stride }
      else if t = 4 then mirror_rows data stride
      else if t = 6 then flip_rows data stride
      else Some data)"

section \<open>Capturing a frame\<close>

definition full_damage :: "ExtCaptureState \<Rightarrow> DamageRect list" where
  "full_damage s = [DamageRect_new 0 0 (buffer_width s) (buffer_height s)]"

definition ext_done :: "ExtCaptureState \<Rightarrow> bool" where
  "ext_done s \<longleftrightarrow> frame_ready s \<or> frame_failed s \<or> xc_stopped s"

text \<open>From the end of the wait: the frame object is destroyed, then the outcome is decided.\<close>

definition ext_finish ::
  "(nat \<Rightarrow> bytes) \<Rightarrow> ExtRequest list \<Rightarrow> ExtCaptureState \<Rightarrow> ExtEvent IoTurn list \<Rightarrow> (ExtRequest, ExtCaptureState, ExtEvent IoTurn) capture_step" where
  "ext_finish mem rq s ts =
     (let rq' = rq @ [DestroyFrame] in
      if xc_stopped s then StepDone (Inl SessionEnded) rq' s ts
      else if frame_failed s then StepDone (Inl (CaptureFailed ''compositor reported capture failure'')) rq' s ts
      else
        let s1 = (if xc_damage s = [] then s\<lparr>xc_damage := full_damage s\<rparr> else s);
            stride = buffer_width s1 * 4;
            raw = (case shm_format s1 of Some f \<Rightarrow> f | None \<Rightarrow> 0) in
        (case from_wl_shm raw of
           None \<Rightarrow> StepDone (Inl (UnsupportedFormat raw)) rq' s1 ts
         | Some fmt \<Rightarrow> (case xc_pool s1 of
              None \<Rightarrow> StepPanic
            | Some pool \<Rightarrow> (case orient (frame_transform s1) (unat stride) (active_data mem pool) of
                 None \<Rightarrow> StepPanic
               | Some data \<Rightarrow>
                   let dmg = (if frame_transform s1 = 0 then xc_damage s1 else full_damage s1) in
                   StepDone (Inr \<lparr>cap_data = data, damage = dmg, cap_format = fmt, cap_width = buffer_width s1,
                       cap_height = buffer_height s1, cap_stride = stride, cap_timestamp_ns = xc_timestamp_ns s1\<rparr>)
                     rq' (s1\<lparr>xc_pool := Some (shm_swap pool), xc_damage := []\<rparr>) ts))))"

text \<open>The wait has no bound, so its timeout branch is never taken (\<open>unbounded_no_timeout\<close>).\<close>

definition ext_next_frame ::
  "ExtEvent IoTurn list \<Rightarrow> (nat \<Rightarrow> bytes) \<Rightarrow> ExtCaptureState \<Rightarrow> (ExtRequest, ExtCaptureState, ExtEvent IoTurn) capture_step" where
  "ext_next_frame ts mem s =
     (if xc_stopped s then StepDone (Inl SessionEnded) [] s ts
      else
        let s1 = s\<lparr>frame_ready := False, frame_failed := False, xc_damage := []\<rparr> in
        if \<not> xc_session s1 then StepDone (Inl NoBackend) [] s1 ts
        else (case xc_pool s1 of
           None \<Rightarrow> StepDone (Inl (CaptureFailed ''no SHM pool'')) [CreateFrame] s1 ts
         | Some pool \<Rightarrow>
             let rq = [CreateFrame, AttachBuffer (sb_active pool), DamageBuffer 0 0 (buffer_width s1) (buffer_height s1), CaptureRequest] in
             (case wait_until ext_done ext_event False ts s1 of
                None \<Rightarrow> StepWaiting
              | Some (WaitTimeout, s2, ts') \<Rightarrow> StepWaiting
              | Some (Broke e, s2, ts') \<Rightarrow> StepDone (Inl e) rq s2 ts'
              | Some (Reached, s2, ts') \<Rightarrow> ext_finish mem rq s2 ts')))"

definition ext_stop :: "ExtCaptureState \<Rightarrow> ExtCaptureState" where
  "ext_stop s = s\<lparr>xc_stopped := True\<rparr>"

section \<open>Turning frames upright\<close>

lemma in_row: "j < stride \<Longrightarrow> a * stride \<le> y * stride + j \<and> y * stride + j < a * stride + stride \<longleftrightarrow> y = a" for a y j stride :: nat
proof -
  assume j: "j < stride"
  have "y < a \<Longrightarrow> y * stride + stride \<le> a * stride" using mult_le_mono1 [of "Suc y" a stride] by simp
  moreover have "a < y \<Longrightarrow> a * stride + stride \<le> y * stride" using mult_le_mono1 [of "Suc a" y stride] by simp
  ultimately show ?thesis using j by (cases y a rule: linorder_cases) auto
qed

lemma row_fits: "y < h \<Longrightarrow> h * stride \<le> n \<Longrightarrow> y * stride + stride \<le> n" for y h stride n :: nat
  using mult_le_mono1 [of "Suc y" h stride] by simp

lemma swap_rows_nth:
  assumes "a < h" and "b < h" and "h * stride \<le> length data"
  shows "\<exists>d. swap_rows stride a b data = Some d \<and> length d = length data \<and>
     (\<forall>y < h. \<forall>j < stride. d ! (y * stride + j) = data ! ((if y = b then a else if y = a then b else y) * stride + j))"
proof -
  have fits: "y < h \<Longrightarrow> y * stride + stride \<le> length data" for y by (rule row_fits [OF _ assms(3)])
  let ?ra = "take stride (drop (a * stride) data)" and ?rb = "take stride (drop (b * stride) data)"
  have va: "vslice data (a * stride) (a * stride + stride) = Some ?ra"
    and vb: "vslice data (b * stride) (b * stride + stride) = Some ?rb"
    using fits assms(1,2) by (simp_all add: vslice_def)
  have la: "length ?ra = stride" and lb: "length ?rb = stride" using fits [OF assms(1)] fits [OF assms(2)] by simp_all
  obtain d where d: "write_slice data (a * stride) ?rb = Some d" using fits [OF assms(1)] lb by (simp add: write_slice_def)
  have ld: "length d = length data" using d by (rule length_write_slice)
  obtain d' where d': "write_slice d (b * stride) ?ra = Some d'" using fits [OF assms(2)] la ld by (simp add: write_slice_def)
  have ld': "length d' = length data" using length_write_slice [OF d'] ld by simp
  have "d' ! (y * stride + j) = data ! ((if y = b then a else if y = a then b else y) * stride + j)"
    if "y < h" "j < stride" for y j
  proof -
    have i: "y * stride + j < length data" using fits [OF that(1)] that(2) by simp
    have "y = a \<Longrightarrow> d ! (y * stride + j) = ?rb ! j" "y \<noteq> a \<Longrightarrow> d ! (y * stride + j) = data ! (y * stride + j)"
      using write_slice_nth [OF d i] in_row [OF that(2), of a y] lb by auto
    moreover have "y = b \<Longrightarrow> d' ! (y * stride + j) = ?ra ! j" "y \<noteq> b \<Longrightarrow> d' ! (y * stride + j) = d ! (y * stride + j)"
      using write_slice_nth [OF d', of "y * stride + j"] in_row [OF that(2), of b y] la ld i by auto
    moreover have "?ra ! j = data ! (a * stride + j)" "?rb ! j = data ! (b * stride + j)"
      using that(2) fits [OF assms(1)] fits [OF assms(2)] by simp_all
    ultimately show ?thesis by auto
  qed
  then show ?thesis using va vb d d' ld' by (auto simp: swap_rows_def)
qed

lemma flip_loop_nth:
  assumes "b < h" and "h * stride \<le> length data"
  shows "\<exists>d. flip_loop stride t b data = Some d \<and> length d = length data \<and>
     (\<forall>y < h. \<forall>j < stride. d ! (y * stride + j) = data ! ((if t \<le> y \<and> y \<le> b then t + b - y else y) * stride + j))"
  using assms
proof (induction stride t b data rule: flip_loop.induct)
  case (1 stride t b data)
  show ?case
  proof (cases "t < b")
    case False
    then have "t \<le> y \<Longrightarrow> y \<le> b \<Longrightarrow> t + b - y = y" for y by simp
    with False show ?thesis by (subst flip_loop.simps) auto
  next
    case True
    have "t < h" using True "1.prems"(1) by simp
    from swap_rows_nth [OF this "1.prems"] obtain d where d: "swap_rows stride t b data = Some d" "length d = length data"
        "\<forall>y < h. \<forall>j < stride. d ! (y * stride + j) = data ! ((if y = b then t else if y = t then b else y) * stride + j)"
      by blast
    have "b - 1 < h" using "1.prems"(1) by simp
    from "1.IH" [OF True d(1) this] "1.prems"(2) d(2) obtain d' where
      d': "flip_loop stride (t + 1) (b - 1) d = Some d'" "length d' = length d"
        "\<forall>y < h. \<forall>j < stride. d' ! (y * stride + j) =
           d ! ((if t + 1 \<le> y \<and> y \<le> b - 1 then t + 1 + (b - 1) - y else y) * stride + j)" by auto
    have "d' ! (y * stride + j) = data ! ((if t \<le> y \<and> y \<le> b then t + b - y else y) * stride + j)"
      if y: "y < h" and j: "j < stride" for y j
    proof (cases "t + 1 \<le> y \<and> y \<le> b - 1")
      case in_: True
      then have "t + b - y < h" "t + b - y \<noteq> b" "t + b - y \<noteq> t" using True "1.prems"(1) by auto
      moreover have "t + 1 + (b - 1) - y = t + b - y" using True by simp
      ultimately show ?thesis using d'(3) d(3) y j in_ by auto
    next
      case False
      then have "y < t \<or> y = t \<or> y = b \<or> b < y" by auto
      then show ?thesis using False d'(3) d(3) y j True by auto
    qed
    then show ?thesis using True d(1,2) d'(1,2) by (subst flip_loop.simps) auto
  qed
qed

lemma flip_rows_nth:
  assumes "0 < stride" and "length data = h * stride"
  shows "\<exists>d. flip_rows data stride = Some d \<and> length d = length data \<and>
     (\<forall>y < h. \<forall>j < stride. d ! (y * stride + j) = data ! ((h - 1 - y) * stride + j))"
proof (cases h)
  case 0
  then show ?thesis using assms by (simp add: flip_rows_def saturating_sub_def flip_loop.simps [of stride 0 0])
next
  case (Suc m)
  have "m < h" "h * stride \<le> length data" using Suc assms(2) by simp_all
  from flip_loop_nth [OF this, of 0] show ?thesis
    using assms Suc by (auto simp: flip_rows_def saturating_sub_def simp del: mult_Suc)
qed

lemma swap_at_nth:
  "a < length r \<Longrightarrow> b < length r \<Longrightarrow> swap_at a b r = Some (r[a := r ! b, b := r ! a])"
  by (simp add: swap_at_def index_def)

lemma in_pixel: "k < 4 \<Longrightarrow> k' < 4 \<Longrightarrow> p * 4 + k = q * 4 + k' \<longleftrightarrow> p = q \<and> k = k'" for p q k k' :: nat
  by presburger

lemma swap_pixels_nth:
  assumes "l < n" and "r < n" and "l \<noteq> r" and "length row = n * 4" and "m \<le> 4"
  shows "\<exists>d. fold_opt (\<lambda>k. swap_at (l * 4 + k) (r * 4 + k)) [0..<m] row = Some d \<and> length d = length row \<and>
     (\<forall>p < n. \<forall>k < 4. d ! (p * 4 + k) = row ! ((if k < m \<and> p = r then l else if k < m \<and> p = l then r else p) * 4 + k))"
  using assms(5)
proof (induction m)
  case (Suc m)
  then obtain d where d: "fold_opt (\<lambda>k. swap_at (l * 4 + k) (r * 4 + k)) [0..<m] row = Some d" "length d = length row"
      "\<forall>p < n. \<forall>k < 4. d ! (p * 4 + k) = row ! ((if k < m \<and> p = r then l else if k < m \<and> p = l then r else p) * 4 + k)"
    by auto
  have in_: "p < n \<Longrightarrow> k < 4 \<Longrightarrow> p * 4 + k < length d" for p k using d(2) assms(4) by simp
  have m: "m < 4" using Suc.prems by simp
  let ?d = "d[l * 4 + m := d ! (r * 4 + m), r * 4 + m := d ! (l * 4 + m)]"
  have "swap_at (l * 4 + m) (r * 4 + m) d = Some ?d"
    using in_ [OF assms(1) m] in_ [OF assms(2) m] by (rule swap_at_nth)
  moreover have "?d ! (p * 4 + k) = row ! ((if k < Suc m \<and> p = r then l else if k < Suc m \<and> p = l then r else p) * 4 + k)"
    if "p < n" "k < 4" for p k
    using that d(3) in_ [OF that] in_ [OF assms(1) m] in_ [OF assms(2) m] in_pixel [OF that(2) m] assms(1-3) m
    by (auto simp: nth_list_update)
  ultimately show ?case using d(1,2) by (simp add: fold_opt_snoc)
qed simp

lemma mirror_row_nth:
  assumes "length row = n * 4"
  shows "\<exists>d. mirror_row n row = Some d \<and> length d = n * 4 \<and>
     (\<forall>p < n. \<forall>k < 4. d ! (p * 4 + k) = row ! ((n - 1 - p) * 4 + k))"
proof -
  have "m \<le> n div 2 \<Longrightarrow> \<exists>d. fold_opt (\<lambda>i. fold_opt (\<lambda>k. swap_at (i * 4 + k) ((n - 1 - i) * 4 + k)) [0..<4]) [0..<m] row = Some d \<and>
     length d = n * 4 \<and>
     (\<forall>p < n. \<forall>k < 4. d ! (p * 4 + k) = row ! ((if p < m \<or> n - 1 - p < m then n - 1 - p else p) * 4 + k))" for m
  proof (induction m)
    case (Suc m)
    then obtain d where d: "fold_opt (\<lambda>i. fold_opt (\<lambda>k. swap_at (i * 4 + k) ((n - 1 - i) * 4 + k)) [0..<4]) [0..<m] row = Some d"
        "length d = n * 4"
        "\<forall>p < n. \<forall>k < 4. d ! (p * 4 + k) = row ! ((if p < m \<or> n - 1 - p < m then n - 1 - p else p) * 4 + k)" by auto
    have m: "m < n" "n - 1 - m < n" "m \<noteq> n - 1 - m" using Suc.prems by auto
    from swap_pixels_nth [OF m d(2), of 4] obtain d' where
      d': "fold_opt (\<lambda>k. swap_at (m * 4 + k) ((n - 1 - m) * 4 + k)) [0..<4] d = Some d'" "length d' = length d"
        "\<forall>p < n. \<forall>k < 4. d' ! (p * 4 + k) = d ! ((if p = n - 1 - m then m else if p = m then n - 1 - m else p) * 4 + k)"
      by auto
    have "d' ! (p * 4 + k) = row ! ((if p < Suc m \<or> n - 1 - p < Suc m then n - 1 - p else p) * 4 + k)"
      if p: "p < n" and k: "k < 4" for p k
    proof (cases "p = m \<or> p = n - 1 - m")
      case True
      then show ?thesis using d'(3) d(3) m p k Suc.prems by auto
    next
      case False
      then have "(p < Suc m \<or> n - 1 - p < Suc m) \<longleftrightarrow> (p < m \<or> n - 1 - p < m)" using p by auto
      then show ?thesis using d'(3) d(3) p k False by simp
    qed
    then show ?case using d(1,2) d'(1,2) by (simp add: fold_opt_snoc)
  qed (use assms in simp)
  from this [of "n div 2"] obtain d where d: "mirror_row n row = Some d" "length d = n * 4"
      "\<forall>p < n. \<forall>k < 4. d ! (p * 4 + k) = row ! ((if p < n div 2 \<or> n - 1 - p < n div 2 then n - 1 - p else p) * 4 + k)"
    by (auto simp: mirror_row_def)
  have "(if p < n div 2 \<or> n - 1 - p < n div 2 then n - 1 - p else p) = n - 1 - p" if "p < n" for p
    using that by (simp; linarith)
  then have "\<forall>p < n. \<forall>k < 4. d ! (p * 4 + k) = row ! ((n - 1 - p) * 4 + k)" using d(3) by simp
  with d show ?thesis by blast
qed

lemma mirror_chunks_nth:
  assumes "\<forall>row \<in> set rows. length row = n * 4"
  shows "\<exists>d. mirror_chunks n rows = Some d \<and> length d = length rows * (n * 4) \<and>
     (\<forall>y < length rows. \<forall>p < n. \<forall>k < 4. d ! (y * (n * 4) + (p * 4 + k)) = rows ! y ! ((n - 1 - p) * 4 + k))"
  using assms
proof (induction rows)
  case (Cons row rows)
  then obtain d where d: "mirror_chunks n rows = Some d" "length d = length rows * (n * 4)"
      "\<forall>y < length rows. \<forall>p < n. \<forall>k < 4. d ! (y * (n * 4) + (p * 4 + k)) = rows ! y ! ((n - 1 - p) * 4 + k)" by auto
  obtain r where r: "mirror_row n row = Some r" "length r = n * 4"
      "\<forall>p < n. \<forall>k < 4. r ! (p * 4 + k) = row ! ((n - 1 - p) * 4 + k)"
    using mirror_row_nth [of row n] Cons.prems by auto
  have "(r @ d) ! (y * (n * 4) + (p * 4 + k)) = (row # rows) ! y ! ((n - 1 - p) * 4 + k)"
    if y: "y < length (row # rows)" and p: "p < n" and k: "k < 4" for y p k
  proof (cases y)
    case 0
    have "p * 4 + k < n * 4" using p k by simp
    with 0 r p k show ?thesis by (simp add: nth_append)
  next
    case (Suc z)
    then have "(r @ d) ! (y * (n * 4) + (p * 4 + k)) = d ! (z * (n * 4) + (p * 4 + k))"
      using r(2) by (simp add: nth_append add.assoc)
    with d(3) Suc y p k show ?thesis by simp
  qed
  then show ?case using d(1,2) r(1,2) by auto
qed simp

lemma mirror_rows_nth:
  assumes "0 < n" and "length data = h * (n * 4)"
  shows "\<exists>d. mirror_rows data (n * 4) = Some d \<and> length d = length data \<and>
     (\<forall>y < h. \<forall>p < n. \<forall>k < 4. d ! (y * (n * 4) + (p * 4 + k)) = data ! (y * (n * 4) + ((n - 1 - p) * 4 + k)))"
proof -
  have h: "length data div (n * 4) = h" using assms by simp
  let ?rows = "exact_rows (n * 4) data"
  have fits: "y < h \<Longrightarrow> y * (n * 4) + n * 4 \<le> length data" for y using assms(2) by (metis row_fits order_refl)
  have "y < h \<Longrightarrow> min (length data - y * (n * 4)) (n * 4) = n * 4" for y using fits [of y] by simp
  then have len: "length ?rows = h" and each: "\<forall>row \<in> set ?rows. length row = n * 4"
    by (auto simp: exact_rows_def h)
  from mirror_chunks_nth [OF each] obtain d where d: "mirror_chunks n ?rows = Some d" "length d = h * (n * 4)"
      "\<forall>y < h. \<forall>p < n. \<forall>k < 4. d ! (y * (n * 4) + (p * 4 + k)) = ?rows ! y ! ((n - 1 - p) * 4 + k)" using len by auto
  have row: "?rows ! y ! j = data ! (y * (n * 4) + j)" if "y < h" "j < n * 4" for y j
    using that h fits [OF that(1)] by (simp add: exact_rows_def)
  have "d ! (y * (n * 4) + (p * 4 + k)) = data ! (y * (n * 4) + ((n - 1 - p) * 4 + k))" if "y < h" "p < n" "k < 4" for y p k
  proof -
    have "(n - 1 - p) * 4 + k < n * 4" using that by simp
    with d(3) row that show ?thesis by simp
  qed
  moreover have "mirror_rows data (n * 4) = Some d"
    using assms h d(1) by (simp add: mirror_rows_def)
  ultimately show ?thesis using d(2) assms(2) by auto
qed

text \<open>C35. Frames are turned upright: for a frame of \<open>w\<close> by \<open>h\<close> pixels and each of the transforms the backend undoes
  (2 is a half turn, 4 a mirror, 6 a flip), undoing it neither panics nor changes the length, and pixel \<open>(x, y)\<close> of the
  result is the pixel of the buffer that lies at \<open>y\<close> from the other edge for 2 and 6 and at \<open>x\<close> from the other edge for
  2 and 4.\<close>

theorem upright_frame:
  assumes "t = 2 \<or> t = 4 \<or> t = 6" and "0 < w" and "length data = h * (w * 4)"
  shows "\<exists>d. orient t (w * 4) data = Some d \<and> length d = length data \<and>
     (\<forall>y < h. \<forall>x < w. \<forall>k < 4. d ! (y * (w * 4) + (x * 4 + k)) =
        data ! ((if t = 4 then y else h - 1 - y) * (w * 4) + ((if t = 6 then x else w - 1 - x) * 4 + k)))"
proof -
  have s: "0 < w * 4" using assms(2) by simp
  from flip_rows_nth [OF s assms(3)] obtain f where f: "flip_rows data (w * 4) = Some f" "length f = length data"
      "\<forall>y < h. \<forall>j < w * 4. f ! (y * (w * 4) + j) = data ! ((h - 1 - y) * (w * 4) + j)" by blast
  have px: "x < w \<Longrightarrow> k < 4 \<Longrightarrow> x * 4 + k < w * 4" for x k :: nat by simp
  from assms(1) consider "t = 4" | "t = 6" | "t = 2" by blast
  then show ?thesis
  proof cases
    case 1
    with mirror_rows_nth [OF assms(2,3)] show ?thesis by (auto simp: orient_def)
  next
    case 2
    with f px show ?thesis by (auto simp: orient_def)
  next
    case 3
    from mirror_rows_nth [OF assms(2), of f h] f(2) assms(3) obtain d where
      d: "mirror_rows f (w * 4) = Some d" "length d = length f"
        "\<forall>y < h. \<forall>p < w. \<forall>k < 4. d ! (y * (w * 4) + (p * 4 + k)) = f ! (y * (w * 4) + ((w - 1 - p) * 4 + k))" by auto
    have "(w - 1 - x) * 4 + k < w * 4" if "x < w" "k < 4" for x k :: nat using that by simp
    with 3 f d show ?thesis by (auto simp: orient_def)
  qed
qed

theorem upright_frame_witness:
  "\<exists>d. orient 2 (2 * 4) [1, 2, 3, 4, 5, 6, 7, 8, 9, 10, 11, 12, 13, 14, 15, 16] = Some d \<and> length d = 16 \<and> d ! 0 = 13 \<and> d ! 15 = 4"
proof -
  let ?data = "[1, 2, 3, 4, 5, 6, 7, 8, 9, 10, 11, 12, 13, 14, 15, 16] :: bytes"
  obtain d where d: "orient 2 (2 * 4) ?data = Some d" "length d = length ?data"
      "\<forall>y < 2. \<forall>x < 2. \<forall>k < 4. d ! (y * (2 * 4) + (x * 4 + k)) =
        ?data ! ((if (2 :: u32) = 4 then y else 2 - 1 - y) * (2 * 4) + ((if (2 :: u32) = 6 then x else 2 - 1 - x) * 4 + k))"
    using upright_frame [of 2 2 ?data 2] by auto
  have "d ! 0 = 13" using spec [OF spec [OF spec [OF d(3), of 0, THEN mp], of 0, THEN mp], of 0] by simp
  moreover have "d ! 15 = 4" using spec [OF spec [OF spec [OF d(3), of 1, THEN mp], of 1, THEN mp], of 3] by simp
  ultimately show ?thesis using d(1,2) by auto
qed

section \<open>The session\<close>

text \<open>A session between two frames: its buffers have the announced width and height, with four bytes a pixel.\<close>

definition pool_ok :: "ShmBufferPool \<Rightarrow> bool" where
  "pool_ok p \<longleftrightarrow> unat (sb_stride p) = unat (sb_width p) * 4 \<and> 0 < sb_width p \<and> 0 < sb_height p \<and> sb_active p < 2"

definition ext_ready :: "ExtCaptureState \<Rightarrow> ShmBufferPool \<Rightarrow> bool" where
  "ext_ready s p \<longleftrightarrow> xc_session s \<and> xc_pool s = Some p \<and> pool_ok p"

interpretation ext_handler: event_handler ext_event
  "\<lambda>s t. xc_session t = xc_session s \<and> xc_pool t = xc_pool s \<and> (xc_stopped s \<longrightarrow> xc_stopped t)"
proof unfold_locales
  show "xc_session (ext_event e s) = xc_session s \<and> xc_pool (ext_event e s) = xc_pool s \<and>
      (xc_stopped s \<longrightarrow> xc_stopped (ext_event e s))" for e s
    by (cases e) (auto simp: ext_global_def split: option.splits)
qed auto

lemma pool_new_ok:
  assumes "ShmBufferPool_new os0 os1 w h (w * 4) fmt = Inr p"
  shows "pool_ok p \<and> sb_width p = w \<and> sb_height p = h \<and> sb_stride p = w * 4 \<and> sb_active p = 0"
proof -
  have le: "unat w * 4 \<le> unat (w * 4)" and ne: "unat (w * 4) * unat h \<noteq> 0" and p: "p = \<lparr>sb_active = 0, sb_width = w, sb_height = h, sb_stride = w * 4, sb_format = fmt\<rparr>"
    using assms by (auto simp: ShmBufferPool_new_def checked_mul_def ShmSlot_new_def split: option.splits if_splits sum.splits)
  have "unat (w * 4) \<le> unat w * 4" by (simp add: unat_word_ariths)
  with le have "unat (w * 4) = unat w * 4" by simp
  with ne p show ?thesis by (auto simp: pool_ok_def word_gt_0 unat_eq_0)
qed

lemma pool_ok_swap: "pool_ok p \<Longrightarrow> pool_ok (shm_swap p)"
  by (auto simp: pool_ok_def shm_swap_def)

lemma orient_length:
  assumes "0 < w" and "length data = h * (w * 4)"
  shows "\<exists>d. orient t (w * 4) data = Some d \<and> length d = length data"
proof (cases "t = 2 \<or> t = 4 \<or> t = 6")
  case False
  then show ?thesis by (auto simp: orient_def)
next
  case True
  have s: "0 < w * 4" using assms(1) by simp
  from flip_rows_nth [OF s assms(2)] obtain f where "flip_rows data (w * 4) = Some f" "length f = length data" by blast
  with True mirror_rows_nth [OF assms(1), of data h] mirror_rows_nth [OF assms(1), of f h] assms(2)
  show ?thesis by (auto simp: orient_def)
qed

lemma ext_next_frameD:
  assumes "ext_ready s p" and "ext_next_frame ts mem s = StepDone (Inr f) rq s' ts'"
  obtains s2 :: ExtCaptureState and data where "xc_pool s2 = Some p" "\<not> frame_failed s2" "frame_ready s2"
    "rq = [CreateFrame, AttachBuffer (sb_active p), DamageBuffer 0 0 (buffer_width s) (buffer_height s), CaptureRequest, DestroyFrame]"
    "orient (frame_transform s2) (unat (buffer_width s2 * 4)) (active_data mem p) = Some data"
    "cap_data f = data" "cap_width f = buffer_width s2" "cap_height f = buffer_height s2" "cap_stride f = buffer_width s2 * 4"
    "damage f \<noteq> []" "xc_pool s' = Some (shm_swap p)" "xc_session s' = xc_session s" "buffer_width s' = buffer_width s2"
    "buffer_height s' = buffer_height s2" "frame_transform s' = frame_transform s2"
proof -
  let ?s1 = "s\<lparr>frame_ready := False, frame_failed := False, xc_damage := []\<rparr>"
  let ?rq = "[CreateFrame, AttachBuffer (sb_active p), DamageBuffer 0 0 (buffer_width s) (buffer_height s), CaptureRequest]"
  have "xc_session s" "xc_pool s = Some p" using assms(1) by (simp_all add: ext_ready_def)
  then obtain s2 where w: "wait_until ext_done ext_event False ts ?s1 = Some (Reached, s2, ts')"
      and fin: "ext_finish mem ?rq s2 ts' = StepDone (Inr f) rq s' ts'"
    using assms(2)
    by (auto simp: ext_next_frame_def ext_finish_def Let_def split: if_splits option.splits wait_result.splits prod.splits)
  have inv: "xc_session s2 = xc_session s" "xc_pool s2 = Some p"
    using ext_handler.rel_wait [OF w] \<open>xc_pool s = Some p\<close> by auto
  moreover have "ext_done s2" by (rule wait_until_goal [OF w])
  ultimately show ?thesis
    using fin that [of s2]
    by (auto simp: ext_finish_def Let_def ext_done_def full_damage_def split: if_splits option.splits)
qed

text \<open>C24. A frame is complete: as long as the announced size is the size of the session's buffers, every frame
  \<open>next_frame\<close> returns has the full length, a stride of four bytes a pixel and some damage, the frame object it asked
  for was destroyed last, the next frame goes into the other buffer, and the session is ready for it.\<close>

theorem ext_frame_complete:
  assumes "ext_ready s p" and "ext_next_frame ts mem s = StepDone (Inr f) rq s' ts'"
    and "buffer_width s' = sb_width p" and "buffer_height s' = sb_height p" and "length (mem (sb_active p)) = shm_buffer_size p"
  shows "length (cap_data f) = unat (cap_stride f) * unat (cap_height f) \<and> cap_stride f = cap_width f * 4 \<and>
     cap_width f = sb_width p \<and> cap_height f = sb_height p \<and> damage f \<noteq> [] \<and>
     last rq = DestroyFrame \<and> AttachBuffer (sb_active p) \<in> set rq \<and>
     ext_ready s' (shm_swap p) \<and> sb_active (shm_swap p) \<noteq> sb_active p"
  using assms(1,2)
proof (rule ext_next_frameD)
  fix s2 :: ExtCaptureState and data
  assume s2: "orient (frame_transform s2) (unat (buffer_width s2 * 4)) (active_data mem p) = Some data"
    "cap_data f = data" "cap_width f = buffer_width s2" "cap_height f = buffer_height s2" "cap_stride f = buffer_width s2 * 4"
    "damage f \<noteq> []" "xc_pool s' = Some (shm_swap p)" "xc_session s' = xc_session s" "buffer_width s' = buffer_width s2"
    "buffer_height s' = buffer_height s2"
    "rq = [CreateFrame, AttachBuffer (sb_active p), DamageBuffer 0 0 (buffer_width s) (buffer_height s), CaptureRequest, DestroyFrame]"
  have p: "pool_ok p" using assms(1) by (simp add: ext_ready_def)
  have w: "unat (sb_width p * 4) = unat (sb_width p) * 4"
  proof -
    have "unat (sb_width p) * 4 < 4294967296" using p unat_lt_u32 [of "sb_stride p"] by (simp add: pool_ok_def)
    then show ?thesis by (simp add: unat_word_ariths)
  qed
  have "length (active_data mem p) = unat (sb_height p) * (unat (sb_width p) * 4)"
    using assms(5) p by (simp add: active_data_def pool_ok_def)
  moreover have "0 < unat (sb_width p)" using p by (simp add: pool_ok_def word_gt_0 unat_gt_0)
  ultimately have "length data = unat (sb_height p) * (unat (sb_width p) * 4)"
    using orient_length [of "unat (sb_width p)" "active_data mem p" "unat (sb_height p)" "frame_transform s2"] s2(1,9) assms(3) w
    by auto
  moreover have "sb_active (shm_swap p) \<noteq> sb_active p"
  proof -
    have "sb_active p < 2" using p by (simp add: pool_ok_def)
    then show ?thesis by (simp add: shm_swap_def) arith
  qed
  ultimately show ?thesis
    using s2 assms(1,3,4) w pool_ok_swap [OF p] by (simp add: ext_ready_def)
qed

definition demo_shm :: ShmBufferPool where
  "demo_shm = \<lparr>sb_active = 0, sb_width = 2, sb_height = 1, sb_stride = 8, sb_format = 1\<rparr>"

definition demo_session :: ExtCaptureState where
  "demo_session = ExtCaptureState_empty\<lparr>xc_session := True, xc_pool := Some demo_shm, buffer_width := 2, buffer_height := 1,
     shm_format := Some 1, session_ready := True\<rparr>"

definition demo_mem :: "nat \<Rightarrow> bytes" where
  "demo_mem k = (if k = 0 then [1, 2, 3, 4, 5, 6, 7, 8] else [0, 0, 0, 0, 0, 0, 0, 0])"

lemma demo_session_ready: "ext_ready demo_session demo_shm"
  by (simp add: ext_ready_def demo_session_def demo_shm_def pool_ok_def)

lemma next_frame_one:
  assumes "ext_ready s p" and "\<not> xc_stopped s" and "es \<noteq> []"
    and "s2 = handle_events ext_event es (s\<lparr>frame_ready := False, frame_failed := False, xc_damage := []\<rparr>)" and "ext_done s2"
  shows "ext_next_frame [delivers es] mem s =
     ext_finish mem [CreateFrame, AttachBuffer (sb_active p), DamageBuffer 0 0 (buffer_width s) (buffer_height s), CaptureRequest] s2 []"
proof -
  let ?s1 = "s\<lparr>frame_ready := False, frame_failed := False, xc_damage := []\<rparr>"
  have "\<not> ext_done ?s1" using assms(2) by (simp add: ext_done_def)
  from wait_one [where goal = ext_done and h = ext_event and bounded = False, OF this assms(3)] assms(4,5)
  have "wait_until ext_done ext_event False [delivers es] ?s1 = Some (Reached, s2, [])" by simp
  with assms(1,2) show ?thesis by (simp add: ext_next_frame_def ext_ready_def Let_def)
qed

theorem ext_frame_complete_witness:
  "\<exists>f rq s'. ext_next_frame [delivers [FrameDamage 0 0 1 1, FrameReady]] demo_mem demo_session = StepDone (Inr f) rq s' [] \<and>
     cap_data f = [1, 2, 3, 4, 5, 6, 7, 8] \<and> length (cap_data f) = unat (cap_stride f) * unat (cap_height f) \<and>
     last rq = DestroyFrame \<and> ext_ready s' (shm_swap demo_shm)"
proof -
  let ?s1 = "demo_session\<lparr>frame_ready := False, frame_failed := False, xc_damage := []\<rparr>"
  have ns: "\<not> xc_stopped demo_session" by (simp add: demo_session_def ExtCaptureState_empty_def)
  have "ext_next_frame [delivers [FrameDamage 0 0 1 1, FrameReady]] demo_mem demo_session =
      ext_finish demo_mem [CreateFrame, AttachBuffer (sb_active demo_shm),
        DamageBuffer 0 0 (buffer_width demo_session) (buffer_height demo_session), CaptureRequest]
        (?s1\<lparr>xc_damage := [DamageRect_new 0 0 1 1], frame_ready := True\<rparr>) []"
    by (rule next_frame_one [OF demo_session_ready ns]) (simp_all add: ext_done_def)
  moreover have "\<exists>f rq s'. ext_finish demo_mem [CreateFrame, AttachBuffer (sb_active demo_shm),
        DamageBuffer 0 0 (buffer_width demo_session) (buffer_height demo_session), CaptureRequest]
        (?s1\<lparr>xc_damage := [DamageRect_new 0 0 1 1], frame_ready := True\<rparr>) [] = StepDone (Inr f) rq s' [] \<and>
      cap_data f = [1, 2, 3, 4, 5, 6, 7, 8] \<and> buffer_width s' = 2 \<and> buffer_height s' = 1"
    by (simp add: ext_finish_def demo_session_def demo_shm_def ExtCaptureState_empty_def from_wl_shm_def orient_def
        active_data_def demo_mem_def)
  ultimately obtain f rq s' where
    r: "ext_next_frame [delivers [FrameDamage 0 0 1 1, FrameReady]] demo_mem demo_session = StepDone (Inr f) rq s' []"
    and f: "cap_data f = [1, 2, 3, 4, 5, 6, 7, 8]" "buffer_width s' = 2" "buffer_height s' = 1" by auto
  from ext_frame_complete [OF demo_session_ready r] f show ?thesis
    using r by (auto simp: demo_shm_def demo_mem_def)
qed

text \<open>A resized window breaks it: when the compositor announces another size before the frame is ready, the frame
  \<open>next_frame\<close> returns claims the new size but carries the bytes of the old buffer, whose length is another.\<close>

theorem resize_mismatch:
  assumes "ext_ready s p" and "\<not> xc_stopped s" and "shm_format s = Some fmt" and "from_wl_shm fmt = Some pf"
    and "frame_transform s = 0" and "length (mem (sb_active p)) = shm_buffer_size p"
    and "unat (w * 4) * unat h \<noteq> shm_buffer_size p"
  shows "\<exists>f rq s'. ext_next_frame [delivers [SessionBufferSize w h, FrameReady]] mem s = StepDone (Inr f) rq s' [] \<and>
     cap_width f = w \<and> cap_height f = h \<and> length (cap_data f) \<noteq> unat (cap_stride f) * unat (cap_height f)"
proof -
  let ?s2 = "handle_events ext_event [SessionBufferSize w h, FrameReady] (s\<lparr>frame_ready := False, frame_failed := False, xc_damage := []\<rparr>)"
  have "ext_next_frame [delivers [SessionBufferSize w h, FrameReady]] mem s =
     ext_finish mem [CreateFrame, AttachBuffer (sb_active p), DamageBuffer 0 0 (buffer_width s) (buffer_height s), CaptureRequest] ?s2 []"
    by (rule next_frame_one [OF assms(1,2)]) (simp_all add: ext_done_def)
  then show ?thesis
    using assms by (simp add: ext_finish_def ext_ready_def orient_def active_data_def del: shm_buffer_size_eq)
qed

theorem resize_mismatch_witness:
  "\<exists>f rq s'. ext_next_frame [delivers [SessionBufferSize 3 1, FrameReady]] demo_mem demo_session = StepDone (Inr f) rq s' [] \<and>
     cap_width f = 3 \<and> cap_height f = 1 \<and> length (cap_data f) \<noteq> unat (cap_stride f) * unat (cap_height f)"
  by (rule resize_mismatch [OF demo_session_ready, where fmt = 1 and pf = Xrgb8888])
    (simp_all add: demo_session_def ExtCaptureState_empty_def from_wl_shm_def demo_mem_def demo_shm_def)

section \<open>Windows\<close>

lemma find_None_all: "find p xs = None \<longleftrightarrow> (\<forall>x \<in> set xs. \<not> p x)"
  by (auto simp: find_None_iff)

text \<open>The window of a launched program is a new one: with a snapshot that is not empty, the window chosen has an
  identifier that is not in the snapshot, and none is chosen exactly when no window has one; with an empty snapshot a
  window is chosen whenever there is one.\<close>

theorem new_window_chosen:
  "(choose_new_toplevel known ts = None \<longleftrightarrow>
     (if known = [] then ts = [] else \<not> (\<exists>t \<in> set ts. tl_identifier t \<noteq> [] \<and> tl_identifier t \<notin> set known))) \<and>
   (case choose_new_toplevel known ts of None \<Rightarrow> True
    | Some t \<Rightarrow> t \<in> set ts \<and> (known = [] \<or> tl_identifier t \<noteq> [] \<and> tl_identifier t \<notin> set known))"
  by (cases ts) (auto simp: choose_new_toplevel_def find_None_all split: option.splits dest!: find_Some_iff [THEN iffD1])

lemma update_first_none: "\<forall>x \<in> set xs. \<not> p x \<Longrightarrow> update_first p f xs = xs"
  by (induction xs) simp_all

lemma update_first_snoc: "\<forall>x \<in> set xs. \<not> p x \<Longrightarrow> update_first p f (xs @ [x]) = xs @ [if p x then f x else x]"
  by (induction xs) simp_all

text \<open>Which window is found depends on the order of two events: when the snapshot was not empty, all windows listed
  so far are known, and a new one is announced by its application and then its identifier, it is found; announced by its
  identifier and then its application, the identifier is dropped and the window is never found.\<close>

theorem identifier_first_lost:
  assumes "\<forall>t \<in> set (xc_toplevels s). tl_handle t \<noteq> h \<and> tl_identifier t \<in> set known" and "known \<noteq> []"
    and "ident \<noteq> []" and "ident \<notin> set known"
  shows "choose_new_toplevel known (xc_toplevels (handle_events ext_event [HandleAppId h app, HandleIdentifier h ident] s)) \<noteq> None \<and>
     choose_new_toplevel known (xc_toplevels (handle_events ext_event [HandleIdentifier h ident, HandleAppId h app] s)) = None"
proof -
  have none: "\<forall>t \<in> set (xc_toplevels s). \<not> tl_handle t = h" using assms(1) by blast
  let ?t = "\<lambda>i. \<lparr>tl_handle = h, tl_app_id = app, tl_title = [], tl_identifier = i\<rparr>"
  have "xc_toplevels (handle_events ext_event [HandleAppId h app, HandleIdentifier h ident] s) = xc_toplevels s @ [?t ident]"
    using none by (auto simp: update_first_snoc)
  moreover have "xc_toplevels (handle_events ext_event [HandleIdentifier h ident, HandleAppId h app] s) = xc_toplevels s @ [?t []]"
    using none by (auto simp: update_first_none)
  ultimately show ?thesis
    using assms by (auto simp: choose_new_toplevel_def find_None_all split: option.splits dest!: find_Some_iff [THEN iffD1])
qed

theorem identifier_first_lost_witness:
  "choose_new_toplevel [''a''] (xc_toplevels (handle_events ext_event [HandleAppId 2 ''app'', HandleIdentifier 2 ''b'']
      (demo_session\<lparr>xc_toplevels := [\<lparr>tl_handle = 1, tl_app_id = ''x'', tl_title = [], tl_identifier = ''a''\<rparr>]\<rparr>))) \<noteq> None \<and>
   choose_new_toplevel [''a''] (xc_toplevels (handle_events ext_event [HandleIdentifier 2 ''b'', HandleAppId 2 ''app'']
      (demo_session\<lparr>xc_toplevels := [\<lparr>tl_handle = 1, tl_app_id = ''x'', tl_title = [], tl_identifier = ''a''\<rparr>]\<rparr>))) = None"
  by (rule identifier_first_lost) simp_all

end
