(* ===== verification/Screencopy.thy ===== *)
theory Screencopy
  imports CaptureIo
begin

text \<open>
  \<^verbatim>\<open>crates/remoteway-capture/src/screencopy.rs\<close>: the wlr-screencopy backend. \<open>sc_event\<close> is all its \<^verbatim>\<open>Dispatch\<close>
  implementations, \<open>WlrScreencopyBackend_new\<close> selects the output, \<open>sc_next_frame\<close> captures a frame in two phases with
  the buffers renewed between them. The requests made are part of the result.
\<close>

section \<open>State and events\<close>

datatype ScRequest = CaptureOutput u32 | CopyTo nat | NewPool | DestroyCopy

record ScreencopyState =
  sx_shm :: bool
  sx_pool :: "ShmBufferPool option"
  screencopy_manager :: bool
  discovered_outputs :: "DiscoveredOutput list"
  sx_output :: "u32 option"
  sx_ready :: bool
  sx_failed :: bool
  buffer_done :: bool
  sx_damage :: "DamageRect list"
  frame_format :: "PixelFormat option"
  frame_width :: u32
  frame_height :: u32
  frame_stride :: u32
  frame_format_raw :: u32
  wl_shm_format :: "u32 option"
  sx_timestamp_ns :: u64
  buffer_attached :: bool
  sx_stopped :: bool

definition ScreencopyState_empty :: ScreencopyState where
  "ScreencopyState_empty = \<lparr>sx_shm = False, sx_pool = None, screencopy_manager = False, discovered_outputs = [],
     sx_output = None, sx_ready = False, sx_failed = False, buffer_done = False, sx_damage = [], frame_format = None,
     frame_width = 0, frame_height = 0, frame_stride = 0, frame_format_raw = 0, wl_shm_format = None, sx_timestamp_ns = 0,
     buffer_attached = False, sx_stopped = False\<rparr>"

datatype ScEvent =
  ScGlobal u32 string | ScOutputName u32 string | ScBuffer "u32 option" u32 u32 u32 | ScBufferDone | ScDamage u32 u32 u32 u32
| ScReady u32 u32 u32 | ScFailed | ScOther

definition sc_global :: "u32 \<Rightarrow> string \<Rightarrow> ScreencopyState \<Rightarrow> ScreencopyState" where
  "sc_global name interface s =
     (if interface = ''wl_shm'' then s\<lparr>sx_shm := True\<rparr>
      else if interface = ''wl_output'' then s\<lparr>discovered_outputs := discovered_outputs s @ [\<lparr>do_name = [], do_global = name\<rparr>]\<rparr>
      else if interface = ''zwlr_screencopy_manager_v1'' then s\<lparr>screencopy_manager := True\<rparr>
      else s)"

fun sc_frame_event :: "ScEvent \<Rightarrow> ScreencopyState \<Rightarrow> ScreencopyState" where
  "sc_frame_event (ScBuffer fmt width height stride) s =
     (case fmt of
        None \<Rightarrow> s\<lparr>sx_failed := True\<rparr>
      | Some f \<Rightarrow> s\<lparr>frame_width := width, frame_height := height, frame_stride := stride, frame_format_raw := f,
          frame_format := from_wl_shm f, wl_shm_format := Some f\<rparr>)"
| "sc_frame_event ScBufferDone s = s\<lparr>buffer_done := True\<rparr>"
| "sc_frame_event (ScDamage x y width height) s = s\<lparr>sx_damage := sx_damage s @ [DamageRect_new x y width height]\<rparr>"
| "sc_frame_event (ScReady hi lo nsec) s = s\<lparr>sx_timestamp_ns := presentation_ns hi lo nsec, sx_ready := True\<rparr>"
| "sc_frame_event ScFailed s = s\<lparr>sx_failed := True\<rparr>"
| "sc_frame_event e s = s"

fun sc_event :: "ScEvent \<Rightarrow> ScreencopyState \<Rightarrow> ScreencopyState" where
  "sc_event (ScGlobal name interface) s = sc_global name interface s"
| "sc_event (ScOutputName gname nm) s = s\<lparr>discovered_outputs := name_output gname nm (discovered_outputs s)\<rparr>"
| "sc_event e s = sc_frame_event e s"

section \<open>Selecting the output\<close>

text \<open>\<^verbatim>\<open>Vec::swap_remove\<close>: the last element takes the place of the removed one.\<close>

definition swap_remove :: "usize \<Rightarrow> 'a list \<Rightarrow> ('a \<times> 'a list) option" where
  "swap_remove i xs = (if i < length xs then Some (xs ! i, butlast (xs[i := List.last xs])) else None)"

fun position :: "('a \<Rightarrow> bool) \<Rightarrow> 'a list \<Rightarrow> usize option" where
  "position p [] = None"
| "position p (x # xs) = (if p x then Some 0 else map_option Suc (position p xs))"

definition select_output ::
  "string option \<Rightarrow> DiscoveredOutput list \<Rightarrow> (CaptureError + (DiscoveredOutput \<times> DiscoveredOutput list)) option" where
  "select_output nm os = (case nm of
     Some name \<Rightarrow> (case position (\<lambda>o'. do_name o' = name) os of
        None \<Rightarrow> Some (Inl (OutputNotFound name))
      | Some i \<Rightarrow> map_option Inr (swap_remove i os))
   | None \<Rightarrow> map_option Inr (swap_remove 0 os))"

text \<open>\<open>None\<close> is a panic; \<open>select_output_total\<close> shows there is none.\<close>

definition WlrScreencopyBackend_new ::
  "bool \<Rightarrow> ScEvent list \<times> bool \<Rightarrow> ScEvent list \<times> bool \<Rightarrow> string option \<Rightarrow> (CaptureError + ScreencopyState) option" where
  "WlrScreencopyBackend_new connected rt1 rt2 nm =
     (if \<not> connected then Some (Inl WaylandConnect)
      else let s1 = handle_events sc_event (fst rt1) ScreencopyState_empty in
      if \<not> snd rt1 then Some (Inl WaylandDispatch)
      else if \<not> screencopy_manager s1 then Some (Inl NoBackend)
      else if \<not> sx_shm s1 then Some (Inl (CaptureFailed ''wl_shm not available''))
      else if discovered_outputs s1 = [] then Some (Inl NoOutputs)
      else let s2 = handle_events sc_event (fst rt2) s1 in
      if \<not> snd rt2 then Some (Inl WaylandDispatch)
      else do {
        sel \<leftarrow> select_output nm (discovered_outputs s2);
        Some (case sel of Inl e \<Rightarrow> Inl e
              | Inr (o', os) \<Rightarrow> Inr (s2\<lparr>sx_output := Some (do_global o'), discovered_outputs := os\<rparr>))
      })"

definition sc_is_available :: "ScEvent list \<times> bool \<Rightarrow> bool" where
  "sc_is_available rt \<longleftrightarrow> snd rt \<and> (\<exists>e \<in> set (fst rt). case e of ScGlobal _ i \<Rightarrow> i = ''zwlr_screencopy_manager_v1'' | _ \<Rightarrow> False)"

section \<open>Capturing a frame\<close>

definition sc_phase1_done :: "ScreencopyState \<Rightarrow> bool" where
  "sc_phase1_done s \<longleftrightarrow> buffer_done s \<or> sx_failed s \<or> sx_stopped s"

definition sc_phase2_done :: "ScreencopyState \<Rightarrow> bool" where
  "sc_phase2_done s \<longleftrightarrow> sx_ready s \<or> sx_failed s \<or> sx_stopped s"

text \<open>Between the phases: the buffers, new unless they match what was announced; \<open>prev_fmt\<close> is the format of the
  buffers before the frame.\<close>

definition needs_new_pool :: "u32 option \<Rightarrow> u32 \<Rightarrow> ScreencopyState \<Rightarrow> bool" where
  "needs_new_pool prev_fmt fmt s = (case sx_pool s of
     Some p \<Rightarrow> sb_width p \<noteq> frame_width s \<or> sb_height p \<noteq> frame_height s \<or> sb_stride p \<noteq> frame_stride s \<or> prev_fmt \<noteq> Some fmt
   | None \<Rightarrow> True)"

definition renew_pool ::
  "string option \<Rightarrow> string option \<Rightarrow> u32 option \<Rightarrow> u32 \<Rightarrow> ScreencopyState \<Rightarrow> (CaptureError option \<times> ScRequest list) \<times> ScreencopyState" where
  "renew_pool os0 os1 prev_fmt fmt s =
     (if needs_new_pool prev_fmt fmt s then
        if \<not> sx_shm s then ((Some (CaptureFailed ''wl_shm not available''), []), s)
        else (case ShmBufferPool_new os0 os1 (frame_width s) (frame_height s) (frame_stride s) fmt of
           Inl e \<Rightarrow> ((Some e, []), s\<lparr>sx_pool := None\<rparr>)
         | Inr p \<Rightarrow> ((None, [NewPool]), s\<lparr>sx_pool := Some p\<rparr>))
      else ((None, []), s))"

definition sc_finish ::
  "(nat \<Rightarrow> bytes) \<Rightarrow> ScRequest list \<Rightarrow> ScreencopyState \<Rightarrow> ScEvent IoTurn list \<Rightarrow> (ScRequest, ScreencopyState, ScEvent IoTurn) capture_step" where
  "sc_finish mem rq s ts =
     (if sx_stopped s then StepDone (Inl SessionEnded) rq s ts
      else if sx_failed s then StepDone (Inl (CaptureFailed ''compositor reported capture failure'')) rq s ts
      else
        let s1 = (if sx_damage s = [] then s\<lparr>sx_damage := [DamageRect_new 0 0 (frame_width s) (frame_height s)]\<rparr> else s) in
        (case frame_format s1 of
           None \<Rightarrow> StepDone (Inl (UnsupportedFormat (frame_format_raw s1))) rq s1 ts
         | Some fmt \<Rightarrow> (case sx_pool s1 of
              None \<Rightarrow> StepDone (Inl (CaptureFailed ''SHM pool not initialized (no Buffer event received)'')) rq s1 ts
            | Some pool \<Rightarrow>
                StepDone (Inr \<lparr>cap_data = active_data mem pool, damage = sx_damage s1, cap_format = fmt,
                    cap_width = frame_width s1, cap_height = frame_height s1, cap_stride = frame_stride s1,
                    cap_timestamp_ns = sx_timestamp_ns s1\<rparr>) rq
                  (s1\<lparr>sx_pool := Some (shm_swap pool), sx_damage := []\<rparr>) ts)))"

definition sc_phase2 ::
  "ScEvent IoTurn list \<Rightarrow> (nat \<Rightarrow> bytes) \<Rightarrow> ScRequest list \<Rightarrow> ScreencopyState \<Rightarrow> (ScRequest, ScreencopyState, ScEvent IoTurn) capture_step" where
  "sc_phase2 ts mem rq s =
     (case sx_pool s of
        None \<Rightarrow> StepDone (Inl (CaptureFailed ''SHM pool not initialized'')) rq s ts
      | Some pool \<Rightarrow>
          let rq' = rq @ [CopyTo (sb_active pool)] in
          (case wait_until sc_phase2_done sc_event True ts (s\<lparr>buffer_attached := True\<rparr>) of
             None \<Rightarrow> StepWaiting
           | Some (Broke e, s', ts') \<Rightarrow> StepDone (Inl e) rq' s' ts'
           | Some (WaitTimeout, s', ts') \<Rightarrow>
               StepDone (Inl (CaptureFailed ''phase2 timeout: frame not Ready within 1s'')) (rq' @ [DestroyCopy]) s' ts'
           | Some (Reached, s', ts') \<Rightarrow> sc_finish mem (rq' @ [DestroyCopy]) s' ts'))"

definition sc_next_frame ::
  "ScEvent IoTurn list \<Rightarrow> string option \<Rightarrow> string option \<Rightarrow> ScEvent list \<times> bool \<Rightarrow> (nat \<Rightarrow> bytes) \<Rightarrow> ScreencopyState
   \<Rightarrow> (ScRequest, ScreencopyState, ScEvent IoTurn) capture_step" where
  "sc_next_frame ts os0 os1 rt mem s =
     (if sx_stopped s then StepDone (Inl SessionEnded) [] s ts
      else
        let s1 = s\<lparr>sx_ready := False, sx_failed := False, buffer_done := False, sx_damage := [], buffer_attached := False\<rparr>;
            prev_fmt = map_option sb_format (sx_pool s1) in
        if \<not> screencopy_manager s1 then StepDone (Inl NoBackend) [] s1 ts
        else (case sx_output s1 of
           None \<Rightarrow> StepDone (Inl NoOutputs) [] s1 ts
         | Some outp \<Rightarrow>
             (case wait_until sc_phase1_done sc_event True ts s1 of
                None \<Rightarrow> StepWaiting
              | Some (Broke e, s2, ts') \<Rightarrow> StepDone (Inl e) [CaptureOutput outp] s2 ts'
              | Some (WaitTimeout, s2, ts') \<Rightarrow>
                  StepDone (Inl (CaptureFailed ''phase1 timeout: BufferDone not received within 1s'')) [CaptureOutput outp, DestroyCopy] s2 ts'
              | Some (Reached, s2, ts') \<Rightarrow>
                  if sx_failed s2 then
                    StepDone (Inl (CaptureFailed ''compositor reported capture failure'')) [CaptureOutput outp, DestroyCopy] s2 ts'
                  else (case wl_shm_format s2 of
                     None \<Rightarrow> StepDone (Inl (CaptureFailed ''no buffer format received'')) [CaptureOutput outp] s2 ts'
                   | Some fmt \<Rightarrow> (case renew_pool os0 os1 prev_fmt fmt s2 of
                        ((Some e, rq), s3) \<Rightarrow> StepDone (Inl e) (CaptureOutput outp # rq) s3 ts'
                      | ((None, rq), s3) \<Rightarrow>
                          let s4 = handle_events sc_event (fst rt) s3 in
                          if \<not> snd rt then StepDone (Inl WaylandDispatch) (CaptureOutput outp # rq) s4 ts'
                          else sc_phase2 ts' mem (CaptureOutput outp # rq) s4)))))"

definition sc_stop :: "ScreencopyState \<Rightarrow> ScreencopyState" where
  "sc_stop s = s\<lparr>sx_stopped := True\<rparr>"

section \<open>Properties\<close>

interpretation sc_handler: event_handler sc_event
  "\<lambda>s t. sx_pool t = sx_pool s \<and> sx_output t = sx_output s \<and> sx_stopped t = sx_stopped s"
proof unfold_locales
  show "sx_pool (sc_event e s) = sx_pool s \<and> sx_output (sc_event e s) = sx_output s \<and> sx_stopped (sc_event e s) = sx_stopped s" for e s
    by (cases e) (auto simp: sc_global_def split: option.splits)
qed auto

lemma position_lt: "position p xs = Some i \<Longrightarrow> i < length xs"
  by (induction xs arbitrary: i) (auto split: if_splits)

lemma select_output_total: "os \<noteq> [] \<Longrightarrow> select_output nm os \<noteq> None"
  by (auto simp: select_output_def swap_remove_def split: option.splits dest: position_lt)

lemma renew_pool_matches:
  assumes "renew_pool None None prev fmt s = ((None, rq), s')"
  shows "\<exists>p. sx_pool s' = Some p \<and> sb_width p = frame_width s \<and> sb_height p = frame_height s \<and> sb_stride p = frame_stride s"
  using assms
  by (auto simp: renew_pool_def needs_new_pool_def ShmBufferPool_new_def ShmSlot_new_def
      split: if_splits option.splits sum.splits)

lemma renew_pool_ok:
  assumes "sx_shm s" and "unat (frame_width s) * 4 \<le> unat (frame_stride s)" and "0 < frame_width s" and "0 < frame_height s"
  shows "\<exists>rq p. renew_pool None None prev fmt s = ((None, rq), s\<lparr>sx_pool := Some p\<rparr>)"
proof -
  have "unat (frame_width s) * 4 < usize_bound" using unat_lt_u32 [of "frame_width s"] by simp
  moreover have "unat (frame_stride s) * unat (frame_height s) < 4294967296 * 4294967296"
    using unat_lt_u32 [of "frame_stride s"] unat_lt_u32 [of "frame_height s"] by (intro mult_strict_mono) auto
  moreover have "0 < unat (frame_width s)" "0 < unat (frame_height s)" using assms(3,4) by (simp_all add: word_gt_0 unat_gt_0)
  ultimately show ?thesis
    using assms(1,2)
    by (auto simp: renew_pool_def needs_new_pool_def ShmBufferPool_new_def ShmSlot_new_def checked_mul_def
        split: option.splits intro: exI [of _ "the (sx_pool s)"])
qed

text \<open>Screencopy follows a resize: whatever buffers the session had, when the compositor announces a frame of another
  size (with a stride that fits it) and completes it, \<open>next_frame\<close> returns a frame of that size whose data has exactly
  its length, and the frame object was destroyed last.\<close>

theorem screencopy_follows_resize:
  assumes s: "screencopy_manager s" "sx_output s = Some outp" "sx_shm s" "\<not> sx_stopped s"
    and fmt: "from_wl_shm fmt = Some pf" and dims: "unat w * 4 \<le> unat st" "0 < w" "0 < h"
    and mem: "\<forall>k. length (mem k) = unat st * unat h"
  shows "\<exists>f rq s'. sc_next_frame [delivers [ScBuffer (Some fmt) w h st, ScBufferDone], delivers [ScReady hi lo nsec]]
       None None ([], True) mem s = StepDone (Inr f) rq s' [] \<and>
     cap_width f = w \<and> cap_height f = h \<and> cap_stride f = st \<and> length (cap_data f) = unat st * unat h \<and>
     List.last rq = DestroyCopy"
proof -
  let ?s1 = "s\<lparr>sx_ready := False, sx_failed := False, buffer_done := False, sx_damage := [], buffer_attached := False\<rparr>"
  let ?es = "[ScBuffer (Some fmt) w h st, ScBufferDone]"
  let ?s2 = "handle_events sc_event ?es ?s1"
  have w1: "wait_until sc_phase1_done sc_event True (delivers ?es # [delivers [ScReady hi lo nsec]]) ?s1 =
      Some (Reached, ?s2, [delivers [ScReady hi lo nsec]])"
    by (rule wait_one) (use s(4) in \<open>simp_all add: sc_phase1_done_def\<close>)
  have "sx_shm ?s2" "unat (frame_width ?s2) * 4 \<le> unat (frame_stride ?s2)" "0 < frame_width ?s2" "0 < frame_height ?s2"
    using s(3) dims by simp_all
  from renew_pool_ok [OF this] obtain rq p where
    r: "renew_pool None None (map_option sb_format (sx_pool s)) fmt ?s2 = ((None, rq), ?s2\<lparr>sx_pool := Some p\<rparr>)" by blast
  have p: "sb_height p = h" "sb_stride p = st" using renew_pool_matches [OF r] by auto
  let ?s5 = "?s2\<lparr>sx_pool := Some p, buffer_attached := True\<rparr>"
  have w2: "wait_until sc_phase2_done sc_event True (delivers [ScReady hi lo nsec] # []) ?s5 =
      Some (Reached, handle_events sc_event [ScReady hi lo nsec] ?s5, [])"
    by (rule wait_one) (use s(4) in \<open>simp_all add: sc_phase2_done_def\<close>)
  have "length (active_data mem p) = unat st * unat h" using mem p by (simp add: active_data_def)
  then show ?thesis
    using s fmt w1 r w2 by (simp add: sc_next_frame_def sc_phase2_def sc_finish_def)
qed

definition demo_copy :: ScreencopyState where
  "demo_copy = ScreencopyState_empty\<lparr>sx_shm := True, screencopy_manager := True, sx_output := Some 7,
     sx_pool := Some \<lparr>sb_active = 1, sb_width = 1, sb_height = 1, sb_stride = 4, sb_format = 1\<rparr>\<rparr>"

theorem screencopy_follows_resize_witness:
  "\<exists>f rq s'. sc_next_frame [delivers [ScBuffer (Some 1) 2 2 8, ScBufferDone], delivers [ScReady 0 1 5]]
       None None ([], True) (\<lambda>_. replicate 16 9) demo_copy = StepDone (Inr f) rq s' [] \<and>
     cap_width f = 2 \<and> cap_height f = 2 \<and> cap_stride f = 8 \<and> length (cap_data f) = unat (8 :: u32) * unat (2 :: u32) \<and>
     List.last rq = DestroyCopy"
  by (rule screencopy_follows_resize [where outp = 7 and pf = Xrgb8888])
    (simp_all add: demo_copy_def ScreencopyState_empty_def from_wl_shm_def)

end
