(* ===== verification/Discovery.thy ===== *)
theory Discovery
  imports CaptureIo
begin

text \<open>
  What \<^verbatim>\<open>crates/remoteway-capture\<close> finds out about the desktop it runs on: the outputs (\<^verbatim>\<open>output.rs\<close>), the windows of
  wlroots compositors (\<^verbatim>\<open>toplevel.rs\<close>) and the desktop with its environment (\<^verbatim>\<open>desktop_detect.rs\<close>). The process
  table, the runtime directory and the answers of \<^verbatim>\<open>loginctl\<close> are arguments; strings are taken as ASCII.
\<close>

section \<open>output.rs\<close>

record OutputInfo =
  oi_name :: string
  oi_description :: string
  oi_x :: int
  oi_y :: int
  oi_width :: int
  oi_height :: int
  oi_refresh_mhz :: int
  oi_scale :: int
  oi_global :: u32

definition OutputInfo_new :: "u32 \<Rightarrow> OutputInfo" where
  "OutputInfo_new g = \<lparr>oi_name = [], oi_description = [], oi_x = 0, oi_y = 0, oi_width = 0, oi_height = 0,
     oi_refresh_mhz = 0, oi_scale = 1, oi_global = g\<rparr>"

record OutputState =
  os_outputs :: "OutputInfo list"
  xdg_output_manager :: bool
  pending_xdg_outputs :: "(nat \<times> u32) list"

text \<open>An xdg output is named by the position of the output it was created for; the flags of a mode are \<open>None\<close> when
  they have unknown bits.\<close>

datatype OutEvent =
  OutGlobal u32 string | OutGeometry u32 int int | OutMode u32 "bool option" int int int | OutScale u32 int | OutName u32 string
| OutDescription u32 string | XdgName nat string | XdgDescription nat string | XdgPosition nat int int | XdgSize nat int int
| OutOther

definition out_global :: "u32 \<Rightarrow> string \<Rightarrow> OutputState \<Rightarrow> OutputState" where
  "out_global name interface s =
     (if interface = ''wl_output'' then
        s\<lparr>os_outputs := os_outputs s @ [OutputInfo_new name],
          pending_xdg_outputs := pending_xdg_outputs s @ [(length (os_outputs s), name)]\<rparr>
      else if interface = ''zxdg_output_manager_v1'' then s\<lparr>xdg_output_manager := True\<rparr>
      else s)"

definition with_output :: "u32 \<Rightarrow> (OutputInfo \<Rightarrow> OutputInfo) \<Rightarrow> OutputState \<Rightarrow> OutputState" where
  "with_output g f s = s\<lparr>os_outputs := update_first (\<lambda>o'. oi_global o' = g) f (os_outputs s)\<rparr>"

fun wl_output_event :: "OutEvent \<Rightarrow> OutputState \<Rightarrow> OutputState" where
  "wl_output_event (OutGeometry g x y) s = with_output g (\<lambda>i. i\<lparr>oi_x := x, oi_y := y\<rparr>) s"
| "wl_output_event (OutMode g flags w h refresh) s =
     (if flags = Some True then with_output g (\<lambda>i. i\<lparr>oi_width := w, oi_height := h, oi_refresh_mhz := refresh\<rparr>) s else s)"
| "wl_output_event (OutScale g factor) s = with_output g (\<lambda>i. i\<lparr>oi_scale := factor\<rparr>) s"
| "wl_output_event (OutName g nm) s = with_output g (\<lambda>i. i\<lparr>oi_name := nm\<rparr>) s"
| "wl_output_event (OutDescription g d) s = with_output g (\<lambda>i. i\<lparr>oi_description := d\<rparr>) s"
| "wl_output_event e s = s"

fun update_last :: "('a \<Rightarrow> 'a) \<Rightarrow> 'a list \<Rightarrow> 'a list" where
  "update_last f [] = []"
| "update_last f [x] = [f x]"
| "update_last f (x # y # ys) = x # update_last f (y # ys)"

definition with_last :: "(OutputInfo \<Rightarrow> OutputInfo) \<Rightarrow> OutputState \<Rightarrow> OutputState" where
  "with_last f s = s\<lparr>os_outputs := update_last f (os_outputs s)\<rparr>"

fun xdg_output_event :: "OutEvent \<Rightarrow> OutputState \<Rightarrow> OutputState" where
  "xdg_output_event (XdgName i nm) s = with_last (\<lambda>o'. o'\<lparr>oi_name := nm\<rparr>) s"
| "xdg_output_event (XdgDescription i d) s = with_last (\<lambda>o'. o'\<lparr>oi_description := d\<rparr>) s"
| "xdg_output_event (XdgPosition i x y) s = with_last (\<lambda>o'. o'\<lparr>oi_x := x, oi_y := y\<rparr>) s"
| "xdg_output_event (XdgSize i w h) s = with_last (\<lambda>o'. o'\<lparr>oi_width := w, oi_height := h\<rparr>) s"
| "xdg_output_event e s = s"

fun out_event :: "OutEvent \<Rightarrow> OutputState \<Rightarrow> OutputState" where
  "out_event (OutGlobal name interface) s = out_global name interface s"
| "out_event e s = xdg_output_event e (wl_output_event e s)"

definition enumerate_outputs :: "OutEvent list \<times> bool \<Rightarrow> OutEvent list \<times> bool \<Rightarrow> CaptureError + OutputInfo list" where
  "enumerate_outputs rt1 rt2 =
     (let s1 = handle_events out_event (fst rt1) \<lparr>os_outputs = [], xdg_output_manager = False, pending_xdg_outputs = []\<rparr> in
      if \<not> snd rt1 then Inl WaylandDispatch
      else if xdg_output_manager s1 then
        (let s2 = handle_events out_event (fst rt2) s1 in
         if \<not> snd rt2 then Inl WaylandDispatch else Inr (os_outputs s2))
      else Inr (os_outputs s1))"

definition find_by_name :: "string \<Rightarrow> OutputInfo list \<Rightarrow> OutputInfo option" where
  "find_by_name nm os = find (\<lambda>o'. oi_name o' = nm) os"

section \<open>toplevel.rs\<close>

record WlrToplevel =
  wt_title :: string
  wt_app_id :: string
  activated :: bool
  minimized :: bool

record ToplevelState =
  ts_toplevels :: "WlrToplevel list"
  ts_manager :: bool
  ts_current :: "WlrToplevel option"

datatype TopEvent = TopGlobal string | TopFinished | TopTitle string | TopAppId string | TopState bytes | TopDone | TopClosed | TopOther

text \<open>The state array: full groups of four bytes, each a number in the byte order of the host.\<close>

fun state_values :: "bytes \<Rightarrow> u32 list" where
  "state_values (a # b # c # d # rest) = of_le [a, b, c, d] # state_values rest"
| "state_values _ = []"

definition set_state :: "u32 \<Rightarrow> WlrToplevel \<Rightarrow> WlrToplevel" where
  "set_state v t = (if v = 0 then t\<lparr>activated := True\<rparr> else if v = 1 then t\<lparr>minimized := True\<rparr> else t)"

definition finish_current :: "ToplevelState \<Rightarrow> ToplevelState" where
  "finish_current s = (case ts_current s of
     Some t \<Rightarrow> s\<lparr>ts_toplevels := ts_toplevels s @ [t], ts_current := None\<rparr> | None \<Rightarrow> s)"

fun top_event :: "TopEvent \<Rightarrow> ToplevelState \<Rightarrow> ToplevelState" where
  "top_event (TopGlobal interface) s = (if interface = ''zwlr_foreign_toplevel_manager_v1'' then s\<lparr>ts_manager := True\<rparr> else s)"
| "top_event TopFinished s = finish_current s"
| "top_event (TopTitle title) s =
     s\<lparr>ts_current := Some ((case ts_current s of Some t \<Rightarrow> t
        | None \<Rightarrow> \<lparr>wt_title = [], wt_app_id = [], activated = False, minimized = False\<rparr>)\<lparr>wt_title := title\<rparr>)\<rparr>"
| "top_event (TopAppId app) s = s\<lparr>ts_current := map_option (\<lambda>t. t\<lparr>wt_app_id := app\<rparr>) (ts_current s)\<rparr>"
| "top_event (TopState st) s = s\<lparr>ts_current := map_option (fold set_state (state_values st)) (ts_current s)\<rparr>"
| "top_event TopDone s = finish_current s"
| "top_event TopClosed s = s\<lparr>ts_current := None\<rparr>"
| "top_event TopOther s = s"

definition enumerate_windows :: "TopEvent list \<times> bool \<Rightarrow> TopEvent list \<times> bool \<Rightarrow> CaptureError + WlrToplevel list" where
  "enumerate_windows rt1 rt2 =
     (let s1 = handle_events top_event (fst rt1) \<lparr>ts_toplevels = [], ts_manager = False, ts_current = None\<rparr> in
      if \<not> snd rt1 then Inl WaylandDispatch
      else if ts_manager s1 then
        (let s2 = handle_events top_event (fst rt2) s1 in
         if \<not> snd rt2 then Inl WaylandDispatch else Inr (ts_toplevels (finish_current s2)))
      else Inr (ts_toplevels (finish_current s1)))"

definition find_by_app_id :: "string \<Rightarrow> WlrToplevel list \<Rightarrow> WlrToplevel option" where
  "find_by_app_id app ts = find (\<lambda>t. wt_app_id t = app) ts"

section \<open>desktop\_detect.rs: which desktop\<close>

datatype DesktopEnvironment = Gnome | Kde | Wlroots | UnknownDesktop

definition needs_portal :: "DesktopEnvironment \<Rightarrow> bool" where
  "needs_portal d \<longleftrightarrow> d = Gnome \<or> d = Kde"

definition has_wlr_protocols :: "DesktopEnvironment \<Rightarrow> bool" where
  "has_wlr_protocols d \<longleftrightarrow> d = Wlroots"

fun desktop_name :: "DesktopEnvironment \<Rightarrow> string" where
  "desktop_name Gnome = ''GNOME''"
| "desktop_name Kde = ''KDE''"
| "desktop_name Wlroots = ''wlroots''"
| "desktop_name UnknownDesktop = ''unknown''"

definition is_space :: "char \<Rightarrow> bool" where
  "is_space c \<longleftrightarrow> (of_char c :: nat) \<in> {9, 10, 11, 12, 13, 32}"

definition trim :: "string \<Rightarrow> string" where
  "trim s = rev (dropWhile is_space (rev (dropWhile is_space s)))"

fun split_on :: "char \<Rightarrow> string \<Rightarrow> string list" where
  "split_on c [] = [[]]"
| "split_on c (x # xs) = (if x = c then [] # split_on c xs
     else (case split_on c xs of [] \<Rightarrow> [[x]] | p # ps \<Rightarrow> (x # p) # ps))"

definition strip_prefix :: "string \<Rightarrow> string \<Rightarrow> string option" where
  "strip_prefix p s = (if take (length p) s = p then Some (drop (length p) s) else None)"

definition component_desktop :: "string \<Rightarrow> DesktopEnvironment option" where
  "component_desktop c = (let t = trim c in
     if t = ''gnome'' then Some Gnome
     else if t = ''kde'' then Some Kde
     else if t = ''sway'' \<or> t = ''hyprland'' \<or> t = ''river'' \<or> t = ''wayfire'' \<or> t = ''niri'' then Some Wlroots
     else None)"

fun first_some :: "('a \<Rightarrow> 'b option) \<Rightarrow> 'a list \<Rightarrow> 'b option" where
  "first_some f [] = None"
| "first_some f (x # xs) = (case f x of Some y \<Rightarrow> Some y | None \<Rightarrow> first_some f xs)"

definition session_desktop :: "string \<Rightarrow> DesktopEnvironment" where
  "session_desktop session = (let l = lowercase session in
     if contains_str ''gnome'' l then Gnome
     else if contains_str ''kde'' l \<or> contains_str ''plasma'' l then Kde
     else if contains_str ''sway'' l \<or> contains_str ''hyprland'' l then Wlroots
     else UnknownDesktop)"

definition detect_from_env :: "string option \<Rightarrow> string option \<Rightarrow> DesktopEnvironment" where
  "detect_from_env current session =
     (case (case current of None \<Rightarrow> None | Some d \<Rightarrow> first_some component_desktop (split_on CHR '':'' (lowercase d))) of
        Some de \<Rightarrow> de
      | None \<Rightarrow> (case session of Some s \<Rightarrow> session_desktop s | None \<Rightarrow> UnknownDesktop))"

definition COMPOSITOR_PROCESSES :: "(string \<times> DesktopEnvironment) list" where
  "COMPOSITOR_PROCESSES = [(''gnome-shell'', Gnome), (''gnome-session-b'', Gnome), (''kwin_wayland'', Kde), (''plasmashell'', Kde),
     (''sway'', Wlroots), (''Hyprland'', Wlroots), (''hyprland'', Wlroots), (''river'', Wlroots), (''wayfire'', Wlroots), (''niri'', Wlroots)]"

text \<open>A process: the name of its directory, what reading \<^verbatim>\<open>comm\<close> gives and the readable parts of \<^verbatim>\<open>environ\<close>.\<close>

record Proc =
  proc_dir :: string
  proc_comm :: "string option"
  proc_environ :: "string list option"

definition is_pid :: "string \<Rightarrow> bool" where
  "is_pid s \<longleftrightarrow> list_all (\<lambda>c. 48 \<le> (of_char c :: nat) \<and> (of_char c :: nat) \<le> 57) s"

definition proc_desktop :: "Proc \<Rightarrow> DesktopEnvironment option" where
  "proc_desktop p = (if \<not> is_pid (proc_dir p) then None
     else (case proc_comm p of None \<Rightarrow> None | Some c \<Rightarrow> map_of COMPOSITOR_PROCESSES (trim c)))"

definition detect_from_processes :: "Proc list option \<Rightarrow> DesktopEnvironment option" where
  "detect_from_processes procs = (case procs of None \<Rightarrow> None | Some ps \<Rightarrow> first_some proc_desktop ps)"

text \<open>A session as \<^verbatim>\<open>loginctl\<close> shows it: \<open>None\<close> when the command cannot be run, else its success and its lines.\<close>

type_synonym shown_session = "(bool \<times> string list) option"

definition session_props :: "string list \<Rightarrow> bool \<times> string option" where
  "session_props ls = fold (\<lambda>l (g, d).
      ((case strip_prefix ''Type='' l of Some v \<Rightarrow> v = ''wayland'' \<or> v = ''x11'' | None \<Rightarrow> g),
       (case strip_prefix ''Desktop='' l of Some v \<Rightarrow> if v \<noteq> [] then Some v else d | None \<Rightarrow> d))) ls (False, None)"

text \<open>Each line of the list with its first word, if it has one.\<close>

fun scan_sessions :: "(string option \<times> shown_session) list \<Rightarrow> DesktopEnvironment option" where
  "scan_sessions [] = None"
| "scan_sessions ((None, _) # rest) = None"
| "scan_sessions ((Some _, None) # rest) = None"
| "scan_sessions ((Some _, Some (success, ls)) # rest) =
     (if \<not> success then scan_sessions rest
      else (case session_props ls of
         (True, Some d) \<Rightarrow>
           (if detect_from_env (Some d) None \<noteq> UnknownDesktop then Some (detect_from_env (Some d) None) else scan_sessions rest)
       | _ \<Rightarrow> scan_sessions rest))"

definition detect_from_loginctl :: "(bool \<times> (string option \<times> shown_session) list) option \<Rightarrow> DesktopEnvironment option" where
  "detect_from_loginctl outp = (case outp of
     None \<Rightarrow> None | Some (success, sessions) \<Rightarrow> if success then scan_sessions sessions else None)"

definition detect_desktop ::
  "string option \<Rightarrow> string option \<Rightarrow> (bool \<times> (string option \<times> shown_session) list) option \<Rightarrow> Proc list option \<Rightarrow> DesktopEnvironment" where
  "detect_desktop current session logins procs =
     (let result = detect_from_env current session in
      if result \<noteq> UnknownDesktop then result
      else (case detect_from_loginctl logins of
         Some de \<Rightarrow> de
       | None \<Rightarrow> (case detect_from_processes procs of Some de \<Rightarrow> de | None \<Rightarrow> UnknownDesktop)))"

section \<open>desktop\_detect.rs: the environment\<close>

type_synonym env = "string \<rightharpoonup> string"

definition is_compositor :: "Proc \<Rightarrow> bool" where
  "is_compositor p \<longleftrightarrow> is_pid (proc_dir p) \<and>
     (case proc_comm p of None \<Rightarrow> False | Some c \<Rightarrow> trim c \<in> fst ` set COMPOSITOR_PROCESSES)"

definition dbus_of :: "Proc \<Rightarrow> string option" where
  "dbus_of p = (if is_compositor p
     then (case proc_environ p of None \<Rightarrow> None | Some vs \<Rightarrow> first_some (strip_prefix ''DBUS_SESSION_BUS_ADDRESS='') vs)
     else None)"

definition inherit_dbus_from_compositor :: "Proc list option \<Rightarrow> env \<Rightarrow> env" where
  "inherit_dbus_from_compositor procs e = (case procs of
     None \<Rightarrow> e
   | Some ps \<Rightarrow> (case first_some dbus_of ps of Some v \<Rightarrow> e(''DBUS_SESSION_BUS_ADDRESS'' \<mapsto> v) | None \<Rightarrow> e))"

text \<open>\<open>bus_at dir\<close> is the path of the bus socket in \<open>dir\<close>, if it exists.\<close>

definition try_inherit_dbus_env :: "Proc list option \<Rightarrow> (string \<Rightarrow> string option) \<Rightarrow> env \<Rightarrow> env" where
  "try_inherit_dbus_env procs bus_at e =
     (if e ''DBUS_SESSION_BUS_ADDRESS'' \<noteq> None then e
      else let e1 = inherit_dbus_from_compositor procs e in
        if e1 ''DBUS_SESSION_BUS_ADDRESS'' \<noteq> None then e1
        else (case e1 ''XDG_RUNTIME_DIR'' of
           None \<Rightarrow> e1
         | Some dir \<Rightarrow> (case bus_at dir of
              Some path \<Rightarrow> e1(''DBUS_SESSION_BUS_ADDRESS'' \<mapsto> ''unix:path='' @ path) | None \<Rightarrow> e1)))"

definition last_var :: "string \<Rightarrow> string list \<Rightarrow> string option" where
  "last_var name vs = first_some (strip_prefix (name @ ''='')) (rev vs)"

text \<open>The three names are told apart by their prefixes, so the first match of the source is the only one.\<close>

definition set_missing :: "string \<Rightarrow> string option \<Rightarrow> env \<Rightarrow> env" where
  "set_missing name v e = (case v of Some x \<Rightarrow> if e name = None then e(name \<mapsto> x) else e | None \<Rightarrow> e)"

fun inherit_from :: "Proc list \<Rightarrow> env \<Rightarrow> bool \<times> env" where
  "inherit_from [] e = (False, e)"
| "inherit_from (p # ps) e =
     (if \<not> is_compositor p then inherit_from ps e
      else (case proc_environ p of
         None \<Rightarrow> inherit_from ps e
       | Some vs \<Rightarrow> (case last_var ''WAYLAND_DISPLAY'' vs of
            None \<Rightarrow> inherit_from ps e
          | Some wl \<Rightarrow>
              (True, set_missing ''DBUS_SESSION_BUS_ADDRESS'' (last_var ''DBUS_SESSION_BUS_ADDRESS'' vs)
                 (set_missing ''XDG_RUNTIME_DIR'' (last_var ''XDG_RUNTIME_DIR'' vs) (e(''WAYLAND_DISPLAY'' \<mapsto> wl)))))))"

definition inherit_compositor_env :: "Proc list option \<Rightarrow> env \<Rightarrow> bool \<times> env" where
  "inherit_compositor_env procs e = (case procs of None \<Rightarrow> (False, e) | Some ps \<Rightarrow> inherit_from ps e)"

definition ends_with :: "string \<Rightarrow> string \<Rightarrow> bool" where
  "ends_with suf s \<longleftrightarrow> strip_prefix (rev suf) (rev s) \<noteq> None"

text \<open>The entries of a directory with whether each is a socket; \<open>None\<close> when it cannot be read.\<close>

definition find_wayland_socket :: "(string \<times> bool) list option \<Rightarrow> string option" where
  "find_wayland_socket entries = (case entries of
     None \<Rightarrow> None
   | Some es \<Rightarrow> map_option fst (find (\<lambda>(n, sock). strip_prefix ''wayland-'' n \<noteq> None \<and> \<not> ends_with ''.lock'' n \<and> sock) es))"

definition ensure_wayland_env ::
  "Proc list option \<Rightarrow> (string \<Rightarrow> string option) \<Rightarrow> (string \<Rightarrow> (string \<times> bool) list option) \<Rightarrow> env \<Rightarrow> bool \<times> env" where
  "ensure_wayland_env procs bus_at dir e =
     (let e1 = try_inherit_dbus_env procs bus_at e in
      if e1 ''WAYLAND_DISPLAY'' \<noteq> None then (True, e1)
      else (case inherit_compositor_env procs e1 of
         (True, e2) \<Rightarrow> (True, e2)
       | (False, e2) \<Rightarrow> (case e2 ''XDG_RUNTIME_DIR'' of
            None \<Rightarrow> (False, e2)
          | Some rd \<Rightarrow> (case find_wayland_socket (dir rd) of
               Some wl \<Rightarrow> (True, e2(''WAYLAND_DISPLAY'' \<mapsto> wl)) | None \<Rightarrow> (False, e2)))))"

section \<open>Properties\<close>

lemma map_le_new: "e k = None \<Longrightarrow> map_le e (e(k \<mapsto> v))"
  by (auto simp: map_le_def)

lemma set_missing_le: "map_le e (set_missing name v e)"
  by (auto simp: set_missing_def map_le_new split: option.splits)

lemma set_missing_keeps: "e k \<noteq> None \<Longrightarrow> set_missing name v e k \<noteq> None"
  by (auto simp: set_missing_def split: option.splits)

lemma dbus_inherited: "e ''DBUS_SESSION_BUS_ADDRESS'' = None \<Longrightarrow> map_le e (inherit_dbus_from_compositor procs e)"
  by (auto simp: inherit_dbus_from_compositor_def map_le_new split: option.splits)

lemma dbus_only_added: "map_le e (try_inherit_dbus_env procs bus_at e)"
proof (cases "e ''DBUS_SESSION_BUS_ADDRESS'' = None")
  case True
  let ?e1 = "inherit_dbus_from_compositor procs e"
  have "map_le e ?e1" using True by (rule dbus_inherited)
  moreover have "?e1 ''DBUS_SESSION_BUS_ADDRESS'' = None \<Longrightarrow> map_le ?e1 (?e1(''DBUS_SESSION_BUS_ADDRESS'' \<mapsto> v))" for v
    by (rule map_le_new)
  ultimately show ?thesis
    using True by (auto simp: try_inherit_dbus_env_def Let_def split: option.splits intro: map_le_trans)
qed (auto simp: try_inherit_dbus_env_def map_le_def)

lemma inherit_from_adds:
  "e ''WAYLAND_DISPLAY'' = None \<Longrightarrow> inherit_from ps e = (found, e') \<Longrightarrow>
   map_le e e' \<and> (found \<longleftrightarrow> e' ''WAYLAND_DISPLAY'' \<noteq> None)"
proof (induction ps e rule: inherit_from.induct)
  case (2 p ps e)
  show ?case
  proof (cases "is_compositor p \<and> (\<exists>vs wl. proc_environ p = Some vs \<and> last_var ''WAYLAND_DISPLAY'' vs = Some wl)")
    case True
    then obtain vs wl where v: "is_compositor p" "proc_environ p = Some vs" "last_var ''WAYLAND_DISPLAY'' vs = Some wl" by blast
    let ?e1 = "e(''WAYLAND_DISPLAY'' \<mapsto> wl)"
    let ?e2 = "set_missing ''XDG_RUNTIME_DIR'' (last_var ''XDG_RUNTIME_DIR'' vs) ?e1"
    have r: "found" "e' = set_missing ''DBUS_SESSION_BUS_ADDRESS'' (last_var ''DBUS_SESSION_BUS_ADDRESS'' vs) ?e2"
      using "2.prems"(2) v by (auto simp del: fun_upd_apply)
    have "map_le e ?e1" using "2.prems"(1) by (rule map_le_new)
    then have "map_le e e'" unfolding r(2) by (blast intro: map_le_trans set_missing_le)
    moreover have "?e1 ''WAYLAND_DISPLAY'' \<noteq> None" by simp
    then have "e' ''WAYLAND_DISPLAY'' \<noteq> None" unfolding r(2) by (intro set_missing_keeps)
    ultimately show ?thesis using r(1) by blast
  next
    case False
    then have "inherit_from ps e = (found, e')" using "2.prems"(2) by (auto split: if_splits option.splits)
    then show ?thesis using 2 False by (cases "is_compositor p"; cases "proc_environ p") auto
  qed
qed auto

text \<open>Discovery only adds: whatever the processes and directories hold, \<open>ensure_wayland_env\<close> changes no variable that
  was set, and it answers true exactly when the display is known afterwards.\<close>

theorem environment_only_extended:
  "map_le e (snd (ensure_wayland_env procs bus_at dir e)) \<and>
   (fst (ensure_wayland_env procs bus_at dir e) \<longleftrightarrow> snd (ensure_wayland_env procs bus_at dir e) ''WAYLAND_DISPLAY'' \<noteq> None)"
proof -
  define e1 where "e1 = try_inherit_dbus_env procs bus_at e"
  have le1: "map_le e e1" unfolding e1_def by (rule dbus_only_added)
  show ?thesis
  proof (cases "e1 ''WAYLAND_DISPLAY'' = None")
    case False
    then show ?thesis using le1 by (simp add: ensure_wayland_env_def e1_def [symmetric])
  next
    case True
    obtain found e2 where i: "inherit_compositor_env procs e1 = (found, e2)" by fastforce
    have a: "map_le e1 e2 \<and> (found \<longleftrightarrow> e2 ''WAYLAND_DISPLAY'' \<noteq> None)"
      using i inherit_from_adds [of e1 _ found e2] True by (auto simp: inherit_compositor_env_def split: option.splits)
    then have le2: "map_le e e2" using le1 by (blast intro: map_le_trans)
    show ?thesis
    proof (cases found)
      case True
      then show ?thesis using i a le2 \<open>e1 _ = None\<close> by (simp add: ensure_wayland_env_def e1_def [symmetric])
    next
      case False
      then have none: "e2 ''WAYLAND_DISPLAY'' = None" using a by blast
      then have "map_le e (e2(''WAYLAND_DISPLAY'' \<mapsto> wl))" for wl using le2 by (blast intro: map_le_trans map_le_new)
      then show ?thesis
        using False none i le2 \<open>e1 _ = None\<close> by (auto simp: ensure_wayland_env_def e1_def [symmetric] split: option.splits)
    qed
  qed
qed

lemma length_update_last [simp]: "length (update_last f xs) = length xs"
  by (induction f xs rule: update_last.induct) simp_all

lemma nth_update_last: "i + 1 < length xs \<Longrightarrow> update_last f xs ! i = xs ! i"
  by (induction f xs arbitrary: i rule: update_last.induct) (auto simp: nth_Cons split: nat.splits)

lemma update_last_Nil [simp]: "update_last f xs = [] \<longleftrightarrow> xs = []"
  by (cases "(f, xs)" rule: update_last.cases) simp_all

lemma last_update_last: "xs \<noteq> [] \<Longrightarrow> List.last (update_last f xs) = f (List.last xs)"
  by (induction f xs rule: update_last.induct) auto

text \<open>With several outputs the names go astray: the events of the xdg output of any output but the last leave that
  output as it was and overwrite the last output instead.\<close>

theorem xdg_events_hit_last:
  assumes "i + 1 < length (os_outputs s)"
  shows "os_outputs (out_event (XdgName i nm) s) ! i = os_outputs s ! i \<and>
     oi_name (List.last (os_outputs (out_event (XdgName i nm) s))) = nm \<and>
     os_outputs (out_event (XdgSize i w h) s) ! i = os_outputs s ! i \<and>
     oi_width (List.last (os_outputs (out_event (XdgSize i w h) s))) = w"
proof -
  have "os_outputs s \<noteq> []" using assms by auto
  then show ?thesis using assms by (simp add: with_last_def nth_update_last last_update_last)
qed

theorem xdg_events_hit_last_witness:
  "\<exists>s. length (os_outputs s) = 2 \<and> os_outputs (out_event (XdgName 0 ''HDMI-A-1'') s) ! 0 = os_outputs s ! 0 \<and>
     oi_name (List.last (os_outputs (out_event (XdgName 0 ''HDMI-A-1'') s))) = ''HDMI-A-1''"
proof -
  let ?s = "handle_events out_event [OutGlobal 5 ''wl_output'', OutGlobal 6 ''wl_output''] \<lparr>os_outputs = [], xdg_output_manager = False, pending_xdg_outputs = []\<rparr>"
  have "length (os_outputs ?s) = 2" by (simp add: out_global_def)
  with xdg_events_hit_last [of 0 ?s "''HDMI-A-1''" 0 0] show ?thesis by (intro exI [of _ ?s]) simp
qed

text \<open>In the protocol 0 is maximized, 1 minimized and 2 activated; the code takes 0 for activated.\<close>

lemma maximized_reported_active:
  "activated (fold set_state (state_values [0, 0, 0, 0]) t)" "activated (fold set_state (state_values [2, 0, 0, 0]) t) = activated t"
  by (simp_all add: set_state_def of_le_def)

end
