(* ===== verification/Portal.thy ===== *)
theory Portal
  imports Discovery Setup
begin

text \<open>
  \<^verbatim>\<open>capture/src/portal.rs\<close>: capture through the desktop portal and GStreamer, for GNOME and KDE. The portal (D-Bus), GStreamer
  and the file system are arguments: what each call answers. The channel from the capture loop to \<^verbatim>\<open>next_frame\<close> is a
  \<open>Ring\<close> that can also be closed from either end, as \<^verbatim>\<open>tokio\<close>'s bounded channel can. The asynchronous calls are a sequence.
\<close>

section \<open>The restore token\<close>

definition TOKEN_DIR :: string where
  "TOKEN_DIR = ''remoteway''"

definition TOKEN_FILE :: string where
  "TOKEN_FILE = ''portal-token''"

definition token_path :: "Environment \<Rightarrow> string" where
  "token_path env =
     (let base = (case env ''XDG_CACHE_HOME'' of Some d \<Rightarrow> d
        | None \<Rightarrow> path_join (case env ''HOME'' of Some h \<Rightarrow> h | None \<Rightarrow> ''/tmp'') ''.cache'') in
      path_join (path_join base TOKEN_DIR) TOKEN_FILE)"

text \<open>The readable text files.\<close>

type_synonym TextFiles = "string \<Rightarrow> string option"

definition load_restore_token :: "Environment \<Rightarrow> TextFiles \<Rightarrow> string option" where
  "load_restore_token env fs = (case fs (token_path env) of
     None \<Rightarrow> None
   | Some content \<Rightarrow> if trim content = [] then None else Some (trim content))"

text \<open>Saving: the directory cannot be made, or the write fails and leaves something else in the file, or it succeeds.\<close>

datatype save_outcome = DirectoryFailed | WriteFailed "string option" | Written

definition save_restore_token :: "Environment \<Rightarrow> save_outcome \<Rightarrow> string \<Rightarrow> TextFiles \<Rightarrow> TextFiles" where
  "save_restore_token env outcome token fs = (case outcome of
     DirectoryFailed \<Rightarrow> fs
   | WriteFailed left_over \<Rightarrow> fs(token_path env := left_over)
   | Written \<Rightarrow> fs(token_path env := Some token))"

section \<open>The portal handshake\<close>

text \<open>What the source asks the portal for: monitors and windows, one of them, with the cursor drawn in.\<close>

datatype source_type = MonitorSource | WindowSource
datatype cursor_mode = EmbeddedCursor

record SelectSourcesOptions =
  so_sources :: "source_type set"
  so_multiple :: bool
  so_cursor_mode :: cursor_mode
  so_restore_token :: "string option"

datatype portal_call = ConnectScreencast | CreateSession | SelectSources SelectSourcesOptions | StartCast nat | OpenPipeWire

text \<open>The answers: an error text for each call that fails; the streams and the token of the response; the file descriptor.\<close>

record PortalReplies =
  po_connect :: "string option"
  po_session :: "string option"
  po_select :: "string option"
  po_start :: "string option"
  po_response :: "string + (u32 list \<times> string option)"
  po_remote :: "string + int"
  po_save :: save_outcome

definition select_options :: "string option \<Rightarrow> SelectSourcesOptions" where
  "select_options saved = \<lparr>so_sources = {MonitorSource, WindowSource}, so_multiple = False, so_cursor_mode = EmbeddedCursor,
     so_restore_token = saved\<rparr>"

definition portal_handshake ::
  "Environment \<Rightarrow> PortalReplies \<Rightarrow> TextFiles \<Rightarrow> (CaptureError + (int \<times> u32)) \<times> portal_call list \<times> TextFiles" where
  "portal_handshake env p fs =
     (let stop = (\<lambda>text e calls. (Inl (CaptureFailed (text @ e)), calls, fs));
          c1 = [ConnectScreencast]; c2 = c1 @ [CreateSession]; c3 = c2 @ [SelectSources (select_options (load_restore_token env fs))];
          c4 = c3 @ [StartCast 0]; c5 = c4 @ [OpenPipeWire] in
      case po_connect p of Some e \<Rightarrow> stop ''screencast connect: '' e c1 | None \<Rightarrow>
      (case po_session p of Some e \<Rightarrow> stop ''create session: '' e c2 | None \<Rightarrow>
      (case po_select p of Some e \<Rightarrow> stop ''select sources: '' e c3 | None \<Rightarrow>
      (case po_start p of Some e \<Rightarrow> stop ''start: '' e c4 | None \<Rightarrow>
      (case po_response p of
         Inl e \<Rightarrow> stop ''start result: '' e c4
       | Inr ([], _) \<Rightarrow> stop ''no streams in portal response'' [] c4
       | Inr (node # _, token) \<Rightarrow>
           (case po_remote p of
              Inl e \<Rightarrow> stop ''open_pipe_wire_remote: '' e c5
            | Inr fd \<Rightarrow> (Inr (fd, node), c5,
                (case token of None \<Rightarrow> fs | Some t \<Rightarrow> save_restore_token env (po_save p) t fs))))))))"

section \<open>The pipeline\<close>

datatype gst_element = PipewireSrc int string | VideoConvert | CapsFilter string string
  | AppSink string bool u32 bool bool

text \<open>The properties of the sink in the order of the source: name, sync, max-buffers, drop, emit-signals. \<open>made\<close> says which
  of the four elements cannot be made, \<open>joined\<close> whether adding (0) or linking (1) fails.\<close>

definition build_pipeline ::
  "(nat \<Rightarrow> string option) \<Rightarrow> (nat \<Rightarrow> string option) \<Rightarrow> int \<Rightarrow> u32 \<Rightarrow> CaptureError + gst_element list" where
  "build_pipeline made joined pw_fd pw_node_id =
     (case made 0 of Some e \<Rightarrow> Inl (CaptureFailed (''failed to create pipewiresrc (is gst-plugin-pipewire installed?): '' @ e)) | None \<Rightarrow>
     (case made 1 of Some e \<Rightarrow> Inl (CaptureFailed (''failed to create videoconvert: '' @ e)) | None \<Rightarrow>
     (case made 2 of Some e \<Rightarrow> Inl (CaptureFailed (''failed to create capsfilter: '' @ e)) | None \<Rightarrow>
     (case made 3 of Some e \<Rightarrow> Inl (CaptureFailed (''failed to create appsink: '' @ e)) | None \<Rightarrow>
     (case joined 0 of Some e \<Rightarrow> Inl (CaptureFailed (''failed to add elements to pipeline: '' @ e)) | None \<Rightarrow>
     (case joined 1 of Some e \<Rightarrow> Inl (CaptureFailed (''failed to link elements: '' @ e)) | None \<Rightarrow>
       Inr [PipewireSrc pw_fd (decimal (unat pw_node_id)), VideoConvert, CapsFilter ''video/x-raw'' ''BGRx'',
         AppSink ''appsink'' False 2 True False]))))))"

text \<open>A sample: its buffer, if it has one, with its contents, if they can be mapped, and its time; and what its caps say, if
  they parse: extent and the strides of the planes (\<^verbatim>\<open>i32\<close>).\<close>

record GstBuffer =
  gb_data :: "bytes option"
  gb_pts :: "u64 option"

record VideoInfo =
  vi_width :: u32
  vi_height :: u32
  vi_stride :: "int list"

record GstSample =
  gs_buffer :: "GstBuffer option"
  gs_info :: "VideoInfo option"

definition sample_stride :: "VideoInfo \<Rightarrow> u32" where
  "sample_stride info =
     word_of_int (max (case vi_stride info of [] \<Rightarrow> sint (vi_width info * 4) | s # _ \<Rightarrow> s) 0)"

definition sample_to_frame :: "GstSample \<Rightarrow> CaptureError + CapturedFrame" where
  "sample_to_frame sample = (case gs_buffer sample of
     None \<Rightarrow> Inl (CaptureFailed ''sample has no buffer'')
   | Some b \<Rightarrow> (case gb_data b of
       None \<Rightarrow> Inl (CaptureFailed ''gst buffer map_readable failed'')
     | Some bytes \<Rightarrow>
         let buf_size = word_of_nat (length bytes) :: u32;
             (width, height, stride) = (case gs_info sample of
               Some info \<Rightarrow> (vi_width info, vi_height info, sample_stride info)
             | None \<Rightarrow> (buf_size div 4, 1, buf_size)) in
         Inr \<lparr>cap_data = bytes, damage = [DamageRect_new 0 0 width height], cap_format = Xbgr8888, cap_width = width,
           cap_height = height, cap_stride = stride, cap_timestamp_ns = (case gb_pts b of None \<Rightarrow> 0 | Some t \<Rightarrow> t)\<rparr>))"

section \<open>The capture loop and its reader\<close>

text \<open>The channel's two ends: the receiver closes it, or the capture thread ends and its sender is gone.\<close>

record 'r PortalBackend =
  frame_rx :: 'r
  pt_stop_flag :: bool
  rx_closed :: bool
  loop_ended :: bool

definition portal_started :: "'r \<Rightarrow> 'r PortalBackend" where
  "portal_started ring = \<lparr>frame_rx = ring, pt_stop_flag = False, rx_closed = False, loop_ended = False\<rparr>"

text \<open>One iteration of \<^verbatim>\<open>capture_loop\<close>; the sample is what \<^verbatim>\<open>try_pull_sample\<close> gives within two seconds.\<close>

definition portal_turn :: "('r, CapturedFrame) Ring \<Rightarrow> GstSample option \<Rightarrow> 'r PortalBackend \<Rightarrow> 'r PortalBackend" where
  "portal_turn R pulled p =
     (if loop_ended p then p
      else if pt_stop_flag p then p\<lparr>loop_ended := True\<rparr>
      else case pulled of
        None \<Rightarrow> p
      | Some sample \<Rightarrow> (case sample_to_frame sample of
          Inl _ \<Rightarrow> p
        | Inr frame \<Rightarrow>
            if rx_closed p then p\<lparr>loop_ended := True\<rparr>
            else (case ring_push R (frame_rx p) frame of None \<Rightarrow> p | Some r \<Rightarrow> p\<lparr>frame_rx := r\<rparr>)))"

text \<open>\<^verbatim>\<open>next_frame\<close>: a closed channel still gives the frames it holds; \<open>None\<close> is a wait that goes on.\<close>

definition portal_next_frame ::
  "('r, CapturedFrame) Ring \<Rightarrow> 'r PortalBackend \<Rightarrow> (CaptureError + CapturedFrame) option \<times> 'r PortalBackend" where
  "portal_next_frame R p = (case ring_pop R (frame_rx p) of
     Some (f, r) \<Rightarrow> (Some (Inr f), p\<lparr>frame_rx := r\<rparr>)
   | None \<Rightarrow> (if rx_closed p \<or> loop_ended p then Some (Inl SessionEnded) else None, p))"

definition portal_stop :: "'r PortalBackend \<Rightarrow> 'r PortalBackend" where
  "portal_stop p = p\<lparr>pt_stop_flag := True, rx_closed := True\<rparr>"

section \<open>Starting the backend\<close>

text \<open>How an error is printed; \<open>shown\<close> prints those that carry a foreign error.\<close>

definition CaptureError_text :: "(CaptureError \<Rightarrow> string) \<Rightarrow> CaptureError \<Rightarrow> string" where
  "CaptureError_text shown e = (case e of
     NoBackend \<Rightarrow> ''no suitable capture protocol available''
   | NoOutputs \<Rightarrow> ''no outputs found''
   | ShmPool m \<Rightarrow> ''shm pool error: '' @ m
   | BufferPoolExhausted \<Rightarrow> ''buffer pool exhausted''
   | SessionEnded \<Rightarrow> ''capture session ended by compositor''
   | OutputNotFound m \<Rightarrow> ''output '' @ m @ '' not found''
   | UnsupportedFormat f \<Rightarrow> ''unsupported pixel format: '' @ decimal (unat f)
   | CaptureFailed m \<Rightarrow> ''capture failed: '' @ m
   | Protocol m \<Rightarrow> ''protocol error: '' @ m
   | _ \<Rightarrow> shown e)"

text \<open>The world of one attempt: why GStreamer or the runtime cannot start, the portal's answers, the pipeline's, whether the
  sink is found, the pipeline plays and has a bus, and whether the thread is ready within the time the caller waits.\<close>

record PortalWorld =
  pw_gst_init :: "string option"
  pw_runtime :: "string option"
  pw_replies :: PortalReplies
  pw_make :: "nat \<Rightarrow> string option"
  pw_join :: "nat \<Rightarrow> string option"
  pw_sink :: bool
  pw_plays :: bool
  pw_bus :: bool
  pw_in_time :: bool
  pw_shown :: "CaptureError \<Rightarrow> string"

text \<open>\<^verbatim>\<open>fail\<close>: the printed error is sent and returned as an error of its own.\<close>

definition portal_fail :: "PortalWorld \<Rightarrow> CaptureError \<Rightarrow> CaptureError" where
  "portal_fail w e = CaptureFailed (CaptureError_text (pw_shown w) e)"

text \<open>\<^verbatim>\<open>run_capture\<close> up to the capture loop: what is sent through the ready channel.\<close>

definition run_capture :: "Environment \<Rightarrow> PortalWorld \<Rightarrow> TextFiles \<Rightarrow> (CaptureError + gst_element list) \<times> portal_call list \<times> TextFiles" where
  "run_capture env w fs = (case portal_handshake env (pw_replies w) fs of (r, calls, fs') \<Rightarrow>
     ((case r of
         Inl e \<Rightarrow> Inl (portal_fail w e)
       | Inr (fd, node) \<Rightarrow> (case build_pipeline (pw_make w) (pw_join w) fd node of
           Inl e \<Rightarrow> Inl (portal_fail w e)
         | Inr elements \<Rightarrow>
             if \<not> pw_sink w then Inl (portal_fail w (CaptureFailed ''appsink element not found in GStreamer pipeline''))
             else if \<not> pw_plays w then Inl (portal_fail w (CaptureFailed ''failed to start GStreamer pipeline''))
             else if \<not> pw_bus w then Inl (portal_fail w (CaptureFailed ''no pipeline bus''))
             else Inr elements)), calls, fs'))"

text \<open>What the caller of \<^verbatim>\<open>new\<close> finds in the ready channel: nothing in time, a channel whose sender is gone, or a message.\<close>

datatype 'a readiness = TimedOut | Disconnected | Ready 'a

definition portal_thread ::
  "Environment \<Rightarrow> PortalWorld \<Rightarrow> TextFiles \<Rightarrow> (CaptureError + gst_element list) readiness \<times> portal_call list \<times> TextFiles" where
  "portal_thread env w fs =
     (if pw_gst_init w \<noteq> None \<or> pw_runtime w \<noteq> None then (Disconnected, [], fs)
      else case run_capture env w fs of (r, calls, fs') \<Rightarrow> (if pw_in_time w then Ready r else TimedOut, calls, fs'))"

definition portal_new ::
  "Environment \<Rightarrow> PortalWorld \<Rightarrow> 'r \<Rightarrow> TextFiles \<Rightarrow> (CaptureError + 'r PortalBackend) \<times> portal_call list \<times> TextFiles" where
  "portal_new env w ring fs = (case portal_thread env w fs of (r, calls, fs') \<Rightarrow>
     ((case r of
         TimedOut \<Rightarrow> Inl (CaptureFailed ''portal setup timed out: timed out waiting on channel'')
       | Disconnected \<Rightarrow> Inl (CaptureFailed ''portal setup timed out: channel is empty and sending half is closed'')
       | Ready (Inl e) \<Rightarrow> Inl e
       | Ready (Inr _) \<Rightarrow> Inr (portal_started ring)), calls, fs'))"

text \<open>\<^verbatim>\<open>setup_restore_token\<close>: the handshake alone, within 180 seconds.\<close>

definition setup_restore_token :: "Environment \<Rightarrow> PortalWorld \<Rightarrow> TextFiles \<Rightarrow> (CaptureError + unit) \<times> portal_call list \<times> TextFiles" where
  "setup_restore_token env w fs = (case pw_runtime w of
     Some e \<Rightarrow> (Inl (CaptureFailed (''setup rt: '' @ e)), [], fs)
   | None \<Rightarrow> (case portal_handshake env (pw_replies w) fs of (r, calls, fs') \<Rightarrow>
       (if \<not> pw_in_time w then Inl (CaptureFailed ''token setup timed out'')
        else (case r of Inl e \<Rightarrow> Inl (CaptureFailed (CaptureError_text (pw_shown w) e)) | Inr _ \<Rightarrow> Inr ()), calls, fs')))"

section \<open>Properties\<close>

text \<open>The capture loop and the reader interleave. A run tells which frames the loop put into the channel and what each read gave.\<close>

datatype portal_op = PortalTurn "GstSample option" | PortalRead | PortalStop

definition portal_put :: "('r, CapturedFrame) Ring \<Rightarrow> GstSample option \<Rightarrow> 'r PortalBackend \<Rightarrow> CapturedFrame list" where
  "portal_put R pulled p = (case map_option sample_to_frame pulled of
     Some (Inr f) \<Rightarrow> (if loop_ended p \<or> pt_stop_flag p \<or> rx_closed p \<or> ring_push R (frame_rx p) f = None then [] else [f])
   | _ \<Rightarrow> [])"

fun portal_run :: "('r, CapturedFrame) Ring \<Rightarrow> portal_op list \<Rightarrow> 'r PortalBackend
    \<Rightarrow> CapturedFrame list \<times> (CaptureError + CapturedFrame) option list \<times> 'r PortalBackend" where
  "portal_run R [] p = ([], [], p)"
| "portal_run R (PortalTurn s # ops) p = (case portal_run R ops (portal_turn R s p) of (fs, x) \<Rightarrow> (portal_put R s p @ fs, x))"
| "portal_run R (PortalRead # ops) p = (case portal_next_frame R p of (r, p1) \<Rightarrow>
     case portal_run R ops p1 of (fs, rs, p') \<Rightarrow> (fs, r # rs, p'))"
| "portal_run R (PortalStop # ops) p = portal_run R ops (portal_stop p)"

definition frames_read :: "(CaptureError + CapturedFrame) option list \<Rightarrow> CapturedFrame list" where
  "frames_read rs = concat (map (\<lambda>r. case r of Some (Inr f) \<Rightarrow> [f] | _ \<Rightarrow> []) rs)"

lemma frames_read_simps [simp]:
  "frames_read [] = []" "frames_read (r # rs) = (case r of Some (Inr f) \<Rightarrow> [f] | _ \<Rightarrow> []) @ frames_read rs"
  by (simp_all add: frames_read_def)

lemma portal_turn_effect:
  assumes "spsc_ring R items cap"
  shows "items (frame_rx (portal_turn R s p)) = items (frame_rx p) @ portal_put R s p \<and>
     (length (items (frame_rx p)) \<le> cap \<longrightarrow> length (items (frame_rx (portal_turn R s p))) \<le> cap) \<and>
     pt_stop_flag (portal_turn R s p) = pt_stop_flag p \<and> rx_closed (portal_turn R s p) = rx_closed p"
proof (cases "map_option sample_to_frame s")
  case None
  then show ?thesis by (auto simp: portal_turn_def portal_put_def)
next
  case (Some r)
  then obtain sm where sm: "s = Some sm" "sample_to_frame sm = r" by auto
  show ?thesis
  proof (cases r)
    case (Inl e)
    then show ?thesis using sm by (auto simp: portal_turn_def portal_put_def)
  next
    case (Inr f)
    show ?thesis
    proof (cases "ring_push R (frame_rx p) f")
      case None
      then show ?thesis using sm Inr by (auto simp: portal_turn_def portal_put_def)
    next
      case (Some r')
      have "length (items (frame_rx p)) < cap" "items r' = items (frame_rx p) @ [f]"
        using ring_push_room [OF assms, of "frame_rx p" f] ring_push_full [OF assms, of "frame_rx p" f] Some by force+
      then show ?thesis using sm Inr Some by (auto simp: portal_turn_def portal_put_def)
    qed
  qed
qed

lemma portal_read_effect:
  assumes "spsc_ring R items cap" and "portal_next_frame R p = (r, p')"
  shows "(case items (frame_rx p) of
       [] \<Rightarrow> r = (if rx_closed p \<or> loop_ended p then Some (Inl SessionEnded) else None) \<and> p' = p
     | f # fs \<Rightarrow> r = Some (Inr f) \<and> items (frame_rx p') = fs \<and> pt_stop_flag p' = pt_stop_flag p \<and> rx_closed p' = rx_closed p \<and>
         loop_ended p' = loop_ended p)"
  using assms(2) ring_pop_Nil [OF assms(1), of "frame_rx p"] ring_pop_Cons [OF assms(1), of "frame_rx p"]
  by (cases "items (frame_rx p)") (force simp: portal_next_frame_def)+

lemma portal_run_frames:
  assumes "spsc_ring R items cap" and "portal_run R ops p = (fs, rs, p')" and "length (items (frame_rx p)) \<le> cap"
  shows "frames_read rs @ items (frame_rx p') = items (frame_rx p) @ fs \<and> length (items (frame_rx p')) \<le> cap"
  using assms(2,3)
proof (induction ops arbitrary: p fs rs)
  case (Cons x ops)
  show ?case
  proof (cases x)
    case (PortalTurn s)
    obtain fs1 where go: "portal_run R ops (portal_turn R s p) = (fs1, rs, p')" "fs = portal_put R s p @ fs1"
      using Cons.prems PortalTurn by (auto split: prod.splits)
    have "length (items (frame_rx (portal_turn R s p))) \<le> cap"
      using portal_turn_effect [OF assms(1), of s p] Cons.prems(2) by blast
    then show ?thesis using Cons.IH [OF go(1)] portal_turn_effect [OF assms(1), of s p] go(2) by simp
  next
    case PortalRead
    obtain r p1 where r: "portal_next_frame R p = (r, p1)" by fastforce
    obtain rs1 where go: "portal_run R ops p1 = (fs, rs1, p')" "rs = r # rs1"
      using Cons.prems PortalRead r by (auto split: prod.splits)
    show ?thesis using Cons.IH [OF go(1)] portal_read_effect [OF assms(1) r] go(2) Cons.prems(2)
      by (cases "items (frame_rx p)") (auto split: if_splits)
  next
    case PortalStop
    then show ?thesis using Cons.IH [of "portal_stop p" fs rs] Cons.prems by (simp add: portal_stop_def)
  qed
qed simp

lemma portal_run_open:
  assumes "spsc_ring R items cap" and "portal_run R ops p = (fs, rs, p')" and "PortalStop \<notin> set ops"
    and "\<not> rx_closed p \<and> \<not> pt_stop_flag p \<and> \<not> loop_ended p"
  shows "Some (Inl SessionEnded) \<notin> set rs \<and> \<not> loop_ended p'"
  using assms(2-4)
proof (induction ops arbitrary: p fs rs)
  case (Cons x ops)
  show ?case
  proof (cases x)
    case (PortalTurn s)
    obtain fs1 where go: "portal_run R ops (portal_turn R s p) = (fs1, rs, p')"
      using Cons.prems PortalTurn by (auto split: prod.splits)
    have "\<not> rx_closed (portal_turn R s p) \<and> \<not> pt_stop_flag (portal_turn R s p) \<and> \<not> loop_ended (portal_turn R s p)"
      using Cons.prems(3) by (auto simp: portal_turn_def split: option.splits sum.splits)
    then show ?thesis using Cons.IH [OF go] Cons.prems(2) by simp
  next
    case PortalRead
    obtain r p1 where r: "portal_next_frame R p = (r, p1)" by fastforce
    obtain rs1 where go: "portal_run R ops p1 = (fs, rs1, p')" "rs = r # rs1"
      using Cons.prems PortalRead r by (auto split: prod.splits)
    show ?thesis using Cons.IH [OF go(1)] portal_read_effect [OF assms(1) r] go(2) Cons.prems(2,3)
      by (cases "items (frame_rx p)") auto
  next
    case PortalStop
    then show ?thesis using Cons.prems(2) by simp
  qed
qed simp

lemma portal_run_stopped:
  assumes "spsc_ring R items cap" and "portal_run R ops p = (fs, rs, p')" and "rx_closed p \<and> pt_stop_flag p"
  shows "fs = [] \<and> rs = map (\<lambda>f. Some (Inr f)) (take (length rs) (items (frame_rx p))) @
       replicate (length rs - length (items (frame_rx p))) (Some (Inl SessionEnded)) \<and>
     (loop_ended p \<or> (\<exists>s. PortalTurn s \<in> set ops) \<longrightarrow> loop_ended p')"
  using assms(2,3)
proof (induction ops arbitrary: p fs rs)
  case (Cons x ops)
  show ?case
  proof (cases x)
    case (PortalTurn s)
    obtain fs1 where go: "portal_run R ops (portal_turn R s p) = (fs1, rs, p')" "fs = portal_put R s p @ fs1"
      using Cons.prems PortalTurn by (auto split: prod.splits)
    have "portal_put R s p = []" "loop_ended (portal_turn R s p)" "rx_closed (portal_turn R s p) \<and> pt_stop_flag (portal_turn R s p)"
      using Cons.prems(2) by (auto simp: portal_put_def portal_turn_def split: option.splits sum.splits)
    then show ?thesis using Cons.IH [OF go(1)] portal_turn_effect [OF assms(1), of s p] go(2) by simp
  next
    case PortalRead
    obtain r p1 where r: "portal_next_frame R p = (r, p1)" by fastforce
    obtain rs1 where go: "portal_run R ops p1 = (fs, rs1, p')" "rs = r # rs1"
      using Cons.prems PortalRead r by (auto split: prod.splits)
    show ?thesis using Cons.IH [OF go(1)] portal_read_effect [OF assms(1) r] go(2) Cons.prems(2) PortalRead
      by (cases "items (frame_rx p)") auto
  next
    case PortalStop
    then show ?thesis using Cons.IH [of "portal_stop p" fs rs] Cons.prems by (simp add: portal_stop_def)
  qed
qed simp


text \<open>A dark screen of one pixel, read once, with two more frames of which one finds the channel full.\<close>

definition demo_sample :: GstSample where
  "demo_sample = \<lparr>gs_buffer = Some \<lparr>gb_data = Some [0, 0, 0, 0], gb_pts = Some 7\<rparr>,
     gs_info = Some \<lparr>vi_width = 1, vi_height = 1, vi_stride = [4]\<rparr>\<rparr>"

definition demo_portal_ops :: "portal_op list" where
  "demo_portal_ops = [PortalRead, PortalTurn (Some demo_sample), PortalRead, PortalTurn (Some demo_sample),
     PortalTurn (Some demo_sample), PortalTurn (Some demo_sample), PortalTurn None]"

lemma demo_portal_run:
  "\<exists>f p. portal_run (list_ring 2) demo_portal_ops (portal_started []) = ([f, f, f], [None, Some (Inr f)], p) \<and>
     sample_to_frame demo_sample = Inr f"
  by (simp add: demo_portal_ops_def demo_sample_def portal_started_def portal_turn_def portal_put_def portal_next_frame_def
      list_ring_def sample_to_frame_def sample_stride_def)


text \<open>Stopping: from any state, once it is stopped nothing more enters the channel, every read returns at once, first the
  frames that wait and then the end of the session, and the loop ends at its next iteration.\<close>

theorem portal_stops:
  assumes "spsc_ring R items cap" and "portal_run R (PortalStop # ops) p = (fs, rs, p')"
  shows "fs = [] \<and> rs = map (\<lambda>f. Some (Inr f)) (take (length rs) (items (frame_rx p))) @
       replicate (length rs - length (items (frame_rx p))) (Some (Inl SessionEnded)) \<and>
     (loop_ended p' \<or> (\<forall>s. PortalTurn s \<notin> set ops))"
  using portal_run_stopped [OF assms(1), of ops "portal_stop p" fs rs p'] assms(2) by (auto simp: portal_stop_def)

text \<open>The token is kept: after a handshake that returned one and saved it, every later handshake that gets to the choice of
  sources presents it, so that the dialog is skipped. A token with blanks around it, or nothing but blanks, would not
  survive.\<close>

theorem portal_token_kept:
  assumes "portal_handshake env p fs = (Inr x, calls, fs')" and "po_response p = Inr (nodes, Some token)" and "po_save p = Written"
    and "trim token = token" "token \<noteq> []" and "portal_handshake env q fs' = (r, calls', fs'')"
  shows "load_restore_token env fs' = Some token \<and>
     (po_connect q \<noteq> None \<or> po_session q \<noteq> None \<or> SelectSources (select_options (Some token)) \<in> set calls')"
proof -
  have "fs' = fs(token_path env \<mapsto> token)"
    using assms(1-3)
    by (cases nodes) (auto simp: portal_handshake_def Let_def save_restore_token_def split: option.splits sum.splits)
  then have l: "load_restore_token env fs' = Some token" using assms(4,5) by (simp add: load_restore_token_def)
  then show ?thesis using assms(6)
    by (auto simp: portal_handshake_def Let_def split: option.splits sum.splits list.splits prod.splits)
qed

lemma handshake_fails:
  "portal_handshake env p fs = (Inl e, calls, fs') \<Longrightarrow> \<exists>m. e = CaptureFailed m"
  by (auto simp: portal_handshake_def Let_def split: option.splits sum.splits list.splits prod.splits)

lemma portal_new_fails:
  assumes "portal_new env w ring fs = (Inl e, calls, fs')"
  shows "\<exists>m. e = CaptureFailed m"
proof -
  have "\<exists>m. e' = CaptureFailed m" if "run_capture env w fs = (Inl e', c, f)" for e' c f
    using that by (auto simp: run_capture_def portal_fail_def split: prod.splits sum.splits if_splits)
  then show ?thesis using assms
    by (auto simp: portal_new_def portal_thread_def split: prod.splits readiness.splits sum.splits if_splits)
qed

text \<open>The attempts of a server that was asked for the portal: each starts a backend in its own world.\<close>

definition portal_attempt :: "Environment \<Rightarrow> 'r \<Rightarrow> PortalWorld \<times> TextFiles \<Rightarrow> (CaptureError + 'r PortalBackend) option" where
  "portal_attempt env ring a = Some (fst (portal_new env (fst a) ring (snd a)))"


text \<open>A machine without GStreamer, and a desktop whose portal answers with a token.\<close>

definition demo_replies :: PortalReplies where
  "demo_replies = \<lparr>po_connect = None, po_session = None, po_select = None, po_start = None, po_response = Inr ([42], Some ''t''),
     po_remote = Inr 3, po_save = Written\<rparr>"

definition demo_no_gst :: PortalWorld where
  "demo_no_gst = \<lparr>pw_gst_init = Some ''no plugins'', pw_runtime = None, pw_replies = demo_replies, pw_make = (\<lambda>_. None),
     pw_join = (\<lambda>_. None), pw_sink = True, pw_plays = True, pw_bus = True, pw_in_time = True, pw_shown = (\<lambda>_. [])\<rparr>"

definition demo_portal_env :: "(unit PortalBackend) CaptureEnv" where
  "demo_portal_env = \<lparr>env_ext_output = (\<lambda>_. Inl NoBackend), env_ext_toplevel = (\<lambda>_. Inl NoBackend), env_ext_new = (\<lambda>_. Inl NoBackend),
     env_portal = portal_attempt (\<lambda>_. None) () (demo_no_gst, \<lambda>_. None), env_needs_portal = True, env_wlr = (\<lambda>_. Inl NoBackend)\<rparr>"

definition demo_portal_cli :: ServerCli where
  "demo_portal_cli = \<lparr>sv_capture = ArgPortal, sv_output = None, sv_app_id = Some ''a'', sv_command = [''a'']\<rparr>"


theorem portal_token_kept_witness:
  "\<exists>calls fs r calls' fs'. portal_handshake (\<lambda>_. None) demo_replies (\<lambda>_. None) = (Inr (3, 42), calls, fs) \<and>
     portal_handshake (\<lambda>_. None) demo_replies fs = (r, calls', fs') \<and> SelectSources (select_options None) \<in> set calls \<and>
     SelectSources (select_options (Some ''t'')) \<in> set calls'"
proof -
  have "\<exists>calls fs. portal_handshake (\<lambda>_. None) demo_replies (\<lambda>_. None) = (Inr (3, 42), calls, fs) \<and>
      SelectSources (select_options None) \<in> set calls"
    by (simp add: portal_handshake_def demo_replies_def Let_def load_restore_token_def)
  then obtain calls fs where one: "portal_handshake (\<lambda>_. None) demo_replies (\<lambda>_. None) = (Inr (3, 42), calls, fs)"
      "SelectSources (select_options None) \<in> set calls" by blast
  obtain r calls' fs' where two: "portal_handshake (\<lambda>_. None) demo_replies fs = (r, calls', fs')" by (metis prod_cases3)
  have "SelectSources (select_options (Some ''t'')) \<in> set calls'"
    using portal_token_kept [OF one(1) _ _ _ _ two, of "[42]" "''t''"] by (simp add: demo_replies_def trim_def is_space_def)
  with one two show ?thesis by blast
qed

theorem portal_stops_witness:
  "\<exists>f rs p p'. portal_run (list_ring 2) [PortalStop, PortalRead, PortalRead, PortalTurn (Some demo_sample)] p = ([], rs, p') \<and>
     frame_rx p = [f] \<and> rs = [Some (Inr f), Some (Inl SessionEnded)] \<and> loop_ended p'"
proof -
  obtain f where f: "sample_to_frame demo_sample = Inr f" using demo_portal_run by blast
  obtain fs rs p' where run: "portal_run (list_ring 2) (PortalStop # [PortalRead, PortalRead, PortalTurn (Some demo_sample)])
      (portal_started [f]) = (fs, rs, p')" by (metis prod_cases3)
  have "length rs = 2" using run by (auto split: prod.splits)
  with portal_stops [OF list_ring_spsc run] have "fs = [] \<and> rs = [Some (Inr f), Some (Inl SessionEnded)] \<and> loop_ended p'"
    by (auto simp: portal_started_def numeral_2_eq_2)
  with run show ?thesis by (intro exI [of _ f] exI [of _ rs] exI [of _ "portal_started [f]"] exI [of _ p']) (simp add: portal_started_def)
qed

end
