(* ===== verification/Encode.thy ===== *)
theory Encode
  imports VulkanContext
begin

text \<open>
  The common part of \<^verbatim>\<open>crates/remoteway-encode\<close>: parameters, frames and errors (\<^verbatim>\<open>encoder.rs\<close>, \<^verbatim>\<open>error.rs\<close>), and what the
  three backends share. The sources repeat the same steps in \<^verbatim>\<open>h264.rs\<close>, \<^verbatim>\<open>h265.rs\<close> and \<^verbatim>\<open>av1.rs\<close>; here each step is
  one definition over the codec's profile, rate control and standard structures, and the backends instantiate it. A
  backend is a \<open>VideoEncoder\<close> with its own fields; \<open>'r\<close>, \<open>'p\<close> and \<open>'q\<close> are its reference infos, picture infos and
  parameter sets. Fields that a backend sets to zero or null and nothing reads are left out.
\<close>

section \<open>encoder.rs, error.rs\<close>

datatype RateControl = ConstantQp u32 | Cbr u64 | Vbr u64 u64

record EncodeParams =
  ep_codec :: VideoCodec
  ep_width :: u32
  ep_height :: u32
  frame_rate :: "u32 \<times> u32"
  rate_control :: RateControl
  intra_refresh_period :: "u32 option"

datatype EncodeError = EncVulkan VulkanError | UnsupportedCodec VideoCodec | InvalidParams message | NotReady
  | SubmitFailed message | ReadbackFailed message

definition to_vk_mode :: "RateControl \<Rightarrow> rc_mode" where
  "to_vk_mode rc = (case rc of ConstantQp _ \<Rightarrow> RC_DISABLED | Cbr _ \<Rightarrow> RC_CBR | Vbr _ _ \<Rightarrow> RC_VBR)"

definition invalid :: "string \<Rightarrow> EncodeError + 'a" where
  "invalid text = Inl (InvalidParams (text, None))"

definition validate_against :: "EncodeParams \<Rightarrow> VideoEncodeCapabilities \<Rightarrow> EncodeError + unit" where
  "validate_against p caps =
     (let (gx, gy) = picture_access_granularity caps in
      if caps_codec caps \<noteq> ep_codec p then invalid ''caps describe codec''
      else if ep_width p = 0 \<or> ep_height p = 0 then invalid ''has zero dimension''
      else if ep_width p < fst (min_coded_extent caps) \<or> ep_height p < snd (min_coded_extent caps) \<or>
              fst (max_coded_extent caps) < ep_width p \<or> snd (max_coded_extent caps) < ep_height p
        then invalid ''outside device range''
      else if 0 < gx \<and> ep_width p mod gx \<noteq> 0 then invalid ''width not aligned to picture_access_granularity''
      else if 0 < gy \<and> ep_height p mod gy \<noteq> 0 then invalid ''height not aligned to picture_access_granularity''
      else if to_vk_mode (rate_control p) \<notin> rate_control_modes caps then invalid ''rate control not in device-supported set''
      else if intra_refresh_period p \<noteq> None \<and> \<not> supports_intra_refresh caps
        then invalid ''intra_refresh_period set but device lacks VK_KHR_video_encode_intra_refresh''
      else if (case rate_control p of ConstantQp qp \<Rightarrow> 255 < qp | _ \<Rightarrow> False) then invalid ''qp out of range''
      else if snd (frame_rate p) = 0 then invalid ''frame_rate has zero denominator''
      else Inr ())"

datatype FrameKind = Idr | IntraFrame | PFrame | IntraRefresh

record EncodedFrame =
  ef_data :: bytes
  ef_kind :: FrameKind
  ef_pts_90khz :: u64
  ef_parameter_sets :: "bytes option"

record InputFrame =
  if_image :: handle
  if_width :: u32
  if_height :: u32
  if_pts_90khz :: u64

section \<open>The device of an encoder\<close>

text \<open>Beyond the driver: the memory a session needs with its bind indices, the parameter sets in their coded form, and
  the offset and size that the feedback query of a frame reports.\<close>

record EncDriver =
  ed_driver :: Driver
  ed_session_reqs :: "(MemReq \<times> u32) list"
  ed_parameter_sets :: bytes
  ed_feedback :: "nat \<Rightarrow> u32 \<times> u32"

record 'r RefSlot =
  slot_index :: int
  slot_view :: handle
  slot_extent :: "u32 \<times> u32"
  slot_std :: 'r

record RcInfo =
  rc_regular_gop :: bool
  gop_frame_count :: u32
  key_period :: u32
  b_frame_count :: u32
  layer_count :: u32

record ('r, 'p) EncodeInfo =
  dst_buffer :: handle
  dst_offset :: u64
  dst_range :: u64
  src_view :: handle
  src_extent :: "u32 \<times> u32"
  setup_slot_info :: "'r RefSlot"
  picture :: 'p
  reference_slots :: "'r RefSlot list"

datatype ('r, 'p) VideoCmd = ResetQueryPool handle
  | BeginVideoCoding handle handle "'r RefSlot list" "(rc_mode \<times> RcInfo) option"
  | ControlVideoCoding "rc_mode \<times> RcInfo"
  | BeginQuery handle
  | EncodeVideo "('r, 'p) EncodeInfo"
  | EndQuery handle
  | EndVideoCoding
  | DpbBarrier handle

datatype 'q VideoInfo = SessionInfo nat VideoProfile "u32 \<times> u32" u32 u32 "string \<times> u32" | SessionParamsInfo handle 'q
  | DpbImageInfo "u32 \<times> u32" VideoProfile | VideoMemoryInfo u64 nat | BindSessionInfo handle "(u32 \<times> handle \<times> u64) list"
  | OutBufferInfo u64 VideoProfile | QueryPoolInfo VideoProfile | EncodePoolInfo nat | EncodeFenceInfo | ViewInfo handle

type_synonym ('r, 'p, 'q, 'a) enc = "(('r, 'p) VideoCmd, 'q VideoInfo, EncodeError, 'a) vk"
type_synonym ('r, 'p, 'q) enc_state = "(('r, 'p) VideoCmd, 'q VideoInfo) Vk"

definition submit_failed :: "string \<Rightarrow> VkResult \<Rightarrow> EncodeError" where
  "submit_failed text code = SubmitFailed (text, Some code)"

definition readback_failed :: "string \<Rightarrow> VkResult \<Rightarrow> EncodeError" where
  "readback_failed text code = ReadbackFailed (text, Some code)"

section \<open>Making a session\<close>

definition DPB_SLOTS :: u32 where "DPB_SLOTS = 2"
definition OUTPUT_BUFFER_BYTES :: u64 where "OUTPUT_BUFFER_BYTES = 1024 * 1024"

record DpbSlot =
  dpb_image :: handle
  dpb_memory :: handle
  dpb_view :: handle

text \<open>Device memory of one of the admitted types, or an error.\<close>

definition allocate_memory :: "Driver \<Rightarrow> MemReq \<Rightarrow> mem_flag set \<Rightarrow> string \<Rightarrow> string \<Rightarrow> ('r, 'p, 'q, handle) enc" where
  "allocate_memory D req wanted missing text = (case find_memory_type D (req_bits req) wanted of
     None \<Rightarrow> vk_fail (SubmitFailed (missing, None))
   | Some mem_type \<Rightarrow> vk_create D (submit_failed text) KMemory (VideoMemoryInfo (req_size req) mem_type))"

definition bind_session_memory :: "EncDriver \<Rightarrow> handle \<Rightarrow> ('r, 'p, 'q, handle list) enc" where
  "bind_session_memory E session =
     (let D = ed_driver E in
      vk_then (vk_call D (submit_failed ''session_memory_len: '')) (\<lambda>_.
      vk_then (vk_call D (submit_failed ''session_memory_reqs: '')) (\<lambda>_.
      vk_then (vk_each (\<lambda>(req, _). allocate_memory D req {DEVICE_LOCAL} ''no device-local mem for session''
                 ''session allocate_memory: '') (ed_session_reqs E)) (\<lambda>allocations.
      vk_then (vk_note (BindSessionInfo session
                 (map (\<lambda>((req, i), mem). (i, mem, req_size req)) (zip (ed_session_reqs E) allocations)))) (\<lambda>_.
      vk_then (vk_call D (submit_failed ''bind_video_session_memory: '')) (\<lambda>_.
      vk_return allocations))))))"

definition fetch_parameter_sets_blob :: "EncDriver \<Rightarrow> ('r, 'p, 'q, bytes) enc" where
  "fetch_parameter_sets_blob E =
     (let failed = readback_failed ''get_encoded_video_session_parameters: '' in
      vk_then (vk_call (ed_driver E) failed) (\<lambda>_. vk_then (vk_call (ed_driver E) failed) (\<lambda>_. vk_return (ed_parameter_sets E))))"

definition create_image_view :: "Driver \<Rightarrow> handle \<Rightarrow> ('r, 'p, 'q, handle) enc" where
  "create_image_view D img = vk_create D (submit_failed ''create_image_view: '') KImageView (ViewInfo img)"

definition create_dpb_slot :: "Driver \<Rightarrow> VideoProfile \<Rightarrow> u32 \<times> u32 \<Rightarrow> ('r, 'p, 'q, DpbSlot) enc" where
  "create_dpb_slot D profile extent =
     vk_then (vk_create D (submit_failed ''dpb create_image: '') KImage (DpbImageInfo extent profile)) (\<lambda>img.
     vk_then (allocate_memory D (drv_image_req D img) {DEVICE_LOCAL} ''dpb no device-local memory'' ''dpb allocate_memory: '') (\<lambda>mem.
     vk_then (vk_call D (submit_failed ''dpb bind_image: '')) (\<lambda>_.
     vk_then (create_image_view D img) (\<lambda>view.
     vk_return \<lparr>dpb_image = img, dpb_memory = mem, dpb_view = view\<rparr>))))"

definition create_dpb_pool :: "Driver \<Rightarrow> VideoProfile \<Rightarrow> u32 \<times> u32 \<Rightarrow> ('r, 'p, 'q, DpbSlot list) enc" where
  "create_dpb_pool D profile extent = vk_each (\<lambda>_. create_dpb_slot D profile extent) [0..<unat DPB_SLOTS]"

definition create_output_buffer :: "Driver \<Rightarrow> VideoProfile \<Rightarrow> u64 \<Rightarrow> ('r, 'p, 'q, handle \<times> handle) enc" where
  "create_output_buffer D profile n =
     vk_then (vk_create D (submit_failed ''out create_buffer: '') KBuffer (OutBufferInfo n profile)) (\<lambda>buffer.
     vk_then (allocate_memory D (drv_buffer_req D buffer) {HOST_VISIBLE, HOST_COHERENT} ''out buffer: no host-visible memory''
        ''out allocate_memory: '') (\<lambda>memory.
     vk_then (vk_call D (submit_failed ''out bind_buffer: '')) (\<lambda>_.
     vk_return (buffer, memory))))"

definition create_encode_query_pool :: "Driver \<Rightarrow> VideoProfile \<Rightarrow> ('r, 'p, 'q, handle) enc" where
  "create_encode_query_pool D profile = vk_create D (submit_failed ''create_query_pool: '') KQueryPool (QueryPoolInfo profile)"

text \<open>A batch of its own: allocate, begin, record, end, submit with a fence of its own, wait. The fence is destroyed and the
  command buffer freed on success only.\<close>

definition one_shot :: "Driver \<Rightarrow> string list \<Rightarrow> ('r, 'p) VideoCmd list \<Rightarrow> ('r, 'p, 'q, unit) enc" where
  "one_shot D texts cmds =
     vk_then (vk_call D (submit_failed (texts ! 0))) (\<lambda>_.
     vk_then (vk_begin D (submit_failed (texts ! 1))) (\<lambda>_.
     vk_then (vk_record cmds) (\<lambda>_.
     vk_then (vk_call D (submit_failed (texts ! 2))) (\<lambda>_.
     vk_then (vk_create D (submit_failed (texts ! 3)) KFence EncodeFenceInfo) (\<lambda>fence.
     vk_then (vk_submit D (submit_failed (texts ! 4))) (\<lambda>_.
     vk_then (vk_call D (submit_failed (texts ! 5))) (\<lambda>_.
     vk_destroy KFence fence)))))))"

definition initialize_rate_control :: "Driver \<Rightarrow> RcInfo \<Rightarrow> handle \<Rightarrow> handle \<Rightarrow> ('r, 'p, 'q, unit) enc" where
  "initialize_rate_control D rc session session_params = one_shot D
     [''rc init alloc cmd: '', ''rc init begin: '', ''rc init end: '', ''rc init fence: '', ''rc init submit: '', ''rc init wait: '']
     [BeginVideoCoding session session_params [] None, ControlVideoCoding (RC_DISABLED, rc), EndVideoCoding]"

definition transition_dpb_to_initial_layout :: "Driver \<Rightarrow> DpbSlot list \<Rightarrow> ('r, 'p, 'q, unit) enc" where
  "transition_dpb_to_initial_layout D dpb = one_shot D
     [''dpb init alloc cmd: '', ''dpb begin: '', ''dpb end: '', ''dpb fence: '', ''dpb submit: '', ''dpb wait: '']
     (map (\<lambda>slot. DpbBarrier (dpb_image slot)) dpb)"

record VideoEncoder =
  enc_params :: EncodeParams
  encode_queue_family :: nat
  encode_queue :: "nat \<times> nat"
  session :: handle
  session_memory :: "handle list"
  session_params :: handle
  parameter_sets_blob :: bytes
  dpb :: "DpbSlot list"
  prior_ref_slot :: "nat option"
  out_buffer :: handle
  out_buffer_memory :: handle
  query_pool :: handle
  encode_cmd_pool :: handle
  encode_fence :: handle
  frame_index :: u64
  force_keyframe :: bool
  input_views :: "(handle \<times> handle) list"

text \<open>What a codec brings to the common construction: its name, profile and standard header, its parameter sets for an extent, how the coded
  parameter sets are framed, and its own copies of the steps above.\<close>

record ('r, 'p, 'q) Codec =
  codec_id :: VideoCodec
  codec_profile :: VideoProfile
  codec_header :: "string \<times> u32"
  codec_sets :: "u32 \<Rightarrow> u32 \<Rightarrow> 'q"
  codec_framing :: "bytes \<Rightarrow> bytes"
  codec_bind :: "EncDriver \<Rightarrow> handle \<Rightarrow> ('r, 'p, 'q, handle list) enc"
  codec_fetch :: "EncDriver \<Rightarrow> ('r, 'p, 'q, bytes) enc"
  codec_pool :: "Driver \<Rightarrow> u32 \<times> u32 \<Rightarrow> ('r, 'p, 'q, DpbSlot list) enc"
  codec_output :: "Driver \<Rightarrow> u64 \<Rightarrow> ('r, 'p, 'q, handle \<times> handle) enc"
  codec_queries :: "Driver \<Rightarrow> ('r, 'p, 'q, handle) enc"
  codec_dpb_layout :: "Driver \<Rightarrow> DpbSlot list \<Rightarrow> ('r, 'p, 'q, unit) enc"
  codec_rate_control :: "Driver \<Rightarrow> handle \<Rightarrow> handle \<Rightarrow> ('r, 'p, 'q, unit) enc"

text \<open>After the session exists; \<open>probe\<close> is what \<^verbatim>\<open>probe_video_encode_capabilities\<close> of the context returned.\<close>

definition open_rest :: "('r, 'p, 'q) Codec \<Rightarrow> EncDriver \<Rightarrow> EncodeParams \<Rightarrow> nat \<Rightarrow> nat \<times> nat \<Rightarrow> handle \<Rightarrow> ('r, 'p, 'q, VideoEncoder) enc" where
  "open_rest C E params family queue sess =
     (let D = ed_driver E; extent = (ep_width params, ep_height params) in
      vk_then (codec_bind C E sess) (\<lambda>mems.
      vk_then (vk_create D (submit_failed ''create_video_session_parameters: '') KVideoSessionParameters
         (SessionParamsInfo sess (codec_sets C (ep_width params) (ep_height params)))) (\<lambda>sparams.
      vk_then (codec_fetch C E) (\<lambda>blob.
      vk_then (codec_pool C D extent) (\<lambda>slots.
      vk_then (codec_output C D OUTPUT_BUFFER_BYTES) (\<lambda>(buffer, buffer_memory).
      vk_then (codec_queries C D) (\<lambda>queries.
      vk_then (vk_create D (submit_failed ''create_command_pool: '') KCommandPool (EncodePoolInfo family)) (\<lambda>pool.
      vk_then (vk_call D (submit_failed ''allocate_command_buffers: '')) (\<lambda>_.
      vk_then (vk_create D (submit_failed ''create_fence: '') KFence EncodeFenceInfo) (\<lambda>fence.
      vk_then (codec_dpb_layout C D slots) (\<lambda>_.
      vk_then (codec_rate_control C D sess sparams) (\<lambda>_.
      vk_return \<lparr>enc_params = params, encode_queue_family = family, encode_queue = queue, session = sess,
         session_memory = mems, session_params = sparams, parameter_sets_blob = codec_framing C blob, dpb = slots,
         prior_ref_slot = None, out_buffer = buffer, out_buffer_memory = buffer_memory, query_pool = queries,
         encode_cmd_pool = pool, encode_fence = fence, frame_index = 0, force_keyframe = False, input_views = []\<rparr>))))))))))))"

text \<open>The checks before, and the session.\<close>

definition check_params ::
  "('r, 'p, 'q) Codec \<Rightarrow> VulkanContext \<Rightarrow> VulkanError + VideoEncodeCapabilities \<Rightarrow> EncodeParams
   \<Rightarrow> EncodeError + (VideoEncodeCapabilities \<times> nat \<times> (nat \<times> nat))" where
  "check_params C ctx probe params =
     (if ep_codec params \<noteq> codec_id C then invalid ''cannot encode''
      else (case probe of Inl e \<Rightarrow> Inl (EncVulkan e)
      | Inr caps \<Rightarrow> (case validate_against params caps of Inl e \<Rightarrow> Inl e
        | Inr _ \<Rightarrow> (case video_encode_queue_family ctx of None \<Rightarrow> invalid ''context has no encode queue family''
          | Some family \<Rightarrow> (case video_encode_queue ctx of None \<Rightarrow> invalid ''context has no encode queue handle''
            | Some queue \<Rightarrow> Inr (caps, family, queue))))))"

definition open_encoder ::
  "('r, 'p, 'q) Codec \<Rightarrow> EncDriver \<Rightarrow> VulkanContext \<Rightarrow> VulkanError + VideoEncodeCapabilities \<Rightarrow> EncodeParams
   \<Rightarrow> ('r, 'p, 'q, VideoEncodeCapabilities \<times> VideoEncoder) enc" where
  "open_encoder C E ctx probe params =
     vk_then (vk_lift (check_params C ctx probe params)) (\<lambda>(caps, family, queue).
     vk_then (vk_create (ed_driver E) (submit_failed ''create_video_session: '') KVideoSession
        (SessionInfo family (codec_profile C) (ep_width params, ep_height params) DPB_SLOTS 1 (codec_header C))) (\<lambda>sess.
     vk_then (open_rest C E params family queue sess) (\<lambda>e. vk_return (caps, e))))"

section \<open>Encoding a frame\<close>

definition is_keyframe :: "'z VideoEncoder_scheme \<Rightarrow> bool" where
  "is_keyframe e \<longleftrightarrow> frame_index e = 0 \<or> force_keyframe e"

definition setup_slot :: "'z VideoEncoder_scheme \<Rightarrow> nat" where
  "setup_slot e = (case prior_ref_slot e of None \<Rightarrow> 0 | Some prev \<Rightarrow> (prev + 1) mod length (dpb e))"

definition ref_slot :: "'z VideoEncoder_scheme \<Rightarrow> nat option" where
  "ref_slot e = (if is_keyframe e then None else prior_ref_slot e)"

definition coded_extent :: "'z VideoEncoder_scheme \<Rightarrow> u32 \<times> u32" where
  "coded_extent e = (ep_width (enc_params e), ep_height (enc_params e))"

text \<open>A slot info for a picture of the pool; in the begin command the slot to be written has index \<open>- 1\<close>.\<close>

definition slot_info :: "'z VideoEncoder_scheme \<Rightarrow> int \<Rightarrow> nat \<Rightarrow> 'r \<Rightarrow> 'r RefSlot" where
  "slot_info e n slot std = \<lparr>slot_index = n, slot_view = dpb_view (dpb e ! slot), slot_extent = coded_extent e, slot_std = std\<rparr>"

definition begin_commands :: "RcInfo \<Rightarrow> 'r \<Rightarrow> 'r \<Rightarrow> 'z VideoEncoder_scheme \<Rightarrow> ('r, 'p) VideoCmd list" where
  "begin_commands rc setup_std ref_std e =
     [ResetQueryPool (query_pool e),
      BeginVideoCoding (session e) (session_params e)
        (slot_info e (- 1) (setup_slot e) setup_std #
         (case ref_slot e of None \<Rightarrow> [] | Some prev \<Rightarrow> [slot_info e (int prev) prev ref_std]))
        (Some (RC_DISABLED, rc)),
      BeginQuery (query_pool e)]"

definition encode_commands :: "handle \<Rightarrow> 'p \<Rightarrow> 'r \<Rightarrow> 'r \<Rightarrow> 'z VideoEncoder_scheme \<Rightarrow> ('r, 'p) VideoCmd list" where
  "encode_commands view pic setup_std ref_std e =
     [EncodeVideo \<lparr>dst_buffer = out_buffer e, dst_offset = 0, dst_range = OUTPUT_BUFFER_BYTES, src_view = view,
        src_extent = coded_extent e, setup_slot_info = slot_info e (int (setup_slot e)) (setup_slot e) setup_std, picture = pic,
        reference_slots = (case ref_slot e of None \<Rightarrow> [] | Some prev \<Rightarrow> [slot_info e (int prev) prev ref_std])\<rparr>,
      EndQuery (query_pool e), EndVideoCoding]"

definition begin_recording :: "Driver \<Rightarrow> ('r, 'p) VideoCmd list \<Rightarrow> ('r, 'p, 'q, unit) enc" where
  "begin_recording D cmds =
     vk_then (vk_call D (submit_failed ''reset_command_pool: '')) (\<lambda>_.
     vk_then (vk_begin D (submit_failed ''begin_command_buffer: '')) (\<lambda>_. vk_record cmds))"

definition input_view ::
  "Driver \<Rightarrow> handle \<Rightarrow> 'z VideoEncoder_scheme \<Rightarrow> ('r, 'p, 'q, handle \<times> 'z VideoEncoder_scheme) enc" where
  "input_view D img e = (case map_of (input_views e) img of
     Some v \<Rightarrow> vk_return (v, e)
   | None \<Rightarrow> vk_then (create_image_view D img) (\<lambda>v. vk_return (v, e\<lparr>input_views := (img, v) # input_views e\<rparr>)))"

definition vk_feedback :: "EncDriver \<Rightarrow> (VkResult \<Rightarrow> EncodeError) \<Rightarrow> ('r, 'p, 'q, u32 \<times> u32) enc" where
  "vk_feedback E err s = vk_then (vk_call (ed_driver E) err) (\<lambda>_ t. (Inr (ed_feedback E (vk_calls s)), t)) s"

text \<open>Submitting, waiting, and reading as many bytes as the feedback reports, from the start of the buffer.\<close>

definition submit_and_read :: "EncDriver \<Rightarrow> handle \<Rightarrow> ('r, 'p) VideoCmd list \<Rightarrow> ('r, 'p, 'q, bytes) enc" where
  "submit_and_read E memory cmds =
     (let D = ed_driver E in
      vk_then (vk_record cmds) (\<lambda>_.
      vk_then (vk_call D (submit_failed ''end_command_buffer: '')) (\<lambda>_.
      vk_then (vk_call D (submit_failed ''reset_fences: '')) (\<lambda>_.
      vk_then (vk_submit D (submit_failed ''queue_submit: '')) (\<lambda>_.
      vk_then (vk_call D (submit_failed ''wait_for_fences: '')) (\<lambda>_.
      vk_then (vk_feedback E (readback_failed ''get_query_pool_results: '')) (\<lambda>(_, bytes_written).
      vk_read D (readback_failed ''map_memory(out_buffer): '') memory
        (unat (min (ucast bytes_written) OUTPUT_BUFFER_BYTES)))))))))"

text \<open>The frame of a codec: the commands recorded before and after the view of the input is known, how the bytes are
  framed and how the encoder's own fields advance. Whatever fails, the encoder keeps the views it has cached and has
  forgotten the request for a keyframe.\<close>

record ('r, 'p, 'z) FramePlan =
  plan_begin :: "('r, 'p) VideoCmd list"
  plan_encode :: "handle \<Rightarrow> ('r, 'p) VideoCmd list"
  plan_framing :: "bytes \<Rightarrow> bytes"
  plan_advance :: "'z \<Rightarrow> 'z"

definition encode_planned ::
  "('r, 'p, 'z VideoEncoder_scheme) FramePlan \<Rightarrow> EncDriver \<Rightarrow> InputFrame \<Rightarrow> 'z VideoEncoder_scheme \<Rightarrow> ('r, 'p, 'q) enc_state
   \<Rightarrow> (EncodeError + bytes) \<times> 'z VideoEncoder_scheme \<times> ('r, 'p, 'q) enc_state" where
  "encode_planned plan E frame e s =
     (let D = ed_driver E; e1 = e\<lparr>force_keyframe := False\<rparr> in
      case begin_recording D (plan_begin plan) s of
        (Inl x, s1) \<Rightarrow> (Inl x, e1, s1)
      | (Inr _, s1) \<Rightarrow> (case input_view D (if_image frame) e1 s1 of
          (Inl x, s2) \<Rightarrow> (Inl x, e1, s2)
        | (Inr (view, e2), s2) \<Rightarrow>
            (case submit_and_read E (out_buffer_memory e) (plan_encode plan view) s2 of
               (Inl x, s3) \<Rightarrow> (Inl x, e2, s3)
             | (Inr data, s3) \<Rightarrow> (Inr data, e2, s3))))"

definition encode_with_plan ::
  "('r, 'p, 'z VideoEncoder_scheme) FramePlan \<Rightarrow> EncDriver \<Rightarrow> InputFrame \<Rightarrow> 'z VideoEncoder_scheme \<Rightarrow> ('r, 'p, 'q) enc_state
   \<Rightarrow> (EncodeError + EncodedFrame) \<times> 'z VideoEncoder_scheme \<times> ('r, 'p, 'q) enc_state" where
  "encode_with_plan plan E frame e s =
     (if (if_width frame, if_height frame) \<noteq> coded_extent e then (invalid ''InputFrame != session'', e, s)
      else (case encode_planned plan E frame e s of
        (Inl x, e', s') \<Rightarrow> (Inl x, e', s')
      | (Inr data, e', s') \<Rightarrow>
          (Inr \<lparr>ef_data = plan_framing plan data, ef_kind = (if is_keyframe e then Idr else PFrame), ef_pts_90khz = if_pts_90khz frame,
             ef_parameter_sets = (if is_keyframe e then Some (parameter_sets_blob e) else None)\<rparr>,
           plan_advance plan (e'\<lparr>frame_index := frame_index e + 1, prior_ref_slot := Some (setup_slot e)\<rparr>), s')))"

definition request_keyframe :: "'z VideoEncoder_scheme \<Rightarrow> 'z VideoEncoder_scheme" where
  "request_keyframe e = e\<lparr>force_keyframe := True\<rparr>"

definition params_qp :: "'z VideoEncoder_scheme \<Rightarrow> int" where
  "params_qp e = (case rate_control (enc_params e) of ConstantQp qp \<Rightarrow> sint qp | _ \<Rightarrow> 26)"

text \<open>Dropping an encoder, in the order of the source.\<close>

definition slot_objects :: "DpbSlot \<Rightarrow> (obj_kind \<times> handle) list" where
  "slot_objects slot = [(KImageView, dpb_view slot), (KImage, dpb_image slot), (KMemory, dpb_memory slot)]"

definition owned_objects :: "'z VideoEncoder_scheme \<Rightarrow> (obj_kind \<times> handle) list" where
  "owned_objects e = map (\<lambda>(_, v). (KImageView, v)) (input_views e) @
     [(KFence, encode_fence e), (KCommandPool, encode_cmd_pool e), (KQueryPool, query_pool e),
      (KBuffer, out_buffer e), (KMemory, out_buffer_memory e)] @
     concat (map slot_objects (dpb e)) @
     [(KVideoSessionParameters, session_params e), (KVideoSession, session e)] @ map (\<lambda>m. (KMemory, m)) (session_memory e)"

definition drop_encoder :: "'z VideoEncoder_scheme \<Rightarrow> ('r, 'p, 'q, unit list) enc" where
  "drop_encoder e = destroy_all (owned_objects e)"

end
