(* ===== verification/EncSession.thy ===== *)
theory EncSession
  imports Encode
begin

text \<open>
  What every video encoder promises, whatever its codec. \<open>video_encoder\<close> is the interface of the trait \<^verbatim>\<open>Encoder\<close>: its
  laws say what construction and encoding do to the encoder's bookkeeping, to the device's objects and to the slots of
  the picture pool. The lemmas on whole sessions, proved once from the laws, are about kinds of frames, references and
  objects; the backends interpret the locale.
\<close>

section \<open>Objects\<close>

definition enc_objects :: "'z VideoEncoder_scheme \<Rightarrow> (obj_kind \<times> handle) multiset" where
  "enc_objects e = mset (owned_objects e)"

lemma allocate_owns:
  "S \<subseteq># P \<Longrightarrow> owns P (allocate_memory D req wanted missing text) (\<lambda>h. add_mset (KMemory, h) P) (\<lambda>L. S \<subseteq># L)"
  unfolding allocate_memory_def
  by (cases "find_memory_type D (req_bits req) wanted") (auto intro: owns_fail owns_kept [OF owns_create])

lemma bind_owns:
  assumes "S \<subseteq># P"
  shows "owns P (bind_session_memory E sess) (\<lambda>ms. mset (map (\<lambda>m. (KMemory, m)) ms) + P) (\<lambda>L. S \<subseteq># L)"
proof -
  let ?f = "\<lambda>(req, _ :: u32). allocate_memory (ed_driver E) req {DEVICE_LOCAL} ''no device-local mem for session''
    ''session allocate_memory: ''"
  have q: "concat (map (\<lambda>m. [(KMemory, m)]) ms) = map (\<lambda>m. (KMemory, m)) ms" for ms :: "handle list"
    by (induction ms) simp_all
  have f: "owns P (?f x) (\<lambda>a. mset [(KMemory, a)] + P) (\<lambda>L. P \<subseteq># L)" for x :: "MemReq \<times> u32" and P
    using allocate_owns [of P P] by (cases x) simp
  have "owns P (vk_each ?f (ed_session_reqs E)) (\<lambda>ms. mset (map (\<lambda>m. (KMemory, m)) ms) + P) (\<lambda>L. S \<subseteq># L)"
    using owns_each_kept [where q = "\<lambda>m. [(KMemory, m)]", OF assms f] by (simp only: q)
  then show ?thesis unfolding bind_session_memory_def Let_def using assms
    by (intro first_steps owns_then [where Q = "\<lambda>ms. mset (map (\<lambda>m. (KMemory, m)) ms) + P"] subset_add)
      (auto simp: vk_return_def intro: ownsI)
qed

lemma one_shot_owns: "S \<subseteq># P \<Longrightarrow> owns P (one_shot D texts cmds) (\<lambda>_. P) (\<lambda>L. S \<subseteq># L)"
  unfolding one_shot_def by (intro first_steps owns_destroy subset_steps)

lemma dpb_slot_owns: "owns P (create_dpb_slot D profile extent) (\<lambda>slot. mset (slot_objects slot) + P) (\<lambda>L. P \<subseteq># L)"
  unfolding create_dpb_slot_def create_image_view_def
  by (intro first_steps subset_steps owns_then [OF allocate_owns]) (auto simp: slot_objects_def vk_return_def intro: ownsI)

lemma pool_owns:
  "S \<subseteq># P \<Longrightarrow> owns P (create_dpb_pool D profile extent) (\<lambda>slots. mset (concat (map slot_objects slots)) + P) (\<lambda>L. S \<subseteq># L)"
  unfolding create_dpb_pool_def by (rule owns_each_kept [OF _ dpb_slot_owns])

lemma out_buffer_owns:
  "S \<subseteq># P \<Longrightarrow> owns P (create_output_buffer D profile n) (\<lambda>(b, m). {#(KBuffer, b), (KMemory, m)#} + P) (\<lambda>L. S \<subseteq># L)"
  unfolding create_output_buffer_def
  by (intro first_steps subset_steps owns_then [OF allocate_owns]) (auto simp: vk_return_def intro: ownsI)

lemma fetch_owns: "S \<subseteq># P \<Longrightarrow> owns P (fetch_parameter_sets_blob E) (\<lambda>_. P) (\<lambda>L. S \<subseteq># L)"
  unfolding fetch_parameter_sets_blob_def Let_def by (intro first_steps owns_keep)

lemma dpb_transition_owns: "S \<subseteq># P \<Longrightarrow> owns P (transition_dpb_to_initial_layout D slots) (\<lambda>_. P) (\<lambda>L. S \<subseteq># L)"
  unfolding transition_dpb_to_initial_layout_def by (rule one_shot_owns)

lemma rc_owns: "S \<subseteq># P \<Longrightarrow> owns P (initialize_rate_control D rc sess sp) (\<lambda>_. P) (\<lambda>L. S \<subseteq># L)"
  unfolding initialize_rate_control_def by (rule one_shot_owns)

lemma query_owns: "S \<subseteq># P \<Longrightarrow> owns P (create_encode_query_pool D profile) (\<lambda>h. add_mset (KQueryPool, h) P) (\<lambda>L. S \<subseteq># L)"
  unfolding create_encode_query_pool_def by (rule owns_kept [OF owns_create])

lemma dpb_pool_two: "create_dpb_pool D profile extent s = (Inr slots, s') \<Longrightarrow> length slots = 2"
  by (auto simp: create_dpb_pool_def DPB_SLOTS_def upt_rec vk_ok)

text \<open>The common steps meet what the construction needs of a codec's.\<close>

lemma extend_objects: "enc_objects (VideoEncoder.extend e extra) = enc_objects e"
  by (simp add: VideoEncoder.defs enc_objects_def owned_objects_def)

locale codec_steps =
  fixes C :: "('r, 'p, 'q) Codec"
  assumes bind_step: "S \<subseteq># P \<Longrightarrow>
      owns P (codec_bind C E sess) (\<lambda>ms. mset (map (\<lambda>m. (KMemory, m)) ms) + P) (\<lambda>L. S \<subseteq># L)"
    and fetch_step: "S \<subseteq># P \<Longrightarrow> owns P (codec_fetch C E) (\<lambda>_. P) (\<lambda>L. S \<subseteq># L)"
    and pool_step: "S \<subseteq># P \<Longrightarrow>
      owns P (codec_pool C D extent) (\<lambda>slots. mset (concat (map slot_objects slots)) + P) (\<lambda>L. S \<subseteq># L)"
    and pool_two: "codec_pool C D extent s = (Inr slots, s') \<Longrightarrow> length slots = 2"
    and output_step: "S \<subseteq># P \<Longrightarrow> owns P (codec_output C D n) (\<lambda>(b, m). {#(KBuffer, b), (KMemory, m)#} + P) (\<lambda>L. S \<subseteq># L)"
    and queries_step: "S \<subseteq># P \<Longrightarrow> owns P (codec_queries C D) (\<lambda>h. add_mset (KQueryPool, h) P) (\<lambda>L. S \<subseteq># L)"
    and layout_step: "S \<subseteq># P \<Longrightarrow> owns P (codec_dpb_layout C D slots) (\<lambda>_. P) (\<lambda>L. S \<subseteq># L)"
    and rate_control_step: "S \<subseteq># P \<Longrightarrow> owns P (codec_rate_control C D sess sp) (\<lambda>_. P) (\<lambda>L. S \<subseteq># L)"
begin

text \<open>Opening a session: everything that was made is part of the encoder, and a failure leaves at least the session.\<close>

lemma open_rest_owns:
  "owns {#(KVideoSession, sess)#} (open_rest C E params family queue sess) (\<lambda>e :: VideoEncoder. enc_objects e)
     (\<lambda>L. {#(KVideoSession, sess)#} \<subseteq># L)"
  unfolding open_rest_def Let_def
  by (rule owns_then [OF bind_step], rule subset_mset.order_refl, rule first_steps, intro subset_steps,
      rule owns_then [OF fetch_step], intro subset_steps, rule owns_then [OF pool_step], intro subset_steps,
      rule owns_then_pair [OF output_step], intro subset_steps, rule owns_then [OF queries_step], intro subset_steps,
      rule first_steps, intro subset_steps, rule first_steps, intro subset_steps, rule first_steps, intro subset_steps,
      rule owns_then [OF layout_step], intro subset_steps, rule owns_then [OF rate_control_step], intro subset_steps,
      rule owns_return_eq, simp add: enc_objects_def owned_objects_def)

lemma open_encoder_owns:
  "owns {#} (open_encoder C E ctx probe params) (\<lambda>(caps, e :: VideoEncoder). enc_objects e)
     (\<lambda>L. L = {#} \<or> (\<exists>sess. (KVideoSession, sess) \<in># L))"
proof -
  let ?E = "\<lambda>L. L = {#} \<or> (\<exists>sess. (KVideoSession, sess) \<in># L)"
  have rest: "owns {#(KVideoSession, sess)#} (vk_then (open_rest C E params family queue sess) (\<lambda>e. vk_return (caps, e)))
     (\<lambda>(caps, e :: VideoEncoder). enc_objects e) ?E" for sess family queue caps
    by (rule owns_weaken [where E = "\<lambda>L. {#(KVideoSession, sess)#} \<subseteq># L"], rule owns_then [OF open_rest_owns])
      (auto intro: owns_return_eq)
  have made: "owns {#} (case x of (caps, family, queue) \<Rightarrow> vk_then (vk_create (ed_driver E) (submit_failed ''create_video_session: '')
        KVideoSession (SessionInfo family (codec_profile C) (ep_width params, ep_height params) DPB_SLOTS 1 (codec_header C))) (\<lambda>sess.
        vk_then (open_rest C E params family queue sess) (\<lambda>e. vk_return (caps, e))))
     (\<lambda>(caps, e :: VideoEncoder). enc_objects e) ?E" for x
    by (cases x, simp, rule owns_then [OF owns_weaken [OF owns_create, where E' = ?E]]) (simp, rule rest)
  show ?thesis unfolding open_encoder_def
    by (rule owns_then [OF owns_weaken [OF owns_lift, where E' = ?E]]) (simp, rule made)
qed

lemma extended_owns:
  fixes fields :: "VideoEncodeCapabilities \<Rightarrow> 'more"
  shows "owns {#} (vk_then (open_encoder C E ctx probe params) (\<lambda>(caps, e). vk_return (VideoEncoder.extend e (fields caps))))
     enc_objects (\<lambda>L. L = {#} \<or> (\<exists>sess. (KVideoSession, sess) \<in># L))"
  by (rule owns_then_pair [OF open_encoder_owns], rule owns_return_eq) (simp add: extend_objects)

text \<open>Once the session is made, a failure leaves it alive.\<close>

lemma open_encoder_leaks:
  assumes "check_params C ctx probe params = Inr checked" and "drv_result (ed_driver E) (vk_calls s) = None"
    and "open_encoder C E ctx probe params s = (Inl x, s')"
  shows "(KVideoSession, vk_calls s) \<in># vk_live s' - vk_live s"
proof -
  obtain caps family queue where ch: "checked = (caps, family, queue)" by (cases checked)
  define t where "t = s\<lparr>vk_calls := vk_calls s + 1, vk_live := add_mset (KVideoSession, vk_calls s) (vk_live s), vk_infos := vk_infos s @
     [SessionInfo family (codec_profile C) (ep_width params, ep_height params) DPB_SLOTS 1 (codec_header C)]\<rparr>"
  have "open_encoder C E ctx probe params s = vk_then (open_rest C E params family queue (vk_calls s)) (\<lambda>e. vk_return (caps, e)) t"
    using assms(1,2) by (simp add: open_encoder_def ch t_def vk_run)
  then obtain r where r: "open_rest C E params family queue (vk_calls s) t = (Inl r, s')"
    using assms(3) by (auto simp: vk_then_def vk_return_def split: prod.splits sum.splits)
  have "vk_live t = vk_live s + {#(KVideoSession, vk_calls s)#}" by (simp add: t_def)
  from ownsD(2) [OF open_rest_owns this r] show ?thesis by auto
qed

lemma open_encoder_ready:
  assumes "open_encoder C E ctx probe params s = (Inr (caps, e), s')"
  shows "length (dpb e) = 2 \<and> frame_index e = 0 \<and> prior_ref_slot e = None \<and> \<not> force_keyframe e"
  using assms pool_two by (auto simp: open_encoder_def open_rest_def Let_def vk_ok split: prod.splits)

end

text \<open>A frame: whatever happens, exactly the objects of the encoder afterwards are alive.\<close>

lemma begin_recording_owns: "owns P (begin_recording D cmds) (\<lambda>_. P) (\<lambda>L. L = P)"
  unfolding begin_recording_def
  by (rule owns_then [OF owns_call], rule owns_then [OF owns_begin], rule owns_record)

lemma input_view_owns:
  "owns (enc_objects e) (input_view D img e) (\<lambda>(_, e'). enc_objects e') (\<lambda>L. L = enc_objects e)"
proof (cases "map_of (input_views e) img")
  case None
  show ?thesis unfolding input_view_def None option.case create_image_view_def
    by (rule owns_then [OF owns_create], rule owns_return_eq) (simp add: enc_objects_def owned_objects_def)
next
  case (Some v)
  show ?thesis unfolding input_view_def Some option.case by (rule owns_return_eq) simp
qed

lemma submit_and_read_owns: "owns P (submit_and_read E memory cmds) (\<lambda>_. P) (\<lambda>L. L = P)"
proof -
  have fb: "owns P (vk_feedback E err) (\<lambda>(_, _). P) (\<lambda>L. L = P)" for err :: "VkResult \<Rightarrow> EncodeError"
    by (rule ownsI) (simp add: vk_feedback_def vk_then_def vk_call_def split: option.split prod.split)
  show ?thesis unfolding submit_and_read_def Let_def
    by (rule owns_then [OF owns_record], rule owns_then [OF owns_call], rule owns_then [OF owns_call], rule owns_then [OF owns_submit],
        rule owns_then [OF owns_call], rule owns_then_pair [OF fb], rule owns_read)
qed

lemma enc_objects_cong:
  "enc_objects (e\<lparr>force_keyframe := b\<rparr>) = enc_objects e" "enc_objects (e\<lparr>frame_index := n\<rparr>) = enc_objects e"
  "enc_objects (e\<lparr>prior_ref_slot := r\<rparr>) = enc_objects e"
  by (simp_all add: enc_objects_def owned_objects_def)

lemma encode_planned_owns:
  assumes live: "vk_live s = B + enc_objects e" and run: "encode_planned plan E frame e s = (r, e', s')"
  shows "vk_misuse s' = vk_misuse s \<and> vk_live s' = B + enc_objects e'"
proof -
  let ?e1 = "e\<lparr>force_keyframe := False\<rparr>"
  let ?cmds = "plan_begin plan"
  obtain r1 s1 where b: "begin_recording (ed_driver E) ?cmds s = (r1, s1)" by fastforce
  have l1: "vk_misuse s1 = vk_misuse s" "vk_live s1 = B + enc_objects ?e1"
    using ownsD [OF begin_recording_owns live b] by (cases r1, simp_all add: enc_objects_cong)+
  show ?thesis
  proof (cases r1)
    case (Inl x)
    then show ?thesis using run b l1 by (simp add: encode_planned_def)
  next
    case (Inr u)
    obtain r2 s2 where v: "input_view (ed_driver E) (if_image frame) ?e1 s1 = (r2, s2)" by fastforce
    note l2 = ownsD [OF input_view_owns l1(2) v]
    show ?thesis
    proof (cases r2)
      case (Inl x)
      then show ?thesis using run b v Inr l1 l2 by (simp add: encode_planned_def)
    next
      case (Inr ve)
      obtain view e2 where ve: "ve = (view, e2)" by (cases ve)
      let ?ec = "plan_encode plan view"
      obtain r3 s3 where d: "submit_and_read E (out_buffer_memory e) ?ec s2 = (r3, s3)" by fastforce
      have "vk_live s2 = B + enc_objects e2" using l2(2) Inr ve by simp
      from ownsD [OF submit_and_read_owns this d] l1 l2(1)
      have "vk_misuse s3 = vk_misuse s \<and> vk_live s3 = B + enc_objects e2" by (cases r3) simp_all
      moreover have "e' = e2 \<and> s' = s3"
        using run b v d \<open>r1 = Inr u\<close> Inr ve by (cases r3) (simp_all add: encode_planned_def)
      ultimately show ?thesis by simp
    qed
  qed
qed

lemma encode_frame_owns:
  assumes live: "vk_live s = B + enc_objects e" and run: "encode_with_plan plan E frame e s = (r, e', s')"
    and adv: "\<And>x. enc_objects (plan_advance plan x) = enc_objects x"
  shows "vk_misuse s' = vk_misuse s \<and> vk_live s' = B + enc_objects e'"
proof -
  obtain r1 e1 s1 where p: "encode_planned plan E frame e s = (r1, e1, s1)" by (metis prod_cases3)
  show ?thesis using encode_planned_owns [OF live p] run p live
    by (cases r1) (auto simp: encode_with_plan_def adv enc_objects_cong split: if_splits)
qed

section \<open>Batches and slots\<close>

definition slots_written :: "('r, 'p) VideoCmd list \<Rightarrow> int list" where
  "slots_written cmds = concat (map (\<lambda>c. case c of EncodeVideo i \<Rightarrow> [slot_index (setup_slot_info i)] | _ \<Rightarrow> []) cmds)"

definition slots_read :: "('r, 'p) VideoCmd list \<Rightarrow> int list" where
  "slots_read cmds = concat (map (\<lambda>c. case c of EncodeVideo i \<Rightarrow> map slot_index (reference_slots i) | _ \<Rightarrow> []) cmds)"

text \<open>What an attempt to encode \<open>f\<close> does to the encoder and to the queue.\<close>

definition batch_of :: "'z VideoEncoder_scheme \<Rightarrow> ('r, 'p) VideoCmd list \<Rightarrow> bool" where
  "batch_of e b \<longleftrightarrow> slots_written b = [int (setup_slot e)] \<and> slots_read b = (case ref_slot e of None \<Rightarrow> [] | Some p \<Rightarrow> [int p])"

definition frame_delivered ::
  "'z VideoEncoder_scheme \<Rightarrow> ('r, 'p, 'q) enc_state \<Rightarrow> EncodedFrame \<Rightarrow> 'z VideoEncoder_scheme \<Rightarrow> ('r, 'p, 'q) enc_state \<Rightarrow> bool" where
  "frame_delivered e s ef e' s' \<longleftrightarrow> ef_kind ef = (if is_keyframe e then Idr else PFrame) \<and>
     ef_parameter_sets ef = (if is_keyframe e then Some (parameter_sets_blob e) else None) \<and>
     frame_index e' = frame_index e + 1 \<and> prior_ref_slot e' = Some (setup_slot e) \<and> \<not> force_keyframe e' \<and>
     (\<exists>b. vk_submitted s' = vk_submitted s @ [b] \<and> batch_of e b)"

definition frame_failed ::
  "InputFrame \<Rightarrow> 'z VideoEncoder_scheme \<Rightarrow> ('r, 'p, 'q) enc_state \<Rightarrow> 'z VideoEncoder_scheme \<Rightarrow> ('r, 'p, 'q) enc_state \<Rightarrow> bool" where
  "frame_failed f e s e' s' \<longleftrightarrow> frame_index e' = frame_index e \<and> prior_ref_slot e' = prior_ref_slot e \<and>
     force_keyframe e' = (force_keyframe e \<and> (if_width f, if_height f) \<noteq> coded_extent e) \<and>
     (vk_submitted s' = vk_submitted s \<or> (\<exists>b. vk_submitted s' = vk_submitted s @ [b] \<and> batch_of e b))"

definition frame_step ::
  "InputFrame \<Rightarrow> 'z VideoEncoder_scheme \<Rightarrow> ('r, 'p, 'q) enc_state \<Rightarrow> EncodeError + EncodedFrame \<Rightarrow> 'z VideoEncoder_scheme
   \<Rightarrow> ('r, 'p, 'q) enc_state \<Rightarrow> bool" where
  "frame_step f e s r e' s' \<longleftrightarrow> dpb e' = dpb e \<and> enc_params e' = enc_params e \<and> parameter_sets_blob e' = parameter_sets_blob e \<and>
     (case r of Inl _ \<Rightarrow> frame_failed f e s e' s' | Inr ef \<Rightarrow> frame_delivered e s ef e' s')"

lemma batch_commands:
  "batch_of e (begin_commands rc setup_std ref_std e @ encode_commands view pic setup_std ref_std e)"
  by (simp add: batch_of_def slots_written_def slots_read_def begin_commands_def encode_commands_def slot_info_def
      split: option.split)

lemma begin_recording_batch:
  assumes "begin_recording D cmds s = (r, s')"
  shows "vk_submitted s' = vk_submitted s" and "r = Inr u \<Longrightarrow> vk_recorded s' = cmds"
  using assms by (auto simp: begin_recording_def vk_then_def vk_call_def vk_begin_def vk_record_def split: option.splits)

lemma input_view_batch:
  assumes "input_view D img e s = (r, s')"
  shows "vk_submitted s' = vk_submitted s" and "vk_recorded s' = vk_recorded s"
    and "r = Inr (v, e') \<Longrightarrow> \<exists>vs. e' = e\<lparr>input_views := vs\<rparr>"
proof -
  have e: "e = e\<lparr>input_views := input_views e\<rparr>" by simp
  show "vk_submitted s' = vk_submitted s" "vk_recorded s' = vk_recorded s"
    using assms by (auto simp: input_view_def create_image_view_def vk_then_def vk_create_def vk_call_def vk_return_def split: option.splits)
  show "\<exists>vs. e' = e\<lparr>input_views := vs\<rparr>" if "r = Inr (v, e')"
  proof (cases "map_of (input_views e) img")
    case None
    then show ?thesis using assms that by (auto simp: input_view_def create_image_view_def vk_ok)
  next
    case (Some w)
    then have "e' = e" using assms that by (auto simp: input_view_def vk_ok)
    then show ?thesis using e by blast
  qed
qed

lemma submit_and_read_batch:
  assumes "submit_and_read E memory cmds s = (r, s')"
  shows "vk_submitted s' = vk_submitted s \<or> vk_submitted s' = vk_submitted s @ [vk_recorded s @ cmds]"
    and "r = Inr data \<Longrightarrow> vk_submitted s' = vk_submitted s @ [vk_recorded s @ cmds]"
  using assms
  by (auto simp: submit_and_read_def Let_def vk_then_def vk_call_def vk_submit_def vk_record_def vk_feedback_def vk_read_def
      split: option.splits prod.splits)

lemma encode_planned_step:
  assumes "encode_planned plan E frame e s = (r, e', s')"
  defines "submitted \<equiv> \<exists>view. vk_submitted s' = vk_submitted s @ [plan_begin plan @ plan_encode plan view]"
  shows "\<exists>vs. e' = e\<lparr>force_keyframe := False, input_views := vs\<rparr>"
    and "vk_submitted s' = vk_submitted s \<or> submitted"
    and "r = Inr data \<Longrightarrow> submitted"
proof -
  let ?e1 = "e\<lparr>force_keyframe := False\<rparr>"
  have e1: "?e1 = e\<lparr>force_keyframe := False, input_views := input_views e\<rparr>" by simp
  obtain r1 s1 where b: "begin_recording (ed_driver E) (plan_begin plan) s = (r1, s1)" by fastforce
  note b' = begin_recording_batch [OF b]
  obtain r2 s2 where v: "input_view (ed_driver E) (if_image frame) ?e1 s1 = (r2, s2)" by fastforce
  note v' = input_view_batch [OF v]
  have all: "(\<exists>vs. e' = e\<lparr>force_keyframe := False, input_views := vs\<rparr>) \<and>
     (vk_submitted s' = vk_submitted s \<and> (\<forall>data. r \<noteq> Inr data) \<or> submitted)"
  proof (cases r1)
    case (Inl x)
    then have "e' = ?e1" "s' = s1" "r = Inl x" using assms(1) b by (simp_all add: encode_planned_def)
    then show ?thesis using b'(1) e1 by (metis sum.distinct(1))
  next
    case r1: (Inr u)
    show ?thesis
    proof (cases r2)
      case (Inl x)
      then have "e' = ?e1" "s' = s2" "r = Inl x" using assms(1) b v r1 by (simp_all add: encode_planned_def)
      then show ?thesis using b'(1) v'(1) e1 by (metis sum.distinct(1))
    next
      case (Inr ve)
      obtain view e2 where ve: "ve = (view, e2)" by (cases ve)
      obtain r3 s3 where d: "submit_and_read E (out_buffer_memory e) (plan_encode plan view) s2 = (r3, s3)" by fastforce
      note d' = submit_and_read_batch [OF d]
      obtain vs where vs: "e2 = ?e1\<lparr>input_views := vs\<rparr>" using v'(3) Inr ve by blast
      have rec: "vk_recorded s2 = plan_begin plan" using b'(2) [of "()"] v'(2) r1 by simp
      have s2: "vk_submitted s2 = vk_submitted s" using b'(1) v'(1) by simp
      have eq: "e' = e2 \<and> s' = s3 \<and> r = r3" using assms(1) b v d r1 Inr ve by (cases r3) (simp_all add: encode_planned_def)
      have "vk_submitted s' = vk_submitted s \<and> (\<forall>data. r \<noteq> Inr data) \<or> submitted"
        using d'(1) d'(2) unfolding rec s2 submitted_def using eq by (cases r3) (metis sum.distinct(1))+
      then show ?thesis using eq vs by auto
    qed
  qed
  then show "\<exists>vs. e' = e\<lparr>force_keyframe := False, input_views := vs\<rparr>" by blast
  show "vk_submitted s' = vk_submitted s \<or> submitted" using all by blast
  show "submitted" if "r = Inr data" using all that by blast
qed

text \<open>An advance of the codec's own fields leaves the common ones.\<close>

definition keeps_base :: "('z VideoEncoder_scheme \<Rightarrow> 'z VideoEncoder_scheme) \<Rightarrow> bool" where
  "keeps_base adv \<longleftrightarrow> (\<forall>x. VideoEncoder.truncate (adv x) = VideoEncoder.truncate x)"

lemma keeps_baseD:
  assumes "keeps_base adv"
  shows "enc_params (adv x) = enc_params x" "dpb (adv x) = dpb x" "prior_ref_slot (adv x) = prior_ref_slot x"
    "frame_index (adv x) = frame_index x" "force_keyframe (adv x) = force_keyframe x" "parameter_sets_blob (adv x) = parameter_sets_blob x"
    "enc_objects (adv x) = enc_objects x"
  using assms [unfolded keeps_base_def, THEN spec, of x]
  by (simp_all add: VideoEncoder.defs enc_objects_def owned_objects_def)

lemma encode_frame_step:
  assumes adv: "keeps_base (plan_advance plan)" and batch: "\<And>view. batch_of e (plan_begin plan @ plan_encode plan view)"
    and run: "encode_with_plan plan E frame e s = (r, e', s')"
  shows "frame_step frame e s r e' s'"
proof (cases "(if_width frame, if_height frame) = coded_extent e")
  case False
  then show ?thesis using run by (auto simp: encode_with_plan_def invalid_def frame_step_def frame_failed_def)
next
  case True
  obtain r1 e1 s1 where p: "encode_planned plan E frame e s = (r1, e1, s1)" by (metis prod_cases3)
  note st = encode_planned_step [OF p]
  obtain vs where vs: "e1 = e\<lparr>force_keyframe := False, input_views := vs\<rparr>" using st(1) by blast
  show ?thesis
  proof (cases r1)
    case (Inl x)
    then have "r = Inl x" "e' = e1" "s' = s1" using run True p by (simp_all add: encode_with_plan_def)
    then show ?thesis using True vs st(2) batch by (auto simp: frame_step_def frame_failed_def)
  next
    case (Inr data)
    then show ?thesis using run True p vs st(3) batch
      by (auto simp: encode_with_plan_def frame_step_def frame_delivered_def keeps_baseD [OF adv])
  qed
qed

text \<open>The encoder afterwards, its own fields included.\<close>

lemma encode_frame_shape:
  assumes "encode_with_plan plan E frame e s = (r, e', s')"
  shows "r = Inl x \<Longrightarrow> \<exists>b vs. e' = e\<lparr>force_keyframe := b, input_views := vs\<rparr>"
    and "r = Inr ef \<Longrightarrow> \<exists>vs. e' = plan_advance plan (e\<lparr>force_keyframe := False, input_views := vs, frame_index := frame_index e + 1,
       prior_ref_slot := Some (setup_slot e)\<rparr>) \<and>
       (\<exists>data. ef_data ef = plan_framing plan data) \<and> ef_pts_90khz ef = if_pts_90khz frame"
proof -
  have e: "e = e\<lparr>force_keyframe := force_keyframe e, input_views := input_views e\<rparr>" by simp
  obtain r1 e1 s1 where p: "encode_planned plan E frame e s = (r1, e1, s1)" by (metis prod_cases3)
  obtain vs where vs: "e1 = e\<lparr>force_keyframe := False, input_views := vs\<rparr>" using encode_planned_step(1) [OF p] by blast
  show "\<exists>b vs. e' = e\<lparr>force_keyframe := b, input_views := vs\<rparr>" if "r = Inl x"
  proof (cases "(if_width frame, if_height frame) = coded_extent e")
    case False
    then have "e' = e" using assms by (simp add: encode_with_plan_def)
    then show ?thesis using e by metis
  next
    case True
    then have "e' = e1" using assms p that by (cases r1) (simp_all add: encode_with_plan_def)
    then show ?thesis using vs by blast
  qed
  show "\<exists>vs. e' = plan_advance plan (e\<lparr>force_keyframe := False, input_views := vs, frame_index := frame_index e + 1,
       prior_ref_slot := Some (setup_slot e)\<rparr>) \<and>
       (\<exists>data. ef_data ef = plan_framing plan data) \<and> ef_pts_90khz ef = if_pts_90khz frame" if "r = Inr ef"
    using assms p vs that by (cases r1) (auto simp: encode_with_plan_def invalid_def split: if_splits)
qed

text \<open>Every batch of an attempt is the one planned.\<close>

lemma encode_frame_batches:
  assumes "\<And>view. Q (plan_begin plan @ plan_encode plan view)" and "encode_with_plan plan E frame e s = (r, e', s')"
  shows "list_all Q (drop (length (vk_submitted s)) (vk_submitted s'))"
proof (cases "(if_width frame, if_height frame) = coded_extent e")
  case False
  then show ?thesis using assms(2) by (simp add: encode_with_plan_def)
next
  case True
  obtain r1 e1 s1 where p: "encode_planned plan E frame e s = (r1, e1, s1)" by (metis prod_cases3)
  have "s' = s1" using assms(2) True p by (cases r1) (simp_all add: encode_with_plan_def)
  then show ?thesis using encode_planned_step(2) [OF p] assms(1) by auto
qed

section \<open>Sessions\<close>

datatype enc_op = OpRequest | OpEncode InputFrame

type_synonym ('r, 'p) enc_log = "((EncodeError + EncodedFrame) \<times> ('r, 'p) VideoCmd list list) list"

text \<open>Each attempt is logged with its result and the batches that it submitted.\<close>

primrec enc_session ::
  "(InputFrame \<Rightarrow> 'e \<Rightarrow> ('r, 'p, 'q) enc_state \<Rightarrow> (EncodeError + EncodedFrame) \<times> 'e \<times> ('r, 'p, 'q) enc_state) \<Rightarrow> ('e \<Rightarrow> 'e)
   \<Rightarrow> enc_op list \<Rightarrow> 'e \<Rightarrow> ('r, 'p, 'q) enc_state \<Rightarrow> ('r, 'p) enc_log \<times> 'e \<times> ('r, 'p, 'q) enc_state" where
  "enc_session encode request [] e s = ([], e, s)"
| "enc_session encode request (op # ops) e s = (case op of
     OpRequest \<Rightarrow> enc_session encode request ops (request e) s
   | OpEncode f \<Rightarrow> (case encode f e s of (r, e', s') \<Rightarrow>
       (case enc_session encode request ops e' s' of (log, e'', s'') \<Rightarrow>
         ((r, drop (length (vk_submitted s)) (vk_submitted s')) # log, e'', s''))))"

text \<open>The pictures delivered, and what the decoder can do with them: the first one is a keyframe, and a keyframe carries the
  parameter sets.\<close>

definition enc_delivered :: "('r, 'p) enc_log \<Rightarrow> EncodedFrame list" where
  "enc_delivered log = concat (map (\<lambda>(r, _). case r of Inl _ \<Rightarrow> [] | Inr ef \<Rightarrow> [ef]) log)"

definition decodable :: "EncodedFrame list \<Rightarrow> bool" where
  "decodable efs \<longleftrightarrow> (case efs of [] \<Rightarrow> True | ef # _ \<Rightarrow> ef_kind ef = Idr) \<and>
     list_all (\<lambda>ef. ef_kind ef \<in> {Idr, PFrame} \<and> (ef_kind ef = Idr \<longleftrightarrow> ef_parameter_sets ef \<noteq> None)) efs"

text \<open>The slots hold what the attempts wrote, delivered or not. \<open>references_sound n held prev log\<close>: from attempt \<open>n\<close> on, where
  \<open>held\<close> is the attempt that each slot holds and \<open>prev\<close> the last one delivered, every batch reads only slots that hold the
  picture last delivered, and writes none of those that it reads.\<close>

definition held_after :: "nat \<Rightarrow> ('r, 'p) VideoCmd list list \<Rightarrow> (int \<Rightarrow> nat option) \<Rightarrow> int \<Rightarrow> nat option" where
  "held_after n batches held slot = (if slot \<in> set (concat (map slots_written batches)) then Some n else held slot)"

primrec references_sound :: "nat \<Rightarrow> (int \<Rightarrow> nat option) \<Rightarrow> nat option \<Rightarrow> ('r, 'p) enc_log \<Rightarrow> bool" where
  "references_sound n held prev [] \<longleftrightarrow> True"
| "references_sound n held prev (entry # log) \<longleftrightarrow>
     list_all (\<lambda>b. list_all (\<lambda>slot. prev \<noteq> None \<and> held slot = prev \<and> slot \<notin> set (slots_written b)) (slots_read b)) (snd entry) \<and>
     references_sound (Suc n) (held_after n (snd entry) held) (if isl (fst entry) then prev else Some n) log"

text \<open>An encoder as it is between frames: a pool of two slots, and no frame before the first.\<close>

definition enc_ready :: "'z VideoEncoder_scheme \<Rightarrow> bool" where
  "enc_ready e \<longleftrightarrow> length (dpb e) = 2 \<and> (case prior_ref_slot e of None \<Rightarrow> frame_index e = 0 | Some p \<Rightarrow> p < 2)"

lemma step_ready:
  assumes "enc_ready e" and "frame_step f e s r e' s'"
  shows "enc_ready e'"
  using assms by (auto simp: enc_ready_def frame_step_def frame_failed_def frame_delivered_def setup_slot_def
      split: sum.splits option.splits)

lemma setup_slot_apart: "enc_ready e \<Longrightarrow> prior_ref_slot e = Some p \<Longrightarrow> setup_slot e \<noteq> p"
  by (auto simp: enc_ready_def setup_slot_def mod_Suc split: if_splits)

lemma first_is_keyframe: "enc_ready e \<Longrightarrow> prior_ref_slot e = None \<Longrightarrow> is_keyframe e"
  by (simp add: enc_ready_def is_keyframe_def)

text \<open>What an attempt submits, and the slots afterwards.\<close>

lemma step_batches:
  assumes "frame_step f e s r e' s'"
  shows "list_all (batch_of e) (drop (length (vk_submitted s)) (vk_submitted s'))"
    and "\<not> isl r \<Longrightarrow> prior_ref_slot e' = Some (setup_slot e) \<and> drop (length (vk_submitted s)) (vk_submitted s') \<noteq> []"
    and "isl r \<Longrightarrow> prior_ref_slot e' = prior_ref_slot e"
  using assms by (auto simp: frame_step_def frame_failed_def frame_delivered_def split: sum.splits)

definition holds_last :: "'z VideoEncoder_scheme \<Rightarrow> (int \<Rightarrow> nat option) \<Rightarrow> nat option \<Rightarrow> bool" where
  "holds_last e held prev \<longleftrightarrow> (case prior_ref_slot e of None \<Rightarrow> True | Some p \<Rightarrow> prev \<noteq> None \<and> held (int p) = prev)"

lemma held_after_batches:
  assumes "list_all (batch_of e) bs"
  shows "held_after n bs held slot = (if bs \<noteq> [] \<and> slot = int (setup_slot e) then Some n else held slot)"
proof -
  have "set (concat (map slots_written bs)) = (if bs = [] then {} else {int (setup_slot e)})"
    using assms by (induction bs) (auto simp: batch_of_def)
  then show ?thesis by (simp add: held_after_def)
qed

lemma step_references:
  assumes ready: "enc_ready e" and st: "frame_step f e s r e' s'" and held: "holds_last e held prev"
  defines "bs \<equiv> drop (length (vk_submitted s)) (vk_submitted s')"
  shows "list_all (\<lambda>b. list_all (\<lambda>slot. prev \<noteq> None \<and> held slot = prev \<and> slot \<notin> set (slots_written b)) (slots_read b)) bs"
    and "holds_last e' (held_after n bs held) (if isl r then prev else Some n)"
proof -
  note b = step_batches [OF st, folded bs_def]
  have "prev \<noteq> None \<and> held slot = prev \<and> slot \<notin> set (slots_written c)" if c: "batch_of e c" "slot \<in> set (slots_read c)" for c slot
  proof -
    obtain p where "prior_ref_slot e = Some p" "slot = int p"
      using c by (cases "ref_slot e") (auto simp: batch_of_def ref_slot_def split: if_splits)
    then show ?thesis using held setup_slot_apart [OF ready] c(1) by (auto simp: holds_last_def batch_of_def)
  qed
  then show "list_all (\<lambda>b. list_all (\<lambda>slot. prev \<noteq> None \<and> held slot = prev \<and> slot \<notin> set (slots_written b)) (slots_read b)) bs"
    using b(1) by (auto simp: list_all_iff)
  show "holds_last e' (held_after n bs held) (if isl r then prev else Some n)"
    using held b setup_slot_apart [OF ready] by (cases r) (auto simp: holds_last_def held_after_batches split: option.split)
qed

locale video_encoder =
  fixes enc_new :: "('r, 'p, 'q, 'z VideoEncoder_scheme) enc"
    and enc_encode :: "InputFrame \<Rightarrow> 'z VideoEncoder_scheme \<Rightarrow> ('r, 'p, 'q) enc_state
      \<Rightarrow> (EncodeError + EncodedFrame) \<times> 'z VideoEncoder_scheme \<times> ('r, 'p, 'q) enc_state"
    and enc_request :: "'z VideoEncoder_scheme \<Rightarrow> 'z VideoEncoder_scheme"
    and enc_drop :: "'z VideoEncoder_scheme \<Rightarrow> ('r, 'p, 'q, unit list) enc"
  assumes new_owns: "owns {#} enc_new enc_objects (\<lambda>_. True)"
    and new_ready: "enc_new s = (Inr e, s') \<Longrightarrow> enc_ready e \<and> prior_ref_slot e = None \<and> \<not> force_keyframe e"
    and request_sets: "enc_request e = e\<lparr>force_keyframe := True\<rparr>"
    and encode_owns: "vk_live s = B + enc_objects e \<Longrightarrow> enc_encode f e s = (r, e', s')
      \<Longrightarrow> vk_misuse s' = vk_misuse s \<and> vk_live s' = B + enc_objects e'"
    and encode_step: "enc_encode f e s = (r, e', s') \<Longrightarrow> frame_step f e s r e' s'"
    and drop_owns: "owns (enc_objects e) (enc_drop e) (\<lambda>_. {#}) (\<lambda>_. False)"
begin

abbreviation "go \<equiv> enc_session enc_encode enc_request"

lemma request_objects: "enc_objects (enc_request e) = enc_objects e"
  by (simp add: request_sets enc_objects_cong)

lemma session_owns:
  assumes "vk_live s = B + enc_objects e" and "go ops e s = (log, e', s')"
  shows "vk_misuse s' = vk_misuse s \<and> vk_live s' = B + enc_objects e'"
  using assms
proof (induction ops arbitrary: e s log)
  case (Cons op ops)
  show ?case
  proof (cases op)
    case OpRequest
    then show ?thesis using Cons.IH [of s "enc_request e"] Cons.prems by (simp add: request_objects)
  next
    case (OpEncode f)
    obtain r e1 s1 where en: "enc_encode f e s = (r, e1, s1)" by (metis prod_cases3)
    obtain log1 where g: "go ops e1 s1 = (log1, e', s')"
      using Cons.prems(2) OpEncode en by (auto split: prod.splits)
    show ?thesis using encode_owns [OF Cons.prems(1) en] Cons.IH [OF _ g] by simp
  qed
qed simp

theorem balanced:
  assumes new: "enc_new s = (Inr e, s1)" and run: "go ops e s1 = (log, e', s2)" and close: "enc_drop e' s2 = (r, s3)"
  shows "vk_live s3 = vk_live s \<and> vk_misuse s3 = vk_misuse s"
proof -
  have n: "vk_misuse s1 = vk_misuse s" "vk_live s1 = vk_live s + enc_objects e"
    using owns_apply [OF new_owns, of s] new by simp_all
  have m: "vk_misuse s2 = vk_misuse s1" "vk_live s2 = vk_live s + enc_objects e'"
    using session_owns [OF n(2) run] by simp_all
  show ?thesis using ownsD [OF drop_owns m(2) close] n m by (cases r) simp_all
qed

lemma request_ready:
  "enc_ready (enc_request e) = enc_ready e" "holds_last (enc_request e) held prev = holds_last e held prev"
  "prior_ref_slot (enc_request e) = prior_ref_slot e"
  by (simp_all add: request_sets enc_ready_def holds_last_def split: option.split)

theorem session_references:
  assumes "enc_ready e" and "holds_last e held prev" and "go ops e s = (log, e', s')"
  shows "references_sound n held prev log"
  using assms
proof (induction ops arbitrary: e s log n held prev)
  case (Cons op ops)
  show ?case
  proof (cases op)
    case OpRequest
    then show ?thesis using Cons.IH [of "enc_request e"] Cons.prems by (simp add: request_ready)
  next
    case (OpEncode f)
    obtain r e1 s1 where en: "enc_encode f e s = (r, e1, s1)" by (metis prod_cases3)
    obtain log1 where g: "go ops e1 s1 = (log1, e', s')"
      and log: "log = (r, drop (length (vk_submitted s)) (vk_submitted s1)) # log1"
      using Cons.prems(3) OpEncode en by (auto split: prod.splits)
    note st = encode_step [OF en]
    show ?thesis
      using step_references [OF Cons.prems(1) st Cons.prems(2)] Cons.IH [OF step_ready [OF Cons.prems(1) st] _ g]
      by (simp add: log)
  qed
qed simp

lemma session_kinds:
  assumes "enc_ready e" and "go ops e s = (log, e', s')"
  shows "list_all (\<lambda>ef. ef_kind ef \<in> {Idr, PFrame} \<and> (ef_kind ef = Idr \<longleftrightarrow> ef_parameter_sets ef \<noteq> None)) (enc_delivered log) \<and>
     (prior_ref_slot e = None \<longrightarrow> decodable (enc_delivered log))"
  using assms
proof (induction ops arbitrary: e s log)
  case Nil
  then show ?case by (simp add: enc_delivered_def decodable_def)
next
  case (Cons op ops)
  show ?case
  proof (cases op)
    case OpRequest
    then show ?thesis using Cons.IH [of "enc_request e"] Cons.prems by (simp add: request_ready)
  next
    case (OpEncode f)
    obtain r e1 s1 where en: "enc_encode f e s = (r, e1, s1)" by (metis prod_cases3)
    obtain log1 where g: "go ops e1 s1 = (log1, e', s')"
      and log: "log = (r, drop (length (vk_submitted s)) (vk_submitted s1)) # log1"
      using Cons.prems(2) OpEncode en by (auto split: prod.splits)
    note st = encode_step [OF en]
    note ih = Cons.IH [OF step_ready [OF Cons.prems(1) st] g]
    show ?thesis
    proof (cases r)
      case (Inl x)
      have "prior_ref_slot e1 = prior_ref_slot e" using step_batches(3) [OF st] Inl by simp
      then show ?thesis using ih by (simp add: log Inl enc_delivered_def)
    next
      case (Inr ef)
      have "enc_delivered log = ef # enc_delivered log1" by (simp add: log Inr enc_delivered_def)
      then show ?thesis using ih st first_is_keyframe [OF Cons.prems(1)] Inr
        by (auto simp: decodable_def frame_step_def frame_delivered_def)
    qed
  qed
qed

theorem session_decodable:
  assumes "enc_new s = (Inr e, s1)" and "go ops e s1 = (log, e', s2)"
  shows "decodable (enc_delivered log) \<and> references_sound 0 (\<lambda>_. None) None log"
  using new_ready [OF assms(1)] session_kinds [OF _ assms(2)] session_references [OF _ _ assms(2)]
  by (simp add: holds_last_def)

theorem request_honoured:
  assumes "enc_encode f (enc_request e) s = (Inr ef, e', s')"
  shows "ef_kind ef = Idr"
  using encode_step [OF assms] by (simp add: frame_step_def frame_delivered_def request_sets is_keyframe_def)

text \<open>A request is dropped with the frame that fails.\<close>

theorem request_lost:
  assumes "frame_index e \<noteq> 0" and "(if_width f, if_height f) = coded_extent e"
    and "enc_encode f (enc_request e) s = (Inl x, e', s')" and "enc_encode f' e' s' = (Inr ef, e'', s'')"
  shows "ef_kind ef = PFrame"
  using assms(1,2) encode_step [OF assms(3)] encode_step [OF assms(4)]
  by (auto simp: frame_step_def frame_failed_def frame_delivered_def request_sets is_keyframe_def coded_extent_def)

end

section \<open>Labels\<close>

text \<open>A picture is recorded in its slot under a label, which the pictures that reference it repeat. \<open>labels_sound\<close>: the label
  that a batch gives for its reference is the one that the last delivered picture was recorded under.\<close>

definition labels_written :: "('r \<Rightarrow> 'l) \<Rightarrow> ('r, 'p) VideoCmd list \<Rightarrow> 'l list" where
  "labels_written label cmds =
     concat (map (\<lambda>c. case c of EncodeVideo i \<Rightarrow> [label (slot_std (setup_slot_info i))] | _ \<Rightarrow> []) cmds)"

definition labels_read :: "('r \<Rightarrow> 'l) \<Rightarrow> ('r, 'p) VideoCmd list \<Rightarrow> 'l list" where
  "labels_read label cmds =
     concat (map (\<lambda>c. case c of EncodeVideo i \<Rightarrow> map (\<lambda>r. label (slot_std r)) (reference_slots i) | _ \<Rightarrow> []) cmds)"

primrec labels_sound :: "('r \<Rightarrow> 'l) \<Rightarrow> 'l option \<Rightarrow> ('r, 'p) enc_log \<Rightarrow> bool" where
  "labels_sound label prev [] \<longleftrightarrow> True"
| "labels_sound label prev (entry # log) \<longleftrightarrow>
     list_all (\<lambda>b. list_all (\<lambda>l. prev = Some l) (labels_read label b)) (snd entry) \<and>
     labels_sound label (if isl (fst entry) then prev
       else (case concat (map (labels_written label) (snd entry)) of [] \<Rightarrow> prev | l # ls \<Rightarrow> Some (last (l # ls)))) log"

definition labelled :: "('r \<Rightarrow> 'l) \<Rightarrow> 'l \<Rightarrow> 'l \<Rightarrow> 'z VideoEncoder_scheme \<Rightarrow> ('r, 'p) VideoCmd list \<Rightarrow> bool" where
  "labelled label written refd e b \<longleftrightarrow> labels_written label b = [written] \<and>
     labels_read label b = (case ref_slot e of None \<Rightarrow> [] | Some _ \<Rightarrow> [refd])"

lemma labelled_commands:
  "labelled label (label setup_std) (label ref_std) e (begin_commands rc setup_std ref_std e @ encode_commands view pic setup_std ref_std e)"
  by (simp add: labelled_def labels_written_def labels_read_def begin_commands_def encode_commands_def slot_info_def split: option.split)

lemma labelled_last:
  assumes "list_all (labelled label w r e) bs" and "bs \<noteq> []"
  shows "(case concat (map (labels_written label) bs) of [] \<Rightarrow> prev | l # ls \<Rightarrow> Some (last (l # ls))) = Some w"
proof -
  have "concat (map (labels_written label) bs) = replicate (length bs) w"
    using assms(1) by (induction bs) (auto simp: labelled_def)
  then show ?thesis using assms(2) by (cases bs) auto
qed

locale labelled_encoder = video_encoder enc_new enc_encode enc_request enc_drop
  for enc_new :: "('r, 'p, 'q, 'z VideoEncoder_scheme) enc"
    and enc_encode :: "InputFrame \<Rightarrow> 'z VideoEncoder_scheme \<Rightarrow> ('r, 'p, 'q) enc_state
      \<Rightarrow> (EncodeError + EncodedFrame) \<times> 'z VideoEncoder_scheme \<times> ('r, 'p, 'q) enc_state"
    and enc_request :: "'z VideoEncoder_scheme \<Rightarrow> 'z VideoEncoder_scheme"
    and enc_drop :: "'z VideoEncoder_scheme \<Rightarrow> ('r, 'p, 'q, unit list) enc" +
  fixes label :: "'r \<Rightarrow> 'l" and setup_label ref_label :: "'z VideoEncoder_scheme \<Rightarrow> 'l" and forcing :: bool
  assumes encode_labels: "enc_encode f e s = (r, e', s') \<Longrightarrow>
      list_all (labelled label (setup_label e) (ref_label e) e) (drop (length (vk_submitted s)) (vk_submitted s'))"
    and label_kept: "enc_encode f e s = (Inl x, e', s') \<Longrightarrow> ref_label e' = ref_label e"
    and label_next: "enc_encode f e s = (Inr ef, e', s') \<Longrightarrow> forcing \<or> \<not> force_keyframe e \<Longrightarrow> ref_label e' = setup_label e"
    and label_request: "ref_label (enc_request e) = ref_label e"
begin

lemma session_labels:
  assumes "enc_ready e" and "prior_ref_slot e = None \<or> prev = Some (ref_label e)"
    and "forcing \<or> \<not> force_keyframe e \<and> OpRequest \<notin> set ops" and "go ops e s = (log, e', s')"
  shows "labels_sound label prev log"
  using assms
proof (induction ops arbitrary: e s log prev)
  case (Cons op ops)
  show ?case
  proof (cases op)
    case OpRequest
    then show ?thesis using Cons.IH [of "enc_request e"] Cons.prems by (simp add: request_ready label_request)
  next
    case (OpEncode f)
    obtain r e1 s1 where en: "enc_encode f e s = (r, e1, s1)" by (metis prod_cases3)
    obtain log1 where g: "go ops e1 s1 = (log1, e', s')"
      and log: "log = (r, drop (length (vk_submitted s)) (vk_submitted s1)) # log1"
      using Cons.prems(4) OpEncode en by (auto split: prod.splits)
    note st = encode_step [OF en]
    let ?bs = "drop (length (vk_submitted s)) (vk_submitted s1)"
    note lab = encode_labels [OF en]
    have reads: "list_all (\<lambda>b. list_all (\<lambda>l. prev = Some l) (labels_read label b)) ?bs"
      using lab Cons.prems(2) by (auto simp: list_all_iff labelled_def ref_slot_def split: option.splits)
    have forced: "forcing \<or> \<not> force_keyframe e1 \<and> OpRequest \<notin> set ops"
      using st Cons.prems(3) by (auto simp: frame_step_def frame_failed_def frame_delivered_def split: sum.splits)
    note ih = Cons.IH [OF step_ready [OF Cons.prems(1) st] _ forced g]
    show ?thesis
    proof (cases r)
      case (Inl x)
      have "prior_ref_slot e1 = None \<or> prev = Some (ref_label e1)"
        using Cons.prems(2) step_batches(3) [OF st] label_kept [of f e s x] en Inl by auto
      then show ?thesis using ih reads by (simp add: log Inl)
    next
      case (Inr ef)
      have "ref_label e1 = setup_label e" using label_next [of f e s ef] en Inr Cons.prems(3) by auto
      then show ?thesis using ih [of "Some (setup_label e)"] reads step_batches(2) [OF st] labelled_last [OF lab]
        by (simp add: log Inr del: last.simps)
    qed
  qed
qed simp

theorem labels_hold:
  assumes "enc_new s = (Inr e, s1)" and "go ops e s1 = (log, e', s2)"
    and "forcing \<or> OpRequest \<notin> set ops"
  shows "labels_sound label None log"
  using new_ready [OF assms(1)] session_labels [OF _ _ _ assms(2)] assms(3) by simp

end

section \<open>Backends\<close>

text \<open>What the interpretations of the backends share: the common steps, an encoder with more fields, and its drop.\<close>

lemmas common_steps = bind_owns fetch_owns pool_owns dpb_pool_two out_buffer_owns query_owns dpb_transition_owns rc_owns

lemma extend_fields:
  "enc_ready (VideoEncoder.extend e extra) = enc_ready e"
  "prior_ref_slot (VideoEncoder.extend e extra) = prior_ref_slot e" "force_keyframe (VideoEncoder.extend e extra) = force_keyframe e"
  by (simp_all add: VideoEncoder.defs enc_ready_def split: option.split)

lemma drop_encoder_owns: "owns (enc_objects e) (drop_encoder e) (\<lambda>_. {#}) E"
  unfolding drop_encoder_def enc_objects_def by (rule owns_destroys_eq) simp

lemma ucast_next: "(ucast (x + 1) :: 32 word) = ucast (x :: 64 word) + 1"
proof -
  have "(word_of_int (take_bit 64 k) :: 32 word) = word_of_int k" for k by transfer simp
  moreover have "uint (x + 1) = take_bit 64 (uint x + 1)"
    by (simp only: uint_word_ariths(1) uint_1 take_bit_eq_mod) simp
  ultimately show ?thesis by (simp only: ucast_eq) simp
qed

end
