(* ===== verification/EncDemo.thy ===== *)
theory EncDemo
  imports EncSession
begin

text \<open>
  A device on which the theorems on encoders can be evaluated: every call succeeds except those with the numbers \<open>bad\<close>,
  and a frame reports three bytes.
\<close>

definition demo_enc :: "nat set \<Rightarrow> EncDriver" where
  "demo_enc bad = \<lparr>ed_driver = demo_driver\<lparr>drv_result := \<lambda>n. if n \<in> bad then Some (- 4) else None\<rparr>,
     ed_session_reqs = [(\<lparr>req_size = 64, req_bits = 1\<rparr>, 0)], ed_parameter_sets = [0, 0, 0, 1], ed_feedback = \<lambda>_. (0, 3)\<rparr>"

definition demo_params :: "VideoCodec \<Rightarrow> EncodeParams" where
  "demo_params codec = \<lparr>ep_codec = codec, ep_width = 1280, ep_height = 720, frame_rate = (60, 1), rate_control = ConstantQp 26,
     intra_refresh_period = None\<rparr>"

definition demo_caps :: "VideoCodec \<Rightarrow> VideoEncodeCapabilities" where
  "demo_caps codec = \<lparr>caps_codec = codec, max_coded_extent = (4096, 4096), min_coded_extent = (128, 128),
     picture_access_granularity = (16, 16), max_dpb_slots = 8, max_active_reference_pictures = 1, rate_control_modes = {RC_DISABLED},
     supports_intra_refresh = False, supports_quantization_map = False\<rparr>"

definition demo_ctx :: VulkanContext where
  "demo_ctx = \<lparr>cx_instance = 0, physical_device = demo_device, cx_device = 1, compute_queue = (0, 0), queue_family = 0,
     command_pool = 2, video_encode_queue = Some (1, 0), video_encode_queue_family = Some 1, vendor_id = 0x1002,
     device_name = ''AMD Radeon 780M'', api_version = 0\<rparr>"

definition demo_frame :: InputFrame where
  "demo_frame = \<lparr>if_image = 7, if_width = 1280, if_height = 720, if_pts_90khz = 1500\<rparr>"

definition common_codec :: "('r, 'p, 'q) Codec \<Rightarrow> bool" where
  "common_codec C \<longleftrightarrow> codec_bind C = bind_session_memory \<and> codec_fetch C = fetch_parameter_sets_blob \<and>
     (\<exists>profile. codec_pool C = (\<lambda>D. create_dpb_pool D profile) \<and> codec_output C = (\<lambda>D. create_output_buffer D profile) \<and>
        codec_queries C = (\<lambda>D. create_encode_query_pool D profile)) \<and>
     codec_dpb_layout C = transition_dpb_to_initial_layout \<and> (\<exists>rc. codec_rate_control C = (\<lambda>D. initialize_rate_control D rc))"

lemma demo_driver_runs:
  "find_memory_type (demo_driver\<lparr>drv_result := r\<rparr>) bits wanted = find_memory_type demo_driver bits wanted"
  "drv_buffer_req demo_driver h = \<lparr>req_size = 64, req_bits = 2\<rparr>" "drv_image_req demo_driver h = \<lparr>req_size = 64, req_bits = 1\<rparr>"
  by (simp_all add: demo_driver_def find_memory_type_def)

lemma demo_opens:
  assumes "common_codec C" and "check_params C ctx probe params = Inr (caps, family, queue)"
  shows "\<exists>e s'. open_encoder C (demo_enc {}) ctx probe params s = (Inr (caps, e), s')"
proof -
  have "\<exists>e s'. open_rest C (demo_enc {}) params family queue sess t = (Inr e, s')" for sess and t :: "('a, 'b, 'c) enc_state"
    using assms(1) unfolding common_codec_def
    by (elim exE conjE) (simp add: Let_def open_rest_def demo_enc_def bind_session_memory_def fetch_parameter_sets_blob_def
        create_dpb_pool_def create_output_buffer_def create_encode_query_pool_def transition_dpb_to_initial_layout_def
        initialize_rate_control_def one_shot_def create_dpb_slot_def create_image_view_def allocate_memory_def demo_driver_runs
        demo_types DPB_SLOTS_def upt_rec vk_run)
  then show ?thesis using assms(2)
    by (auto simp: open_encoder_def vk_ok demo_enc_def)
qed

lemma demo_checks:
  "codec_id C = codec \<Longrightarrow> check_params C demo_ctx (Inr (demo_caps codec)) (demo_params codec) = Inr (demo_caps codec, 1, (1, 0))"
  by (simp add: check_params_def validate_against_def demo_caps_def demo_params_def demo_ctx_def to_vk_mode_def)

lemma demo_encodes:
  assumes dims: "coded_extent e = (if_width f, if_height f)" and bad: "\<forall>n \<in> bad. n < vk_calls s"
  shows "\<exists>ef e' s'. encode_with_plan plan (demo_enc bad) f e s = (Inr ef, e', s')"
proof -
  have ok: "drv_result (ed_driver (demo_enc bad)) n = None" if "vk_calls s \<le> n" for n
    using bad that by (auto simp: demo_enc_def)
  have feedback: "ed_feedback (demo_enc bad) n = (0, 3)" for n by (simp add: demo_enc_def)
  have b: "begin_recording (ed_driver (demo_enc bad)) (plan_begin plan) s =
     (Inr (), s\<lparr>vk_calls := vk_calls s + 2, vk_recorded := plan_begin plan\<rparr>)"
    by (simp add: begin_recording_def vk_run ok)
  obtain v e1 t where v: "input_view (ed_driver (demo_enc bad)) (if_image f) (e\<lparr>force_keyframe := False\<rparr>)
     (s\<lparr>vk_calls := vk_calls s + 2, vk_recorded := plan_begin plan\<rparr>) = (Inr (v, e1), t)" and t: "vk_calls s \<le> vk_calls t"
    by (cases "map_of (input_views e) (if_image f)") (auto simp: input_view_def create_image_view_def vk_run ok)
  obtain data s3 where "submit_and_read (demo_enc bad) (out_buffer_memory e) (plan_encode plan v) t = (Inr data, s3)"
    by (auto simp: submit_and_read_def Let_def vk_feedback_def vk_run ok t le_SucI feedback)
  then show ?thesis using dims b v by (simp add: encode_with_plan_def encode_planned_def)
qed

lemma demo_dims: "(if_width demo_frame, if_height demo_frame) = (1280, 720)"
  by (simp add: demo_frame_def)

text \<open>An encoder that has delivered one frame.\<close>

definition demo_base :: "VideoCodec \<Rightarrow> VideoEncoder" where
  "demo_base codec = \<lparr>enc_params = demo_params codec, encode_queue_family = 1, encode_queue = (1, 0), session = 1, session_memory = [4],
     session_params = 6, parameter_sets_blob = [0, 0, 0, 1], dpb = [\<lparr>dpb_image = 9, dpb_memory = 10, dpb_view = 12\<rparr>,
       \<lparr>dpb_image = 13, dpb_memory = 14, dpb_view = 16\<rparr>], prior_ref_slot = Some 0, out_buffer = 17, out_buffer_memory = 18,
     query_pool = 20, encode_cmd_pool = 21, encode_fence = 23, frame_index = 1, force_keyframe = False, input_views = []\<rparr>"

lemma demo_first_fails:
  "\<exists>x s'. encode_with_plan plan (demo_enc {0}) demo_frame e s = (Inl x, e\<lparr>force_keyframe := False\<rparr>, s') \<and> 0 < vk_calls s'"
  if "vk_calls s = 0" "coded_extent e = (1280, 720)"
  using that by (simp add: encode_with_plan_def encode_planned_def begin_recording_def demo_frame_def vk_run demo_enc_def)

end
