(* ===== verification/H264.thy ===== *)
theory H264
  imports EncDemo
begin

text \<open>
  The H.264 backend, \<^verbatim>\<open>crates/remoteway-encode/src/backends/h264.rs\<close>: its profile, parameter sets and picture infos, and
  the encoder that they make of the common steps. Its pictures are recorded under their \<open>frame_num\<close> and picture order
  count: the labels of a session agree as long as no keyframe is requested.
\<close>

section \<open>Standard structures\<close>

datatype h264_picture_type = H264_IDR | H264_P
datatype h264_slice_type = H264_SliceI | H264_SliceP

record H264Ref =
  h264_ref_type :: h264_picture_type
  FrameNum :: u32
  PicOrderCnt :: int

record H264Picture =
  h264_slice :: h264_slice_type
  h264_deblocking :: bool
  h264_constant_qp :: int
  h264_idr_flag :: bool
  h264_is_reference :: bool
  h264_type :: h264_picture_type
  h264_frame_num :: u32
  h264_poc :: int
  h264_ref_list0 :: "u8 list"

record H264Sps =
  direct_8x8_inference_flag :: bool
  frame_mbs_only_flag :: bool
  h264_frame_cropping_flag :: bool
  h264_sps_profile :: std_profile
  h264_level :: "nat \<times> nat"
  log2_max_frame_num_minus4 :: u8
  h264_poc_type :: nat
  h264_log2_max_poc_lsb_minus4 :: u8
  max_num_ref_frames :: u8
  pic_width_in_mbs_minus1 :: u32
  pic_height_in_map_units_minus1 :: u32

record H264Pps =
  transform_8x8_mode_flag :: bool
  h264_deblocking_filter_control_present_flag :: bool
  entropy_coding_mode_flag :: bool

type_synonym H264Sets = "H264Sps \<times> H264Pps"

type_synonym 'a h264 = "(H264Ref, H264Picture, H264Sets, 'a) enc"
type_synonym h264_state = "(H264Ref, H264Picture, H264Sets) enc_state"

definition h264_profile :: VideoProfile where
  "h264_profile = \<lparr>vp_operation = ENCODE_H264, vp_std = H264_HIGH, vp_chroma_420 = True, vp_luma_bits = 8, vp_chroma_bits = 8\<rparr>"

definition h264_std_header_version :: "string \<times> u32" where
  "h264_std_header_version = (''VK_STD_vulkan_video_codec_h264_encode'', push_bit 22 1)"

text \<open>Division of \<open>u32\<close> and the saturating subtraction of one.\<close>

definition saturating_dec :: "u32 \<Rightarrow> u32" where
  "saturating_dec x = (if x = 0 then 0 else x - 1)"

definition h264_build_sps :: "u32 \<Rightarrow> u32 \<Rightarrow> H264Sps" where
  "h264_build_sps width height =
     \<lparr>direct_8x8_inference_flag = True, frame_mbs_only_flag = True, h264_frame_cropping_flag = False, h264_sps_profile = H264_HIGH,
      h264_level = (4, 1), log2_max_frame_num_minus4 = 0, h264_poc_type = 0, h264_log2_max_poc_lsb_minus4 = 4, max_num_ref_frames = 1,
      pic_width_in_mbs_minus1 = saturating_dec (width div 16), pic_height_in_map_units_minus1 = saturating_dec (height div 16)\<rparr>"

definition h264_build_pps :: H264Pps where
  "h264_build_pps = \<lparr>transform_8x8_mode_flag = True, h264_deblocking_filter_control_present_flag = True,
     entropy_coding_mode_flag = True\<rparr>"

section \<open>Construction\<close>

definition h264_rate_control :: RcInfo where
  "h264_rate_control = \<lparr>rc_regular_gop = True, gop_frame_count = - 1, key_period = - 1, b_frame_count = 0, layer_count = 1\<rparr>"

definition h264_bind_session_memory :: "EncDriver \<Rightarrow> handle \<Rightarrow> handle list h264" where
  "h264_bind_session_memory = bind_session_memory"

definition h264_fetch_parameter_sets_blob :: "EncDriver \<Rightarrow> bytes h264" where
  "h264_fetch_parameter_sets_blob = fetch_parameter_sets_blob"

definition h264_create_dpb_pool :: "Driver \<Rightarrow> u32 \<times> u32 \<Rightarrow> DpbSlot list h264" where
  "h264_create_dpb_pool D extent = create_dpb_pool D h264_profile extent"

definition h264_create_output_buffer :: "Driver \<Rightarrow> u64 \<Rightarrow> (handle \<times> handle) h264" where
  "h264_create_output_buffer D n = create_output_buffer D h264_profile n"

definition h264_create_encode_query_pool :: "Driver \<Rightarrow> handle h264" where
  "h264_create_encode_query_pool D = create_encode_query_pool D h264_profile"

definition h264_initialize_rate_control :: "Driver \<Rightarrow> handle \<Rightarrow> handle \<Rightarrow> unit h264" where
  "h264_initialize_rate_control D sess sparams = initialize_rate_control D h264_rate_control sess sparams"

definition h264_transition_dpb :: "Driver \<Rightarrow> DpbSlot list \<Rightarrow> unit h264" where
  "h264_transition_dpb = transition_dpb_to_initial_layout"

definition h264_codec :: "(H264Ref, H264Picture, H264Sets) Codec" where
  "h264_codec = \<lparr>codec_id = CodecH264, codec_profile = h264_profile, codec_header = h264_std_header_version,
     codec_sets = (\<lambda>width height. (h264_build_sps width height, h264_build_pps)), codec_framing = (\<lambda>blob. blob),
     codec_bind = h264_bind_session_memory, codec_fetch = h264_fetch_parameter_sets_blob, codec_pool = h264_create_dpb_pool,
     codec_output = h264_create_output_buffer, codec_queries = h264_create_encode_query_pool,
     codec_dpb_layout = h264_transition_dpb, codec_rate_control = h264_initialize_rate_control\<rparr>"

record H264Encoder = VideoEncoder +
  h264_caps_max_extent :: "u32 \<times> u32"

definition h264_new ::
  "EncDriver \<Rightarrow> VulkanContext \<Rightarrow> VulkanError + VideoEncodeCapabilities \<Rightarrow> EncodeParams \<Rightarrow> H264Encoder h264" where
  "h264_new E ctx probe params = vk_then (open_encoder h264_codec E ctx probe params) (\<lambda>(caps, e).
     vk_return (VideoEncoder.extend e (H264Encoder.fields (max_coded_extent caps))))"

section \<open>Frames\<close>

definition h264_number :: "'z VideoEncoder_scheme \<Rightarrow> u32" where
  "h264_number e = (if is_keyframe e then 0 else ucast (frame_index e) AND 15)"

definition h264_pic_order_cnt :: "'z VideoEncoder_scheme \<Rightarrow> int" where
  "h264_pic_order_cnt e = sint (ucast (frame_index e) * 2 :: u32)"

definition h264_picture_type_of :: "'z VideoEncoder_scheme \<Rightarrow> h264_picture_type" where
  "h264_picture_type_of e = (if is_keyframe e then H264_IDR else H264_P)"

definition h264_picture_info :: "'z VideoEncoder_scheme \<Rightarrow> H264Picture" where
  "h264_picture_info e =
     \<lparr>h264_slice = (if is_keyframe e then H264_SliceI else H264_SliceP), h264_deblocking = False, h264_constant_qp = params_qp e,
      h264_idr_flag = is_keyframe e, h264_is_reference = True, h264_type = h264_picture_type_of e, h264_frame_num = h264_number e,
      h264_poc = h264_pic_order_cnt e,
      h264_ref_list0 = (case ref_slot e of None \<Rightarrow> replicate 32 0xFF | Some prev \<Rightarrow> of_nat prev # replicate 31 0xFF)\<rparr>"

definition h264_setup_ref :: "'z VideoEncoder_scheme \<Rightarrow> H264Ref" where
  "h264_setup_ref e = \<lparr>h264_ref_type = h264_picture_type_of e, FrameNum = h264_number e, PicOrderCnt = h264_pic_order_cnt e\<rparr>"

definition h264_reference :: "'z VideoEncoder_scheme \<Rightarrow> H264Ref" where
  "h264_reference e = \<lparr>h264_ref_type = H264_P, FrameNum = (ucast (frame_index e) - 1) AND 15,
     PicOrderCnt = sint ((ucast (frame_index e) - 1) * 2 :: u32)\<rparr>"

definition h264_begin_commands :: "'z VideoEncoder_scheme \<Rightarrow> (H264Ref, H264Picture) VideoCmd list" where
  "h264_begin_commands e = begin_commands h264_rate_control (h264_setup_ref e) (h264_reference e) e"

definition h264_encode_commands :: "handle \<Rightarrow> 'z VideoEncoder_scheme \<Rightarrow> (H264Ref, H264Picture) VideoCmd list" where
  "h264_encode_commands view e = encode_commands view (h264_picture_info e) (h264_setup_ref e) (h264_reference e) e"

definition h264_plan :: "'z VideoEncoder_scheme \<Rightarrow> (H264Ref, H264Picture, 'z VideoEncoder_scheme) FramePlan" where
  "h264_plan e = \<lparr>plan_begin = h264_begin_commands e, plan_encode = (\<lambda>view. h264_encode_commands view e),
     plan_framing = (\<lambda>data. data), plan_advance = (\<lambda>x. x)\<rparr>"

definition h264_encode ::
  "EncDriver \<Rightarrow> InputFrame \<Rightarrow> H264Encoder \<Rightarrow> h264_state \<Rightarrow> (EncodeError + EncodedFrame) \<times> H264Encoder \<times> h264_state" where
  "h264_encode E frame e = encode_with_plan (h264_plan e) E frame e"

definition h264_request_keyframe :: "H264Encoder \<Rightarrow> H264Encoder" where
  "h264_request_keyframe = request_keyframe"

definition h264_drop :: "H264Encoder \<Rightarrow> unit list h264" where
  "h264_drop = drop_encoder"

section \<open>The contract\<close>

interpretation h264_steps: codec_steps h264_codec
  by unfold_locales (unfold h264_codec_def Codec.select_convs h264_bind_session_memory_def h264_fetch_parameter_sets_blob_def
      h264_create_dpb_pool_def h264_create_output_buffer_def h264_create_encode_query_pool_def h264_transition_dpb_def
      h264_initialize_rate_control_def, (erule common_steps)+)

lemmas h264_commands = h264_begin_commands_def h264_encode_commands_def

lemma h264_batch: "batch_of e (plan_begin (h264_plan e) @ plan_encode (h264_plan e) view)"
  by (simp add: h264_plan_def h264_commands batch_commands)

definition h264_label :: "H264Ref \<Rightarrow> u32 \<times> int" where
  "h264_label r = (FrameNum r, PicOrderCnt r)"

lemma h264_labelled:
  "labelled h264_label (h264_label (h264_setup_ref e)) (h264_label (h264_reference e)) e
     (plan_begin (h264_plan e) @ plan_encode (h264_plan e) view)"
  by (simp add: h264_plan_def h264_commands labelled_commands)

lemma h264_keeps_base: "keeps_base (plan_advance (h264_plan e))"
  by (simp add: h264_plan_def keeps_base_def)

lemma h264_step: "h264_encode E f e s = (r, e', s') \<Longrightarrow> frame_step f e s r e' s'"
  unfolding h264_encode_def by (rule encode_frame_step [OF h264_keeps_base h264_batch])

lemma h264_next_label:
  assumes "frame_step f e s (Inr ef) e' s'" and "\<not> force_keyframe e"
  shows "h264_label (h264_reference e') = h264_label (h264_setup_ref e)"
  using assms by (auto simp: frame_step_def frame_delivered_def h264_label_def h264_reference_def h264_setup_ref_def h264_number_def
      h264_pic_order_cnt_def is_keyframe_def ucast_next)

interpretation h264: labelled_encoder "h264_new E ctx probe params" "h264_encode E" h264_request_keyframe h264_drop
  h264_label "\<lambda>e. h264_label (h264_setup_ref e)" "\<lambda>e. h264_label (h264_reference e)" False
  for E ctx probe params
proof unfold_locales
  show "owns {#} (h264_new E ctx probe params) enc_objects (\<lambda>_. True)"
    unfolding h264_new_def by (rule owns_weaken [OF h264_steps.extended_owns]) simp
  show "enc_ready e \<and> prior_ref_slot e = None \<and> \<not> force_keyframe e" if new: "h264_new E ctx probe params s = (Inr e, s')" for e s s'
  proof -
    obtain caps b where b: "open_encoder h264_codec E ctx probe params s = (Inr (caps, b), s')"
      and e: "e = VideoEncoder.extend b (H264Encoder.fields (max_coded_extent caps))"
      using new by (auto simp: h264_new_def vk_ok)
    show ?thesis using h264_steps.open_encoder_ready [OF b] by (simp add: e extend_fields) (simp add: enc_ready_def)
  qed
  show "h264_request_keyframe e = e\<lparr>force_keyframe := True\<rparr>" for e by (simp add: h264_request_keyframe_def request_keyframe_def)
  show "vk_misuse s' = vk_misuse s \<and> vk_live s' = B + enc_objects e'"
    if "vk_live s = B + enc_objects e" "h264_encode E f e s = (r, e', s')" for B f e s r e' s'
    using encode_frame_owns [OF that(1) that(2) [unfolded h264_encode_def]] by (simp add: h264_plan_def)
  show "frame_step f e s r e' s'" if "h264_encode E f e s = (r, e', s')" for f e s r e' s'
    using that by (rule h264_step)
  show "owns (enc_objects e) (h264_drop e) (\<lambda>_. {#}) (\<lambda>_. False)" for e
    unfolding h264_drop_def by (rule drop_encoder_owns)
  show "list_all (labelled h264_label (h264_label (h264_setup_ref e)) (h264_label (h264_reference e)) e)
      (drop (length (vk_submitted s)) (vk_submitted s'))" if "h264_encode E f e s = (r, e', s')" for f e s r e' s'
    using that unfolding h264_encode_def
    by (rule encode_frame_batches [where Q = "labelled h264_label (h264_label (h264_setup_ref e)) (h264_label (h264_reference e)) e",
        OF h264_labelled])
  show "h264_label (h264_reference e') = h264_label (h264_reference e)" if "h264_encode E f e s = (Inl x, e', s')" for f e s x e' s'
    using h264_step [OF that] by (simp add: frame_step_def frame_failed_def h264_reference_def)
  show "h264_label (h264_reference e') = h264_label (h264_setup_ref e)"
    if "h264_encode E f e s = (Inr ef, e', s')" "False \<or> \<not> force_keyframe e" for f e s ef e' s'
    using h264_next_label [OF h264_step [OF that(1)]] that(2) by simp
  show "h264_label (h264_reference (h264_request_keyframe e)) = h264_label (h264_reference e)" for e
    by (simp add: h264_request_keyframe_def request_keyframe_def h264_reference_def)
qed

section \<open>Properties\<close>

text \<open>C10. A session of the H.264 encoder, from \<open>new\<close> over any frames and keyframe requests, failures included, to the drop: the
  pictures delivered start with an IDR picture and every IDR picture carries the parameter sets, every reference is to the
  slot that holds the picture last delivered, and while no keyframe is requested the reference is named by the frame number
  and picture order count under which that picture was recorded; at the end every object made is gone and none was
  destroyed twice.\<close>

theorem h264_session:
  assumes "h264_new E ctx probe params s = (Inr e, s1)"
    and "enc_session (h264_encode E) h264_request_keyframe ops e s1 = (log, e', s2)" and "h264_drop e' s2 = (r, s3)"
  shows "decodable (enc_delivered log) \<and> references_sound 0 (\<lambda>_. None) None log \<and>
     (OpRequest \<in> set ops \<or> labels_sound h264_label None log) \<and> vk_live s3 = vk_live s \<and> vk_misuse s3 = vk_misuse s"
  using h264.session_decodable [OF assms(1,2)] h264.labels_hold [OF assms(1,2)] h264.balanced [OF assms] by auto

lemma h264_common: "common_codec h264_codec"
  by (auto simp: common_codec_def h264_codec_def h264_bind_session_memory_def h264_fetch_parameter_sets_blob_def
      h264_create_dpb_pool_def h264_create_output_buffer_def h264_create_encode_query_pool_def h264_transition_dpb_def
      h264_initialize_rate_control_def fun_eq_iff)

lemma h264_demo_new:
  "\<exists>e s'. h264_new (demo_enc {}) demo_ctx (Inr (demo_caps CodecH264)) (demo_params CodecH264) s = (Inr e, s')"
  using demo_opens [OF h264_common demo_checks, of CodecH264 s]
  by (auto simp: h264_new_def vk_ok h264_codec_def)

theorem h264_session_witness:
  "\<exists>e s1 log e' s2 s3. h264_new (demo_enc {}) demo_ctx (Inr (demo_caps CodecH264)) (demo_params CodecH264) Vk_empty = (Inr e, s1) \<and>
     enc_session (h264_encode (demo_enc {})) h264_request_keyframe [OpEncode demo_frame, OpEncode demo_frame] e s1 = (log, e', s2) \<and>
     length log = 2 \<and> labels_sound h264_label None log \<and> vk_live s3 = {#} \<and> snd (h264_drop e' s2) = s3"
proof -
  obtain e s1 where n: "h264_new (demo_enc {}) demo_ctx (Inr (demo_caps CodecH264)) (demo_params CodecH264) Vk_empty = (Inr e, s1)"
    using h264_demo_new by blast
  obtain log e' s2 where g: "enc_session (h264_encode (demo_enc {})) h264_request_keyframe [OpEncode demo_frame, OpEncode demo_frame] e s1
     = (log, e', s2)" by (metis prod_cases3)
  obtain r s3 where d: "h264_drop e' s2 = (r, s3)" by fastforce
  have "length log = 2" using g by (auto split: prod.splits)
  moreover have "vk_live (Vk_empty :: h264_state) = {#}" by (simp add: Vk_empty_def)
  ultimately show ?thesis using h264_session [OF n g d] n g d by auto
qed

lemma low_bits: "uint (x AND 15 :: u32) = uint x mod 16"
proof -
  have "x AND 15 = take_bit 4 x" by (simp add: take_bit_eq_mask mask_eq_exp_minus_1)
  then show ?thesis by (simp only: unsigned_take_bit_eq) (simp add: take_bit_eq_mod)
qed

lemma low_bits_next:
  assumes "(x + 1) AND 15 = (1 :: u32)"
  shows "x AND 15 = 0"
proof -
  have "uint (x + 1) mod 16 = 1" using assms low_bits [of "x + 1"] by simp
  moreover have "uint (x + 1) mod 16 = (uint x + 1) mod 16"
    by (simp only: uint_word_ariths(1) uint_1 take_bit_eq_mod) (simp add: mod_mod_cancel)
  ultimately have "uint x mod 16 = 0" by presburger
  then show ?thesis using low_bits [of x] by (simp add: uint_0_iff)
qed

text \<open>C20. A keyframe on request breaks the numbering: the IDR picture is recorded under frame number 0, but the picture after
  it names its reference with the frame number of the running count, and does not itself get frame number 1.\<close>

theorem h264_forced_idr_misnumbered:
  assumes "h264_encode E f (h264_request_keyframe e) s = (Inr ef, e', s')" and "(ucast (frame_index e) :: u32) AND 15 \<noteq> 0"
    and "frame_index e + 1 \<noteq> 0"
  shows "ef_kind ef = Idr \<and> FrameNum (h264_setup_ref (h264_request_keyframe e)) = 0 \<and>
     FrameNum (h264_reference e') = ucast (frame_index e) AND 15 \<and> h264_number e' \<noteq> 1"
proof -
  show ?thesis using h264_step [OF assms(1)] assms(2,3) low_bits_next
    by (auto simp: frame_step_def frame_delivered_def h264_request_keyframe_def request_keyframe_def is_keyframe_def h264_number_def
        h264_setup_ref_def h264_reference_def ucast_next)
qed

definition h264_demo :: H264Encoder where
  "h264_demo = VideoEncoder.extend (demo_base CodecH264) (H264Encoder.fields (4096, 4096))"

theorem h264_forced_idr_misnumbered_witness:
  "\<exists>ef e' s'. h264_encode (demo_enc {}) demo_frame (h264_request_keyframe h264_demo) Vk_empty = (Inr ef, e', s') \<and>
     ef_kind ef = Idr \<and> FrameNum (h264_reference e') = 1 \<and> h264_number e' \<noteq> 1"
proof -
  have i: "frame_index h264_demo = 1" "coded_extent (h264_request_keyframe h264_demo) = (1280, 720)"
    by (simp_all add: h264_demo_def demo_base_def demo_params_def VideoEncoder.defs coded_extent_def h264_request_keyframe_def
        request_keyframe_def)
  obtain ef e' s' where r: "h264_encode (demo_enc {}) demo_frame (h264_request_keyframe h264_demo) Vk_empty = (Inr ef, e', s')"
    using demo_encodes [where f = demo_frame and e = "h264_request_keyframe h264_demo" and bad = "{}" and s = Vk_empty and
        plan = "h264_plan (h264_request_keyframe h264_demo)"] by (auto simp: i demo_dims h264_encode_def)
  show ?thesis using h264_forced_idr_misnumbered [OF r] r i(1) by simp
qed

text \<open>C33. The sequence parameter set describes whole macroblocks only and no cropping, so of an extent that is not a multiple
  of 16 the last rows and columns are missing.\<close>

definition h264_sps_extent :: "H264Sps \<Rightarrow> nat \<times> nat" where
  "h264_sps_extent sps = (16 * (unat (pic_width_in_mbs_minus1 sps) + 1), 16 * (unat (pic_height_in_map_units_minus1 sps) + 1))"

theorem h264_sps_rounds_down:
  assumes "16 \<le> width" and "16 \<le> height"
  shows "h264_sps_extent (h264_build_sps width height) = (unat width - unat width mod 16, unat height - unat height mod 16) \<and>
     \<not> h264_frame_cropping_flag (h264_build_sps width height)"
proof -
  have "16 * (unat (saturating_dec (w div 16)) + 1) = unat w - unat w mod 16" if "16 \<le> w" for w :: u32
  proof -
    have "unat (w div 16) = unat w div 16" by (simp add: unat_div)
    moreover have "1 \<le> unat w div 16" using that by (simp add: word_le_nat_alt)
    ultimately have "unat (saturating_dec (w div 16)) + 1 = unat w div 16"
      by (auto simp: saturating_dec_def unat_minus_one)
    then show ?thesis by (simp add: minus_mod_eq_mult_div)
  qed
  then show ?thesis using assms by (simp add: h264_sps_extent_def h264_build_sps_def)
qed

theorem h264_sps_rounds_down_witness:
  "h264_sps_extent (h264_build_sps 1920 1080) = (1920, 1072)"
  using h264_sps_rounds_down [of 1920 1080] by simp

end
