(* ===== verification/H265.thy ===== *)
theory H265
  imports EncDemo
begin

text \<open>
  The H.265 backend, \<^verbatim>\<open>crates/remoteway-encode/src/backends/h265.rs\<close>. It is the one the others follow; its pictures
  are recorded under their picture order count alone, which the code counts on through an IDR picture.
\<close>

section \<open>Standard structures\<close>

datatype h265_picture_type = H265_IDR | H265_P
datatype h265_slice_type = H265_SliceI | H265_SliceP

record H265Ref =
  h265_ref_type :: h265_picture_type
  PicOrderCntVal :: int

record H265Picture =
  h265_slice :: h265_slice_type
  collocated_from_l0_flag :: bool
  MaxNumMergeCand :: u8
  h265_constant_qp :: int
  IrapPicFlag :: bool
  short_term_ref_pic_set_sps_flag :: bool
  h265_type :: h265_picture_type
  h265_poc :: int
  h265_ref_list0 :: "u8 list"

record H265Ptl =
  general_progressive_source_flag :: bool
  general_non_packed_constraint_flag :: bool
  general_frame_only_constraint_flag :: bool
  general_profile :: std_profile
  general_level :: "nat \<times> nat"

record H265Vps =
  vps_temporal_id_nesting_flag :: bool
  vps_num_units_in_tick :: u32
  vps_time_scale :: u32
  vps_ptl :: H265Ptl

record H265Sps =
  sps_temporal_id_nesting_flag :: bool
  conformance_window_flag :: bool
  amp_enabled_flag :: bool
  strong_intra_smoothing_enabled_flag :: bool
  pic_width_in_luma_samples :: u32
  pic_height_in_luma_samples :: u32
  h265_log2_max_poc_lsb_minus4 :: u8
  log2_diff_max_min_luma_coding_block_size :: u8
  log2_diff_max_min_luma_transform_block_size :: u8
  used_by_curr_pic_s0_flag :: u16
  num_negative_pics :: u8
  delta_poc_s0_minus1 :: "u16 list"
  sps_ptl :: H265Ptl

record H265Pps =
  cabac_init_present_flag :: bool
  loop_filter_across_tiles_enabled_flag :: bool
  pps_loop_filter_across_slices_enabled_flag :: bool
  h265_deblocking_filter_control_present_flag :: bool

type_synonym H265Sets = "H265Vps \<times> H265Sps \<times> H265Pps"

type_synonym 'a h265 = "(H265Ref, H265Picture, H265Sets, 'a) enc"
type_synonym h265_state = "(H265Ref, H265Picture, H265Sets) enc_state"

definition h265_profile :: VideoProfile where
  "h265_profile = \<lparr>vp_operation = ENCODE_H265, vp_std = H265_MAIN, vp_chroma_420 = True, vp_luma_bits = 8, vp_chroma_bits = 8\<rparr>"

definition h265_std_header_version :: "string \<times> u32" where
  "h265_std_header_version = (''VK_STD_vulkan_video_codec_h265_encode'', push_bit 22 1)"

definition h265_ptl :: H265Ptl where
  "h265_ptl = \<lparr>general_progressive_source_flag = True, general_non_packed_constraint_flag = True,
     general_frame_only_constraint_flag = True, general_profile = H265_MAIN, general_level = (4, 0)\<rparr>"

definition h265_build_vps :: H265Vps where
  "h265_build_vps = \<lparr>vps_temporal_id_nesting_flag = True, vps_num_units_in_tick = 1, vps_time_scale = 60, vps_ptl = h265_ptl\<rparr>"

text \<open>One short-term set with one picture, the one before: the deltas are all 1.\<close>

definition h265_build_sps :: "u32 \<Rightarrow> u32 \<Rightarrow> H265Sps" where
  "h265_build_sps width height =
     \<lparr>sps_temporal_id_nesting_flag = True, conformance_window_flag = False, amp_enabled_flag = True,
      strong_intra_smoothing_enabled_flag = True, pic_width_in_luma_samples = width, pic_height_in_luma_samples = height,
      h265_log2_max_poc_lsb_minus4 = 4, log2_diff_max_min_luma_coding_block_size = 3,
      log2_diff_max_min_luma_transform_block_size = 3, used_by_curr_pic_s0_flag = 1, num_negative_pics = 1,
      delta_poc_s0_minus1 = replicate 16 0, sps_ptl = h265_ptl\<rparr>"

definition h265_build_pps :: H265Pps where
  "h265_build_pps = \<lparr>cabac_init_present_flag = True, loop_filter_across_tiles_enabled_flag = True,
     pps_loop_filter_across_slices_enabled_flag = True, h265_deblocking_filter_control_present_flag = True\<rparr>"

section \<open>Construction\<close>

definition h265_rate_control :: RcInfo where
  "h265_rate_control = \<lparr>rc_regular_gop = True, gop_frame_count = - 1, key_period = - 1, b_frame_count = 0, layer_count = 1\<rparr>"

definition h265_bind_session_memory :: "EncDriver \<Rightarrow> handle \<Rightarrow> handle list h265" where
  "h265_bind_session_memory = bind_session_memory"

definition h265_fetch_parameter_sets_blob :: "EncDriver \<Rightarrow> bytes h265" where
  "h265_fetch_parameter_sets_blob = fetch_parameter_sets_blob"

definition h265_create_dpb_pool :: "Driver \<Rightarrow> u32 \<times> u32 \<Rightarrow> DpbSlot list h265" where
  "h265_create_dpb_pool D extent = create_dpb_pool D h265_profile extent"

definition h265_create_output_buffer :: "Driver \<Rightarrow> u64 \<Rightarrow> (handle \<times> handle) h265" where
  "h265_create_output_buffer D n = create_output_buffer D h265_profile n"

definition h265_create_encode_query_pool :: "Driver \<Rightarrow> handle h265" where
  "h265_create_encode_query_pool D = create_encode_query_pool D h265_profile"

definition h265_initialize_rate_control :: "Driver \<Rightarrow> handle \<Rightarrow> handle \<Rightarrow> unit h265" where
  "h265_initialize_rate_control D sess sparams = initialize_rate_control D h265_rate_control sess sparams"

definition h265_transition_dpb :: "Driver \<Rightarrow> DpbSlot list \<Rightarrow> unit h265" where
  "h265_transition_dpb = transition_dpb_to_initial_layout"

definition h265_codec :: "(H265Ref, H265Picture, H265Sets) Codec" where
  "h265_codec = \<lparr>codec_id = CodecH265, codec_profile = h265_profile, codec_header = h265_std_header_version,
     codec_sets = (\<lambda>width height. (h265_build_vps, h265_build_sps width height, h265_build_pps)), codec_framing = (\<lambda>blob. blob),
     codec_bind = h265_bind_session_memory, codec_fetch = h265_fetch_parameter_sets_blob, codec_pool = h265_create_dpb_pool,
     codec_output = h265_create_output_buffer, codec_queries = h265_create_encode_query_pool,
     codec_dpb_layout = h265_transition_dpb, codec_rate_control = h265_initialize_rate_control\<rparr>"

record H265Encoder = VideoEncoder +
  h265_caps_max_extent :: "u32 \<times> u32"

definition h265_new ::
  "EncDriver \<Rightarrow> VulkanContext \<Rightarrow> VulkanError + VideoEncodeCapabilities \<Rightarrow> EncodeParams \<Rightarrow> H265Encoder h265" where
  "h265_new E ctx probe params = vk_then (open_encoder h265_codec E ctx probe params) (\<lambda>(caps, e).
     vk_return (VideoEncoder.extend e (H265Encoder.fields (max_coded_extent caps))))"

section \<open>Frames\<close>

definition h265_pic_order_cnt :: "'z VideoEncoder_scheme \<Rightarrow> int" where
  "h265_pic_order_cnt e = sint (ucast (frame_index e) :: u32)"

definition h265_picture_type_of :: "'z VideoEncoder_scheme \<Rightarrow> h265_picture_type" where
  "h265_picture_type_of e = (if is_keyframe e then H265_IDR else H265_P)"

definition h265_picture_info :: "'z VideoEncoder_scheme \<Rightarrow> H265Picture" where
  "h265_picture_info e =
     \<lparr>h265_slice = (if is_keyframe e then H265_SliceI else H265_SliceP), collocated_from_l0_flag = (\<not> is_keyframe e), MaxNumMergeCand = 5,
      h265_constant_qp = params_qp e, IrapPicFlag = is_keyframe e, short_term_ref_pic_set_sps_flag = (\<not> is_keyframe e),
      h265_type = h265_picture_type_of e, h265_poc = h265_pic_order_cnt e,
      h265_ref_list0 = (case ref_slot e of None \<Rightarrow> replicate 15 0xFF | Some prev \<Rightarrow> of_nat prev # replicate 14 0xFF)\<rparr>"

definition h265_setup_ref :: "'z VideoEncoder_scheme \<Rightarrow> H265Ref" where
  "h265_setup_ref e = \<lparr>h265_ref_type = h265_picture_type_of e, PicOrderCntVal = h265_pic_order_cnt e\<rparr>"

definition h265_reference :: "'z VideoEncoder_scheme \<Rightarrow> H265Ref" where
  "h265_reference e = \<lparr>h265_ref_type = H265_P, PicOrderCntVal = sint (ucast (frame_index e) - 1 :: u32)\<rparr>"

definition h265_begin_commands :: "'z VideoEncoder_scheme \<Rightarrow> (H265Ref, H265Picture) VideoCmd list" where
  "h265_begin_commands e = begin_commands h265_rate_control (h265_setup_ref e) (h265_reference e) e"

definition h265_encode_commands :: "handle \<Rightarrow> 'z VideoEncoder_scheme \<Rightarrow> (H265Ref, H265Picture) VideoCmd list" where
  "h265_encode_commands view e = encode_commands view (h265_picture_info e) (h265_setup_ref e) (h265_reference e) e"

definition h265_plan :: "'z VideoEncoder_scheme \<Rightarrow> (H265Ref, H265Picture, 'z VideoEncoder_scheme) FramePlan" where
  "h265_plan e = \<lparr>plan_begin = h265_begin_commands e, plan_encode = (\<lambda>view. h265_encode_commands view e),
     plan_framing = (\<lambda>data. data), plan_advance = (\<lambda>x. x)\<rparr>"

definition h265_encode ::
  "EncDriver \<Rightarrow> InputFrame \<Rightarrow> H265Encoder \<Rightarrow> h265_state \<Rightarrow> (EncodeError + EncodedFrame) \<times> H265Encoder \<times> h265_state" where
  "h265_encode E frame e = encode_with_plan (h265_plan e) E frame e"

definition h265_request_keyframe :: "H265Encoder \<Rightarrow> H265Encoder" where
  "h265_request_keyframe = request_keyframe"

definition h265_drop :: "H265Encoder \<Rightarrow> unit list h265" where
  "h265_drop = drop_encoder"

section \<open>The contract\<close>

interpretation h265_steps: codec_steps h265_codec
  by unfold_locales (unfold h265_codec_def Codec.select_convs h265_bind_session_memory_def h265_fetch_parameter_sets_blob_def
      h265_create_dpb_pool_def h265_create_output_buffer_def h265_create_encode_query_pool_def h265_transition_dpb_def
      h265_initialize_rate_control_def, (erule common_steps)+)

lemmas h265_commands = h265_begin_commands_def h265_encode_commands_def

lemma h265_batch: "batch_of e (plan_begin (h265_plan e) @ plan_encode (h265_plan e) view)"
  by (simp add: h265_plan_def h265_commands batch_commands)

definition h265_label :: "H265Ref \<Rightarrow> int" where
  "h265_label r = PicOrderCntVal r"

lemma h265_labelled:
  "labelled h265_label (h265_label (h265_setup_ref e)) (h265_label (h265_reference e)) e
     (plan_begin (h265_plan e) @ plan_encode (h265_plan e) view)"
  by (simp add: h265_plan_def h265_commands labelled_commands)

lemma h265_keeps_base: "keeps_base (plan_advance (h265_plan e))"
  by (simp add: h265_plan_def keeps_base_def)

lemma h265_step: "h265_encode E f e s = (r, e', s') \<Longrightarrow> frame_step f e s r e' s'"
  unfolding h265_encode_def by (rule encode_frame_step [OF h265_keeps_base h265_batch])

lemma h265_next_label: "frame_step f e s (Inr ef) e' s' \<Longrightarrow> h265_label (h265_reference e') = h265_label (h265_setup_ref e)"
  by (auto simp: frame_step_def frame_delivered_def h265_label_def h265_reference_def h265_setup_ref_def h265_pic_order_cnt_def ucast_next)

interpretation h265: labelled_encoder "h265_new E ctx probe params" "h265_encode E" h265_request_keyframe h265_drop
  h265_label "\<lambda>e. h265_label (h265_setup_ref e)" "\<lambda>e. h265_label (h265_reference e)" True
  for E ctx probe params
proof unfold_locales
  show "owns {#} (h265_new E ctx probe params) enc_objects (\<lambda>_. True)"
    unfolding h265_new_def by (rule owns_weaken [OF h265_steps.extended_owns]) simp
  show "enc_ready e \<and> prior_ref_slot e = None \<and> \<not> force_keyframe e" if new: "h265_new E ctx probe params s = (Inr e, s')" for e s s'
  proof -
    obtain caps b where b: "open_encoder h265_codec E ctx probe params s = (Inr (caps, b), s')"
      and e: "e = VideoEncoder.extend b (H265Encoder.fields (max_coded_extent caps))"
      using new by (auto simp: h265_new_def vk_ok)
    show ?thesis using h265_steps.open_encoder_ready [OF b] by (simp add: e extend_fields) (simp add: enc_ready_def)
  qed
  show "h265_request_keyframe e = e\<lparr>force_keyframe := True\<rparr>" for e by (simp add: h265_request_keyframe_def request_keyframe_def)
  show "vk_misuse s' = vk_misuse s \<and> vk_live s' = B + enc_objects e'"
    if "vk_live s = B + enc_objects e" "h265_encode E f e s = (r, e', s')" for B f e s r e' s'
    using encode_frame_owns [OF that(1) that(2) [unfolded h265_encode_def]] by (simp add: h265_plan_def)
  show "frame_step f e s r e' s'" if "h265_encode E f e s = (r, e', s')" for f e s r e' s'
    using that by (rule h265_step)
  show "owns (enc_objects e) (h265_drop e) (\<lambda>_. {#}) (\<lambda>_. False)" for e
    unfolding h265_drop_def by (rule drop_encoder_owns)
  show "list_all (labelled h265_label (h265_label (h265_setup_ref e)) (h265_label (h265_reference e)) e)
      (drop (length (vk_submitted s)) (vk_submitted s'))" if "h265_encode E f e s = (r, e', s')" for f e s r e' s'
    using that unfolding h265_encode_def
    by (rule encode_frame_batches [where Q = "labelled h265_label (h265_label (h265_setup_ref e)) (h265_label (h265_reference e)) e",
        OF h265_labelled])
  show "h265_label (h265_reference e') = h265_label (h265_reference e)" if "h265_encode E f e s = (Inl x, e', s')" for f e s x e' s'
    using h265_step [OF that] by (simp add: frame_step_def frame_failed_def h265_reference_def)
  show "h265_label (h265_reference e') = h265_label (h265_setup_ref e)"
    if "h265_encode E f e s = (Inr ef, e', s')" "True \<or> \<not> force_keyframe e" for f e s ef e' s'
    using h265_next_label [OF h265_step [OF that(1)]] by simp
  show "h265_label (h265_reference (h265_request_keyframe e)) = h265_label (h265_reference e)" for e
    by (simp add: h265_request_keyframe_def request_keyframe_def h265_reference_def)
qed

section \<open>Properties\<close>

text \<open>C9. A session of the H.265 encoder, from \<open>new\<close> over any frames and keyframe requests, failures included, to the drop: the
  pictures delivered start with an IDR picture and every IDR picture carries the parameter sets, every reference is to the
  slot that holds the picture last delivered, and is named by the picture order count
  under which the code recorded that picture; at the end every object made is gone and none was
  destroyed twice.\<close>

theorem h265_session:
  assumes "h265_new E ctx probe params s = (Inr e, s1)"
    and "enc_session (h265_encode E) h265_request_keyframe ops e s1 = (log, e', s2)" and "h265_drop e' s2 = (r, s3)"
  shows "decodable (enc_delivered log) \<and> references_sound 0 (\<lambda>_. None) None log \<and>
     labels_sound h265_label None log \<and> vk_live s3 = vk_live s \<and> vk_misuse s3 = vk_misuse s"
  using h265.session_decodable [OF assms(1,2)] h265.labels_hold [OF assms(1,2)] h265.balanced [OF assms] by auto

lemma h265_common: "common_codec h265_codec"
  by (auto simp: common_codec_def h265_codec_def h265_bind_session_memory_def h265_fetch_parameter_sets_blob_def
      h265_create_dpb_pool_def h265_create_output_buffer_def h265_create_encode_query_pool_def h265_transition_dpb_def
      h265_initialize_rate_control_def fun_eq_iff)

lemma h265_demo_new:
  "\<exists>e s'. h265_new (demo_enc {}) demo_ctx (Inr (demo_caps CodecH265)) (demo_params CodecH265) s = (Inr e, s')"
  using demo_opens [OF h265_common demo_checks, of CodecH265 s]
  by (auto simp: h265_new_def vk_ok h265_codec_def)

theorem h265_session_witness:
  "\<exists>e s1 log e' s2 s3. h265_new (demo_enc {}) demo_ctx (Inr (demo_caps CodecH265)) (demo_params CodecH265) Vk_empty = (Inr e, s1) \<and>
     enc_session (h265_encode (demo_enc {})) h265_request_keyframe [OpEncode demo_frame, OpRequest, OpEncode demo_frame] e s1 = (log, e', s2) \<and>
     length log = 2 \<and> labels_sound h265_label None log \<and> vk_live s3 = {#} \<and> snd (h265_drop e' s2) = s3"
proof -
  obtain e s1 where n: "h265_new (demo_enc {}) demo_ctx (Inr (demo_caps CodecH265)) (demo_params CodecH265) Vk_empty = (Inr e, s1)"
    using h265_demo_new by blast
  obtain log e' s2 where g: "enc_session (h265_encode (demo_enc {})) h265_request_keyframe [OpEncode demo_frame, OpRequest, OpEncode demo_frame] e s1
     = (log, e', s2)" by (metis prod_cases3)
  obtain r s3 where d: "h265_drop e' s2 = (r, s3)" by fastforce
  have "length log = 2" using g by (auto split: prod.splits)
  moreover have "vk_live (Vk_empty :: h265_state) = {#}" by (simp add: Vk_empty_def)
  ultimately show ?thesis using h265_session [OF n g d] n g d by auto
qed

text \<open>A request for a keyframe is forgotten when the frame that should honour it fails: the next frame delivered is an
  ordinary one.\<close>

theorem h265_request_lost:
  assumes "frame_index e \<noteq> 0" and "(if_width f, if_height f) = coded_extent e"
    and "h265_encode E f (h265_request_keyframe e) s = (Inl x, e', s')" and "h265_encode E f' e' s' = (Inr ef, e'', s'')"
  shows "ef_kind ef = PFrame"
  using assms by (rule h265.request_lost)

definition h265_demo :: H265Encoder where
  "h265_demo = VideoEncoder.extend (demo_base CodecH265) (H265Encoder.fields (4096, 4096))"

lemma h265_demo_fields:
  "frame_index h265_demo = 1" "coded_extent h265_demo = (1280, 720)" "coded_extent (h265_request_keyframe h265_demo) = (1280, 720)"
  by (simp_all add: h265_demo_def demo_base_def demo_params_def VideoEncoder.defs coded_extent_def h265_request_keyframe_def
      request_keyframe_def)

theorem h265_request_lost_witness:
  "\<exists>x e' s' ef e'' s''. h265_encode (demo_enc {0}) demo_frame (h265_request_keyframe h265_demo) Vk_empty = (Inl x, e', s') \<and>
     h265_encode (demo_enc {0}) demo_frame e' s' = (Inr ef, e'', s'') \<and> ef_kind ef = PFrame"
proof -
  let ?e = "h265_request_keyframe h265_demo" and ?e' = "(h265_request_keyframe h265_demo)\<lparr>force_keyframe := False\<rparr>"
  obtain x s' where fail: "h265_encode (demo_enc {0}) demo_frame ?e Vk_empty = (Inl x, ?e', s')" and s': "0 < vk_calls s'"
    using demo_first_fails [where e = ?e and s = Vk_empty and plan = "h265_plan ?e"]
    by (auto simp: Vk_empty_def h265_demo_fields h265_encode_def)
  have "coded_extent ?e' = (1280, 720)" using h265_demo_fields(3) by (simp add: coded_extent_def)
  then obtain ef e'' s'' where ok: "h265_encode (demo_enc {0}) demo_frame ?e' s' = (Inr ef, e'', s'')"
    using demo_encodes [where f = demo_frame and e = ?e' and bad = "{0}" and s = s' and plan = "h265_plan ?e'"] s'
    by (auto simp: demo_dims h265_encode_def)
  have "ef_kind ef = PFrame"
    by (rule h265_request_lost [OF _ _ fail ok]) (simp_all add: h265_demo_fields demo_dims)
  then show ?thesis using fail ok by blast
qed

text \<open>The picture order count that a decoder derives from the eight bits in the slice header and the count of the picture
  before (H.265, 8.3.1); that of an IDR picture is 0.\<close>

definition decoded_poc :: "int \<Rightarrow> int \<Rightarrow> int" where
  "decoded_poc prev lsb =
     (let prev_lsb = prev mod 256; prev_msb = prev - prev_lsb in
      (if lsb < prev_lsb \<and> 128 \<le> prev_lsb - lsb then prev_msb + 256
       else if prev_lsb < lsb \<and> 128 < lsb - prev_lsb then prev_msb - 256 else prev_msb) + lsb)"

definition reference_delta :: "H265Sps \<Rightarrow> int" where
  "reference_delta sps = 1 + uint (delta_poc_s0_minus1 sps ! 0)"

text \<open>From one picture to the next the reference picture set names the picture before.\<close>

lemma low_byte_sint: "sint (x :: u32) mod 256 = uint x mod 256"
proof -
  have "take_bit 8 (sint x) = take_bit 8 (uint x)" by (simp add: sint_uint take_bit_signed_take_bit)
  then show ?thesis by (simp add: take_bit_eq_mod)
qed

lemma low_byte_next: "sint (x + 1 :: u32) mod 256 = (sint x + 1) mod 256"
proof -
  have "uint (x + 1) mod 256 = (uint x + 1) mod 256"
    by (simp only: uint_word_ariths(1) uint_1 take_bit_eq_mod) (simp add: mod_mod_cancel)
  also have "\<dots> = (uint x mod 256 + 1) mod 256" by (rule mod_add_left_eq [symmetric])
  also have "\<dots> = (sint x mod 256 + 1) mod 256" by (simp only: low_byte_sint)
  also have "\<dots> = (sint x + 1) mod 256" by (rule mod_add_left_eq)
  finally show ?thesis by (simp only: low_byte_sint)
qed

lemma next_byte: "(k + 1) mod 256 = (if k mod 256 = 255 then 0 else k mod 256 + (1 :: int))"
proof -
  have "(k + 1) mod 256 = (k mod 256 + 1) mod 256" by (rule mod_add_left_eq [symmetric])
  also have "\<dots> = (if k mod 256 = 255 then 0 else k mod 256 + 1)"
  proof (cases "k mod 256 = 255")
    case False
    then have "k mod 256 + 1 < 256" using pos_mod_bound [of 256 k] by linarith
    then show ?thesis using False pos_mod_sign [of 256 k] by (simp only: mod_pos_pos_trivial if_False)
  qed simp
  finally show ?thesis .
qed

theorem h265_reference_set:
  "decoded_poc k ((k + 1) mod 256) - reference_delta (h265_build_sps width height) = k"
proof -
  obtain j where j: "j = k mod 256" "0 \<le> j" "j < 256" by simp
  have delta: "reference_delta (h265_build_sps width height) = 1" by (simp add: reference_delta_def h265_build_sps_def)
  show ?thesis unfolding decoded_poc_def Let_def next_byte delta unfolding j(1) [symmetric] using j(2,3) by simp
qed

text \<open>C21. After a keyframe on request the reference picture set names a picture that the decoder does not have, because the IDR
  picture is 0 to the decoder and the code counts on.\<close>

theorem h265_forced_idr_unreferenced:
  assumes "h265_encode E f (h265_request_keyframe e) s = (Inr ef, e', s')" and "h265_pic_order_cnt e mod 256 \<noteq> 0"
  shows "ef_kind ef = Idr \<and>
     decoded_poc 0 (h265_pic_order_cnt e' mod 256) - reference_delta (h265_build_sps width height) \<noteq> 0"
proof -
  have st: "ef_kind ef = Idr" "frame_index e' = frame_index e + 1"
    using h265_step [OF assms(1)]
    by (simp_all add: frame_step_def frame_delivered_def h265_request_keyframe_def request_keyframe_def is_keyframe_def)
  let ?lsb = "h265_pic_order_cnt e' mod 256"
  have "?lsb = (h265_pic_order_cnt e + 1) mod 256"
    by (simp only: h265_pic_order_cnt_def st(2) ucast_next low_byte_next)
  then have "?lsb \<noteq> 1" using assms(2) unfolding next_byte by (simp split: if_splits)
  then obtain j where lsb: "?lsb = j" "j \<noteq> 1" "0 \<le> j" "j < 256" by simp
  have "decoded_poc 0 j - 1 \<noteq> 0" using lsb(2-4) by (simp add: decoded_poc_def Let_def)
  then show ?thesis using st(1) unfolding lsb(1) by (simp add: reference_delta_def h265_build_sps_def)
qed

theorem h265_forced_idr_unreferenced_witness:
  "\<exists>ef e' s'. h265_encode (demo_enc {}) demo_frame (h265_request_keyframe h265_demo) Vk_empty = (Inr ef, e', s') \<and>
     ef_kind ef = Idr \<and> decoded_poc 0 (h265_pic_order_cnt e' mod 256) - reference_delta (h265_build_sps 1280 720) \<noteq> 0"
proof -
  obtain ef e' s' where r: "h265_encode (demo_enc {}) demo_frame (h265_request_keyframe h265_demo) Vk_empty = (Inr ef, e', s')"
    using demo_encodes [where f = demo_frame and e = "h265_request_keyframe h265_demo" and bad = "{}" and s = Vk_empty and
        plan = "h265_plan (h265_request_keyframe h265_demo)"] by (auto simp: h265_demo_fields demo_dims h265_encode_def)
  have "h265_pic_order_cnt h265_demo mod 256 \<noteq> 0" by (simp add: h265_pic_order_cnt_def h265_demo_fields)
  then show ?thesis using h265_forced_idr_unreferenced [OF r] r by blast
qed

end
