(* ===== verification/Av1.thy ===== *)
theory Av1
  imports EncDemo
begin

text \<open>
  The AV1 backend, \<^verbatim>\<open>crates/remoteway-encode/src/backends/av1.rs\<close>. Its pictures are recorded under an order hint of
  eight bits that counts the frames delivered, keyframes included; every temporal unit starts with a delimiter.
\<close>

section \<open>Standard structures\<close>

datatype av1_frame_type = AV1_KEY | AV1_INTER
datatype av1_prediction = INTRA_ONLY | SINGLE_REFERENCE
datatype av1_rc_group = AV1_INTRA | AV1_PREDICTIVE

record Av1Ref =
  av1_ref_type :: av1_frame_type
  OrderHint :: u8

record Av1Picture =
  prediction_mode :: av1_prediction
  rate_control_group :: av1_rc_group
  constant_q_index :: u32
  error_resilient_mode :: bool
  allow_screen_content_tools :: bool
  force_integer_mv :: bool
  show_frame :: bool
  showable_frame :: bool
  av1_type :: av1_frame_type
  av1_order_hint :: u8
  primary_ref_frame :: u8
  refresh_frame_flags :: u8
  render_width_minus_1 :: u16
  render_height_minus_1 :: u16
  tx_mode_select :: bool
  ref_order_hint :: "u8 list"
  ref_frame_idx :: "int list"
  reference_name_slot_indices :: "int list"

record Av1SequenceHeader =
  enable_filter_intra :: bool
  enable_intra_edge_filter :: bool
  enable_order_hint :: bool
  seq_profile :: std_profile
  frame_width_bits_minus_1 :: u8
  frame_height_bits_minus_1 :: u8
  max_frame_width_minus_1 :: u16
  max_frame_height_minus_1 :: u16
  order_hint_bits_minus_1 :: u8
  seq_force_integer_mv :: u8
  seq_force_screen_content_tools :: u8
  color_range_full :: bool
  color_bit_depth :: u8
  color_subsampling :: "u8 \<times> u8"

type_synonym 'a av1 = "(Av1Ref, Av1Picture, Av1SequenceHeader, 'a) enc"
type_synonym av1_state = "(Av1Ref, Av1Picture, Av1SequenceHeader) enc_state"

definition STD_VIDEO_AV1_PRIMARY_REF_NONE :: u8 where "STD_VIDEO_AV1_PRIMARY_REF_NONE = 7"
definition REF_NAME_LAST_FRAME :: nat where "REF_NAME_LAST_FRAME = 0"
definition REFRESH_LAST_FRAME_ONLY :: u8 where "REFRESH_LAST_FRAME_ONLY = 0x01"
definition MAX_AV1_REFERENCES :: nat where "MAX_AV1_REFERENCES = 7"

definition av1_profile :: VideoProfile where
  "av1_profile = \<lparr>vp_operation = ENCODE_AV1, vp_std = AV1_MAIN, vp_chroma_420 = True, vp_luma_bits = 8, vp_chroma_bits = 8\<rparr>"

definition av1_std_header_version :: "string \<times> u32" where
  "av1_std_header_version = (''VK_STD_vulkan_video_codec_av1_encode'', push_bit 22 1)"

text \<open>The leading zeros of a \<open>u32\<close>, by the length of its binary form.\<close>

fun bit_length :: "nat \<Rightarrow> nat" where
  "bit_length n = (if n = 0 then 0 else Suc (bit_length (n div 2)))"

declare bit_length.simps [simp del]

definition leading_zeros :: "u32 \<Rightarrow> u32" where
  "leading_zeros w = of_nat (32 - bit_length (unat w))"

definition bits_needed :: "u32 \<Rightarrow> u32" where
  "bits_needed value = (let v = max value 1; bits = 32 - leading_zeros (v - 1) in max bits 1)"

definition build_seq_header :: "u32 \<Rightarrow> u32 \<Rightarrow> Av1SequenceHeader" where
  "build_seq_header width height =
     \<lparr>enable_filter_intra = True, enable_intra_edge_filter = True, enable_order_hint = True, seq_profile = AV1_MAIN,
      frame_width_bits_minus_1 = ucast (bits_needed width - 1), frame_height_bits_minus_1 = ucast (bits_needed height - 1),
      max_frame_width_minus_1 = ucast (width - 1), max_frame_height_minus_1 = ucast (height - 1), order_hint_bits_minus_1 = 7,
      seq_force_integer_mv = 2, seq_force_screen_content_tools = 2, color_range_full = True, color_bit_depth = 8,
      color_subsampling = (1, 1)\<rparr>"

text \<open>The temporal delimiter in front of the sequence header and of every frame.\<close>

definition with_delimiter :: "bytes \<Rightarrow> bytes" where
  "with_delimiter data = 0x12 # 0x00 # data"

section \<open>Construction\<close>

definition av1_rate_control :: RcInfo where
  "av1_rate_control = \<lparr>rc_regular_gop = False, gop_frame_count = - 1, key_period = - 1, b_frame_count = 0, layer_count = 1\<rparr>"

definition av1_bind_session_memory :: "EncDriver \<Rightarrow> handle \<Rightarrow> handle list av1" where
  "av1_bind_session_memory = bind_session_memory"

definition av1_fetch_parameter_sets_blob :: "EncDriver \<Rightarrow> bytes av1" where
  "av1_fetch_parameter_sets_blob = fetch_parameter_sets_blob"

definition av1_create_dpb_pool :: "Driver \<Rightarrow> u32 \<times> u32 \<Rightarrow> DpbSlot list av1" where
  "av1_create_dpb_pool D extent = create_dpb_pool D av1_profile extent"

definition av1_create_output_buffer :: "Driver \<Rightarrow> u64 \<Rightarrow> (handle \<times> handle) av1" where
  "av1_create_output_buffer D n = create_output_buffer D av1_profile n"

definition av1_create_encode_query_pool :: "Driver \<Rightarrow> handle av1" where
  "av1_create_encode_query_pool D = create_encode_query_pool D av1_profile"

definition av1_initialize_rate_control :: "Driver \<Rightarrow> handle \<Rightarrow> handle \<Rightarrow> unit av1" where
  "av1_initialize_rate_control D sess sparams = initialize_rate_control D av1_rate_control sess sparams"

definition av1_transition_dpb :: "Driver \<Rightarrow> DpbSlot list \<Rightarrow> unit av1" where
  "av1_transition_dpb = transition_dpb_to_initial_layout"

definition av1_codec :: "(Av1Ref, Av1Picture, Av1SequenceHeader) Codec" where
  "av1_codec = \<lparr>codec_id = CodecAv1, codec_profile = av1_profile, codec_header = av1_std_header_version,
     codec_sets = build_seq_header, codec_framing = with_delimiter,
     codec_bind = av1_bind_session_memory, codec_fetch = av1_fetch_parameter_sets_blob, codec_pool = av1_create_dpb_pool,
     codec_output = av1_create_output_buffer, codec_queries = av1_create_encode_query_pool,
     codec_dpb_layout = av1_transition_dpb, codec_rate_control = av1_initialize_rate_control\<rparr>"

record Av1Encoder = VideoEncoder +
  order_hint :: u8

definition av1_new ::
  "EncDriver \<Rightarrow> VulkanContext \<Rightarrow> VulkanError + VideoEncodeCapabilities \<Rightarrow> EncodeParams \<Rightarrow> Av1Encoder av1" where
  "av1_new E ctx probe params = vk_then (open_encoder av1_codec E ctx probe params) (\<lambda>(_, e).
     vk_return (VideoEncoder.extend e (Av1Encoder.fields 0)))"

section \<open>Frames\<close>

definition params_q_index :: "'z VideoEncoder_scheme \<Rightarrow> u32" where
  "params_q_index e = (case rate_control (enc_params e) of
     ConstantQp qp \<Rightarrow> min (if unat qp * 4 < 2 ^ 32 then qp * 4 else - 1) 255 | _ \<Rightarrow> 128)"

definition av1_frame_type_of :: "'z VideoEncoder_scheme \<Rightarrow> av1_frame_type" where
  "av1_frame_type_of e = (if is_keyframe e then AV1_KEY else AV1_INTER)"

definition av1_picture_info :: "Av1Encoder \<Rightarrow> Av1Picture" where
  "av1_picture_info e =
     \<lparr>prediction_mode = (if is_keyframe e then INTRA_ONLY else SINGLE_REFERENCE),
      rate_control_group = (if is_keyframe e then AV1_INTRA else AV1_PREDICTIVE), constant_q_index = params_q_index e,
      error_resilient_mode = is_keyframe e, allow_screen_content_tools = True, force_integer_mv = is_keyframe e, show_frame = True,
      showable_frame = (\<not> is_keyframe e), av1_type = av1_frame_type_of e, av1_order_hint = order_hint e,
      primary_ref_frame = (if is_keyframe e then STD_VIDEO_AV1_PRIMARY_REF_NONE else 0),
      refresh_frame_flags = (if is_keyframe e then 0xFF else REFRESH_LAST_FRAME_ONLY),
      render_width_minus_1 = ucast (ep_width (enc_params e) - 1), render_height_minus_1 = ucast (ep_height (enc_params e) - 1),
      tx_mode_select = True,
      ref_order_hint = (if ref_slot e \<noteq> None then (replicate 8 0)[0 := order_hint e - 1] else replicate 8 0),
      ref_frame_idx = replicate 7 0,
      reference_name_slot_indices = (case ref_slot e of None \<Rightarrow> replicate MAX_AV1_REFERENCES (- 1)
        | Some prev \<Rightarrow> (replicate MAX_AV1_REFERENCES (- 1))[REF_NAME_LAST_FRAME := int prev])\<rparr>"

definition av1_setup_ref :: "Av1Encoder \<Rightarrow> Av1Ref" where
  "av1_setup_ref e = \<lparr>av1_ref_type = av1_frame_type_of e, OrderHint = order_hint e\<rparr>"

definition av1_reference :: "Av1Encoder \<Rightarrow> Av1Ref" where
  "av1_reference e = \<lparr>av1_ref_type = AV1_INTER, OrderHint = order_hint e - 1\<rparr>"

definition av1_begin_commands :: "Av1Encoder \<Rightarrow> (Av1Ref, Av1Picture) VideoCmd list" where
  "av1_begin_commands e = begin_commands av1_rate_control (av1_setup_ref e) (av1_reference e) e"

definition av1_encode_commands :: "handle \<Rightarrow> Av1Encoder \<Rightarrow> (Av1Ref, Av1Picture) VideoCmd list" where
  "av1_encode_commands view e = encode_commands view (av1_picture_info e) (av1_setup_ref e) (av1_reference e) e"

definition av1_plan :: "Av1Encoder \<Rightarrow> (Av1Ref, Av1Picture, Av1Encoder) FramePlan" where
  "av1_plan e = \<lparr>plan_begin = av1_begin_commands e, plan_encode = (\<lambda>view. av1_encode_commands view e),
     plan_framing = with_delimiter, plan_advance = (\<lambda>x. x\<lparr>order_hint := order_hint x + 1\<rparr>)\<rparr>"

definition av1_encode ::
  "EncDriver \<Rightarrow> InputFrame \<Rightarrow> Av1Encoder \<Rightarrow> av1_state \<Rightarrow> (EncodeError + EncodedFrame) \<times> Av1Encoder \<times> av1_state" where
  "av1_encode E frame e = encode_with_plan (av1_plan e) E frame e"

definition av1_request_keyframe :: "Av1Encoder \<Rightarrow> Av1Encoder" where
  "av1_request_keyframe = request_keyframe"

definition av1_drop :: "Av1Encoder \<Rightarrow> unit list av1" where
  "av1_drop = drop_encoder"

section \<open>The contract\<close>

interpretation av1_steps: codec_steps av1_codec
  by unfold_locales (unfold av1_codec_def Codec.select_convs av1_bind_session_memory_def av1_fetch_parameter_sets_blob_def
      av1_create_dpb_pool_def av1_create_output_buffer_def av1_create_encode_query_pool_def av1_transition_dpb_def
      av1_initialize_rate_control_def, (erule common_steps)+)

lemmas av1_commands = av1_begin_commands_def av1_encode_commands_def

lemma av1_batch: "batch_of e (plan_begin (av1_plan e) @ plan_encode (av1_plan e) view)"
  by (simp add: av1_plan_def av1_commands batch_commands)

definition av1_label :: "Av1Ref \<Rightarrow> u8" where
  "av1_label r = OrderHint r"

lemma av1_labelled:
  "labelled av1_label (av1_label (av1_setup_ref e)) (av1_label (av1_reference e)) e
     (plan_begin (av1_plan e) @ plan_encode (av1_plan e) view)"
  by (simp add: av1_plan_def av1_commands labelled_commands)

lemma av1_keeps_base: "keeps_base (plan_advance (av1_plan e))"
  by (simp add: av1_plan_def keeps_base_def VideoEncoder.defs)

lemma av1_step: "av1_encode E f e s = (r, e', s') \<Longrightarrow> frame_step f e s r e' s'"
  unfolding av1_encode_def by (rule encode_frame_step [OF av1_keeps_base av1_batch])

lemma av1_next_label:
  assumes "av1_encode E f e s = (Inr ef, e', s')"
  shows "av1_label (av1_reference e') = av1_label (av1_setup_ref e)"
proof -
  obtain vs where "e' = plan_advance (av1_plan e) (e\<lparr>force_keyframe := False, input_views := vs, frame_index := frame_index e + 1,
       prior_ref_slot := Some (setup_slot e)\<rparr>)"
    using encode_frame_shape(2) [OF assms [unfolded av1_encode_def] refl] by blast
  then show ?thesis by (simp add: av1_plan_def av1_label_def av1_reference_def av1_setup_ref_def)
qed

interpretation av1: labelled_encoder "av1_new E ctx probe params" "av1_encode E" av1_request_keyframe av1_drop
  av1_label "\<lambda>e. av1_label (av1_setup_ref e)" "\<lambda>e. av1_label (av1_reference e)" True
  for E ctx probe params
proof unfold_locales
  show "owns {#} (av1_new E ctx probe params) enc_objects (\<lambda>_. True)"
    unfolding av1_new_def by (rule owns_weaken [OF av1_steps.extended_owns]) simp
  show "enc_ready e \<and> prior_ref_slot e = None \<and> \<not> force_keyframe e" if new: "av1_new E ctx probe params s = (Inr e, s')" for e s s'
  proof -
    obtain caps b where b: "open_encoder av1_codec E ctx probe params s = (Inr (caps, b), s')"
      and e: "e = VideoEncoder.extend b (Av1Encoder.fields 0)"
      using new by (auto simp: av1_new_def vk_ok)
    show ?thesis using av1_steps.open_encoder_ready [OF b] by (simp add: e extend_fields) (simp add: enc_ready_def)
  qed
  show "av1_request_keyframe e = e\<lparr>force_keyframe := True\<rparr>" for e by (simp add: av1_request_keyframe_def request_keyframe_def)
  show "vk_misuse s' = vk_misuse s \<and> vk_live s' = B + enc_objects e'"
    if "vk_live s = B + enc_objects e" "av1_encode E f e s = (r, e', s')" for B f e s r e' s'
    using encode_frame_owns [OF that(1) that(2) [unfolded av1_encode_def]] keeps_baseD(7) [OF av1_keeps_base] by blast
  show "frame_step f e s r e' s'" if "av1_encode E f e s = (r, e', s')" for f e s r e' s'
    using that by (rule av1_step)
  show "owns (enc_objects e) (av1_drop e) (\<lambda>_. {#}) (\<lambda>_. False)" for e
    unfolding av1_drop_def by (rule drop_encoder_owns)
  show "list_all (labelled av1_label (av1_label (av1_setup_ref e)) (av1_label (av1_reference e)) e)
      (drop (length (vk_submitted s)) (vk_submitted s'))" if "av1_encode E f e s = (r, e', s')" for f e s r e' s'
    using that unfolding av1_encode_def
    by (rule encode_frame_batches [where Q = "labelled av1_label (av1_label (av1_setup_ref e)) (av1_label (av1_reference e)) e",
        OF av1_labelled])
  show "av1_label (av1_reference e') = av1_label (av1_reference e)" if "av1_encode E f e s = (Inl x, e', s')" for f e s x e' s'
    using encode_frame_shape(1) [OF that [unfolded av1_encode_def] refl] by (auto simp: av1_reference_def)
  show "av1_label (av1_reference e') = av1_label (av1_setup_ref e)"
    if "av1_encode E f e s = (Inr ef, e', s')" "True \<or> \<not> force_keyframe e" for f e s ef e' s'
    using that(1) by (rule av1_next_label)
  show "av1_label (av1_reference (av1_request_keyframe e)) = av1_label (av1_reference e)" for e
    by (simp add: av1_request_keyframe_def request_keyframe_def av1_reference_def)
qed

section \<open>Properties\<close>

text \<open>C12. A session of the AV1 encoder, from \<open>new\<close> over any frames and keyframe requests, failures included, to the drop: the
  pictures delivered start with a key frame and every key frame carries the parameter sets, every reference is to the
  slot that holds the picture last delivered, and is named by the order hint under which that
  picture was recorded, after a keyframe on request too; at the end every object made is gone and none was
  destroyed twice.\<close>

theorem av1_session:
  assumes "av1_new E ctx probe params s = (Inr e, s1)"
    and "enc_session (av1_encode E) av1_request_keyframe ops e s1 = (log, e', s2)" and "av1_drop e' s2 = (r, s3)"
  shows "decodable (enc_delivered log) \<and> references_sound 0 (\<lambda>_. None) None log \<and>
     labels_sound av1_label None log \<and> vk_live s3 = vk_live s \<and> vk_misuse s3 = vk_misuse s"
  using av1.session_decodable [OF assms(1,2)] av1.labels_hold [OF assms(1,2)] av1.balanced [OF assms] by auto

lemma av1_common: "common_codec av1_codec"
  by (auto simp: common_codec_def av1_codec_def av1_bind_session_memory_def av1_fetch_parameter_sets_blob_def
      av1_create_dpb_pool_def av1_create_output_buffer_def av1_create_encode_query_pool_def av1_transition_dpb_def
      av1_initialize_rate_control_def fun_eq_iff)

lemma av1_demo_new:
  "\<exists>e s'. av1_new (demo_enc {}) demo_ctx (Inr (demo_caps CodecAv1)) (demo_params CodecAv1) s = (Inr e, s')"
  using demo_opens [OF av1_common demo_checks, of CodecAv1 s]
  by (auto simp: av1_new_def vk_ok av1_codec_def)

theorem av1_session_witness:
  "\<exists>e s1 log e' s2 s3. av1_new (demo_enc {}) demo_ctx (Inr (demo_caps CodecAv1)) (demo_params CodecAv1) Vk_empty = (Inr e, s1) \<and>
     enc_session (av1_encode (demo_enc {})) av1_request_keyframe [OpEncode demo_frame, OpRequest, OpEncode demo_frame] e s1 = (log, e', s2) \<and>
     length log = 2 \<and> labels_sound av1_label None log \<and> vk_live s3 = {#} \<and> snd (av1_drop e' s2) = s3"
proof -
  obtain e s1 where n: "av1_new (demo_enc {}) demo_ctx (Inr (demo_caps CodecAv1)) (demo_params CodecAv1) Vk_empty = (Inr e, s1)"
    using av1_demo_new by blast
  obtain log e' s2 where g: "enc_session (av1_encode (demo_enc {})) av1_request_keyframe [OpEncode demo_frame, OpRequest, OpEncode demo_frame] e s1
     = (log, e', s2)" by (metis prod_cases3)
  obtain r s3 where d: "av1_drop e' s2 = (r, s3)" by fastforce
  have "length log = 2" using g by (auto split: prod.splits)
  moreover have "vk_live (Vk_empty :: av1_state) = {#}" by (simp add: Vk_empty_def)
  ultimately show ?thesis using av1_session [OF n g d] n g d by auto
qed

text \<open>Construction does not clean up: whatever fails after the video session was made, \<open>new\<close> returns the error and leaves the
  session alive, and nobody has its handle.\<close>

theorem av1_new_leaks:
  assumes "check_params av1_codec ctx probe params = Inr checked" and "drv_result (ed_driver E) (vk_calls s) = None"
    and "av1_new E ctx probe params s = (Inl x, s')"
  shows "(KVideoSession, vk_calls s) \<in># vk_live s' - vk_live s"
proof -
  obtain y where "open_encoder av1_codec E ctx probe params s = (Inl y, s')"
    using assms(3) by (auto simp: av1_new_def vk_then_def vk_return_def split: prod.splits sum.splits)
  then show ?thesis by (rule av1_steps.open_encoder_leaks [OF assms(1,2)])
qed

theorem av1_new_leaks_witness:
  "\<exists>x s'. av1_new (demo_enc {1}) demo_ctx (Inr (demo_caps CodecAv1)) (demo_params CodecAv1) Vk_empty = (Inl x, s') \<and>
     (KVideoSession, 0) \<in># vk_live s'"
proof -
  have c: "check_params av1_codec demo_ctx (Inr (demo_caps CodecAv1)) (demo_params CodecAv1) = Inr (demo_caps CodecAv1, 1, (1, 0))"
    by (rule demo_checks) (simp add: av1_codec_def)
  have b: "codec_bind av1_codec = bind_session_memory" by (simp add: av1_codec_def av1_bind_session_memory_def)
  have "\<exists>x s'. av1_new (demo_enc {1}) demo_ctx (Inr (demo_caps CodecAv1)) (demo_params CodecAv1) Vk_empty = (Inl x, s')"
    by (simp add: av1_new_def open_encoder_def c open_rest_def Let_def b bind_session_memory_def demo_enc_def Vk_empty_def vk_run)
  then obtain x s' where r: "av1_new (demo_enc {1}) demo_ctx (Inr (demo_caps CodecAv1)) (demo_params CodecAv1) Vk_empty = (Inl x, s')"
    by blast
  have "drv_result (ed_driver (demo_enc {1})) (vk_calls (Vk_empty :: av1_state)) = None"
    by (simp add: demo_enc_def Vk_empty_def)
  from av1_new_leaks [OF c this r] r show ?thesis by (auto simp: Vk_empty_def)
qed

text \<open>The bits of the sequence header.\<close>

lemma bit_length_bound: "n < 2 ^ bit_length n"
proof (induction n rule: bit_length.induct)
  case (1 n)
  then show ?case by (subst bit_length.simps) (cases "n = 0", auto)
qed

lemma bit_length_least: "n \<noteq> 0 \<Longrightarrow> 2 ^ (bit_length n - 1) \<le> n"
proof (induction n rule: bit_length.induct)
  case (1 n)
  show ?case
  proof (cases "n div 2 = 0")
    case True
    then show ?thesis using 1(2) by (subst bit_length.simps) (simp add: bit_length.simps [of 0])
  next
    case False
    then have n: "2 ^ (bit_length (n div 2) - 1) \<le> n div 2" and p: "bit_length (n div 2) \<noteq> 0"
      using 1 by (auto simp: bit_length.simps [of "n div 2"])
    have "bit_length n - 1 = bit_length (n div 2)" using 1(2) by (subst bit_length.simps) simp
    then have "(2 :: nat) ^ (bit_length n - 1) = 2 * 2 ^ (bit_length (n div 2) - 1)" using p by (cases "bit_length (n div 2)") simp_all
    then show ?thesis using n by linarith
  qed
qed

lemma bit_length_le:
  assumes "n < 2 ^ k"
  shows "bit_length n \<le> k"
proof (cases "n = 0")
  case True
  then show ?thesis by (simp add: bit_length.simps [of 0])
next
  case False
  then have "(2 :: nat) ^ (bit_length n - 1) < 2 ^ k" using bit_length_least assms by (meson le_less_trans)
  then show ?thesis by (simp add: power_strict_increasing_iff) 
qed

lemma bits_needed_length:
  assumes "2 \<le> w"
  shows "unat (bits_needed w) = bit_length (unat w - 1)"
proof -
  have v: "max w 1 = w" using assms by (simp add: max_def word_le_nat_alt)
  have "w \<noteq> 0" using assms by (auto simp: word_le_nat_alt)
  then have n: "unat (w - 1) = unat w - 1" by (rule unat_minus_one)
  have le: "bit_length (unat w - 1) \<le> 32"
    using unat_lt_u32 [of w] by (intro bit_length_le) simp
  have pos: "1 \<le> bit_length (unat w - 1)" using assms by (subst bit_length.simps) (simp add: word_le_nat_alt)
  have "unat (32 - leading_zeros (w - 1)) = bit_length (unat w - 1)"
    using le by (simp add: leading_zeros_def n unat_sub word_le_nat_alt unat_of_nat)
  then show ?thesis using pos unfolding bits_needed_def Let_def v by (simp add: max_def word_le_nat_alt)
qed

lemma header_field:
  assumes w: "0 < w" "w \<le> (65536 :: u32)"
  shows "unat (ucast (w - 1) :: u16) = unat w - 1" and "unat w - 1 < 2 ^ (unat (ucast (bits_needed w - 1) :: u8) + 1)"
    and "(ucast (bits_needed w - 1) :: u8) = 0 \<or> 2 ^ unat (ucast (bits_needed w - 1) :: u8) \<le> unat w - 1"
proof -
  have "unat (ucast (w - 1) :: u16) = unat w - 1 \<and> unat w - 1 < 2 ^ (unat (ucast (bits_needed w - 1) :: u8) + 1) \<and>
     ((ucast (bits_needed w - 1) :: u8) = 0 \<or> 2 ^ unat (ucast (bits_needed w - 1) :: u8) \<le> unat w - 1)"
  proof (cases "2 \<le> w")
    case False
    then have "w = 1" using w(1) by (simp add: word_unat_eq_iff word_le_nat_alt word_less_nat_alt)
    then show ?thesis by (simp add: bits_needed_def leading_zeros_def bit_length.simps [of 0])
  next
    case True
    define n where "n = unat w - 1"
    have n: "n \<noteq> 0" "n < 2 ^ 16" using True w(2) by (simp_all add: n_def word_le_nat_alt)
    have len: "bit_length n \<le> 16" "bit_length n \<noteq> 0" using bit_length_le [OF n(2)] n(1) by (simp, subst bit_length.simps, simp)
    have b: "unat (bits_needed w) = bit_length n" unfolding n_def by (rule bits_needed_length [OF True])
    then have "bits_needed w \<noteq> 0" using len(2) by auto
    then have b1: "unat (bits_needed w - 1) = bit_length n - 1" by (simp add: unat_minus_one b)
    have small: "bit_length n - 1 < 2 ^ 8" using len by simp
    have b8: "unat (ucast (bits_needed w - 1) :: u8) = bit_length n - 1"
      unfolding unsigned_ucast_eq b1 using small by (simp add: take_bit_nat_eq_self)
    have "w \<noteq> 0" using w(1) by auto
    then have "unat (w - 1) = n" by (simp add: unat_minus_one n_def)
    then have "unat (ucast (w - 1) :: u16) = n" using n(2) unfolding unsigned_ucast_eq by (simp add: take_bit_nat_eq_self)
    moreover have "n < 2 ^ (bit_length n - 1 + 1)" using bit_length_bound [of n] len(2) by simp
    ultimately show ?thesis using bit_length_least [OF n(1)] b8 by (simp only: n_def) blast
  qed
  then show "unat (ucast (w - 1) :: u16) = unat w - 1" and "unat w - 1 < 2 ^ (unat (ucast (bits_needed w - 1) :: u8) + 1)"
    and "(ucast (bits_needed w - 1) :: u8) = 0 \<or> 2 ^ unat (ucast (bits_needed w - 1) :: u8) \<le> unat w - 1" by blast+
qed

text \<open>C34. For every extent up to 65536 the sequence header states the extent exactly, in fields that are wide enough for it and
  no wider than needed.\<close>

theorem av1_header_exact:
  assumes "0 < width" and "width \<le> 65536" and "0 < height" and "height \<le> 65536"
  defines "hdr \<equiv> build_seq_header width height"
  shows "unat (max_frame_width_minus_1 hdr) = unat width - 1 \<and> unat (max_frame_height_minus_1 hdr) = unat height - 1 \<and>
     unat width - 1 < 2 ^ (unat (frame_width_bits_minus_1 hdr) + 1) \<and> unat height - 1 < 2 ^ (unat (frame_height_bits_minus_1 hdr) + 1) \<and>
     (frame_width_bits_minus_1 hdr = 0 \<or> 2 ^ unat (frame_width_bits_minus_1 hdr) \<le> unat width - 1) \<and>
     (frame_height_bits_minus_1 hdr = 0 \<or> 2 ^ unat (frame_height_bits_minus_1 hdr) \<le> unat height - 1)"
proof -
  show ?thesis unfolding hdr_def build_seq_header_def Av1SequenceHeader.select_convs
    by (intro conjI header_field assms(1-4))
qed

theorem av1_header_exact_witness:
  "unat (max_frame_width_minus_1 (build_seq_header 1920 1080)) = 1919 \<and>
     1919 < (2 :: nat) ^ (unat (frame_width_bits_minus_1 (build_seq_header 1920 1080)) + 1)"
  using av1_header_exact [of 1920 1080] by simp

end
