(* ===== verification/Spec2Isabelle.thy ===== *)
theory Spec2Isabelle
  imports Meters Pool Mirror Replay Backends ExtCapture Screencopy Portal H264 H265 Av1
begin

text \<open>
  RemoteWay mirrors a Wayland desktop over an SSH connection. This development models the crates under
  \<^verbatim>\<open>src/crates\<close> and proves what makes them correct.

  \<^bold>\<open>The program.\<close> On the server a capture backend (\<^verbatim>\<open>remoteway-capture\<close>) fills buffers shared with the compositor
  and hands frames with their damage to the capture thread, which pushes them into a ring. The compress thread
  (\<^verbatim>\<open>remoteway-server/src/pipeline.rs\<close>) takes the newest frame, scales it down, encodes the damaged regions as XOR
  deltas against the frame sent before, compresses each region (\<^verbatim>\<open>remoteway-compress\<close>), serialises the payload
  (\<^verbatim>\<open>remoteway-proto\<close>), cuts it into chunks and queues it on the transport (\<^verbatim>\<open>remoteway-transport\<close>), anchors on one queue
  and ordinary frames on another. The client (\<^verbatim>\<open>remoteway-client\<close>) parses the stream, decodes each frame against its own
  previous frame, may interpolate a midpoint (\<^verbatim>\<open>remoteway-interpolate\<close>), scales up, draws the frame rate, and its display
  thread commits buffers to the local compositor (\<^verbatim>\<open>remoteway-display\<close>). Input goes the other way: captured on the
  client's surface, sent in \<^verbatim>\<open>InputEvent\<close> messages and injected on the server (\<^verbatim>\<open>remoteway-input\<close>).

  \<^bold>\<open>The theories\<close>, in the order of their imports:
  \<^item> \<open>Prelude\<close>: machine types, wrap-around, checked slices, little-endian integers, loops that may panic.
  \<^item> \<open>Proto\<close>: \<^verbatim>\<open>remoteway-proto\<close>; one record per wire struct with its \<open>_bytes\<close> and \<open>_read\<close>, one datatype per enum.
    Locale \<open>wire_struct\<close> (a reader undoes a writer of a fixed size) and \<open>discriminant\<close>, interpreted for every struct and enum.
  \<^item> \<open>Multiplexer\<close>: \<^verbatim>\<open>flow_control.rs\<close>, \<^verbatim>\<open>chunk_sender.rs\<close>, \<^verbatim>\<open>multiplexer.rs\<close>; fragmentation does not matter, chunked messages
    arrive whole and in order.
  \<^item> \<open>Transport\<close>: \<^verbatim>\<open>ssh_transport.rs\<close>; senders, the biased write loop and the read loop interleave as steps. Delivery,
    priorities, queue depth, and the overtaking of frames by anchors.
  \<^item> \<open>Delta\<close>, \<open>Compress\<close>: \<^verbatim>\<open>remoteway-compress\<close>; the SIMD encoder equals the scalar one, deltas and frames round trip.
    Locale \<open>row_xor\<close>.
  \<^item> \<open>Capture\<close>: \<^verbatim>\<open>backend.rs\<close>, \<^verbatim>\<open>thread.rs\<close>, \<^verbatim>\<open>detect.rs\<close>; what the ring accepts, what the dropped flag tells, what the rate
    limit loses.
  \<^item> \<open>CaptureIo\<close>, \<open>ExtCapture\<close>, \<open>Screencopy\<close>: \<^verbatim>\<open>shm.rs\<close>, \<^verbatim>\<open>wayland_io.rs\<close> and the two Wayland backends. Locale
    \<open>event_handler\<close> (a predicate that every event keeps holds after any wait), interpreted for both event functions.
    Complete frames, upright frames, resizes, and how windows are chosen.
  \<^item> \<open>Discovery\<close>: \<^verbatim>\<open>output.rs\<close>, \<^verbatim>\<open>toplevel.rs\<close>, \<^verbatim>\<open>desktop_detect.rs\<close>.
  \<^item> \<open>Portal\<close>: \<^verbatim>\<open>portal.rs\<close>; the restore token, the stream and its end, and what the server makes of the portal's errors.
  \<^item> \<open>Downscale\<close>, \<open>Server\<close>: stripes and scaling, the compress and send loop, the dispatch loop, the retry loop and the
    command line of \<^verbatim>\<open>remoteway-server\<close>.
  \<^item> \<open>Overlay\<close>, \<open>Upscale\<close>, \<open>Interpolate\<close>, \<open>Client\<close>: \<^verbatim>\<open>fps_overlay.rs\<close>, both bicubic upscalers (locale \<open>edge_taps\<close>), the
    frame window and blend, and the receive loop of \<^verbatim>\<open>remoteway-client\<close>.
  \<^item> \<open>Display\<close>: \<^verbatim>\<open>remoteway-display\<close>; when a frame is committed, which buffers may be written, which frame is shown.
  \<^item> \<open>Setup\<close>: how a session starts, from the handshakes to the choice of backends.
  \<^item> \<open>Mirror\<close>, \<open>Midpoint\<close>: server and client together, from captures to displayed frames.
  \<^item> \<open>Input\<close>, \<open>Replay\<close>: \<^verbatim>\<open>remoteway-input\<close> and the whole input path, against the specification \<open>replay\<close>.
  \<^item> \<open>Pool\<close>, \<open>Meters\<close>: \<^verbatim>\<open>remoteway-core\<close>; the lock-free buffer pool under any interleaving of its atomic operations, and
    the sliding windows (locale \<open>sample_ring\<close>, interpreted for both meters).
  \<^item> \<open>Vk\<close>: programs over a Vulkan device, with the judgements \<open>owns\<close> (the objects they make and destroy), \<open>quiet\<close> and \<open>submits\<close>
    (the batches they submit) and \<open>writes\<close> (the memory they upload to).
  \<^item> \<open>GpuCommands\<close>: the commands the programs record and what a list of them does to images (\<open>run_images\<close>: layouts and
    contents) and to the compute state (\<open>run_compute\<close>: bindings, and which writes are visible to which pass).
  \<^item> \<open>VulkanContext\<close>: \<^verbatim>\<open>remoteway-vulkan\<close>; how devices, queues and extensions are chosen, buffers, images and the scaled blit.
  \<^item> \<open>Encode\<close>, \<open>EncSession\<close>, \<open>EncDemo\<close>: what the three video encoders of \<^verbatim>\<open>remoteway-encode\<close> share. Locales
    \<open>codec_steps\<close> (what construction needs of a backend's own steps), \<open>video_encoder\<close> (the trait \<^verbatim>\<open>Encoder\<close>) and
    \<open>labelled_encoder\<close> (pictures are referenced under the label they were recorded with), with the theorems on sessions.
  \<^item> \<open>H264\<close>, \<open>H265\<close>, \<open>Av1\<close>: the backends; each interprets all three locales, and adds what its codec gets right or wrong.

  \<^item> \<open>GpuBackend\<close>: what the backends under \<^verbatim>\<open>interpolate/src/backends\<close> share: errors, and the locale \<open>gpu_session\<close> (what a
    step and the drop of a backend do to the device's objects), interpreted for the three stateful backends.
  \<^item> \<open>FsrNative\<close>, \<open>FsrCompute\<close>, \<open>FrameGen\<close>: \<^verbatim>\<open>fsr2_native.rs\<close>, \<^verbatim>\<open>fsr2.rs\<close>, \<^verbatim>\<open>fsr3_frame_gen.rs\<close>; sessions in which any call may
    fail, what each submitted batch finds in its images and buffers, pixels to half precision and back, and what leaks.
  \<^item> \<open>Backends\<close>: \<^verbatim>\<open>rife.rs\<close>, \<^verbatim>\<open>fsr3.rs\<close>, \<^verbatim>\<open>fsr2_rife.rs\<close>, their construction by \<^verbatim>\<open>backend.rs\<close> (which agrees with \<open>create_backend\<close>),
    and what a client shows that runs a backend which never interpolates.

  \<^bold>\<open>How the code is modelled.\<close> The release build on a 64-bit little-endian host: fixed-width integers are words and wrap,
  \<^verbatim>\<open>usize\<close> is a natural number with \<open>usize_add\<close> and \<open>usize_mul\<close> where it could wrap, a panic is \<open>None\<close>, an error is
  \<open>Inl\<close>. A thread's loop is a \<open>_turn\<close> function for one iteration and a \<open>_loop\<close> over the inputs of the iterations; what the
  compositor sends is a list of events, what the code asks for is the list of requests the operation returns. Loops that
  need not end (\<open>split_loop\<close> with a chunk size of 0) are \<open>partial_function (option)\<close>, with a theorem that they return
  where they do. \<open>drain_newest\<close> takes as fuel a bound on the frames in its queue, and its theorem asks for no less than are there;
  \<open>retry_from\<close> counts its 50 attempts down, as the source's loop does.

  \<^bold>\<open>Parameters and what is assumed of them.\<close> \<open>Codecs\<close> (\<^verbatim>\<open>lz4_flex\<close>, \<^verbatim>\<open>zstd\<close>, \<^verbatim>\<open>wide\<close>): blocks decompress to what was
  compressed, lanes XOR (\<open>codecs_ok\<close>). \<open>Ring\<close> (\<^verbatim>\<open>rtrb\<close>), \<open>Mpsc\<close> (\<^verbatim>\<open>tokio\<close>): first in, first out, with their capacity
  (\<open>spsc_ring\<close>, \<open>fifo_channel\<close>). \<open>Sink\<close>: a byte sink that may fail. \<open>Kernel\<close>, \<open>Factor\<close>, the scale factors and the frame
  rate text: what the code computes in floating point. Allocation, system calls, clocks, environment, process table and
  compositor: arguments, unconstrained unless a theorem says so. \<open>Driver\<close>, \<open>Host\<close>, \<open>EncDriver\<close>: what Vulkan returns for
  each call, any of which may fail, and what devices, memory types and parameter sets it reports. \<open>Gpu\<close>: the same with the
  printed codes, the SDKs' answers and half-precision numbers; the SDKs read and write the images \<open>exec_images\<close> says. Each contract has an instance in a witness.

  \<^bold>\<open>Interleaving.\<close> \<open>Transport\<close>, \<open>Capture\<close>, \<open>Pool\<close> and \<open>Mirror\<close> interleave the steps of their threads as sequences of operations; a
  turn of a loop is one step, except in \<open>Pool\<close>, whose steps are the single atomic operations.

  \<^bold>\<open>Not modelled.\<close> Pixels and bitstreams that the GPU and the FidelityFX SDKs produce, their shaders, access and
  stage masks of image barriers, the lifetimes of command buffers and descriptor sets, locks and timing. To the
  client a backend stays the parameter \<open>Interpolator\<close>. D-Bus and GStreamer themselves. CPU pinning and scheduling (\<^verbatim>\<open>thread_config.rs\<close>). Process start and signals in the two
  \<^verbatim>\<open>main.rs\<close>. Floating-point statistics. The encoders' test support.
\<close>

end
